(* ===== verification/Prelude.thy ===== *)
theory Prelude
  imports
    Complex_Main
    "HOL-Library.Word"
    "HOL-Library.Signed_Division"
    "HOL-Library.List_Lexorder"
    "HOL-Library.Char_ord"
    "HOL-Library.Product_Lexorder"
    "HOL-Library.Multiset"
begin

text \<open>
  What every component of the development shares: the fact collections, the machine
  integers of Go (\<open>int64\<close>), results that carry an error, Go's string functions on
  byte strings, decimal printing and reading of integers, and the sorting of a list by a
  string key. No definition here is specific to one component.
\<close>

named_theorems nuno_simps \<open>unfolding rules of the model's small accessors and predicates\<close>
named_theorems i64_simps \<open>arithmetic of int64 values through sint\<close>

section \<open>Machine integers\<close>

text \<open>
  A Go \<open>int64\<close> is a 64-bit word read as two's complement by \<open>sint\<close>; \<open>+\<close>, \<open>-\<close> and
  \<open>*\<close> wrap around as they do in Go, comparisons are comparisons of \<open>sint\<close>, and \<open>/\<close>
  truncates towards zero. Row identifiers are only stored and compared, never computed
  with, so they are plain integers (\<open>RowID\<close>).
\<close>

type_synonym int64 = "64 word"
type_synonym RowID = int
type_synonym Time = int \<comment> \<open>nanoseconds since Go's zero time, so 0 is IsZero\<close>
type_synonym Duration = int

definition fits_i64 :: "int \<Rightarrow> bool" where
  "fits_i64 k \<longleftrightarrow> - (2 ^ 63) \<le> k \<and> k < 2 ^ 63"

definition i64_div :: "int64 \<Rightarrow> int64 \<Rightarrow> int64" where
  "i64_div a b = word_of_int (sint a sdiv sint b)"

lemma fits_i64_code [simp, code]: "fits_i64 k = (-9223372036854775808 \<le> k \<and> k < 9223372036854775808)"
  by (simp add: fits_i64_def)

lemma sint_i64_lower: "- 9223372036854775808 \<le> sint (a :: int64)"
  using sint_greater_eq [of a] by simp

lemma sint_i64_upper: "sint (a :: int64) < 9223372036854775808"
  using sint_lt [of a] by simp

lemmas sint_i64_bounds = sint_i64_lower sint_i64_upper

lemma sint_of_fits [i64_simps]: "fits_i64 k \<Longrightarrow> sint (word_of_int k :: int64) = k"
  by (simp add: sint_sbintrunc' signed_take_bit_int_eq_self)

lemma sint_add_fits [i64_simps]:
  "fits_i64 (sint a + sint b) \<Longrightarrow> sint (a + b :: int64) = sint a + sint b"
  by (simp add: sint_word_add signed_take_bit_int_eq_self)

lemma sint_sub_fits [i64_simps]:
  "fits_i64 (sint a - sint b) \<Longrightarrow> sint (a - b :: int64) = sint a - sint b"
proof -
  have "a - b = (word_of_int (sint a - sint b) :: int64)"
    by simp
  then show "fits_i64 (sint a - sint b) \<Longrightarrow> sint (a - b) = sint a - sint b"
    using sint_of_fits by metis
qed

lemma sint_mult_fits [i64_simps]:
  "fits_i64 (sint a * sint b) \<Longrightarrow> sint (a * b :: int64) = sint a * sint b"
  by (simp add: sint_word_mult signed_take_bit_int_eq_self)

lemma sint_inject_i64: "sint (a :: int64) = sint b \<longleftrightarrow> a = b"
  by (auto intro: signed_word_eqI)

lemma sdiv_nonneg: "0 \<le> a \<Longrightarrow> 0 < b \<Longrightarrow> (a :: int) sdiv b = a div b"
  by (cases "a = 0") (auto simp: signed_divide_int_def)

lemma sint_i64_div [i64_simps]:
  assumes "0 \<le> sint a" "0 < sint b"
  shows "sint (i64_div a b) = sint a div sint b"
proof -
  have "sint a div sint b \<le> sint a div 1"
    using assms by (intro zdiv_mono2) auto
  then have "sint a div sint b \<le> sint a"
    by simp
  moreover have "0 \<le> sint a div sint b"
    using assms by (simp add: pos_imp_zdiv_nonneg_iff)
  ultimately have "fits_i64 (sint a div sint b)"
    using sint_i64_upper [of a] by simp
  then show ?thesis
    using assms by (simp add: i64_div_def sdiv_nonneg sint_of_fits)
qed


text \<open>Loops that add up a list: what they compute modulo \<open>2 ^ 64\<close>, and when they cannot wrap.\<close>

lemma foldl_add_if:
  fixes f :: "'a \<Rightarrow> int64"
  shows "foldl (\<lambda>s a. if P a then s + f a else s) s xs = s + sum_list (map f (filter P xs))"
  by (induction xs arbitrary: s) (auto simp: algebra_simps)

lemma foldl_sub_if:
  fixes f :: "'a \<Rightarrow> int64"
  shows "foldl (\<lambda>s a. if P a then s - f a else s) s xs = s - sum_list (map f (filter P xs))"
  by (induction xs arbitrary: s) (auto simp: algebra_simps)

lemma sint_sum_list_fits:
  assumes "\<forall>x \<in> set xs. 0 \<le> sint (f x :: int64)" "(\<Sum>x\<leftarrow>xs. sint (f x)) < 2 ^ 63"
  shows "sint (\<Sum>x\<leftarrow>xs. f x) = (\<Sum>x\<leftarrow>xs. sint (f x))"
  using assms
proof (induction xs)
  case (Cons x xs)
  have "0 \<le> (\<Sum>y\<leftarrow>xs. sint (f y))" by (rule sum_list_nonneg) (use Cons.prems in auto)
  moreover have "0 \<le> sint (f x)" using Cons.prems by simp
  ultimately have IH: "sint (\<Sum>y\<leftarrow>xs. f y) = (\<Sum>y\<leftarrow>xs. sint (f y))"
    and fits: "fits_i64 (sint (f x) + (\<Sum>y\<leftarrow>xs. sint (f y)))"
    using Cons by simp_all
  have "sint (f x + (\<Sum>y\<leftarrow>xs. f y)) = sint (f x) + sint (\<Sum>y\<leftarrow>xs. f y)"
    using fits IH by (intro sint_add_fits) simp
  then show ?case by (simp add: IH)
qed simp

lemma sum_list_le_const:
  "\<forall>x \<in> set xs. f x \<le> (c :: int) \<Longrightarrow> (\<Sum>x\<leftarrow>xs. f x) \<le> c * int (length xs)"
  by (induction xs) (auto simp: algebra_simps)

section \<open>Results that carry an error\<close>

text \<open>
  A Go function that returns \<open>(value, error)\<close> is a function into \<open>error + value\<close>:
  \<open>Inl\<close> is the error return, \<open>Inr\<close> the value with a nil error.
\<close>

definition bind_result :: "'e + 'a \<Rightarrow> ('a \<Rightarrow> 'e + 'b) \<Rightarrow> 'e + 'b" where
  "bind_result r f = (case r of Inl e \<Rightarrow> Inl e | Inr a \<Rightarrow> f a)"

lemma bind_result_simps [simp]:
  "bind_result (Inl e) f = Inl e"
  "bind_result (Inr a) f = f a"
  by (simp_all add: bind_result_def)

lemma bind_result_eq_Inr:
  "bind_result r f = Inr b \<longleftrightarrow> (\<exists>a. r = Inr a \<and> f a = Inr b)"
  by (cases r) auto

definition is_ok :: "'e + 'a \<Rightarrow> bool" where
  "is_ok r = (case r of Inl _ \<Rightarrow> False | Inr _ \<Rightarrow> True)"

lemma is_ok_simps [simp]: "\<not> is_ok (Inl e)" "is_ok (Inr a)"
  by (simp_all add: is_ok_def)

section \<open>Strings\<close>

text \<open>
  A Go string is a list of bytes. The functions of the package \<open>strings\<close> that the
  program uses are modelled on ASCII: a byte outside ASCII is neither a space nor a letter
  with two cases. Comparison of strings is bytewise, which is the lexicographic order of
  \<^theory_text>\<open>HOL-Library.List_Lexorder\<close> over the byte order of characters.
\<close>

definition is_space :: "char \<Rightarrow> bool" where
  "is_space c \<longleftrightarrow> c \<in> {CHR '' '', CHR 0x09, CHR 0x0A, CHR 0x0B, CHR 0x0C, CHR 0x0D}"

definition lower_char :: "char \<Rightarrow> char" where
  "lower_char c =
     (if CHR ''A'' \<le> c \<and> c \<le> CHR ''Z'' then char_of (of_char c + 32 :: nat) else c)"

definition upper_char :: "char \<Rightarrow> char" where
  "upper_char c =
     (if CHR ''a'' \<le> c \<and> c \<le> CHR ''z'' then char_of (of_char c - 32 :: nat) else c)"

definition ToLower :: "string \<Rightarrow> string" where
  "ToLower s = map lower_char s"

definition ToUpper :: "string \<Rightarrow> string" where
  "ToUpper s = map upper_char s"

definition TrimSpace :: "string \<Rightarrow> string" where
  "TrimSpace s = rev (dropWhile is_space (rev (dropWhile is_space s)))"

definition EqualFold :: "string \<Rightarrow> string \<Rightarrow> bool" where
  "EqualFold a b \<longleftrightarrow> ToLower a = ToLower b"

definition HasPrefix :: "string \<Rightarrow> string \<Rightarrow> bool" where
  "HasPrefix s p \<longleftrightarrow> take (length p) s = p"

definition HasSuffix :: "string \<Rightarrow> string \<Rightarrow> bool" where
  "HasSuffix s p \<longleftrightarrow> length p \<le> length s \<and> drop (length s - length p) s = p"

text \<open>\<open>strings.CutPrefix\<close>, \<open>CutSuffix\<close> and \<open>Cut\<close>: \<open>None\<close> is the result \<open>ok = false\<close>.\<close>

definition CutPrefix :: "string \<Rightarrow> string \<Rightarrow> string option" where
  "CutPrefix s p = (if HasPrefix s p then Some (drop (length p) s) else None)"

definition CutSuffix :: "string \<Rightarrow> string \<Rightarrow> string option" where
  "CutSuffix s p = (if HasSuffix s p then Some (take (length s - length p) s) else None)"

fun Cut :: "string \<Rightarrow> string \<Rightarrow> (string \<times> string) option" where
  "Cut [] sep = (if sep = [] then Some ([], []) else None)"
| "Cut (c # cs) sep =
     (case CutPrefix (c # cs) sep of
        Some rest \<Rightarrow> Some ([], rest)
      | None \<Rightarrow> map_option (\<lambda>(before, after). (c # before, after)) (Cut cs sep))"

lemma CutPrefix_append [simp]: "CutPrefix (p @ s) p = Some s"
  by (simp add: CutPrefix_def HasPrefix_def)

lemma CutPrefix_Some: "CutPrefix s p = Some r \<longleftrightarrow> s = p @ r"
  by (auto simp: CutPrefix_def HasPrefix_def) (metis append_take_drop_id)

lemma CutSuffix_append [simp]: "CutSuffix (s @ p) p = Some s"
  by (simp add: CutSuffix_def HasSuffix_def)

lemma CutSuffix_Some: "CutSuffix s p = Some r \<longleftrightarrow> s = r @ p"
  by (auto simp: CutSuffix_def HasSuffix_def) (metis append_take_drop_id)

lemma lower_char_idem [simp]: "lower_char (lower_char c) = lower_char c"
  by (auto simp: lower_char_def less_eq_char_def)

lemma TrimSpace_idem [simp]: "TrimSpace (TrimSpace s) = TrimSpace s"
proof -
  have hd_drop: "dropWhile is_space (dropWhile is_space xs) = dropWhile is_space xs" for xs
    by (induction xs) auto
  have keep: "dropWhile is_space (rev (dropWhile is_space (rev xs))) = rev (dropWhile is_space (rev xs))"
    if "dropWhile is_space xs = xs" for xs
  proof (cases "rev (dropWhile is_space (rev xs))")
    case Nil
    then show ?thesis by (simp only: Nil dropWhile.simps)
  next
    case (Cons y ys)
    obtain zs where "xs = rev (dropWhile is_space (rev xs)) @ zs"
      by (metis rev_append rev_rev_ident takeWhile_dropWhile_id)
    with Cons have "xs = y # ys @ zs" by simp
    with that have "\<not> is_space y"
      by (metis dropWhile.simps(2) dropWhile_eq_Cons_conv list.sel(1))
    then show ?thesis by (simp only: Cons dropWhile.simps if_False)
  qed
  show ?thesis
    unfolding TrimSpace_def
    using keep [OF hd_drop, of s] hd_drop [of "rev (dropWhile is_space s)"] by simp
qed

section \<open>Decimal integers\<close>

definition digit_char :: "nat \<Rightarrow> char" where
  "digit_char d = char_of (48 + d)"

definition digit_val :: "char \<Rightarrow> nat option" where
  "digit_val c = (if CHR ''0'' \<le> c \<and> c \<le> CHR ''9'' then Some (of_char c - 48) else None)"

fun show_nat :: "nat \<Rightarrow> string" where
  "show_nat n = (if n < 10 then [digit_char n] else show_nat (n div 10) @ [digit_char (n mod 10)])"

declare show_nat.simps [simp del]

text \<open>\<open>strconv.FormatInt(n, 10)\<close>.\<close>

definition show_int :: "int \<Rightarrow> string" where
  "show_int k = (if k < 0 then CHR ''-'' # show_nat (nat (- k)) else show_nat (nat k))"

definition FormatInt :: "int64 \<Rightarrow> string" where
  "FormatInt n = show_int (sint n)"

datatype num_error = ErrSyntax | ErrRange

text \<open>
  \<open>strconv.ParseInt(s, 10, 64)\<close>: an optional sign, then \<open>ParseUint\<close> over the digits,
  which stops at the first byte that is not a digit or at the first digit that leaves the
  unsigned range, then the signed range check.
\<close>

fun ParseUint_loop :: "nat \<Rightarrow> string \<Rightarrow> num_error + nat" where
  "ParseUint_loop n [] = Inr n"
| "ParseUint_loop n (c # cs) =
     (case digit_val c of
        None \<Rightarrow> Inl ErrSyntax
      | Some d \<Rightarrow> if 2 ^ 64 \<le> n * 10 + d then Inl ErrRange else ParseUint_loop (n * 10 + d) cs)"

definition ParseUint :: "string \<Rightarrow> num_error + nat" where
  "ParseUint s = (if s = [] then Inl ErrSyntax else ParseUint_loop 0 s)"

definition signed_of :: "bool \<Rightarrow> nat \<Rightarrow> num_error + int64" where
  "signed_of neg un =
     (if \<not> neg \<and> 2 ^ 63 \<le> un then Inl ErrRange
      else if neg \<and> 2 ^ 63 < un then Inl ErrRange
      else Inr (word_of_int (if neg then - int un else int un)))"

definition ParseInt :: "string \<Rightarrow> num_error + int64" where
  "ParseInt s =
     (case s of
        [] \<Rightarrow> Inl ErrSyntax
      | c # cs \<Rightarrow>
          if c = CHR ''-'' then bind_result (ParseUint cs) (signed_of True)
          else if c = CHR ''+'' then bind_result (ParseUint cs) (signed_of False)
          else bind_result (ParseUint s) (signed_of False))"

lemma digit_val_char [simp]: "d < 10 \<Longrightarrow> digit_val (digit_char d) = Some d"
proof -
  assume "d < 10"
  then have "d \<in> {0, 1, 2, 3, 4, 5, 6, 7, 8, 9}" by auto
  then show ?thesis
    by (elim insertE) (simp_all add: digit_val_def digit_char_def less_eq_char_def)
qed

lemma digit_char_not_sign: "d < 10 \<Longrightarrow> digit_char d \<noteq> CHR ''-'' \<and> digit_char d \<noteq> CHR ''+''"
  by (auto dest: digit_val_char simp: digit_val_def less_eq_char_def)

lemma show_nat_Cons: "\<exists>d cs. show_nat n = digit_char d # cs \<and> d < 10"
proof (induction n rule: show_nat.induct)
  case (1 n)
  then show ?case
    by (cases "n < 10") (auto simp: show_nat.simps [of n])
qed

lemma ParseUint_loop_show_nat:
  "n < 2 ^ 64 \<Longrightarrow> ParseUint_loop 0 (show_nat n @ cs) = ParseUint_loop n cs"
proof (induction n arbitrary: cs rule: show_nat.induct)
  case (1 n)
  show ?case
  proof (cases "n < 10")
    case True
    then show ?thesis by (simp add: show_nat.simps [of n])
  next
    case False
    then have "ParseUint_loop 0 (show_nat (n div 10) @ digit_char (n mod 10) # cs) =
        ParseUint_loop (n div 10) (digit_char (n mod 10) # cs)"
      using 1 by simp
    also have "\<dots> = ParseUint_loop n cs"
      using 1(2) by (simp add: mult.commute)
    finally show ?thesis
      using False by (simp add: show_nat.simps [of n])
  qed
qed

lemma ParseUint_show_nat [simp]: "n < 2 ^ 64 \<Longrightarrow> ParseUint (show_nat n) = Inr n"
  using ParseUint_loop_show_nat [of n "[]"] show_nat_Cons [of n]
  by (auto simp: ParseUint_def)

lemma ParseInt_FormatInt [simp]: "ParseInt (FormatInt k) = Inr k"
proof (cases "sint k < 0")
  case True
  then have "nat (- sint k) \<le> 2 ^ 63"
    using sint_i64_lower [of k] by simp
  with True show ?thesis
    by (simp add: FormatInt_def show_int_def ParseInt_def signed_of_def)
next
  case False
  then have "nat (sint k) < 2 ^ 63"
    using sint_i64_upper [of k] by simp
  moreover obtain d cs where "show_nat (nat (sint k)) = digit_char d # cs" "d < 10"
    using show_nat_Cons by blast
  ultimately show ?thesis
    using False digit_char_not_sign [of d] ParseUint_show_nat [of "nat (sint k)"]
    by (auto simp: FormatInt_def show_int_def ParseInt_def signed_of_def)
qed

lemma FormatInt_inject: "FormatInt a = FormatInt b \<longleftrightarrow> a = b"
  by (metis ParseInt_FormatInt sum.inject(2))

section \<open>Sorting by a key\<close>

text \<open>
  \<open>slices.SortFunc\<close> with a comparison of keys is \<^const>\<open>sort_key\<close>. Go leaves the order of
  elements with equal keys open where \<^const>\<open>sort_key\<close> keeps it; the statements about sorted
  output say that it is a permutation and sorted, and where equal keys could show they
  assume or prove that elements with equal keys are equal.
\<close>

lemma sort_key_perm_eq:
  fixes f :: "'a \<Rightarrow> 'k :: linorder"
  assumes perm: "mset xs = mset ys"
    and inj: "\<And>x y. x \<in> set xs \<Longrightarrow> y \<in> set xs \<Longrightarrow> f x = f y \<Longrightarrow> x = y"
  shows "sort_key f xs = sort_key f ys"
  using perm inj by (intro sort_key_eq_sort_key) (auto simp: inj_on_def)

end
