(* ===== verification/Float64.thy ===== *)
theory Float64
  imports Prelude "HOL-Library.Log_Nat"
begin

text \<open>
  The part of Go's \<open>float64\<close> the program computes with. A finite double is the rational
  number it denotes; \<open>fl\<close> rounds a rational to the nearest double (53 significant bits,
  ties to even), so \<open>fmul a b\<close> and \<open>fdiv a b\<close> are the operators \<open>*\<close> and \<open>/\<close> of the
  language. The program's operands are byte counts below \<open>2 ^ 63\<close> and unit factors, so
  overflow to infinity and subnormal numbers do not occur and \<open>fl\<close> has no bound on the
  exponent.
\<close>

section \<open>Rounding\<close>

definition ilog2 :: "rat \<Rightarrow> int" where
  "ilog2 x =
     (let pq = quotient_of x; e = bitlen (fst pq) - bitlen (snd pq)
      in if 2 powi e \<le> x then e else e - 1)"

definition round_ne :: "rat \<Rightarrow> int" where
  "round_ne x =
     (let f = \<lfloor>x\<rfloor>; d = x - of_int f
      in if d < 1 / 2 then f else if 1 / 2 < d then f + 1 else if even f then f else f + 1)"

definition fl :: "rat \<Rightarrow> rat" where
  "fl x = (if x = 0 then 0
           else let e = ilog2 \<bar>x\<bar> - 52 in of_int (round_ne (x / 2 powi e)) * 2 powi e)"

definition fmul :: "rat \<Rightarrow> rat \<Rightarrow> rat" where
  "fmul a b = fl (a * b)"

definition fdiv :: "rat \<Rightarrow> rat \<Rightarrow> rat" where
  "fdiv a b = fl (a / b)"

text \<open>\<open>float64(n)\<close> of an integer.\<close>

definition f64_of_int :: "int \<Rightarrow> rat" where
  "f64_of_int n = fl (of_int n)"

text \<open>\<open>math.Round\<close>: to the nearest integer, halves away from zero.\<close>

definition MathRound :: "rat \<Rightarrow> rat" where
  "MathRound x = (if 0 \<le> x then of_int \<lfloor>x + 1 / 2\<rfloor> else - of_int \<lfloor>1 / 2 - x\<rfloor>)"

text \<open>
  \<open>int64(v)\<close> truncates towards zero. For a value outside the range the language leaves the
  result to the implementation; \<open>oor\<close> is that result (the most negative \<open>int64\<close> on
  amd64).
\<close>

definition trunc_rat :: "rat \<Rightarrow> int" where
  "trunc_rat x = (if 0 \<le> x then \<lfloor>x\<rfloor> else - \<lfloor>- x\<rfloor>)"

definition i64_of_f64 :: "int64 \<Rightarrow> rat \<Rightarrow> int64" where
  "i64_of_f64 oor x = (if fits_i64 (trunc_rat x) then word_of_int (trunc_rat x) else oor)"

lemma powi2_pos [simp]: "0 < (2 :: rat) powi k"
  by (simp add: zero_less_power_int)

lemma powi2_nz [simp]: "(2 :: rat) powi k \<noteq> 0"
  by simp

lemma powi2_add: "(2 :: rat) powi (a + b) = 2 powi a * 2 powi b"
  by (simp add: power_int_add)

lemma powi2_less_iff [simp]: "(2 :: rat) powi a < 2 powi b \<longleftrightarrow> a < b"
proof
  show "a < b \<Longrightarrow> (2 :: rat) powi a < 2 powi b"
    by (rule power_int_strict_increasing) auto
  show "(2 :: rat) powi a < 2 powi b \<Longrightarrow> a < b"
    using power_int_strict_increasing [of b a "2 :: rat"] by (cases a b rule: linorder_cases) auto
qed

lemma powi2_le_iff [simp]: "(2 :: rat) powi a \<le> 2 powi b \<longleftrightarrow> a \<le> b"
  by (meson linorder_not_less powi2_less_iff)

lemma powi2_nonneg_int: "0 \<le> k \<Longrightarrow> (2 :: rat) powi k = of_int (2 ^ nat k)"
  by (simp add: power_int_def)

lemma ilog2_bounds:
  assumes "0 < x"
  shows "2 powi ilog2 x \<le> x \<and> x < 2 powi (ilog2 x + 1)"
proof -
  obtain p q where pq: "quotient_of x = (p, q)" by (cases "quotient_of x")
  have q: "0 < q" using pq by (rule quotient_of_denom_pos)
  have x: "x = of_int p / of_int q" using pq by (rule quotient_of_div)
  have p: "0 < p" using assms q unfolding x by (simp add: zero_less_divide_iff)
  have bits: "2 powi (bitlen k - 1) \<le> (of_int k :: rat)" "(of_int k :: rat) < 2 powi bitlen k"
    if "0 < k" for k
  proof -
    have "0 \<le> bitlen k - 1" using that bitlen_le_iff_power [of k 0] by simp
    then show "2 powi (bitlen k - 1) \<le> (of_int k :: rat)" "(of_int k :: rat) < 2 powi bitlen k"
      using bitlen_bounds [OF that] by (simp_all add: powi2_nonneg_int del: of_int_power)
  qed
  define e where "e = bitlen p - bitlen q"
  have "x < 2 powi (e + 1)"
  proof -
    have "of_int p < 2 powi (e + 1) * (2 powi (bitlen q - 1) :: rat)"
      using bits(2) [OF p] by (simp add: e_def flip: powi2_add)
    also have "\<dots> \<le> 2 powi (e + 1) * of_int q"
      using bits(1) [OF q] by simp
    finally show ?thesis using q unfolding x by (simp add: divide_less_eq)
  qed
  moreover have "2 powi (e - 1) \<le> x"
  proof -
    have "2 powi (e - 1) * of_int q \<le> 2 powi (e - 1) * (2 powi bitlen q :: rat)"
      using bits(2) [OF q] by simp
    also have "\<dots> \<le> of_int p"
      using bits(1) [OF p] by (simp add: e_def flip: powi2_add)
    finally show ?thesis using q unfolding x by (simp add: le_divide_eq)
  qed
  ultimately show ?thesis
    using pq by (auto simp: ilog2_def e_def Let_def)
qed

lemma ilog2_unique: "2 powi e \<le> x \<Longrightarrow> x < 2 powi (e + 1) \<Longrightarrow> ilog2 x = e"
proof -
  assume l: "2 powi e \<le> x" and u: "x < 2 powi (e + 1)"
  then have "0 < x" using powi2_pos less_le_trans by blast
  from ilog2_bounds [OF this] l u have "2 powi e < (2 :: rat) powi (ilog2 x + 1)"
    and "2 powi ilog2 x < (2 :: rat) powi (e + 1)" by linarith+
  then show "ilog2 x = e" by simp
qed

lemma ilog2_scale: "0 < x \<Longrightarrow> ilog2 (x * 2 powi k) = ilog2 x + k"
  by (rule ilog2_unique) (use ilog2_bounds [of x] in \<open>auto simp: powi2_add algebra_simps\<close>)

lemma ilog2_less: "0 < x \<Longrightarrow> x < 2 powi e \<Longrightarrow> ilog2 x < e"
  using ilog2_bounds [of x] by (metis le_less_trans powi2_less_iff)

lemma round_ne_int [simp]: "round_ne (of_int k) = k"
  by (simp add: round_ne_def)

lemma round_ne_dist: "\<bar>of_int (round_ne x) - x\<bar> \<le> 1 / 2"
proof -
  have "of_int \<lfloor>x\<rfloor> \<le> x" "x < of_int \<lfloor>x\<rfloor> + 1" by linarith+
  then show ?thesis
    by (auto simp: round_ne_def Let_def abs_le_iff field_simps)
qed

lemma fl_zero [simp]: "fl 0 = 0"
  by (simp add: fl_def)

text \<open>A number with at most 53 significant bits is a double.\<close>

lemma fl_exact:
  assumes "\<bar>m\<bar> < 2 ^ 53"
  shows "fl (of_int m * 2 powi k) = of_int m * 2 powi k"
proof (cases "m = 0")
  case False
  let ?x = "of_int \<bar>m\<bar> * 2 powi k :: rat"
  define e where "e = ilog2 ?x - 52"
  have pos: "0 < ?x" using False by simp
  have "of_int \<bar>m\<bar> < (2 :: rat) powi 53"
    using assms by (simp add: powi2_nonneg_int flip: of_int_abs del: of_int_power of_int_numeral)
  then have "?x < 2 powi (53 + k)" by (simp add: powi2_add)
  from ilog2_less [OF pos this] have "e \<le> k" by (simp add: e_def)
  then have "(2 :: rat) powi k / 2 powi e = of_int (2 ^ nat (k - e))"
    using power_int_diff [of "2 :: rat" k e] powi2_nonneg_int [of "k - e"] by simp
  then have "of_int m * 2 powi k / (2 powi e :: rat) = of_int (m * 2 ^ nat (k - e))"
    by (metis of_int_mult times_divide_eq_right)
  then have quot: "of_int (round_ne (of_int m * 2 powi k / 2 powi e)) = (of_int m * 2 powi k / (2 powi e :: rat))"
    by (metis round_ne_int)
  have "\<bar>of_int m * 2 powi k :: rat\<bar> = ?x"
    by (simp add: abs_mult)
  then have "fl (of_int m * 2 powi k) =
      of_int (round_ne (of_int m * 2 powi k / 2 powi e)) * 2 powi e"
    using False by (simp add: fl_def Let_def e_def)
  also have "\<dots> = of_int m * 2 powi k"
    unfolding quot by simp
  finally show ?thesis .
qed simp

lemma fl_int: "\<bar>m\<bar> < 2 ^ 53 \<Longrightarrow> fl (of_int m) = of_int m"
  using fl_exact [of m 0] by simp

text \<open>Scaling by a power of two commutes with rounding.\<close>

lemma fl_scale: "fl (x * 2 powi k) = fl x * 2 powi k"
proof (cases "x = 0")
  case False
  then have "ilog2 (\<bar>x\<bar> * 2 powi k) = ilog2 \<bar>x\<bar> + k"
    by (intro ilog2_scale) simp
  moreover have "\<bar>x * 2 powi k\<bar> = \<bar>x\<bar> * 2 powi k" by (simp add: abs_mult)
  moreover have "(2 :: rat) powi (ilog2 \<bar>x\<bar> + k - 52) = 2 powi (ilog2 \<bar>x\<bar> - 52) * 2 powi k"
    using powi2_add [of "ilog2 \<bar>x\<bar> - 52" k] by (simp add: algebra_simps)
  ultimately show ?thesis
    using False by (simp add: fl_def Let_def)
qed simp

text \<open>The error of rounding is at most half a unit in the last place.\<close>

lemma fl_error:
  assumes "0 < x"
  shows "\<bar>fl x - x\<bar> \<le> 2 powi (ilog2 x - 53)"
proof -
  define e where "e = ilog2 x - 52"
  have eq: "fl x - x = (of_int (round_ne (x / 2 powi e)) - x / 2 powi e) * 2 powi e"
    using assms by (simp add: fl_def Let_def e_def left_diff_distrib)
  have "\<bar>fl x - x\<bar> \<le> 1 / 2 * 2 powi e"
    unfolding eq abs_mult using round_ne_dist [of "x / 2 powi e"] by simp
  also have "1 / 2 * 2 powi e = (2 :: rat) powi (ilog2 x - 53)"
    using power_int_diff [of "2 :: rat" "ilog2 x - 52" 1] by (simp add: e_def)
  finally show ?thesis .
qed

lemma fl_rel_error:
  assumes "0 < x"
  shows "\<bar>fl x - x\<bar> \<le> x / 2 ^ 53"
proof -
  have "(2 :: rat) powi (ilog2 x - 53) = 2 powi ilog2 x / 2 ^ 53"
    using power_int_diff [of "2 :: rat" "ilog2 x" 53] by simp
  also have "\<dots> \<le> x / 2 ^ 53"
    using ilog2_bounds [OF assms] by (intro divide_right_mono) auto
  finally show ?thesis using fl_error [OF assms] by linarith
qed

lemma round_ne_mono: "x \<le> y \<Longrightarrow> round_ne x \<le> round_ne y"
proof -
  assume le: "x \<le> y"
  show ?thesis
  proof (cases "\<lfloor>x\<rfloor> = \<lfloor>y\<rfloor>")
    case True
    with le show ?thesis by (auto simp: round_ne_def Let_def)
  next
    case False
    with le have "\<lfloor>x\<rfloor> + 1 \<le> \<lfloor>y\<rfloor>" using floor_mono [OF le] by linarith
    moreover have "round_ne x \<le> \<lfloor>x\<rfloor> + 1" "\<lfloor>y\<rfloor> \<le> round_ne y" by (auto simp: round_ne_def Let_def)
    ultimately show ?thesis by linarith
  qed
qed

lemma fl_nonneg: "0 \<le> x \<Longrightarrow> 0 \<le> fl x"
  using round_ne_mono [of 0 "x / 2 powi (ilog2 \<bar>x\<bar> - 52)"] round_ne_int [of 0]
  by (auto simp: fl_def Let_def)

text \<open>The significand of a rounded positive number has 53 bits, or is the next power of two.\<close>

lemma fl_significand:
  assumes "0 < x"
  obtains M where "fl x = of_int M * 2 powi (ilog2 x - 52)" "2 ^ 52 \<le> M" "M \<le> 2 ^ 53"
proof
  define e where "e = ilog2 x - 52"
  let ?M = "round_ne (x / 2 powi e)"
  show "fl x = of_int ?M * 2 powi (ilog2 x - 52)"
    using assms by (simp add: fl_def Let_def e_def)
  have "2 powi (e + 52) \<le> x" "x < 2 powi (e + 53)"
    using ilog2_bounds [OF assms] by (simp_all add: e_def add.commute)
  then have "of_int (2 ^ 52) \<le> x / 2 powi e" "x / 2 powi e \<le> of_int (2 ^ 53)"
    by (simp_all add: powi2_add field_simps)
  from round_ne_mono [OF this(1)] round_ne_mono [OF this(2)]
  show "2 ^ 52 \<le> ?M" "?M \<le> 2 ^ 53" by (simp_all only: round_ne_int)
qed

lemma fl_ge_powi:
  assumes "2 powi e \<le> x"
  shows "2 powi e \<le> fl x"
proof -
  have x: "0 < x" using assms powi2_pos less_le_trans by blast
  then obtain M where M: "fl x = of_int M * 2 powi (ilog2 x - 52)" "2 ^ 52 \<le> M"
    by (rule fl_significand)
  have "2 powi e < (2 :: rat) powi (ilog2 x + 1)" using assms ilog2_bounds [OF x] by linarith
  then have "(2 :: rat) powi e \<le> 2 powi (52 + (ilog2 x - 52))" by simp
  also have "\<dots> = 2 powi 52 * 2 powi (ilog2 x - 52)" by (rule powi2_add)
  also have "\<dots> \<le> of_int M * 2 powi (ilog2 x - 52)"
  proof (rule mult_right_mono)
    have "of_int (2 ^ 52) \<le> (of_int M :: rat)" using M(2) by (simp only: of_int_le_iff)
    then show "(2 :: rat) powi 52 \<le> of_int M" by simp
  qed simp
  finally show ?thesis by (simp add: M(1))
qed

lemma fl_le_powi:
  assumes "0 < x" "x \<le> 2 powi e"
  shows "fl x \<le> 2 powi e"
proof (cases "x = 2 powi e")
  case True
  then show ?thesis using fl_exact [of 1 e] by simp
next
  case False
  with assms have "ilog2 x < e" by (intro ilog2_less) auto
  obtain M where M: "fl x = of_int M * 2 powi (ilog2 x - 52)" "M \<le> 2 ^ 53"
    using assms(1) by (rule fl_significand)
  have "(of_int M :: rat) \<le> of_int (2 ^ 53)" using M(2) by (simp only: of_int_le_iff)
  then have "fl x \<le> 2 powi 53 * 2 powi (ilog2 x - 52)" by (simp add: M(1))
  also have "\<dots> = 2 powi (53 + (ilog2 x - 52))" by (simp only: powi2_add)
  also have "\<dots> \<le> 2 powi e" using \<open>ilog2 x < e\<close> by (simp only: powi2_le_iff)
  finally show ?thesis .
qed

lemma fl_idem:
  assumes "0 \<le> x"
  shows "fl (fl x) = fl x"
proof (cases "x = 0")
  case False
  then have x: "0 < x" using assms by simp
  then obtain M where M: "fl x = of_int M * 2 powi (ilog2 x - 52)" "2 ^ 52 \<le> M" "M \<le> 2 ^ 53"
    by (rule fl_significand)
  show ?thesis
  proof (cases "M = 2 ^ 53")
    case True
    then have "fl x = of_int 1 * 2 powi (ilog2 x + 1)"
      using M(1) powi2_add [of 53 "ilog2 x - 52"] by (simp add: add.commute)
    then show ?thesis using fl_exact [of 1 "ilog2 x + 1"] by simp
  qed (use M fl_exact [of M "ilog2 x - 52"] in simp)
qed simp

lemma round_ne_near_even:
  assumes "\<bar>x - of_int q\<bar> \<le> 1 / 2" "even q"
  shows "round_ne x = q"
proof (cases "of_int q \<le> x")
  have b: "x - of_int q \<le> 1 / 2" "of_int q - x \<le> 1 / 2"
    using assms(1) by linarith+
  case True
  then have "\<lfloor>x\<rfloor> = q" using b by linarith
  then show ?thesis using b assms(2) by (auto simp: round_ne_def Let_def)
next
  have b: "x - of_int q \<le> 1 / 2" "of_int q - x \<le> 1 / 2"
    using assms(1) by linarith+
  case False
  then have "\<lfloor>x\<rfloor> = q - 1" using b by linarith
  then show ?thesis using b assms(2) by (auto simp: round_ne_def Let_def)
qed

text \<open>
  Dividing a small integer by ten and multiplying by ten again is exact, although the
  quotient is not: the error of the quotient, times ten, is at most half a unit of the
  product and a tie goes to the even side.
\<close>

lemma fl_tenth:
  assumes m: "0 < m" "m < 2 ^ 49"
  shows "fl (10 * fl (of_int m / 10)) = of_int m"
proof -
  define x where "x = (of_int m / 10 :: rat)"
  define j where "j = ilog2 x"
  have x: "0 < x" using m by (simp add: x_def)
  have "(of_int m :: rat) < 2 powi 49"
    using m by (metis of_int_less_iff of_int_power of_int_numeral power_int_numeral)
  then have "x < 2 powi 46" by (simp add: x_def)
  then have j: "j < 46" using ilog2_less [OF x] by (simp add: j_def)
  define M where "M = round_ne (x / 2 powi (j - 52))"
  define P where "P = m * 2 ^ nat (52 - j)"
  have fx: "fl x = of_int M * 2 powi (j - 52)"
    using x by (simp add: fl_def Let_def j_def M_def)
  have scale: "x / 2 powi (j - 52) = of_int P / 10"
  proof -
    have "(2 :: rat) powi (j - 52) = 1 / of_int (2 ^ nat (52 - j))"
      using j powi2_nonneg_int [of "52 - j"] power_int_minus [of "2 :: rat" "52 - j"]
      by (simp add: divide_inverse)
    then show ?thesis by (simp add: x_def P_def)
  qed
  have "\<bar>of_int M - of_int P / (10 :: rat)\<bar> \<le> 1 / 2"
    unfolding scale [symmetric] M_def by (rule round_ne_dist)
  then have "of_int M - of_int P / (10 :: rat) \<le> 1 / 2" "of_int P / (10 :: rat) - of_int M \<le> 1 / 2"
    by linarith+
  then have "\<bar>of_int (10 * M - P) :: rat\<bar> \<le> 5"
    unfolding abs_le_iff of_int_diff of_int_mult of_int_numeral by linarith
  then have "\<bar>10 * M - P\<bar> \<le> 5" by (metis of_int_abs of_int_le_iff of_int_numeral)
  moreover have P16: "32 dvd P"
    using le_imp_power_dvd [of 5 "nat (52 - j)" "2 :: int"] j by (simp add: P_def)
  then have "even (10 * M - P)" by (meson dvd_trans even_diff even_numeral even_mult_iff dvd_def dvd_diff)
  ultimately have near: "\<bar>10 * M - P\<bar> \<le> 4" by presburger
  have Pb: "10 * 2 ^ 52 \<le> P" "P < 20 * 2 ^ 52"
  proof -
    have "2 powi j \<le> x" "x < 2 powi (j + 1)"
      using ilog2_bounds [OF x] by (simp_all add: j_def)
    then have "2 powi j / 2 powi (j - 52) \<le> x / 2 powi (j - 52)"
      "x / 2 powi (j - 52) < 2 powi (j + 1) / 2 powi (j - 52)"
      by (simp_all add: divide_right_mono divide_strict_right_mono)
    then have "2 ^ 52 \<le> (of_int P / 10 :: rat)" "(of_int P / 10 :: rat) < 2 ^ 53"
      unfolding scale by (simp_all flip: power_int_diff)
    then have "(of_int (10 * 2 ^ 52) :: rat) \<le> of_int P" "(of_int P :: rat) < of_int (20 * 2 ^ 52)"
      by simp_all
    then show "10 * 2 ^ 52 \<le> P" "P < 20 * 2 ^ 52" by linarith+
  qed
  have "fl (of_int (10 * M)) = of_int P"
  proof -
    define e where "e = ilog2 (of_int (10 * M)) - 52"
    have lo: "(2 :: rat) powi 55 \<le> of_int (10 * M)" and hi: "of_int (10 * M) < (2 :: rat) powi 57"
      using near Pb by simp_all
    then have pos: "0 < (of_int (10 * M) :: rat)" by simp
    have "ilog2 (of_int (10 * M)) < 57" using ilog2_less [OF pos hi] .
    moreover have "55 \<le> ilog2 (of_int (10 * M))"
    proof -
      have "(2 :: rat) powi 55 < 2 powi (ilog2 (of_int (10 * M)) + 1)"
        using lo ilog2_bounds [OF pos] by linarith
      then have "55 < ilog2 (of_int (10 * M)) + 1" unfolding powi2_less_iff .
      then show ?thesis by linarith
    qed
    ultimately have e: "e = 3 \<or> e = 4" by (auto simp: e_def)
    obtain q where q: "P = 32 * q" using P16 by blast
    from e have "round_ne (of_int (10 * M) / 2 powi e) = (if e = 3 then 4 * q else 2 * q)"
      by (intro round_ne_near_even) (use near q in \<open>auto simp: abs_le_iff field_simps\<close>)
    moreover have "fl (of_int (10 * M)) = of_int (round_ne (of_int (10 * M) / 2 powi e)) * 2 powi e"
      using pos unfolding fl_def e_def Let_def by (simp only: abs_of_pos) simp
    ultimately show ?thesis using e q by auto
  qed
  then have "fl (of_int (10 * M) * 2 powi (j - 52)) = of_int P * 2 powi (j - 52)"
    by (simp add: fl_scale)
  moreover have "of_int P * 2 powi (j - 52) = (of_int m :: rat)"
    using scale by (simp add: x_def field_simps)
  ultimately show ?thesis
    using fx by (simp add: x_def mult.assoc)
qed

lemma MathRound_int [simp]: "MathRound (of_int k) = of_int k"
proof -
  have "\<lfloor>of_int k + 1 / 2 :: rat\<rfloor> = k" "\<lfloor>1 / 2 - of_int k :: rat\<rfloor> = - k" by linarith+
  then show ?thesis by (simp add: MathRound_def)
qed

lemma MathRound_nonneg: "0 \<le> x \<Longrightarrow> MathRound x = of_int \<lfloor>x + 1 / 2\<rfloor>"
  by (simp add: MathRound_def)

lemma trunc_rat_of_int [simp]: "trunc_rat (of_int k) = k"
  using floor_of_int [of "- k", where 'a = rat] by (simp add: trunc_rat_def)

section \<open>Printing with a fixed number of decimals\<close>

text \<open>
  \<open>strconv.FormatFloat(v, 'f', p, 64)\<close>: the decimal closest to the exact value of the
  double, ties to even.
\<close>

definition pad_left :: "nat \<Rightarrow> string \<Rightarrow> string" where
  "pad_left p s = replicate (p - length s) CHR ''0'' @ s"

definition FormatFixed :: "nat \<Rightarrow> rat \<Rightarrow> string" where
  "FormatFixed p v =
     (let k = nat (round_ne (\<bar>v\<bar> * 10 ^ p));
          digits = (if p = 0 then show_nat k
                    else show_nat (k div 10 ^ p) @ ''.'' @ pad_left p (show_nat (k mod 10 ^ p)))
      in if v < 0 then CHR ''-'' # digits else digits)"

end
