(* ===== verification/Quota.thy ===== *)
theory Quota
  imports Float64
begin

text \<open>
  \<open>internal/core/quota.go\<close>: the tagged quota value, its validity, its stored form and its
  human form. A quota in a state that is not a number keeps its tag everywhere, so the
  round trip through the stored form is exact on every valid value.
\<close>

section \<open>Kinds and values\<close>

text \<open>
  \<open>QuotaKind\<close> is a \<open>uint8\<close> with three named values; \<open>KindOther\<close> stands for a byte that
  is none of them, which Go's type admits and \<open>Valid\<close> rejects.
\<close>

datatype QuotaKind = KindUnknown | KindUnlimited | KindBytes | KindOther "8 word"

definition QuotaKind_String :: "QuotaKind \<Rightarrow> string" where
  "QuotaKind_String k =
     (case k of
        KindUnknown \<Rightarrow> ''unknown''
      | KindUnlimited \<Rightarrow> ''unlimited''
      | KindBytes \<Rightarrow> ''bytes''
      | KindOther b \<Rightarrow> ''QuotaKind('' @ show_nat (unat b) @ '')'')"

record Quota =
  q_Kind :: QuotaKind
  q_Bytes :: int64

datatype quota_error =
    ErrNegativeQuota int64
  | CarriesBytes QuotaKind int64
  | UnknownQuotaKind "8 word"
  | UsageUnlimited
  | UndecodableQuota string

definition Unknown :: Quota where
  "Unknown = \<lparr>q_Kind = KindUnknown, q_Bytes = 0\<rparr>"

definition Unlimited :: Quota where
  "Unlimited = \<lparr>q_Kind = KindUnlimited, q_Bytes = 0\<rparr>"

definition BytesQuota :: "int64 \<Rightarrow> quota_error + Quota" where
  "BytesQuota n =
     (if sint n < 0 then Inl (ErrNegativeQuota n)
      else Inr \<lparr>q_Kind = KindBytes, q_Bytes = n\<rparr>)"

text \<open>\<open>MustBytes\<close> panics on the error, which is \<open>None\<close>.\<close>

definition MustBytes :: "int64 \<Rightarrow> Quota option" where
  "MustBytes n = (case BytesQuota n of Inl _ \<Rightarrow> None | Inr q \<Rightarrow> Some q)"

definition Quota_IsKnown :: "Quota \<Rightarrow> bool" where
  "Quota_IsKnown q \<longleftrightarrow> q_Kind q \<noteq> KindUnknown"

definition Quota_IsUnlimited :: "Quota \<Rightarrow> bool" where
  "Quota_IsUnlimited q \<longleftrightarrow> q_Kind q = KindUnlimited"

definition Quota_IsBytes :: "Quota \<Rightarrow> bool" where
  "Quota_IsBytes q \<longleftrightarrow> q_Kind q = KindBytes"

text \<open>\<open>Valid\<close> and \<open>ValidAsUsage\<close> return a nil error as \<open>None\<close>.\<close>

definition Quota_Valid :: "Quota \<Rightarrow> quota_error option" where
  "Quota_Valid q =
     (case q_Kind q of
        KindUnknown \<Rightarrow> if q_Bytes q \<noteq> 0 then Some (CarriesBytes KindUnknown (q_Bytes q)) else None
      | KindUnlimited \<Rightarrow> if q_Bytes q \<noteq> 0 then Some (CarriesBytes KindUnlimited (q_Bytes q)) else None
      | KindBytes \<Rightarrow> if sint (q_Bytes q) < 0 then Some (ErrNegativeQuota (q_Bytes q)) else None
      | KindOther b \<Rightarrow> Some (UnknownQuotaKind b))"

definition Quota_ValidAsUsage :: "Quota \<Rightarrow> quota_error option" where
  "Quota_ValidAsUsage q = (if q_Kind q = KindUnlimited then Some UsageUnlimited else Quota_Valid q)"

definition Quota_Equal :: "Quota \<Rightarrow> Quota \<Rightarrow> bool" where
  "Quota_Equal q other \<longleftrightarrow>
     (if q_Kind q \<noteq> q_Kind other then False
      else q_Kind q \<noteq> KindBytes \<or> q_Bytes q = q_Bytes other)"

section \<open>The stored form\<close>

definition Quota_Encode :: "Quota \<Rightarrow> string" where
  "Quota_Encode q =
     (if q_Kind q = KindBytes then ''bytes:'' @ FormatInt (q_Bytes q)
      else QuotaKind_String (q_Kind q))"

definition DecodeQuota :: "string \<Rightarrow> quota_error + Quota" where
  "DecodeQuota s =
     (if s = ''unknown'' then Inr Unknown
      else if s = ''unlimited'' then Inr Unlimited
      else (case CutPrefix s ''bytes:'' of
              None \<Rightarrow> Inl (UndecodableQuota s)
            | Some n \<Rightarrow>
                (case ParseInt n of
                   Inl _ \<Rightarrow> Inl (UndecodableQuota s)
                 | Inr v \<Rightarrow> BytesQuota v)))"

section \<open>The human form\<close>

definition iecUnits :: "string list" where
  "iecUnits = [''KiB'', ''MiB'', ''GiB'', ''TiB'', ''PiB'', ''EiB'']"

text \<open>The loop over the units: it stops at the first unit under which the value is below 1024.\<close>

fun FormatIEC_loop :: "rat \<Rightarrow> string \<Rightarrow> string list \<Rightarrow> rat \<times> string" where
  "FormatIEC_loop v unit [] = (v, unit)"
| "FormatIEC_loop v unit (u # us) =
     (let v' = fdiv v 1024 in if v' < 1024 then (v', u) else FormatIEC_loop v' u us)"

definition FormatIEC :: "int64 \<Rightarrow> string" where
  "FormatIEC n =
     (if sint n < 1024 then FormatInt n @ '' B''
      else case FormatIEC_loop (f64_of_int (sint n)) '''' iecUnits of (v, unit) \<Rightarrow>
             if 100 \<le> v \<or> v = of_int (trunc_rat v)
             then FormatFixed 0 v @ '' '' @ unit
             else FormatFixed 1 v @ '' '' @ unit)"

definition Quota_String :: "Quota \<Rightarrow> string" where
  "Quota_String q =
     (case q_Kind q of
        KindUnknown \<Rightarrow> ''unknown''
      | KindUnlimited \<Rightarrow> ''unlimited''
      | KindBytes \<Rightarrow> FormatIEC (q_Bytes q)
      | KindOther b \<Rightarrow> QuotaKind_String (KindOther b))"

section \<open>Lemmas\<close>

lemma Quota_kinds [simp]:
  "q_Kind Unknown = KindUnknown" "q_Bytes Unknown = 0"
  "q_Kind Unlimited = KindUnlimited" "q_Bytes Unlimited = 0"
  by (simp_all add: Unknown_def Unlimited_def)

lemmas Quota_preds [nuno_simps] = Quota_IsKnown_def Quota_IsUnlimited_def Quota_IsBytes_def

lemma BytesQuota_eq_Inr:
  "BytesQuota n = Inr q \<longleftrightarrow> 0 \<le> sint n \<and> q = \<lparr>q_Kind = KindBytes, q_Bytes = n\<rparr>"
  by (auto simp: BytesQuota_def)

lemma BytesQuota_eq_Inl: "BytesQuota n = Inl e \<longleftrightarrow> sint n < 0 \<and> e = ErrNegativeQuota n"
  by (auto simp: BytesQuota_def)

lemma Quota_Valid_None_iff:
  "Quota_Valid q = None \<longleftrightarrow>
     q = Unknown \<or> q = Unlimited \<or> (\<exists>n. 0 \<le> sint n \<and> q = \<lparr>q_Kind = KindBytes, q_Bytes = n\<rparr>)"
  by (cases q) (auto simp: Quota_Valid_def Unknown_def Unlimited_def split: QuotaKind.splits if_splits)

lemma Quota_ValidAsUsage_None_iff:
  "Quota_ValidAsUsage q = None \<longleftrightarrow>
     q = Unknown \<or> (\<exists>n. 0 \<le> sint n \<and> q = \<lparr>q_Kind = KindBytes, q_Bytes = n\<rparr>)"
  by (auto simp: Quota_ValidAsUsage_def Quota_Valid_None_iff)

lemma Quota_Equal_refl [simp]: "Quota_Equal q q"
  by (simp add: Quota_Equal_def)

lemma Quota_Equal_sym: "Quota_Equal a b \<longleftrightarrow> Quota_Equal b a"
  by (auto simp: Quota_Equal_def)

lemma Quota_Equal_iff_eq:
  "Quota_Valid a = None \<Longrightarrow> Quota_Valid b = None \<Longrightarrow> Quota_Equal a b \<longleftrightarrow> a = b"
  by (auto simp: Quota_Valid_None_iff Quota_Equal_def)

lemma DecodeQuota_Encode_valid:
  assumes "Quota_Valid q = None"
  shows "DecodeQuota (Quota_Encode q) = Inr q"
  using assms unfolding Quota_Valid_None_iff
  by (auto simp: Quota_Encode_def QuotaKind_String_def DecodeQuota_def BytesQuota_def
      CutPrefix_def HasPrefix_def)

lemma DecodeQuota_valid:
  assumes "DecodeQuota s = Inr q"
  shows "Quota_Valid q = None"
  using assms unfolding Quota_Valid_None_iff
  by (auto simp: DecodeQuota_def BytesQuota_eq_Inr split: if_splits option.splits sum.splits)

end
