(* ===== verification/Model.thy ===== *)
theory Model
  imports Quota
begin

text \<open>
  \<open>internal/core/model.go\<close> and the data of \<open>internal/core/provider.go\<close>: people, groups,
  links, observed accounts, and what an adapter can do and report. The Go string types
  with named constants (\<open>IdentitySource\<close>, \<open>UserStatus\<close>, \<open>LinkOrigin\<close>,
  \<open>LinkIssueKind\<close>) are read back from columns with a CHECK constraint on exactly those
  constants, so they are datatypes here; \<open>MatchKey\<close> also arrives from the environment and
  keeps its free form.
\<close>

section \<open>People and groups\<close>

datatype IdentitySource = SourceLDAP | SourceManual

datatype UserStatus = UserActive | UserOrphaned

record User =
  u_ID :: RowID
  u_Source :: IdentitySource
  u_SourceUUID :: string
  u_UID :: string
  u_Email :: string
  u_DisplayName :: string
  u_Status :: UserStatus
  u_GroupUUIDs :: "string list"

record Group =
  g_ID :: RowID
  g_Source :: IdentitySource
  g_SourceUUID :: string
  g_Name :: string
  g_DisplayName :: string

section \<open>Match keys and provider instances\<close>

datatype MatchKey = MatchSubject | MatchEmail | MatchUsername | MatchOther string

text \<open>The conversion \<open>MatchKey(s)\<close> of a string and its text.\<close>

definition MatchKey_of :: "string \<Rightarrow> MatchKey" where
  "MatchKey_of s =
     (if s = ''subject'' then MatchSubject
      else if s = ''email'' then MatchEmail
      else if s = ''username'' then MatchUsername
      else MatchOther s)"

definition MatchKey_Valid :: "MatchKey \<Rightarrow> bool" where
  "MatchKey_Valid k =
     (case k of MatchSubject \<Rightarrow> True | MatchEmail \<Rightarrow> True | MatchUsername \<Rightarrow> True
      | MatchOther _ \<Rightarrow> False)"

record ProviderInstance =
  pi_ID :: RowID
  pi_Type :: string
  pi_Name :: string
  pi_MatchKey :: MatchKey
  pi_ConfigRef :: string

section \<open>Links and link issues\<close>

datatype LinkOrigin = LinkMatched | LinkManual

record AccountLink =
  lk_UserID :: RowID
  lk_ProviderID :: RowID
  lk_ExternalID :: string
  lk_Origin :: LinkOrigin
  lk_LinkedAt :: Time

datatype LinkIssueKind =
    IssueUnlinked | IssueAmbiguous | IssueDangling | IssueStale | IssueUnmanaged

text \<open>
  The free-text \<open>Detail\<close> of an issue is only shown to a person; the model keeps everything
  else of the issue.
\<close>

record LinkIssue =
  li_ProviderID :: RowID
  li_Kind :: LinkIssueKind
  li_UserID :: "RowID option"
  li_ExternalID :: string

section \<open>Accounts\<close>

record ExternalAccount =
  xa_ProviderID :: RowID
  xa_ExternalID :: string
  xa_UserID :: "RowID option"
  xa_Subject :: string
  xa_Username :: string
  xa_Email :: string
  xa_Enabled :: bool
  xa_Deleted :: bool
  xa_Quota :: Quota
  xa_Used :: Quota
  xa_NeverUsed :: bool
  xa_ObservedAt :: Time
  xa_ObserveOK :: bool

definition ExternalAccount_Writable :: "ExternalAccount \<Rightarrow> bool" where
  "ExternalAccount_Writable a \<longleftrightarrow> xa_Enabled a \<and> \<not> xa_Deleted a"

record Account =
  ac_ExternalID :: string
  ac_Subject :: string
  ac_Username :: string
  ac_Email :: string
  ac_Enabled :: bool
  ac_Deleted :: bool
  ac_Quota :: Quota
  ac_Used :: Quota
  ac_ObservedAt :: Time
  ac_NeverUsed :: bool

definition Account_Writable :: "Account \<Rightarrow> bool" where
  "Account_Writable a \<longleftrightarrow> ac_Enabled a \<and> \<not> ac_Deleted a"

definition MatchValue :: "Account \<Rightarrow> MatchKey \<Rightarrow> string" where
  "MatchValue a k =
     (case k of
        MatchSubject \<Rightarrow> ac_Subject a
      | MatchEmail \<Rightarrow> ac_Email a
      | MatchUsername \<Rightarrow> ac_Username a
      | MatchOther _ \<Rightarrow> [])"

definition NormalizeEmail :: "string \<Rightarrow> string" where
  "NormalizeEmail email = ToLower (TrimSpace email)"

definition NormalizeUsername :: "string \<Rightarrow> string" where
  "NormalizeUsername name = ToLower (TrimSpace name)"

section \<open>Directory reads\<close>

record IdentitySnapshot =
  sn_Source :: IdentitySource
  sn_Users :: "User list"
  sn_Groups :: "Group list"

record IdentityRead =
  ir_Snapshot :: IdentitySnapshot
  ir_SkippedEntries :: "string list"
  ir_UnresolvedMemberships :: "string list"

section \<open>What an adapter declares and reports\<close>

record Capabilities =
  cap_CanReadUsers :: bool
  cap_CanReadUsage :: bool
  cap_CanSetUserQuota :: bool
  cap_CanSetDefaultQuota :: bool
  cap_HasGroups :: bool
  cap_MatchKeys :: "MatchKey list"

datatype WriteAccess = WriteUnproven | WriteYes | WriteNo

definition WriteAccess_String :: "WriteAccess \<Rightarrow> string" where
  "WriteAccess_String w =
     (case w of WriteUnproven \<Rightarrow> ''unproven'' | WriteYes \<Rightarrow> ''yes'' | WriteNo \<Rightarrow> ''no'')"

record CompetingWriter =
  cw_Setting :: string
  cw_Value :: string
  cw_Detail :: string
  cw_Remedy :: "string list"

text \<open>
  The typed errors of \<open>internal/core/errors.go\<close>, plus the untyped errors an adapter
  returns itself.
\<close>

datatype AdapterError =
    AuthError string int string            \<comment> \<open>provider, status, message\<close>
  | UnreachableError string                \<comment> \<open>provider\<close>
  | UnsupportedError string string         \<comment> \<open>provider, feature\<close>
  | ThrottledError string Duration         \<comment> \<open>provider, retry after\<close>
  | ProviderError string string int string \<comment> \<open>provider, operation, status, message\<close>
  | PlainError string

definition IsAuth :: "AdapterError \<Rightarrow> bool" where
  "IsAuth e = (case e of AuthError _ _ _ \<Rightarrow> True | _ \<Rightarrow> False)"

definition IsUnreachable :: "AdapterError \<Rightarrow> bool" where
  "IsUnreachable e = (case e of UnreachableError _ \<Rightarrow> True | _ \<Rightarrow> False)"

definition IsUnsupported :: "AdapterError \<Rightarrow> bool" where
  "IsUnsupported e = (case e of UnsupportedError _ _ \<Rightarrow> True | _ \<Rightarrow> False)"

definition Throttled :: "AdapterError \<Rightarrow> Duration option" where
  "Throttled e = (case e of ThrottledError _ d \<Rightarrow> Some d | _ \<Rightarrow> None)"

record HealthResult =
  he_Reachable :: bool
  he_Version :: string
  he_InSupported :: bool
  he_Err :: "AdapterError option"

section \<open>Lemmas\<close>

lemmas writable_defs [nuno_simps] = ExternalAccount_Writable_def Account_Writable_def

lemma is_space_small: "is_space c \<Longrightarrow> (of_char c :: nat) < 33"
  by (auto simp: is_space_def)

lemma dropWhile_space_ToLower:
  "dropWhile is_space (map lower_char xs) = map lower_char (dropWhile is_space xs)"
proof -
  have "is_space (lower_char c) = is_space c" for c
    using is_space_small [of c] is_space_small [of "lower_char c"]
    by (auto simp: lower_char_def less_eq_char_def)
  then show ?thesis by (induction xs) auto
qed

lemma NormalizeEmail_idem: "NormalizeEmail (NormalizeEmail e) = NormalizeEmail e"
proof -
  have comm: "TrimSpace (ToLower s) = ToLower (TrimSpace s)" for s
    by (simp add: TrimSpace_def ToLower_def rev_map dropWhile_space_ToLower)
  show ?thesis
    by (simp add: NormalizeEmail_def comm) (simp add: ToLower_def)
qed

lemma MatchKey_of_Valid: "MatchKey_Valid (MatchKey_of s) \<longleftrightarrow> s \<in> {''subject'', ''email'', ''username''}"
  by (simp add: MatchKey_of_def MatchKey_Valid_def)

end
