(* ===== verification/Policy.thy ===== *)
theory Policy
  imports Model
begin

text \<open>
  \<open>internal/core/policy.go\<close>: allocations, tiers, their validation and what a tier offers on
  one provider. All arithmetic is on \<open>int64\<close> as in the code; the lemmas say where it cannot
  wrap and what it then computes.
\<close>

section \<open>Allocations and tiers\<close>

datatype AllocationMode = ModeAbsolute | ModePercent | ModeUnlimited | ModeOther string

definition AllocationMode_Valid :: "AllocationMode \<Rightarrow> bool" where
  "AllocationMode_Valid m =
     (case m of ModeAbsolute \<Rightarrow> True | ModePercent \<Rightarrow> True | ModeUnlimited \<Rightarrow> True
      | ModeOther _ \<Rightarrow> False)"

record Allocation =
  al_ProviderID :: RowID
  al_Mode :: AllocationMode
  al_Value :: int64

record Tier =
  t_ID :: RowID
  t_Name :: string
  t_Budget :: Quota
  t_IsDefault :: bool
  t_Allocations :: "Allocation list"

datatype tier_error =
    TierNeedsName
  | TierBudget quota_error
  | UnknownAllocationMode AllocationMode
  | TwoAllocations RowID
  | NegativeAllocation
  | PercentOutOfRange int64
  | PercentNeedsBudget Quota
  | AbsoluteOverBudget int64 Quota

text \<open>
  The loop of \<open>Validate\<close>: the providers seen, the running sum of the absolute allocations
  and whether a percentage was seen.
\<close>

fun Validate_loop ::
  "RowID set \<Rightarrow> int64 \<Rightarrow> bool \<Rightarrow> Allocation list \<Rightarrow> tier_error + int64 \<times> bool" where
  "Validate_loop seen absolute hasPercent [] = Inr (absolute, hasPercent)"
| "Validate_loop seen absolute hasPercent (a # as) =
     (if \<not> AllocationMode_Valid (al_Mode a) then Inl (UnknownAllocationMode (al_Mode a))
      else if al_ProviderID a \<in> seen then Inl (TwoAllocations (al_ProviderID a))
      else
        let seen' = insert (al_ProviderID a) seen in
        (case al_Mode a of
           ModeAbsolute \<Rightarrow>
             if sint (al_Value a) < 0 then Inl NegativeAllocation
             else Validate_loop seen' (absolute + al_Value a) hasPercent as
         | ModePercent \<Rightarrow>
             if sint (al_Value a) < 0 \<or> 100 < sint (al_Value a)
             then Inl (PercentOutOfRange (al_Value a))
             else Validate_loop seen' absolute True as
         | _ \<Rightarrow> Validate_loop seen' absolute hasPercent as))"

definition Tier_Validate :: "Tier \<Rightarrow> tier_error option" where
  "Tier_Validate t =
     (if TrimSpace (t_Name t) = [] then Some TierNeedsName
      else case Quota_Valid (t_Budget t) of
        Some e \<Rightarrow> Some (TierBudget e)
      | None \<Rightarrow>
          (case Validate_loop {} 0 False (t_Allocations t) of
             Inl e \<Rightarrow> Some e
           | Inr (absolute, hasPercent) \<Rightarrow>
               if hasPercent \<and> \<not> Quota_IsBytes (t_Budget t)
               then Some (PercentNeedsBudget (t_Budget t))
               else if Quota_IsBytes (t_Budget t) \<and> sint (q_Bytes (t_Budget t)) < sint absolute
               then Some (AbsoluteOverBudget absolute (t_Budget t))
               else None))"

definition is_absolute :: "Allocation \<Rightarrow> bool" where
  "is_absolute a \<longleftrightarrow> al_Mode a = ModeAbsolute"

definition is_percent :: "Allocation \<Rightarrow> bool" where
  "is_percent a \<longleftrightarrow> al_Mode a = ModePercent"

definition Overcommitted :: "Tier \<Rightarrow> bool" where
  "Overcommitted t \<longleftrightarrow>
     100 < sint (foldl (\<lambda>percent a. if is_percent a then percent + al_Value a else percent) 0
                   (t_Allocations t))"

section \<open>What a tier offers\<close>

text \<open>
  The pair is Go's \<open>(Quota, bool)\<close>. \<open>percentOf\<close> takes the absolute allocations out of the
  budget, clamps at zero, and applies the share.
\<close>

definition percentOf :: "Tier \<Rightarrow> int64 \<Rightarrow> Quota \<times> bool" where
  "percentOf t share =
     (if \<not> Quota_IsBytes (t_Budget t) then (Unknown, False)
      else
        let remainder = foldl (\<lambda>r a. if is_absolute a then r - al_Value a else r)
                          (q_Bytes (t_Budget t)) (t_Allocations t);
            remainder = (if sint remainder < 0 then 0 else remainder)
        in case BytesQuota (i64_div (remainder * share) 100) of
             Inl _ \<Rightarrow> (Unknown, False)
           | Inr q \<Rightarrow> (q, True))"

fun AllocationFor_loop :: "Tier \<Rightarrow> RowID \<Rightarrow> Allocation list \<Rightarrow> Quota \<times> bool" where
  "AllocationFor_loop t providerID [] = (Unknown, False)"
| "AllocationFor_loop t providerID (a # as) =
     (if al_ProviderID a \<noteq> providerID then AllocationFor_loop t providerID as
      else case al_Mode a of
        ModeUnlimited \<Rightarrow> (Unlimited, True)
      | ModeAbsolute \<Rightarrow>
          (case BytesQuota (al_Value a) of Inl _ \<Rightarrow> (Unknown, False) | Inr q \<Rightarrow> (q, True))
      | ModePercent \<Rightarrow> percentOf t (al_Value a)
      | ModeOther _ \<Rightarrow> AllocationFor_loop t providerID as)"

definition AllocationFor :: "Tier \<Rightarrow> RowID \<Rightarrow> Quota \<times> bool" where
  "AllocationFor t providerID = AllocationFor_loop t providerID (t_Allocations t)"

record GroupTier =
  gt_GroupUUID :: string
  gt_TierID :: RowID

record UserProviderOverride =
  po_UserID :: RowID
  po_ProviderID :: RowID
  po_Quota :: Quota

section \<open>Offers are always valid\<close>

lemma percentOf_valid:
  "percentOf t share = (q, True) \<Longrightarrow> q_Kind q = KindBytes \<and> 0 \<le> sint (q_Bytes q)"
  by (auto simp: percentOf_def Let_def BytesQuota_eq_Inr split: if_splits sum.splits)

lemma AllocationFor_loop_valid:
  "AllocationFor_loop t p as = (q, True) \<Longrightarrow>
     q = Unlimited \<or> (q_Kind q = KindBytes \<and> 0 \<le> sint (q_Bytes q))"
  by (induction as)
     (auto simp: BytesQuota_eq_Inr dest: percentOf_valid
       split: if_splits AllocationMode.splits sum.splits)

lemma AllocationFor_valid:
  "AllocationFor t p = (q, True) \<Longrightarrow>
     q = Unlimited \<or> (q_Kind q = KindBytes \<and> 0 \<le> sint (q_Bytes q))"
  unfolding AllocationFor_def by (rule AllocationFor_loop_valid)

lemma AllocationFor_silent:
  "p \<notin> al_ProviderID ` set (t_Allocations t) \<Longrightarrow> AllocationFor t p = (Unknown, False)"
proof -
  have "p \<notin> al_ProviderID ` set as \<Longrightarrow> AllocationFor_loop t p as = (Unknown, False)" for as
    by (induction as) auto
  then show "p \<notin> al_ProviderID ` set (t_Allocations t) \<Longrightarrow> AllocationFor t p = (Unknown, False)"
    by (simp add: AllocationFor_def)
qed

section \<open>What validation accepts\<close>

definition alloc_ok :: "Allocation \<Rightarrow> bool" where
  "alloc_ok a \<longleftrightarrow>
     (case al_Mode a of
        ModeAbsolute \<Rightarrow> 0 \<le> sint (al_Value a)
      | ModePercent \<Rightarrow> 0 \<le> sint (al_Value a) \<and> sint (al_Value a) \<le> 100
      | ModeUnlimited \<Rightarrow> True
      | ModeOther _ \<Rightarrow> False)"

lemma alloc_ok_absolute: "alloc_ok a \<Longrightarrow> is_absolute a \<Longrightarrow> 0 \<le> sint (al_Value a)"
  by (simp add: alloc_ok_def is_absolute_def)

lemma alloc_ok_percent:
  "alloc_ok a \<Longrightarrow> is_percent a \<Longrightarrow> 0 \<le> sint (al_Value a) \<and> sint (al_Value a) \<le> 100"
  by (simp add: alloc_ok_def is_percent_def)

lemma Validate_loop_Inr_iff:
  "Validate_loop seen s hp as = Inr (s', hp') \<longleftrightarrow>
     (\<forall>a \<in> set as. alloc_ok a) \<and> distinct (map al_ProviderID as) \<and>
     al_ProviderID ` set as \<inter> seen = {} \<and>
     s' = s + sum_list (map al_Value (filter is_absolute as)) \<and>
     hp' = (hp \<or> (\<exists>a \<in> set as. is_percent a))"
proof (induction as arbitrary: seen s hp)
  case (Cons a as)
  show ?case
    by (cases "al_Mode a")
       (auto simp: Cons.IH Let_def AllocationMode_Valid_def alloc_ok_def is_absolute_def is_percent_def
         algebra_simps)
qed auto

lemma Tier_Validate_None_iff:
  "Tier_Validate t = None \<longleftrightarrow>
     TrimSpace (t_Name t) \<noteq> [] \<and> Quota_Valid (t_Budget t) = None \<and>
     (\<forall>a \<in> set (t_Allocations t). alloc_ok a) \<and>
     distinct (map al_ProviderID (t_Allocations t)) \<and>
     ((\<exists>a \<in> set (t_Allocations t). is_percent a) \<longrightarrow> Quota_IsBytes (t_Budget t)) \<and>
     (Quota_IsBytes (t_Budget t) \<longrightarrow>
        sint (sum_list (map al_Value (filter is_absolute (t_Allocations t)))) \<le> sint (q_Bytes (t_Budget t)))"
  (is "?lhs \<longleftrightarrow> ?rhs")
proof (cases "\<exists>s hp. Validate_loop {} 0 False (t_Allocations t) = Inr (s, hp)")
  case True
  then obtain s hp where loop: "Validate_loop {} 0 False (t_Allocations t) = Inr (s, hp)" by blast
  from loop show ?thesis
    unfolding Tier_Validate_def loop
    using loop [unfolded Validate_loop_Inr_iff] by (auto split: option.splits)
next
  case False
  then obtain e where "Validate_loop {} 0 False (t_Allocations t) = Inl e"
    by (cases "Validate_loop {} 0 False (t_Allocations t)") auto
  moreover have "\<not> ?rhs" using False Validate_loop_Inr_iff [of "{}" 0 False "t_Allocations t"] by auto
  ultimately show ?thesis by (auto simp: Tier_Validate_def split: option.splits)
qed

section \<open>The budget is not exceeded\<close>

definition absolute_sum :: "Tier \<Rightarrow> int" where
  "absolute_sum t = (\<Sum>a\<leftarrow>filter is_absolute (t_Allocations t). sint (al_Value a))"

definition percent_sum :: "Tier \<Rightarrow> int" where
  "percent_sum t = (\<Sum>a\<leftarrow>filter is_percent (t_Allocations t). sint (al_Value a))"

lemma AllocationFor_own:
  assumes "distinct (map al_ProviderID (t_Allocations t))" "a \<in> set (t_Allocations t)" "alloc_ok a"
  shows "AllocationFor t (al_ProviderID a) =
     (case al_Mode a of
        ModeUnlimited \<Rightarrow> (Unlimited, True)
      | ModeAbsolute \<Rightarrow> (\<lparr>q_Kind = KindBytes, q_Bytes = al_Value a\<rparr>, True)
      | ModePercent \<Rightarrow> percentOf t (al_Value a)
      | ModeOther _ \<Rightarrow> (Unknown, False))"
proof -
  have "AllocationFor_loop t (al_ProviderID a) as =
     (case al_Mode a of
        ModeUnlimited \<Rightarrow> (Unlimited, True)
      | ModeAbsolute \<Rightarrow> (\<lparr>q_Kind = KindBytes, q_Bytes = al_Value a\<rparr>, True)
      | ModePercent \<Rightarrow> percentOf t (al_Value a)
      | ModeOther _ \<Rightarrow> (Unknown, False))"
    if "distinct (map al_ProviderID as)" "a \<in> set as" for as
    using that assms(3)
    by (induction as)
       (auto simp: alloc_ok_def BytesQuota_def image_iff split: AllocationMode.splits)
  then show ?thesis using assms by (simp add: AllocationFor_def)
qed

text \<open>
  Where neither the sum of the absolute allocations nor the product with the share leaves the
  range of \<open>int64\<close>, \<open>percentOf\<close> is the share of what the absolute allocations leave.
\<close>

lemma percentOf_exact:
  assumes bytes: "Quota_IsBytes (t_Budget t)"
    and ok: "\<forall>a \<in> set (t_Allocations t). alloc_ok a"
    and wrap: "absolute_sum t < 2 ^ 63"
    and fit: "absolute_sum t \<le> sint (q_Bytes (t_Budget t))"
    and share: "0 \<le> sint share" "sint share \<le> 100"
    and small: "sint (q_Bytes (t_Budget t)) * 100 < 2 ^ 63"
  shows "\<exists>q. percentOf t share = (q, True) \<and> q_Kind q = KindBytes \<and>
     sint (q_Bytes q) = (sint (q_Bytes (t_Budget t)) - absolute_sum t) * sint share div 100"
proof -
  let ?b = "q_Bytes (t_Budget t)"
  let ?s = "sum_list (map al_Value (filter is_absolute (t_Allocations t)))"
  have nonneg: "\<forall>a \<in> set (filter is_absolute (t_Allocations t)). 0 \<le> sint (al_Value a)"
    using ok by (auto intro: alloc_ok_absolute)
  then have s: "sint ?s = absolute_sum t"
    using wrap unfolding absolute_sum_def by (rule sint_sum_list_fits)
  have "0 \<le> absolute_sum t"
    unfolding absolute_sum_def by (rule sum_list_nonneg) (use nonneg in auto)
  define r where "r = ?b - ?s"
  have r: "sint r = sint ?b - absolute_sum t" and r0: "0 \<le> sint r"
    using fit \<open>0 \<le> absolute_sum t\<close> sint_i64_upper [of ?b] s
    by (simp_all add: r_def sint_sub_fits)
  have "sint r * sint share \<le> sint r * 100"
    using share r0 by (intro mult_left_mono) auto
  also have "\<dots> < 2 ^ 63" using small r \<open>0 \<le> absolute_sum t\<close> by simp
  finally have "sint (r * share) = sint r * sint share"
    using r0 share by (intro sint_mult_fits) (simp add: order_trans [OF _ mult_nonneg_nonneg])
  moreover have "0 \<le> sint r * sint share" using r0 share by simp
  ultimately have "sint (i64_div (r * share) 100) = sint r * sint share div 100"
    by (simp add: sint_i64_div)
  moreover have "0 \<le> sint r * sint share div 100"
    using \<open>0 \<le> sint r * sint share\<close> by (simp add: pos_imp_zdiv_nonneg_iff)
  moreover have "percentOf t share =
      (case BytesQuota (i64_div (r * share) 100) of Inl _ \<Rightarrow> (Unknown, False) | Inr q \<Rightarrow> (q, True))"
    using bytes r0 by (simp add: percentOf_def foldl_sub_if r_def)
  ultimately show ?thesis by (simp add: BytesQuota_def r)
qed

lemma sum_list_partition3:
  fixes f :: "'a \<Rightarrow> int"
  assumes "\<forall>x \<in> set xs. P x \<noteq> Q x"
  shows "(\<Sum>x\<leftarrow>xs. f x) = (\<Sum>x\<leftarrow>filter P xs. f x) + (\<Sum>x\<leftarrow>filter Q xs. f x)"
  using assms by (induction xs) auto

lemma sum_list_div_le:
  fixes f :: "'a \<Rightarrow> int"
  shows "0 < c \<Longrightarrow> (\<Sum>x\<leftarrow>xs. f x div c) \<le> (\<Sum>x\<leftarrow>xs. f x) div c"
proof (induction xs)
  case (Cons x xs)
  have "f x div c + (\<Sum>y\<leftarrow>xs. f y) div c \<le> (f x + (\<Sum>y\<leftarrow>xs. f y)) div c"
  proof -
    have "c * (f x div c + (\<Sum>y\<leftarrow>xs. f y) div c) \<le> f x + (\<Sum>y\<leftarrow>xs. f y)"
      using Cons.prems pos_mod_sign [of c "f x"] pos_mod_sign [of c "\<Sum>y\<leftarrow>xs. f y"]
        mult_div_mod_eq [of c "f x"] mult_div_mod_eq [of c "\<Sum>y\<leftarrow>xs. f y"]
      unfolding distrib_left by linarith
    from zdiv_mono1 [OF this Cons.prems] show ?thesis using Cons.prems by simp
  qed
  then show ?case using Cons by simp
qed simp

definition offered_bytes :: "Tier \<Rightarrow> Allocation \<Rightarrow> int" where
  "offered_bytes t a = sint (q_Bytes (fst (AllocationFor t (al_ProviderID a))))"

lemma Overcommitted_iff:
  assumes ok: "\<forall>a \<in> set (t_Allocations t). alloc_ok a"
    and len: "length (t_Allocations t) < 2 ^ 56"
  shows "Overcommitted t \<longleftrightarrow> 100 < percent_sum t"
proof -
  have "percent_sum t \<le> 100 * int (length (filter is_percent (t_Allocations t)))"
    unfolding percent_sum_def by (rule sum_list_le_const) (use ok alloc_ok_percent in auto)
  also have "\<dots> \<le> 100 * int (length (t_Allocations t))"
    by simp
  finally have "percent_sum t < 2 ^ 63" using len by simp
  then have "sint (sum_list (map al_Value (filter is_percent (t_Allocations t)))) = percent_sum t"
    unfolding percent_sum_def by (intro sint_sum_list_fits) (use ok alloc_ok_percent in auto)
  then show ?thesis by (simp add: Overcommitted_def foldl_add_if)
qed

lemma offers_within_budget:
  assumes valid: "Tier_Validate t = None"
    and bytes: "Quota_IsBytes (t_Budget t)"
    and lim: "\<forall>a \<in> set (t_Allocations t). al_Mode a \<noteq> ModeUnlimited"
    and nover: "\<not> Overcommitted t"
    and wrap: "absolute_sum t < 2 ^ 63"
    and small: "sint (q_Bytes (t_Budget t)) * 100 < 2 ^ 63"
    and len: "length (t_Allocations t) < 2 ^ 56"
  shows "(\<Sum>a\<leftarrow>t_Allocations t. offered_bytes t a) \<le> sint (q_Bytes (t_Budget t))"
proof -
  let ?as = "t_Allocations t" and ?B = "sint (q_Bytes (t_Budget t))"
  have ok: "\<forall>a \<in> set ?as. alloc_ok a" and dist: "distinct (map al_ProviderID ?as)"
    and sum_le: "sint (sum_list (map al_Value (filter is_absolute ?as))) \<le> ?B"
    using valid bytes by (simp_all add: Tier_Validate_None_iff)
  have A: "sint (sum_list (map al_Value (filter is_absolute ?as))) = absolute_sum t"
    using wrap ok unfolding absolute_sum_def
    by (intro sint_sum_list_fits) (auto intro: alloc_ok_absolute)
  have pct: "percent_sum t \<le> 100" using nover Overcommitted_iff [OF ok len] by simp
  have modes: "\<forall>a \<in> set ?as. is_absolute a \<noteq> is_percent a"
  proof
    fix a assume "a \<in> set ?as"
    with ok lim have "alloc_ok a" "al_Mode a \<noteq> ModeUnlimited" by auto
    then show "is_absolute a \<noteq> is_percent a"
      by (cases "al_Mode a") (simp_all add: is_absolute_def is_percent_def alloc_ok_def)
  qed
  have abs_part: "(\<Sum>a\<leftarrow>filter is_absolute ?as. offered_bytes t a) = absolute_sum t"
    unfolding absolute_sum_def
    by (rule arg_cong [where f = sum_list], rule map_cong)
       (auto simp: offered_bytes_def AllocationFor_own [OF dist] ok is_absolute_def)
  have "(\<Sum>a\<leftarrow>filter is_percent ?as. offered_bytes t a) =
      (\<Sum>a\<leftarrow>filter is_percent ?as. (?B - absolute_sum t) * sint (al_Value a) div 100)"
  proof (rule arg_cong [where f = sum_list], rule map_cong)
    fix a assume "a \<in> set (filter is_percent ?as)"
    then have a: "a \<in> set ?as" "is_percent a" by auto
    then obtain q where q: "percentOf t (al_Value a) = (q, True)"
      "sint (q_Bytes q) = (?B - absolute_sum t) * sint (al_Value a) div 100"
      using percentOf_exact [OF bytes ok wrap _ _ _ small, of "al_Value a"] alloc_ok_percent ok A sum_le
      by auto
    then show "offered_bytes t a = (?B - absolute_sum t) * sint (al_Value a) div 100"
      using a ok by (auto simp: offered_bytes_def AllocationFor_own [OF dist] is_percent_def)
  qed simp
  also have "\<dots> \<le> (\<Sum>a\<leftarrow>filter is_percent ?as. (?B - absolute_sum t) * sint (al_Value a)) div 100"
    by (rule sum_list_div_le) simp
  also have "(\<Sum>a\<leftarrow>filter is_percent ?as. (?B - absolute_sum t) * sint (al_Value a)) =
      (?B - absolute_sum t) * percent_sum t"
    by (simp add: percent_sum_def sum_list_const_mult)
  also have "(?B - absolute_sum t) * percent_sum t div 100 \<le> (?B - absolute_sum t) * 100 div 100"
    using pct sum_le A by (intro zdiv_mono1 mult_left_mono) auto
  finally have "(\<Sum>a\<leftarrow>filter is_percent ?as. offered_bytes t a) \<le> ?B - absolute_sum t" by simp
  then show ?thesis using abs_part sum_list_partition3 [OF modes, of "offered_bytes t"] by simp
qed

section \<open>The order of the allocations does not matter\<close>

lemma sum_list_filter_mset:
  fixes f :: "'a \<Rightarrow> 'b :: comm_monoid_add"
  assumes "mset xs = mset ys"
  shows "sum_list (map f (filter P xs)) = sum_list (map f (filter P ys))"
proof -
  have "mset (map f (filter P xs)) = mset (map f (filter P ys))" using assms by simp
  then show ?thesis by (metis sum_mset_sum_list)
qed

lemma percentOf_perm:
  assumes "mset (t_Allocations t') = mset (t_Allocations t)" "t_Budget t' = t_Budget t"
  shows "percentOf t' share = percentOf t share"
  unfolding percentOf_def foldl_sub_if
  using sum_list_filter_mset [OF assms(1), of al_Value is_absolute] assms(2) by simp

lemma AllocationFor_perm:
  assumes ms: "mset (t_Allocations t') = mset (t_Allocations t)" and b: "t_Budget t' = t_Budget t"
    and dist: "distinct (map al_ProviderID (t_Allocations t))" and ok: "\<forall>a \<in> set (t_Allocations t). alloc_ok a"
  shows "AllocationFor t' p = AllocationFor t p"
proof -
  have set: "set (t_Allocations t') = set (t_Allocations t)" using ms by (rule mset_eq_setD)
  have dist': "distinct (map al_ProviderID (t_Allocations t'))"
    using dist ms by (metis mset_eq_imp_distinct_iff mset_map)
  show ?thesis
  proof (cases "p \<in> al_ProviderID ` set (t_Allocations t)")
    case True
    then obtain a where "a \<in> set (t_Allocations t)" "p = al_ProviderID a" by auto
    then show ?thesis
      using AllocationFor_own [OF dist, of a] AllocationFor_own [OF dist', of a] ok
        percentOf_perm [OF ms b] by (simp add: set split: AllocationMode.splits)
  qed (simp add: AllocationFor_silent set)
qed

lemma Overcommitted_perm:
  "mset (t_Allocations t') = mset (t_Allocations t) \<Longrightarrow> Overcommitted t' = Overcommitted t"
  unfolding Overcommitted_def foldl_add_if by (simp add: sum_list_filter_mset [of "t_Allocations t'"])

end
