(* ===== verification/Resolve.thy ===== *)
theory Resolve
  imports Policy
begin

text \<open>
  \<open>internal/core/resolve.go\<close>: which ceiling one person gets on one provider, and why. The
  loop of \<open>Resolve\<close> keeps a running best offer; that it ends on a best one is proved once,
  in the locale \<open>best_pick\<close>, for any order the running comparison can be, and
  \<open>moreGenerous\<close> is shown to be such an order on the offers tiers make.
\<close>

section \<open>Inputs and result\<close>

datatype ResolutionRule =
    RuleProviderOverride | RuleUserTier | RuleGroupTier | RuleDefaultTier | RuleNone

record Candidate =
  c_TierID :: RowID
  c_TierName :: string
  c_GroupUUID :: string
  c_Offered :: Quota
  c_Allocates :: bool

text \<open>The notes shown next to a number, by what they say.\<close>

datatype Note = MissingTierNote RowID | OvercommitNote string

record Resolution =
  r_Present :: bool
  r_Ceiling :: Quota
  r_Rule :: ResolutionRule
  r_TierID :: RowID
  r_TierName :: string
  r_GroupUUID :: string
  r_Candidates :: "Candidate list"
  r_Notes :: "Note list"

record Policy =
  p_Tiers :: "RowID \<rightharpoonup> Tier"
  p_GroupTiers :: "string \<rightharpoonup> RowID"
  p_DefaultTierID :: "RowID option"

record UserPolicy =
  up_ProviderOverrides :: "RowID \<rightharpoonup> Quota"
  up_TierOverride :: "RowID option"

record tierCandidate =
  tc_TierID :: RowID
  tc_GroupUUID :: string

text \<open>Go's zero value of the struct.\<close>

definition empty_resolution :: Resolution where
  "empty_resolution =
     \<lparr>r_Present = False, r_Ceiling = Unknown, r_Rule = RuleNone, r_TierID = 0, r_TierName = [],
      r_GroupUUID = [], r_Candidates = [], r_Notes = []\<rparr>"

section \<open>Resolution\<close>

definition moreGenerous :: "Quota \<Rightarrow> Quota \<Rightarrow> bool" where
  "moreGenerous candidate current =
     (if \<not> Quota_IsKnown candidate then False
      else if Quota_IsUnlimited current then False
      else if Quota_IsUnlimited candidate then True
      else if \<not> Quota_IsKnown current then True
      else sint (q_Bytes current) < sint (q_Bytes candidate))"

definition fromGroups :: "User \<Rightarrow> Policy \<Rightarrow> tierCandidate list" where
  "fromGroups user policy =
     concat (map (\<lambda>groupUUID.
        case p_GroupTiers policy groupUUID of
          None \<Rightarrow> []
        | Some tierID \<Rightarrow> [\<lparr>tc_TierID = tierID, tc_GroupUUID = groupUUID\<rparr>])
       (u_GroupUUIDs user))"

definition candidateTiers ::
  "User \<Rightarrow> Policy \<Rightarrow> UserPolicy \<Rightarrow> tierCandidate list \<times> ResolutionRule" where
  "candidateTiers user policy up =
     (case up_TierOverride up of
        Some tierID \<Rightarrow> ([\<lparr>tc_TierID = tierID, tc_GroupUUID = []\<rparr>], RuleUserTier)
      | None \<Rightarrow>
          let groups = fromGroups user policy in
          if groups \<noteq> [] then (sort_key tc_GroupUUID groups, RuleGroupTier)
          else (case p_DefaultTierID policy of
                  Some tierID \<Rightarrow> ([\<lparr>tc_TierID = tierID, tc_GroupUUID = []\<rparr>], RuleDefaultTier)
                | None \<Rightarrow> ([], RuleNone)))"

text \<open>One round of the loop over the candidates.\<close>

definition resolve_step ::
  "Policy \<Rightarrow> RowID \<Rightarrow> ResolutionRule \<Rightarrow> Resolution \<Rightarrow> tierCandidate \<Rightarrow> Resolution" where
  "resolve_step policy providerID rule result candidate =
     (case p_Tiers policy (tc_TierID candidate) of
        None \<Rightarrow> result\<lparr>r_Notes := r_Notes result @ [MissingTierNote (tc_TierID candidate)]\<rparr>
      | Some tier \<Rightarrow>
          let (offered, allocates) = AllocationFor tier providerID;
              entry = \<lparr>c_TierID = t_ID tier, c_TierName = t_Name tier,
                       c_GroupUUID = tc_GroupUUID candidate,
                       c_Offered = offered, c_Allocates = allocates\<rparr>;
              result = result\<lparr>r_Candidates := r_Candidates result @ [entry]\<rparr>;
              note = OvercommitNote (t_Name tier);
              result = (if Overcommitted tier \<and> note \<notin> set (r_Notes result)
                        then result\<lparr>r_Notes := r_Notes result @ [note]\<rparr> else result)
          in if \<not> allocates then result
             else if \<not> r_Present result \<or> moreGenerous offered (r_Ceiling result)
             then result\<lparr>r_Present := True, r_Ceiling := offered, r_Rule := rule,
                         r_TierID := t_ID tier, r_TierName := t_Name tier,
                         r_GroupUUID := tc_GroupUUID candidate\<rparr>
             else result)"

definition Resolve :: "User \<Rightarrow> RowID \<Rightarrow> Policy \<Rightarrow> UserPolicy \<Rightarrow> Resolution" where
  "Resolve user providerID policy up =
     (case up_ProviderOverrides up providerID of
        Some quota \<Rightarrow> empty_resolution\<lparr>r_Present := True, r_Ceiling := quota,
                        r_Rule := RuleProviderOverride\<rparr>
      | None \<Rightarrow>
          let (candidates, rule) = candidateTiers user policy up;
              result = foldl (resolve_step policy providerID rule) empty_resolution candidates
          in result\<lparr>r_Candidates := sort_key c_TierName (r_Candidates result)\<rparr>)"

definition TierNames :: "User \<Rightarrow> RowID list \<Rightarrow> Policy \<Rightarrow> UserPolicy \<Rightarrow> string list" where
  "TierNames user providerIDs policy up =
     (let tiersOnly = \<lparr>up_ProviderOverrides = Map.empty, up_TierOverride = up_TierOverride up\<rparr>;
          names = foldl (\<lambda>names providerID.
            let name = r_TierName (Resolve user providerID policy tiersOnly)
            in if name \<noteq> [] \<and> name \<notin> set names then names @ [name] else names) [] providerIDs
      in sort names)"

text \<open>The loop of \<open>EffectiveBudget\<close>: \<open>None\<close> is the early return of \<open>Unlimited\<close>.\<close>

fun EffectiveBudget_loop :: "int64 \<Rightarrow> bool \<Rightarrow> Resolution list \<Rightarrow> (int64 \<times> bool) option" where
  "EffectiveBudget_loop acc found [] = Some (acc, found)"
| "EffectiveBudget_loop acc found (r # rs) =
     (if \<not> r_Present r then EffectiveBudget_loop acc found rs
      else if Quota_IsUnlimited (r_Ceiling r) then None
      else if Quota_IsBytes (r_Ceiling r)
      then EffectiveBudget_loop (acc + q_Bytes (r_Ceiling r)) True rs
      else EffectiveBudget_loop acc found rs)"

definition EffectiveBudget :: "Resolution list \<Rightarrow> Quota" where
  "EffectiveBudget resolutions =
     (case EffectiveBudget_loop 0 False resolutions of
        None \<Rightarrow> Unlimited
      | Some (acc, found) \<Rightarrow>
          if \<not> found then Unknown
          else (case BytesQuota acc of Inl _ \<Rightarrow> Unknown | Inr q \<Rightarrow> q))"

section \<open>A running best\<close>

locale best_pick =
  fixes better :: "'a \<Rightarrow> 'a \<Rightarrow> bool" and legal :: "'a \<Rightarrow> bool"
  assumes not_better_self: "legal x \<Longrightarrow> \<not> better x x"
    and not_better_trans: "legal x \<Longrightarrow> legal y \<Longrightarrow> legal z \<Longrightarrow>
      \<not> better x y \<Longrightarrow> \<not> better y z \<Longrightarrow> \<not> better x z"
    and better_asym: "legal x \<Longrightarrow> legal y \<Longrightarrow> better x y \<Longrightarrow> \<not> better y x"
begin

definition keep :: "'a option \<Rightarrow> 'a \<Rightarrow> 'a option" where
  "keep best x = (case best of None \<Rightarrow> Some x | Some b \<Rightarrow> if better x b then Some x else Some b)"

lemma keep_fold_Some:
  "legal b \<Longrightarrow> \<forall>x \<in> set xs. legal x \<Longrightarrow>
     \<exists>m. foldl keep (Some b) xs = Some m \<and> m \<in> insert b (set xs) \<and>
         (\<forall>x \<in> insert b (set xs). \<not> better x m)"
proof (induction xs arbitrary: b)
  case Nil
  then show ?case by (simp add: not_better_self)
next
  case (Cons y ys)
  define b' where "b' = (if better y b then y else b)"
  have b': "legal b'" "keep (Some b) y = Some b'"
    using Cons.prems by (auto simp: b'_def keep_def)
  then obtain m where m: "foldl keep (Some b') ys = Some m" "m \<in> insert b' (set ys)"
    "\<forall>x \<in> insert b' (set ys). \<not> better x m"
    using Cons.IH [of b'] Cons.prems by auto
  have low: "\<not> better b b'" "\<not> better y b'"
    using Cons.prems better_asym [of y b] not_better_self by (auto simp: b'_def)
  have "legal m" using m(2) b'(1) Cons.prems by auto
  then have "\<not> better b m" "\<not> better y m"
    using low m(3) b'(1) Cons.prems not_better_trans [of b b' m] not_better_trans [of y b' m] by auto
  with m b' show ?case by (auto simp: b'_def split: if_splits)
qed

lemma keep_fold_best:
  assumes "\<forall>x \<in> set xs. legal x" "foldl keep None xs = Some m"
  shows "m \<in> set xs \<and> (\<forall>x \<in> set xs. \<not> better x m)"
proof (cases xs)
  case (Cons y ys)
  then show ?thesis using assms keep_fold_Some [of y ys] by (auto simp: keep_def)
qed (use assms in simp)

lemma keep_fold_None: "foldl keep None xs = None \<longleftrightarrow> xs = []"
proof -
  have "foldl keep (Some b) ys \<noteq> None" for b ys
    by (induction ys arbitrary: b) (auto simp: keep_def)
  then show ?thesis by (cases xs) (auto simp: keep_def)
qed

end

text \<open>The offers a tier makes: unlimited, or a byte count that is not negative.\<close>

definition is_offer :: "Quota \<Rightarrow> bool" where
  "is_offer q \<longleftrightarrow> q = Unlimited \<or> (q_Kind q = KindBytes \<and> 0 \<le> sint (q_Bytes q))"

interpretation generosity: best_pick moreGenerous is_offer
  by unfold_locales (auto simp: is_offer_def moreGenerous_def nuno_simps split: if_splits)

section \<open>What the loop computes\<close>

text \<open>What one candidate offers: the tier exists and allocates the provider.\<close>

definition offer_of :: "Policy \<Rightarrow> RowID \<Rightarrow> tierCandidate \<Rightarrow> Quota option" where
  "offer_of policy providerID c =
     (case p_Tiers policy (tc_TierID c) of
        None \<Rightarrow> None
      | Some tier \<Rightarrow>
          if snd (AllocationFor tier providerID) then Some (fst (AllocationFor tier providerID)) else None)"

definition best_of :: "Resolution \<Rightarrow> Quota option" where
  "best_of r = (if r_Present r then Some (r_Ceiling r) else None)"

lemma offer_of_legal: "offer_of policy providerID c = Some q \<Longrightarrow> is_offer q"
  by (auto simp: offer_of_def is_offer_def split: option.splits if_splits)
     (metis AllocationFor_valid prod.collapse)+

lemma resolve_step_best:
  "best_of (resolve_step policy providerID rule r c) =
     (case offer_of policy providerID c of
        None \<Rightarrow> best_of r
      | Some q \<Rightarrow> generosity.keep (best_of r) q)"
  by (auto simp: resolve_step_def offer_of_def best_of_def generosity.keep_def Let_def
      split: option.splits prod.splits)

lemma resolve_fold_best:
  "best_of (foldl (resolve_step policy providerID rule) r cs) =
     foldl generosity.keep (best_of r) (List.map_filter (offer_of policy providerID) cs)"
  by (induction cs arbitrary: r)
     (auto simp: resolve_step_best List.map_filter_simps split: option.splits)

text \<open>The recorded tier, group and rule are those of a candidate that offers the ceiling.\<close>

definition explains :: "Policy \<Rightarrow> RowID \<Rightarrow> tierCandidate \<Rightarrow> Resolution \<Rightarrow> bool" where
  "explains policy providerID c r \<longleftrightarrow>
     (case p_Tiers policy (tc_TierID c) of
        None \<Rightarrow> False
      | Some tier \<Rightarrow> AllocationFor tier providerID = (r_Ceiling r, True) \<and>
          r_TierID r = t_ID tier \<and> r_TierName r = t_Name tier \<and> r_GroupUUID r = tc_GroupUUID c)"

definition explained :: "Policy \<Rightarrow> RowID \<Rightarrow> ResolutionRule \<Rightarrow> tierCandidate set \<Rightarrow> Resolution \<Rightarrow> bool" where
  "explained policy providerID rule cs r \<longleftrightarrow>
     (if r_Present r then r_Rule r = rule \<and> (\<exists>c \<in> cs. explains policy providerID c r)
      else r_Rule r = RuleNone \<and> r_Ceiling r = Unknown \<and> r_TierName r = [])"

lemma resolve_step_explained:
  "explained policy providerID rule cs r \<Longrightarrow>
     explained policy providerID rule (insert c cs) (resolve_step policy providerID rule r c)"
  by (auto simp: explained_def explains_def resolve_step_def Let_def
      split: option.splits prod.splits if_splits)

lemma resolve_fold_explained:
  "explained policy providerID rule cs0 r \<Longrightarrow>
     explained policy providerID rule (cs0 \<union> set cs) (foldl (resolve_step policy providerID rule) r cs)"
proof (induction cs arbitrary: r cs0)
  case (Cons c cs)
  from Cons.IH [OF resolve_step_explained [OF Cons.prems, of c]] show ?case by simp
qed simp

lemma explained_mono: "explained p i rule cs r \<Longrightarrow> cs \<subseteq> cs' \<Longrightarrow> explained p i rule cs' r"
  by (auto simp: explained_def split: if_splits)

lemma r_Candidates_update_other [simp]:
  "r_Ceiling (r_Candidates_update f r) = r_Ceiling r"
  "r_TierID (r_Candidates_update f r) = r_TierID r"
  "r_TierName (r_Candidates_update f r) = r_TierName r"
  "r_GroupUUID (r_Candidates_update f r) = r_GroupUUID r"
  by (cases r; simp)+

lemma explained_Candidates [simp]:
  "explained p i rule cs (r_Candidates_update f r) = explained p i rule cs r"
  "best_of (r_Candidates_update f r) = best_of r"
  by (simp_all add: explained_def explains_def best_of_def cong: option.case_cong bex_cong)

lemma empty_resolution_simps [simp]:
  "best_of empty_resolution = None" "explained p i rule cs empty_resolution"
  by (simp_all add: best_of_def explained_def empty_resolution_def)

section \<open>Resolution picks a best offer and explains it\<close>

lemma Resolve_override:
  "up_ProviderOverrides up providerID = Some q \<Longrightarrow>
     Resolve user providerID policy up =
       empty_resolution\<lparr>r_Present := True, r_Ceiling := q, r_Rule := RuleProviderOverride\<rparr>"
  by (simp add: Resolve_def)

lemma Resolve_best:
  assumes "up_ProviderOverrides up providerID = None"
    and "candidateTiers user policy up = (cs, rule)"
  shows "best_of (Resolve user providerID policy up) =
           foldl generosity.keep None (List.map_filter (offer_of policy providerID) cs)"
    and "explained policy providerID rule (set cs) (Resolve user providerID policy up)"
  using assms resolve_fold_best [of policy providerID rule empty_resolution cs]
    resolve_fold_explained [of policy providerID rule "{}" empty_resolution cs]
  by (simp_all add: Resolve_def Let_def)

lemma set_map_filter_offer:
  "q \<in> set (List.map_filter f cs) \<longleftrightarrow> (\<exists>c \<in> set cs. f c = Some q)"
  by (force simp: List.map_filter_def)

lemma Resolve_present_iff:
  assumes "up_ProviderOverrides up providerID = None"
  shows "r_Present (Resolve user providerID policy up) \<longleftrightarrow>
     (\<exists>c \<in> set (fst (candidateTiers user policy up)). offer_of policy providerID c \<noteq> None)"
proof -
  obtain cs rule where cs: "candidateTiers user policy up = (cs, rule)" by fastforce
  have "r_Present (Resolve user providerID policy up) \<longleftrightarrow>
      best_of (Resolve user providerID policy up) \<noteq> None"
    by (simp add: best_of_def)
  also have "\<dots> \<longleftrightarrow> List.map_filter (offer_of policy providerID) cs \<noteq> []"
    using generosity.keep_fold_None by (simp only: Resolve_best(1) [OF assms cs] not_False_eq_True)
  also have "\<dots> \<longleftrightarrow> (\<exists>c \<in> set cs. offer_of policy providerID c \<noteq> None)"
    by (induction cs) (auto simp: List.map_filter_simps split: option.splits)
  finally show ?thesis by (simp add: cs)
qed

lemma Resolve_ceiling_best:
  assumes "up_ProviderOverrides up providerID = None"
    and "r_Present (Resolve user providerID policy up)"
    and "c \<in> set (fst (candidateTiers user policy up))" "offer_of policy providerID c = Some q"
  shows "\<not> moreGenerous q (r_Ceiling (Resolve user providerID policy up))"
proof -
  obtain cs rule where cs: "candidateTiers user policy up = (cs, rule)" by fastforce
  let ?os = "List.map_filter (offer_of policy providerID) cs"
  have "foldl generosity.keep None ?os = Some (r_Ceiling (Resolve user providerID policy up))"
    using Resolve_best(1) [OF assms(1) cs] assms(2) by (simp add: best_of_def)
  moreover have "\<forall>x \<in> set ?os. is_offer x"
    by (auto simp: set_map_filter_offer dest: offer_of_legal)
  moreover have "q \<in> set ?os" using assms(3,4) by (auto simp: cs set_map_filter_offer)
  ultimately show ?thesis using generosity.keep_fold_best by blast
qed

lemma Resolve_absent:
  assumes "\<not> r_Present (Resolve user providerID policy up)"
  shows "r_Ceiling (Resolve user providerID policy up) = Unknown \<and>
         r_Rule (Resolve user providerID policy up) = RuleNone"
proof (cases "up_ProviderOverrides up providerID")
  case None
  obtain cs rule where "candidateTiers user policy up = (cs, rule)" by fastforce
  from Resolve_best(2) [OF None this] assms show ?thesis by (simp add: explained_def)
qed (use assms in \<open>simp add: Resolve_override\<close>)

text \<open>A ceiling in force is an override or an offer, so it is never the unknown state by itself.\<close>

lemma Resolve_ceiling_valid:
  assumes "\<And>q. up_ProviderOverrides up providerID = Some q \<Longrightarrow> Quota_Valid q = None"
  shows "Quota_Valid (r_Ceiling (Resolve user providerID policy up)) = None"
proof (cases "up_ProviderOverrides up providerID")
  case None
  obtain cs rule where "candidateTiers user policy up = (cs, rule)" by fastforce
  from Resolve_best(2) [OF None this] show ?thesis
    by (auto simp: explained_def explains_def Quota_Valid_def dest!: AllocationFor_valid
        split: if_splits option.splits)
qed (use assms in \<open>simp add: Resolve_override\<close>)

section \<open>The order of the memberships does not matter\<close>

lemma fromGroups_set:
  "c \<in> set (fromGroups user policy) \<longleftrightarrow>
     tc_GroupUUID c \<in> set (u_GroupUUIDs user) \<and>
     p_GroupTiers policy (tc_GroupUUID c) = Some (tc_TierID c)"
  by (cases c) (auto simp: fromGroups_def split: option.splits)

lemma fromGroups_mset:
  assumes "mset (u_GroupUUIDs user') = mset (u_GroupUUIDs user)"
  shows "mset (fromGroups user' policy) = mset (fromGroups user policy)"
proof -
  have "mset (concat (map f xs)) = (\<Sum>x\<in>#mset xs. mset (f x))" for f :: "string \<Rightarrow> tierCandidate list" and xs
    by (induction xs) auto
  then show ?thesis by (simp add: fromGroups_def assms)
qed

lemma candidateTiers_perm:
  assumes "mset (u_GroupUUIDs user') = mset (u_GroupUUIDs user)"
  shows "candidateTiers user' policy up = candidateTiers user policy up"
proof -
  have ms: "mset (fromGroups user' policy) = mset (fromGroups user policy)"
    by (rule fromGroups_mset [OF assms])
  have "sort_key tc_GroupUUID (fromGroups user' policy) = sort_key tc_GroupUUID (fromGroups user policy)"
    by (rule sort_key_perm_eq [OF ms]) (auto simp: fromGroups_set)
  moreover have "fromGroups user' policy = [] \<longleftrightarrow> fromGroups user policy = []"
    using ms by (metis mset_zero_iff)
  ultimately show ?thesis by (auto simp: candidateTiers_def Let_def split: option.splits)
qed

lemma Resolve_perm:
  "mset (u_GroupUUIDs user') = mset (u_GroupUUIDs user) \<Longrightarrow>
     Resolve user' providerID policy up = Resolve user providerID policy up"
  by (simp add: Resolve_def candidateTiers_perm [of user'] split: option.split)

section \<open>More memberships never lower a ceiling that groups decide\<close>

lemma candidateTiers_groups:
  assumes "up_TierOverride up = None" "fromGroups user policy \<noteq> []"
  shows "set (fst (candidateTiers user policy up)) = set (fromGroups user policy)"
  using assms by (simp add: candidateTiers_def Let_def)

lemma Resolve_group_mono:
  assumes "up_ProviderOverrides up providerID = None" "up_TierOverride up = None"
    and "fromGroups user policy \<noteq> []"
    and sub: "set (u_GroupUUIDs user) \<subseteq> set (u_GroupUUIDs user')"
    and "r_Present (Resolve user providerID policy up)"
  shows "r_Present (Resolve user' providerID policy up)"
    and "\<not> moreGenerous (r_Ceiling (Resolve user providerID policy up))
                        (r_Ceiling (Resolve user' providerID policy up))"
proof -
  have sub': "set (fromGroups user policy) \<subseteq> set (fromGroups user' policy)"
    using sub by (auto simp: fromGroups_set)
  with assms(3) have "fromGroups user' policy \<noteq> []" by auto
  with assms sub' have cands: "set (fst (candidateTiers user policy up)) \<subseteq>
      set (fst (candidateTiers user' policy up))"
    by (simp add: candidateTiers_groups)
  then show present: "r_Present (Resolve user' providerID policy up)"
    using assms(5) by (auto simp: Resolve_present_iff [OF assms(1)])
  obtain cs rule where cs: "candidateTiers user policy up = (cs, rule)" by fastforce
  from Resolve_best(2) [OF assms(1) cs] assms(5)
  obtain c where c: "c \<in> set cs" "explains policy providerID c (Resolve user providerID policy up)"
    by (auto simp: explained_def)
  then have "offer_of policy providerID c = Some (r_Ceiling (Resolve user providerID policy up))"
    by (auto simp: explains_def offer_of_def split: option.splits)
  with c cands show "\<not> moreGenerous (r_Ceiling (Resolve user providerID policy up))
      (r_Ceiling (Resolve user' providerID policy up))"
    by (intro Resolve_ceiling_best [OF assms(1) present]) (auto simp: cs)
qed

section \<open>The effective budget\<close>

definition present_ceilings :: "Resolution list \<Rightarrow> Quota list" where
  "present_ceilings rs = map r_Ceiling (filter r_Present rs)"

lemma EffectiveBudget_loop_eq:
  "EffectiveBudget_loop acc found rs =
     (if Unlimited_kind then None
      else Some (acc + sum_list (map q_Bytes bs), found \<or> bs \<noteq> []))"
  if "Unlimited_kind \<longleftrightarrow> (\<exists>q \<in> set (present_ceilings rs). Quota_IsUnlimited q)"
    and "bs = filter Quota_IsBytes (present_ceilings rs)"
  using that
proof (induction rs arbitrary: acc found bs Unlimited_kind)
  case (Cons r rs)
  then show ?case
    by (auto simp: present_ceilings_def algebra_simps)
qed (simp add: present_ceilings_def)

lemma EffectiveBudget_unlimited:
  "\<exists>q \<in> set (present_ceilings rs). Quota_IsUnlimited q \<Longrightarrow> EffectiveBudget rs = Unlimited"
  by (simp add: EffectiveBudget_def EffectiveBudget_loop_eq [OF refl refl])

lemma EffectiveBudget_sum:
  assumes "\<forall>q \<in> set (present_ceilings rs). \<not> Quota_IsUnlimited q"
    and bs: "bs = filter Quota_IsBytes (present_ceilings rs)" "bs \<noteq> []"
    and "\<forall>q \<in> set bs. 0 \<le> sint (q_Bytes q)" "(\<Sum>q\<leftarrow>bs. sint (q_Bytes q)) < 2 ^ 63"
  shows "Quota_IsBytes (EffectiveBudget rs) \<and>
         sint (q_Bytes (EffectiveBudget rs)) = (\<Sum>q\<leftarrow>bs. sint (q_Bytes q))"
proof -
  have "sint (sum_list (map q_Bytes bs)) = (\<Sum>q\<leftarrow>bs. sint (q_Bytes q))"
    using assms(4,5) by (rule sint_sum_list_fits)
  moreover have "0 \<le> (\<Sum>q\<leftarrow>bs. sint (q_Bytes q))"
    by (rule sum_list_nonneg) (use assms(4) in auto)
  moreover have "\<not> (\<exists>q \<in> set (present_ceilings rs). Quota_IsUnlimited q)" using assms(1) by blast
  ultimately show ?thesis
    using bs(2)
    by (simp add: EffectiveBudget_def EffectiveBudget_loop_eq [OF refl bs(1)] BytesQuota_def nuno_simps
        del: bs(1))
qed

end
