(* ===== verification/PlanCore.thy ===== *)
theory PlanCore
  imports Resolve
begin

text \<open>
  \<open>internal/core/plan.go\<close>: the comparison of desired against observed ceilings, the class of
  each difference, and the one gate through which a change may be written. The locale
  \<open>normalizer\<close> is the contract an adapter's normalisation has to meet for a plan to
  converge; the adapters interpret it in their own theories.
\<close>

section \<open>Changes and plans\<close>

datatype ChangeClass = ClassSafe | ClassShrinkBelowUsage | ClassUnknownState

definition Consentable :: "ChangeClass \<Rightarrow> bool" where
  "Consentable c \<longleftrightarrow> c = ClassShrinkBelowUsage"

record Change =
  ch_UserID :: RowID
  ch_UserUID :: string
  ch_ProviderID :: RowID
  ch_Provider :: string
  ch_ExternalID :: string
  ch_From :: Quota
  ch_To :: Quota
  ch_Class :: ChangeClass
  ch_Detail :: string
  ch_Rule :: ResolutionRule
  ch_TierName :: string

record PlanAccount =
  pa_User :: User
  pa_ProviderID :: RowID
  pa_Provider :: string
  pa_ExternalID :: string
  pa_Desired :: Quota
  pa_Present :: bool
  pa_Observed :: Quota
  pa_Used :: Quota
  pa_NeverUsed :: bool
  pa_ObserveOK :: bool
  pa_Rule :: ResolutionRule
  pa_TierName :: string

record Plan =
  pl_Changes :: "Change list"
  pl_Unallocated :: nat

definition Plan_Empty :: "Plan \<Rightarrow> bool" where
  "Plan_Empty p \<longleftrightarrow> pl_Changes p = []"

definition CountByClass :: "Plan \<Rightarrow> ChangeClass \<rightharpoonup> nat" where
  "CountByClass p =
     foldl (\<lambda>counts c. counts(ch_Class c \<mapsto>
        (case counts (ch_Class c) of None \<Rightarrow> 0 | Some n \<Rightarrow> n) + 1)) Map.empty (pl_Changes p)"

fun Applicable_loop :: "bool \<Rightarrow> Change list \<Rightarrow> Change list" where
  "Applicable_loop consentShrink [] = []"
| "Applicable_loop consentShrink (c # cs) =
     (case ch_Class c of
        ClassSafe \<Rightarrow> c # Applicable_loop consentShrink cs
      | ClassShrinkBelowUsage \<Rightarrow>
          if consentShrink then c # Applicable_loop consentShrink cs
          else Applicable_loop consentShrink cs
      | ClassUnknownState \<Rightarrow> Applicable_loop consentShrink cs)"

definition Applicable :: "Plan \<Rightarrow> bool \<Rightarrow> Change list" where
  "Applicable p consentShrink = Applicable_loop consentShrink (pl_Changes p)"

section \<open>Classification\<close>

definition classify :: "PlanAccount \<Rightarrow> ChangeClass \<times> string" where
  "classify account =
     (if \<not> pa_ObserveOK account
      then (ClassUnknownState, ''this account was not read successfully in this cycle'')
      else if \<not> Quota_IsKnown (pa_Observed account)
      then (ClassUnknownState, ''the provider did not report a configured quota for this account'')
      else if \<not> Quota_IsKnown (pa_Used account)
      then (ClassUnknownState, ''the provider's usage for this account could not be trusted'')
      else if \<not> Quota_IsKnown (pa_Desired account)
      then (ClassUnknownState, ''the desired ceiling could not be expressed for this provider'')
      else if Quota_IsBytes (pa_Desired account) \<and> Quota_IsBytes (pa_Used account) \<and>
              sint (q_Bytes (pa_Desired account)) \<le> sint (q_Bytes (pa_Used account))
      then if pa_NeverUsed account \<and> 0 < sint (q_Bytes (pa_Desired account)) then (ClassSafe, '''')
           else (ClassShrinkBelowUsage,
                 Quota_String (pa_Desired account) @ '' is at or below the '' @
                 Quota_String (pa_Used account) @
                 '' already stored, which blocks uploads immediately'')
      else (ClassSafe, ''''))"

definition change_of :: "PlanAccount \<Rightarrow> Change" where
  "change_of account =
     (let (class, detail) = classify account in
      \<lparr>ch_UserID = u_ID (pa_User account), ch_UserUID = u_UID (pa_User account),
       ch_ProviderID = pa_ProviderID account, ch_Provider = pa_Provider account,
       ch_ExternalID = pa_ExternalID account, ch_From = pa_Observed account,
       ch_To = pa_Desired account, ch_Class = class, ch_Detail = detail,
       ch_Rule = pa_Rule account, ch_TierName = pa_TierName account\<rparr>)"

definition change_key :: "Change \<Rightarrow> string \<times> string" where
  "change_key c = (ch_UserUID c, ch_Provider c)"

definition BuildPlan_step :: "Plan \<Rightarrow> PlanAccount \<Rightarrow> Plan" where
  "BuildPlan_step plan account =
     (if \<not> pa_Present account then plan\<lparr>pl_Unallocated := pl_Unallocated plan + 1\<rparr>
      else if fst (classify account) \<noteq> ClassUnknownState \<and>
              Quota_Equal (pa_Desired account) (pa_Observed account) then plan
      else plan\<lparr>pl_Changes := pl_Changes plan @ [change_of account]\<rparr>)"

definition BuildPlan :: "PlanAccount list \<Rightarrow> Plan" where
  "BuildPlan accounts =
     (let plan = foldl BuildPlan_step \<lparr>pl_Changes = [], pl_Unallocated = 0\<rparr> accounts
      in plan\<lparr>pl_Changes := sort_key change_key (pl_Changes plan)\<rparr>)"

section \<open>What the gate lets through\<close>

lemma Applicable_filter:
  "Applicable p consent =
     filter (\<lambda>c. ch_Class c = ClassSafe \<or> consent \<and> ch_Class c = ClassShrinkBelowUsage) (pl_Changes p)"
proof -
  have "Applicable_loop consent cs =
      filter (\<lambda>c. ch_Class c = ClassSafe \<or> consent \<and> ch_Class c = ClassShrinkBelowUsage) cs" for cs
    by (induction cs) (auto split: ChangeClass.splits)
  then show ?thesis by (simp add: Applicable_def)
qed

lemma Applicable_not_unknown: "c \<in> set (Applicable p consent) \<Longrightarrow> ch_Class c \<noteq> ClassUnknownState"
  by (auto simp: Applicable_filter)

lemma CountByClass_loop:
  "foldl (\<lambda>counts c. counts(ch_Class c \<mapsto>
        (case counts (ch_Class c) of None \<Rightarrow> 0 | Some n \<Rightarrow> n) + 1)) m cs k =
     (let n = length (filter (\<lambda>c. ch_Class c = k) cs) in
      if n = 0 then m k else Some ((case m k of None \<Rightarrow> 0 | Some n \<Rightarrow> n) + n))"
  by (induction cs arbitrary: m) (auto simp: Let_def split: option.splits)

lemma CountByClass_eq:
  "CountByClass p k =
     (let n = length (filter (\<lambda>c. ch_Class c = k) (pl_Changes p)) in if n = 0 then None else Some n)"
  unfolding CountByClass_def by (simp only: CountByClass_loop option.case Let_def add_0)

section \<open>What a class promises\<close>

text \<open>
  The state a write is decided on is trusted: it was read in this cycle, and the configured
  quota, the usage and the desired ceiling are all known.
\<close>

definition trusted :: "PlanAccount \<Rightarrow> bool" where
  "trusted a \<longleftrightarrow> pa_ObserveOK a \<and> Quota_IsKnown (pa_Observed a) \<and> Quota_IsKnown (pa_Used a) \<and>
     Quota_IsKnown (pa_Desired a)"

definition blocks_uploads :: "Quota \<Rightarrow> Quota \<Rightarrow> bool" where
  "blocks_uploads desired used \<longleftrightarrow>
     Quota_IsBytes desired \<and> Quota_IsBytes used \<and> sint (q_Bytes desired) \<le> sint (q_Bytes used)"

text \<open>An account nobody ever used stores nothing: what the adapters report with \<open>NeverUsed\<close>.\<close>

definition never_used_ok :: "PlanAccount \<Rightarrow> bool" where
  "never_used_ok a \<longleftrightarrow> (pa_NeverUsed a \<and> Quota_IsBytes (pa_Used a) \<longrightarrow> q_Bytes (pa_Used a) = 0)"

lemma classify_unknown_iff: "fst (classify a) = ClassUnknownState \<longleftrightarrow> \<not> trusted a"
  by (auto simp: classify_def trusted_def)

lemma classify_safe_iff:
  "fst (classify a) = ClassSafe \<longleftrightarrow> trusted a \<and>
     (blocks_uploads (pa_Desired a) (pa_Used a) \<longrightarrow>
        pa_NeverUsed a \<and> 0 < sint (q_Bytes (pa_Desired a)))"
  by (auto simp: classify_def trusted_def blocks_uploads_def)

lemma classify_safe_iff':
  assumes "never_used_ok a"
  shows "fst (classify a) = ClassSafe \<longleftrightarrow> trusted a \<and> \<not> blocks_uploads (pa_Desired a) (pa_Used a)"
  using assms by (auto simp: classify_safe_iff never_used_ok_def blocks_uploads_def)

lemma classify_shrink_iff:
  assumes "never_used_ok a"
  shows "fst (classify a) = ClassShrinkBelowUsage \<longleftrightarrow>
     trusted a \<and> blocks_uploads (pa_Desired a) (pa_Used a)"
  using classify_safe_iff' [OF assms] classify_unknown_iff [of a]
  by (cases "fst (classify a)") auto

section \<open>What a plan holds\<close>

definition differs :: "PlanAccount \<Rightarrow> bool" where
  "differs a \<longleftrightarrow> \<not> (trusted a \<and> Quota_Equal (pa_Desired a) (pa_Observed a))"

lemma change_of_simps [simp]:
  "ch_Class (change_of a) = fst (classify a)"
  "ch_To (change_of a) = pa_Desired a" "ch_From (change_of a) = pa_Observed a"
  "ch_UserID (change_of a) = u_ID (pa_User a)" "ch_UserUID (change_of a) = u_UID (pa_User a)"
  "ch_ProviderID (change_of a) = pa_ProviderID a" "ch_Provider (change_of a) = pa_Provider a"
  "ch_ExternalID (change_of a) = pa_ExternalID a"
  by (simp_all add: change_of_def split: prod.split)

lemma BuildPlan_fold:
  "foldl BuildPlan_step plan accounts =
     plan\<lparr>pl_Changes := pl_Changes plan @
            map change_of (filter (\<lambda>a. pa_Present a \<and> differs a) accounts),
          pl_Unallocated := pl_Unallocated plan + length (filter (\<lambda>a. \<not> pa_Present a) accounts)\<rparr>"
  by (induction accounts arbitrary: plan)
     (auto simp: BuildPlan_step_def classify_unknown_iff differs_def)

lemma BuildPlan_eq:
  "pl_Changes (BuildPlan accounts) =
     sort_key change_key (map change_of (filter (\<lambda>a. pa_Present a \<and> differs a) accounts))"
  "pl_Unallocated (BuildPlan accounts) = length (filter (\<lambda>a. \<not> pa_Present a) accounts)"
  by (simp_all add: BuildPlan_def BuildPlan_fold)

lemma BuildPlan_mset:
  "mset (pl_Changes (BuildPlan accounts)) =
     image_mset change_of (filter_mset (\<lambda>a. pa_Present a \<and> differs a) (mset accounts))"
  by (simp add: BuildPlan_eq)

lemma BuildPlan_sorted: "sorted (map change_key (pl_Changes (BuildPlan accounts)))"
  by (simp add: BuildPlan_eq)

lemma BuildPlan_set:
  "c \<in> set (pl_Changes (BuildPlan accounts)) \<longleftrightarrow>
     (\<exists>a \<in> set accounts. pa_Present a \<and> differs a \<and> c = change_of a)"
  by (auto simp: BuildPlan_eq)

text \<open>
  One change per person and provider makes the order total, and then the plan depends on the
  set of accounts alone.
\<close>

lemma BuildPlan_order_independent:
  assumes "mset accounts = mset accounts'"
    and uniq: "\<And>a b. a \<in> set accounts \<Longrightarrow> b \<in> set accounts \<Longrightarrow>
      u_UID (pa_User a) = u_UID (pa_User b) \<Longrightarrow> pa_Provider a = pa_Provider b \<Longrightarrow> a = b"
  shows "BuildPlan accounts = BuildPlan accounts'"
proof -
  have "pl_Changes (BuildPlan accounts) = pl_Changes (BuildPlan accounts')"
    unfolding BuildPlan_eq
  proof (rule sort_key_perm_eq)
    show "mset (map change_of (filter (\<lambda>a. pa_Present a \<and> differs a) accounts)) =
        mset (map change_of (filter (\<lambda>a. pa_Present a \<and> differs a) accounts'))"
      using assms(1) by simp
  next
    fix c d
    assume cd: "c \<in> set (map change_of (filter (\<lambda>a. pa_Present a \<and> differs a) accounts))"
      "d \<in> set (map change_of (filter (\<lambda>a. pa_Present a \<and> differs a) accounts))"
      "change_key c = change_key d"
    then obtain a b where "a \<in> set accounts" "c = change_of a" "b \<in> set accounts" "d = change_of b"
      by auto
    with uniq [of a b] cd(3) show "c = d" by (simp add: change_key_def)
  qed
  moreover have "pl_Unallocated (BuildPlan accounts) = pl_Unallocated (BuildPlan accounts')"
    using assms(1) by (metis BuildPlan_eq(2) mset_filter size_mset)
  ultimately show ?thesis by simp
qed

section \<open>What may be written\<close>

lemma Applicable_source:
  assumes "c \<in> set (Applicable (BuildPlan accounts) consent)"
  obtains a where "a \<in> set accounts" "c = change_of a" "pa_Present a" "trusted a"
    "\<not> Quota_Equal (pa_Desired a) (pa_Observed a)"
proof -
  from assms have "c \<in> set (pl_Changes (BuildPlan accounts))" "ch_Class c \<noteq> ClassUnknownState"
    by (auto simp: Applicable_filter)
  then show ?thesis
    using that by (auto simp: BuildPlan_set differs_def classify_unknown_iff)
qed

lemma Applicable_blocks:
  assumes "c \<in> set (Applicable (BuildPlan accounts) False)"
    and "\<forall>a \<in> set accounts. never_used_ok a"
  shows "\<exists>a \<in> set accounts. c = change_of a \<and> \<not> blocks_uploads (ch_To c) (pa_Used a)"
proof -
  from assms(1) obtain a where a: "a \<in> set accounts" "c = change_of a"
    by (rule Applicable_source)
  moreover have "ch_Class c = ClassSafe" using assms(1) by (simp add: Applicable_filter)
  ultimately show ?thesis using assms(2) by (auto simp: classify_safe_iff')
qed

section \<open>Convergence\<close>

lemma BuildPlan_settled:
  assumes "\<forall>a \<in> set accounts. pa_Present a \<longrightarrow> trusted a \<and> Quota_Equal (pa_Desired a) (pa_Observed a)"
  shows "pl_Changes (BuildPlan accounts) = []"
proof -
  have "filter (\<lambda>a. pa_Present a \<and> differs a) accounts = []"
    using assms by (auto simp: filter_empty_conv differs_def)
  then show ?thesis by (simp only: BuildPlan_eq) simp
qed

text \<open>
  What an adapter's normalisation promises: a value it settled on is a valid quota and is
  stored as it is, and it never turns a state that is not a number into one.
\<close>

locale normalizer =
  fixes norm :: "Quota \<Rightarrow> Quota"
  assumes norm_valid: "Quota_Valid q = None \<Longrightarrow> Quota_Valid (norm q) = None"
    and norm_idem: "Quota_Valid q = None \<Longrightarrow> norm (norm q) = norm q"
    and norm_Unknown: "norm Unknown = Unknown"
begin

text \<open>The account after the ceiling was normalised, written, and read back.\<close>

definition settle :: "Quota \<Rightarrow> PlanAccount \<Rightarrow> PlanAccount" where
  "settle cl a =
     a\<lparr>pa_Desired := norm cl, pa_Observed := norm (norm cl), pa_ObserveOK := True\<rparr>"

lemma settle_equal:
  "Quota_Valid cl = None \<Longrightarrow>
     Quota_Equal (pa_Desired (settle cl a)) (pa_Observed (settle cl a))"
  by (simp add: settle_def norm_idem)

lemma settle_trusted:
  "Quota_Valid cl = None \<Longrightarrow> Quota_IsKnown (norm cl) \<Longrightarrow> Quota_IsKnown (pa_Used a) \<Longrightarrow>
     trusted (settle cl a)"
  by (simp add: settle_def trusted_def norm_idem)

lemma plan_converges:
  assumes "\<forall>a \<in> set accounts. Quota_Valid (cl a) = None \<and> Quota_IsKnown (norm (cl a)) \<and>
      Quota_IsKnown (pa_Used a)"
  shows "pl_Changes (BuildPlan (map (\<lambda>a. settle (cl a) a) accounts)) = []"
  by (rule BuildPlan_settled) (use assms in \<open>auto simp: settle_equal settle_trusted\<close>)

end

end
