(* ===== verification/NcQuota.thy ===== *)
theory NcQuota
  imports PlanCore
begin

text \<open>
  \<open>internal/providers/nextcloud/quota.go\<close>: how a Nextcloud instance stores a quota. A byte
  count becomes a rounded human size and the human size becomes a byte count again; the
  adapter predicts the result with the same floating point steps, written here on the
  doubles of \<open>Float64\<close>. The lemmas describe the trip in integers (kilobytes, then tenths of
  a unit) and show that a second trip changes nothing, over the whole range of \<open>int64\<close>.
\<close>

section \<open>The round trip of a byte count\<close>

definition SpaceUnlimited :: int64 where
  "SpaceUnlimited = -3"

definition unitFactors :: "(string \<times> rat) list" where
  "unitFactors =
     [(''B'', 1), (''KB'', 1024), (''MB'', 1048576), (''GB'', 1073741824),
      (''TB'', 1099511627776), (''PB'', 1125899906842624)]"

definition round1 :: "rat \<Rightarrow> rat" where
  "round1 v = fdiv (MathRound (fmul v 10)) 10"

text \<open>The loop over the units after KB; the last one is reached by falling out of the loop.\<close>

fun humanFileSize_loop :: "rat \<Rightarrow> string list \<Rightarrow> rat \<times> string" where
  "humanFileSize_loop v [] = (round1 (fdiv v 1024), ''PB'')"
| "humanFileSize_loop v (unit # units) =
     (let v' = round1 (fdiv v 1024) in
      if v' < 1024 then (v', unit) else humanFileSize_loop v' units)"

definition humanFileSize :: "int64 \<Rightarrow> rat \<times> string" where
  "humanFileSize n =
     (if sint n < 1024 then (f64_of_int (sint n), ''B'')
      else let v = MathRound (fdiv (f64_of_int (sint n)) 1024) in
           if v < 1024 then (v, ''KB'') else humanFileSize_loop v [''MB'', ''GB'', ''TB''])"

datatype size_error = UnknownUnit string | NoNumber string | BadNumber string

text \<open>
  \<open>oor\<close> is what the implementation's conversion yields for a value outside \<open>int64\<close>, see
  \<^const>\<open>i64_of_f64\<close>.
\<close>

definition computerFileSize :: "int64 \<Rightarrow> rat \<Rightarrow> string \<Rightarrow> size_error + int64" where
  "computerFileSize oor v unit =
     (case map_of unitFactors unit of
        None \<Rightarrow> Inl (UnknownUnit unit)
      | Some factor \<Rightarrow> Inr (i64_of_f64 oor (MathRound (fmul v factor))))"

definition normalizeBytes :: "int64 \<Rightarrow> int64 \<Rightarrow> size_error + int64" where
  "normalizeBytes oor n = (case humanFileSize n of (v, unit) \<Rightarrow> computerFileSize oor v unit)"

definition NcNormalizeQuota :: "int64 \<Rightarrow> Quota \<Rightarrow> Quota" where
  "NcNormalizeQuota oor q =
     (case q_Kind q of
        KindUnlimited \<Rightarrow> q
      | KindBytes \<Rightarrow>
          (case normalizeBytes oor (q_Bytes q) of
             Inl _ \<Rightarrow> Unknown
           | Inr n \<Rightarrow> (case BytesQuota n of Inl _ \<Rightarrow> Unknown | Inr normalized \<Rightarrow> normalized))
      | _ \<Rightarrow> Unknown)"

section \<open>The trip in integers\<close>

text \<open>
  Kilobytes of a byte count, tenths of the next unit from kilobytes, and tenths of the next
  unit from tenths.
\<close>

definition kilos :: "int \<Rightarrow> int" where
  "kilos n = \<lfloor>f64_of_int n / 1024 + 1 / 2\<rfloor>"

definition tenths :: "int \<Rightarrow> int" where
  "tenths k = \<lfloor>fl (of_int k * 10) / 1024 + 1 / 2\<rfloor>"

definition next_tenths :: "int \<Rightarrow> int" where
  "next_tenths m = (m + 512) div 1024"

lemma fl_div_1024: "fl (x / 1024) = fl x / 1024"
proof -
  have "(2 :: rat) powi (- 10) = 1 / 1024" by (simp add: power_int_minus)
  with fl_scale [of x "- 10"] show ?thesis by simp
qed

lemma fl_div_1024_mult: "fl (x / 1024 * y) = fl (x * y) / 1024"
  using fl_div_1024 [of "x * y"] by simp

lemma fl_mult_pow: "fl (x * 2 ^ k) = fl x * 2 ^ k"
  using fl_scale [of x "int k"] by (simp only: power_int_of_nat)

lemma kilos_float:
  assumes "0 \<le> n"
  shows "MathRound (fdiv (f64_of_int n) 1024) = of_int (kilos n)"
proof -
  have "fdiv (f64_of_int n) 1024 = f64_of_int n / 1024"
    using assms unfolding fdiv_def fl_div_1024 f64_of_int_def by (subst fl_idem) auto
  moreover have "0 \<le> f64_of_int n" using assms by (simp add: f64_of_int_def fl_nonneg)
  ultimately show ?thesis by (simp only: kilos_def) (simp add: MathRound_nonneg)
qed

lemma tenths_float:
  assumes "0 \<le> k" "k \<le> 2 ^ 53"
  shows "round1 (fdiv (of_int k) 1024) = fl (of_int (tenths k) / 10)"
proof -
  have "fl (of_int k) = of_int k"
    using assms fl_int [of k] fl_exact [of 1 53] by (cases "k = 2 ^ 53") auto
  then have "fmul (fdiv (of_int k) 1024) 10 = fl (of_int k * 10) / 1024"
    unfolding fdiv_def fmul_def fl_div_1024 fl_div_1024_mult by simp
  moreover have "0 \<le> fl (of_int k * 10)" using assms by (intro fl_nonneg) simp
  ultimately show ?thesis
    unfolding round1_def tenths_def by (simp only: MathRound_nonneg fdiv_def)
qed

lemma next_tenths_float:
  assumes "0 \<le> m" "m < 2 ^ 49"
  shows "round1 (fdiv (fl (of_int m / 10)) 1024) = fl (of_int (next_tenths m) / 10)"
proof -
  have "fl (10 * fl (of_int m / 10)) = of_int m"
    using assms fl_tenth [of m] by (cases "m = 0") auto
  then have "fl (fl (of_int m / 10) * 10) = of_int m" by (simp add: mult.commute)
  then have "fmul (fdiv (fl (of_int m / 10)) 1024) 10 = of_int m / 1024"
    using assms fl_idem [of "of_int m / 10"]
    unfolding fdiv_def fmul_def fl_div_1024 fl_div_1024_mult by simp
  moreover have "\<lfloor>of_int m / 1024 + 1 / 2 :: rat\<rfloor> = next_tenths m"
  proof -
    have "of_int m / 1024 + 1 / 2 = (of_int (m + 512) / of_int 1024 :: rat)" by (simp add: field_simps)
    then show ?thesis by (simp only: floor_divide_of_int_eq next_tenths_def)
  qed
  ultimately show ?thesis
    using assms unfolding round1_def by (simp only: MathRound_nonneg fdiv_def)
qed

lemma tenths_below: "0 \<le> m \<Longrightarrow> fl (of_int m / 10) < 1024 \<longleftrightarrow> m < 10240"
proof
  assume m: "0 \<le> m" and "fl (of_int m / 10) < 1024"
  then show "m < 10240"
    using fl_ge_powi [of 10 "of_int m / 10"] by (cases "m < 10240") auto
next
  assume m: "0 \<le> m" "m < 10240"
  show "fl (of_int m / 10) < 1024"
  proof (cases "m = 0")
    case False
    then have "\<bar>fl (of_int m / 10) - of_int m / 10\<bar> \<le> of_int m / 10 / 2 ^ 53"
      using m by (intro fl_rel_error) simp
    then have "fl (of_int m / 10) \<le> of_int m / 10 + of_int m / 10 / 2 ^ 53"
      by (simp only: abs_le_iff) linarith
    also have "(of_int m :: rat) \<le> 10239" using m by linarith
    then have "of_int m / 10 + of_int m / 10 / 2 ^ 53 < (1024 :: rat)" by (simp add: field_simps)
    finally show ?thesis .
  qed simp
qed

section \<open>The size in integers\<close>

datatype size = Plain int | Kilo int | Tenths int string

definition int_size :: "int \<Rightarrow> size" where
  "int_size n =
     (if n < 1024 then Plain n
      else if kilos n < 1024 then Kilo (kilos n)
      else let m1 = tenths (kilos n) in
      if m1 < 10240 then Tenths m1 ''MB''
      else let m2 = next_tenths m1 in
      if m2 < 10240 then Tenths m2 ''GB''
      else let m3 = next_tenths m2 in
      if m3 < 10240 then Tenths m3 ''TB'' else Tenths (next_tenths m3) ''PB'')"

definition float_size :: "size \<Rightarrow> rat \<times> string" where
  "float_size s =
     (case s of Plain n \<Rightarrow> (f64_of_int n, ''B'') | Kilo k \<Rightarrow> (of_int k, ''KB'')
      | Tenths m unit \<Rightarrow> (fl (of_int m / 10), unit))"

lemma kilos_bounds:
  assumes "1024 \<le> n" "n < 2 ^ 63"
  shows "1 \<le> kilos n" "kilos n \<le> 2 ^ 53"
    "\<bar>of_int (kilos n) - of_int n / 1024\<bar> \<le> (3 / 2 :: rat)"
proof -
  have n: "2 powi 10 \<le> (of_int n :: rat)" "(of_int n :: rat) \<le> 2 powi 63"
    using assms by simp_all
  have "2 powi 10 \<le> fl (of_int n)" by (rule fl_ge_powi) (rule n)
  then show "1 \<le> kilos n" unfolding kilos_def f64_of_int_def by (simp add: le_floor_iff)
  have "fl (of_int n) \<le> 2 powi 63" by (rule fl_le_powi) (use n assms in auto)
  then show "kilos n \<le> 2 ^ 53" unfolding kilos_def f64_of_int_def by (simp add: floor_le_iff)
  have "\<bar>fl (of_int n) - of_int n\<bar> \<le> (of_int n :: rat) / 2 ^ 53"
    using assms by (intro fl_rel_error) simp
  also have "\<dots> \<le> 1024" using n by simp
  finally have err: "fl (of_int n) - of_int n \<le> (1024 :: rat)" "of_int n - fl (of_int n) \<le> (1024 :: rat)"
    by linarith+
  have fl2: "of_int (kilos n) \<le> fl (of_int n) / 1024 + 1 / 2" "fl (of_int n) / 1024 - 1 / 2 \<le> of_int (kilos n)"
    unfolding kilos_def f64_of_int_def by linarith+
  show "\<bar>of_int (kilos n) - of_int n / 1024\<bar> \<le> (3 / 2 :: rat)"
    using err fl2 by (simp only: abs_le_iff) (simp add: field_simps)
qed

lemma tenths_near:
  assumes "0 < k" "k \<le> 2 ^ 53"
  shows "\<bar>fl (of_int k * 10) / 1024 - of_int k * 10 / 1024\<bar> \<le> (1 / 100 :: rat)"
proof -
  have "\<bar>fl (of_int k * 10) - of_int k * 10\<bar> \<le> (of_int k * 10 :: rat) / 2 ^ 53"
    using assms by (intro fl_rel_error) simp
  also have "(of_int k :: rat) \<le> 2 ^ 53" using assms(2) by (metis of_int_le_iff of_int_numeral of_int_power)
  then have "(of_int k * 10 :: rat) / 2 ^ 53 \<le> 10" by simp
  finally show ?thesis by (simp only: abs_le_iff) (simp add: field_simps)
qed

lemma tenths_unique:
  assumes "0 < k" "k \<le> 2 ^ 53" "\<bar>of_int k * 10 / 1024 - of_int m\<bar> \<le> (1 / 4 :: rat)"
  shows "tenths k = m"
proof -
  have "of_int m \<le> fl (of_int k * 10) / 1024 + (1 / 2 :: rat)"
    "fl (of_int k * 10) / 1024 + (1 / 2 :: rat) < of_int m + 1"
    using tenths_near [OF assms(1,2)] assms(3) by (simp_all only: abs_le_iff) linarith+
  then show ?thesis unfolding tenths_def by (simp only: floor_eq_iff)
qed

lemma tenths_bounds:
  assumes "1024 \<le> k" "k \<le> 2 ^ 53"
  shows "10 \<le> tenths k" "tenths k < 2 ^ 48"
proof -
  have k: "(1024 :: rat) \<le> of_int k" "(of_int k :: rat) \<le> 2 ^ 53"
    using assms by (simp, metis of_int_le_iff of_int_numeral of_int_power)
  have near: "fl (of_int k * 10) / 1024 \<le> of_int k * 10 / 1024 + (1 / 100 :: rat)"
    "of_int k * 10 / 1024 - (1 / 100 :: rat) \<le> fl (of_int k * 10) / 1024"
    using tenths_near [of k] assms unfolding abs_le_iff by linarith+
  show "10 \<le> tenths k"
    unfolding tenths_def le_floor_iff using near(2) k(1) by simp
  show "tenths k < 2 ^ 48"
    unfolding tenths_def floor_less_iff using near(1) k(2) by simp
qed

lemma next_tenths_bounds:
  assumes "10240 \<le> m" "m < 2 ^ 48"
  shows "10 \<le> next_tenths m" "next_tenths m < 2 ^ 48"
proof -
  have "(10240 + 512) div 1024 \<le> (m + 512) div 1024" using assms(1) by (intro zdiv_mono1) auto
  then show "10 \<le> next_tenths m" by (simp add: next_tenths_def)
  have "(m + 512) div 1024 \<le> (2 ^ 48 + 512) div 1024" using assms(2) by (intro zdiv_mono1) auto
  then show "next_tenths m < 2 ^ 48" by (simp add: next_tenths_def)
qed

lemma humanFileSize_int:
  assumes "0 \<le> sint n"
  shows "humanFileSize n = float_size (int_size (sint n))"
proof (cases "sint n < 1024 \<or> kilos (sint n) < 1024")
  case True
  then show ?thesis
    using assms by (auto simp: humanFileSize_def int_size_def float_size_def kilos_float Let_def)
next
  case False
  let ?k = "kilos (sint n)"
  have k: "1024 \<le> ?k" "?k \<le> 2 ^ 53"
    using False kilos_bounds(2) [of "sint n"] sint_i64_upper [of n] by auto
  define m1 where "m1 = tenths ?k"
  define m2 where "m2 = next_tenths m1"
  define m3 where "m3 = next_tenths m2"
  have m1: "10 \<le> m1" "m1 < 2 ^ 48" using tenths_bounds [OF k] by (simp_all add: m1_def)
  have m2: "10 \<le> m2" "m2 < 2 ^ 48" if "\<not> m1 < 10240"
    using next_tenths_bounds [of m1] m1 that by (simp_all add: m2_def)
  have m3: "10 \<le> m3" "m3 < 2 ^ 48" if "\<not> m1 < 10240" "\<not> m2 < 10240"
    using next_tenths_bounds [of m2] m2 that by (simp_all add: m3_def)
  have "humanFileSize n = humanFileSize_loop (of_int ?k) [''MB'', ''GB'', ''TB'']"
    using False assms by (simp add: humanFileSize_def kilos_float)
  also have "round1 (fdiv (of_int ?k) 1024) = fl (of_int m1 / 10)"
    using tenths_float [of ?k] k by (simp add: m1_def)
  moreover have "round1 (fdiv (fl (of_int m1 / 10)) 1024) = fl (of_int m2 / 10)"
    using next_tenths_float [of m1] m1 by (simp add: m2_def)
  moreover have "round1 (fdiv (fl (of_int m2 / 10)) 1024) = fl (of_int m3 / 10)" if "\<not> m1 < 10240"
    using next_tenths_float [of m2] m2 [OF that] by (simp add: m3_def)
  moreover have "round1 (fdiv (fl (of_int m3 / 10)) 1024) = fl (of_int (next_tenths m3) / 10)"
    if "\<not> m1 < 10240" "\<not> m2 < 10240"
    using next_tenths_float [of m3] m3 [OF that] by simp
  moreover have "fl (of_int m1 / 10) < 1024 \<longleftrightarrow> m1 < 10240"
    "\<not> m1 < 10240 \<Longrightarrow> fl (of_int m2 / 10) < 1024 \<longleftrightarrow> m2 < 10240"
    "\<not> m1 < 10240 \<Longrightarrow> \<not> m2 < 10240 \<Longrightarrow> fl (of_int m3 / 10) < 1024 \<longleftrightarrow> m3 < 10240"
    using m1 m2 m3 by (simp_all add: tenths_below)
  ultimately show ?thesis
    using False
    by (simp add: int_size_def float_size_def Let_def m1_def [symmetric]
        m2_def [symmetric] m3_def [symmetric])
qed

section \<open>Back to bytes\<close>

definition exponent :: "string \<Rightarrow> nat" where
  "exponent unit = (if unit = ''MB'' then 20 else if unit = ''GB'' then 30
     else if unit = ''TB'' then 40 else 50)"

definition size_bytes :: "size \<Rightarrow> int" where
  "size_bytes s =
     (case s of Plain n \<Rightarrow> n | Kilo k \<Rightarrow> k * 1024
      | Tenths m unit \<Rightarrow> \<lfloor>fl (of_int m / 10) * 2 ^ exponent unit + 1 / 2\<rfloor>)"

text \<open>The sizes the first half of the trip produces.\<close>

definition size_ok :: "size \<Rightarrow> bool" where
  "size_ok s \<longleftrightarrow>
     (case s of Plain n \<Rightarrow> 0 \<le> n \<and> n < 1024 | Kilo k \<Rightarrow> 1 \<le> k \<and> k < 1024
      | Tenths m unit \<Rightarrow> 10 \<le> m \<and> m < 2 ^ 48 \<and> unit \<in> {''MB'', ''GB'', ''TB'', ''PB''} \<and>
          (m < 10240 \<or> unit = ''PB''))"

lemma int_size_ok:
  assumes "0 \<le> n" "n < 2 ^ 63"
  shows "size_ok (int_size n)"
proof (cases "n < 1024 \<or> kilos n < 1024")
  case True
  then show ?thesis using assms kilos_bounds [of n] by (auto simp: int_size_def size_ok_def)
next
  case False
  with assms have k: "1024 \<le> kilos n" "kilos n \<le> 2 ^ 53" using kilos_bounds [of n] by auto
  show ?thesis
    using False tenths_bounds [OF k] next_tenths_bounds [of "tenths (kilos n)"]
      next_tenths_bounds [of "next_tenths (tenths (kilos n))"]
      next_tenths_bounds [of "next_tenths (next_tenths (tenths (kilos n)))"]
    by (auto simp: int_size_def size_ok_def Let_def not_less)
qed

lemma computerFileSize_size:
  assumes "size_ok s" "float_size s = (v, unit)"
  shows "computerFileSize oor v unit =
     Inr (if fits_i64 (size_bytes s) then word_of_int (size_bytes s) else oor)"
proof -
  have round: "MathRound (fmul v f) = of_int (size_bytes s)" if "map_of unitFactors unit = Some f" for f
  proof (cases s)
    case (Plain n)
    then show ?thesis
      using assms that
      by (auto simp: float_size_def size_ok_def size_bytes_def unitFactors_def fmul_def f64_of_int_def fl_int)
  next
    case (Kilo k)
    then have "fmul v f = of_int (k * 1024)"
      using assms that fl_int [of "k * 1024"]
      by (auto simp: float_size_def size_ok_def unitFactors_def fmul_def)
    then show ?thesis unfolding Kilo size_bytes_def by (simp only: MathRound_int size.case)
  next
    case (Tenths m unit')
    then have v: "v = fl (of_int m / 10)" "unit' = unit" and m: "10 \<le> m"
      and u: "unit \<in> {''MB'', ''GB'', ''TB'', ''PB''}"
      using assms by (auto simp: float_size_def size_ok_def)
    have f: "f = 2 ^ exponent unit"
      using that u by (auto simp: unitFactors_def exponent_def)
    have "fmul v f = fl (of_int m / 10) * 2 ^ exponent unit"
      using m fl_idem [of "of_int m / 10"] by (simp add: fmul_def v f fl_mult_pow)
    moreover have "0 \<le> fl (of_int m / 10)" using m by (intro fl_nonneg) simp
    ultimately show ?thesis by (simp add: Tenths v size_bytes_def MathRound_nonneg)
  qed
  moreover have "\<exists>f. map_of unitFactors unit = Some f"
    using assms by (auto simp: float_size_def size_ok_def unitFactors_def split: size.splits)
  ultimately show ?thesis
    by (auto simp: computerFileSize_def i64_of_f64_def simp del: fits_i64_code)
qed

section \<open>The second trip changes nothing\<close>

lemma size_bytes_near:
  assumes "0 < m" "\<lfloor>fl (of_int m / 10) * 2 ^ e + 1 / 2\<rfloor> < 2 ^ 63"
  defines "x \<equiv> of_int m / 10 * 2 ^ e :: rat"
  shows "\<bar>of_int \<lfloor>fl (of_int m / 10) * 2 ^ e + 1 / 2\<rfloor> - x\<bar> \<le> 2049"
proof -
  let ?y = "fl (of_int m / 10) * 2 ^ e :: rat"
  have "\<bar>fl x - x\<bar> \<le> x / 2 ^ 53" using assms(1) by (intro fl_rel_error) (simp add: x_def)
  then have err: "?y - x \<le> x / 2 ^ 53" "x - ?y \<le> x / 2 ^ 53"
    unfolding x_def fl_mult_pow abs_le_iff by linarith+
  have fl: "of_int \<lfloor>?y + 1 / 2\<rfloor> \<le> ?y + 1 / 2" "?y + 1 / 2 < of_int \<lfloor>?y + 1 / 2\<rfloor> + 1"
    by linarith+
  have "of_int \<lfloor>?y + 1 / 2\<rfloor> \<le> (of_int (2 ^ 63 - 1) :: rat)"
    using assms(2) by (simp only: of_int_le_iff)
  then have "?y < 2 ^ 63" using fl by simp
  then have "x \<le> 2 ^ 64" using err(2) by simp
  then have "x / 2 ^ 53 \<le> 2048" by simp
  then show ?thesis using err fl unfolding abs_le_iff by (intro conjI) linarith+
qed

lemma next_tenths_mult: "next_tenths (m * 1024) = m"
  by (simp add: next_tenths_def)

lemma tenths_again:
  assumes m: "10 \<le> m" and e: "20 \<le> e"
    and B: "B = \<lfloor>fl (of_int m / 10) * 2 ^ e + 1 / 2\<rfloor>" "B < 2 ^ 63"
  shows "1024 \<le> B" "1024 \<le> kilos B" "tenths (kilos B) = m * 2 ^ (e - 20)"
proof -
  define x where "x = (of_int m / 10 * 2 ^ e :: rat)"
  have near: "\<bar>of_int B - x\<bar> \<le> 2049"
    using size_bytes_near [of m e] m B by (simp add: x_def)
  have p: "(2 :: rat) ^ 20 \<le> 2 ^ e" using e by (intro power_increasing) auto
  have "10 / 10 * 2 ^ 20 \<le> x" unfolding x_def using m p by (intro mult_mono divide_right_mono) auto
  then have x: "1048576 \<le> x" by simp
  have "(1024 :: rat) \<le> of_int B" using near x by (simp only: abs_le_iff) linarith
  then show B1: "1024 \<le> B" by (metis of_int_le_iff of_int_numeral)
  have kb: "\<bar>of_int (kilos B) - of_int B / 1024\<bar> \<le> (3 / 2 :: rat)" "kilos B \<le> 2 ^ 53" "1 \<le> kilos B"
    using kilos_bounds [OF B1 B(2)] by auto
  have kx: "of_int (kilos B) - x / 1024 \<le> 4" "x / 1024 - of_int (kilos B) \<le> 4"
    using kb(1) near unfolding abs_le_iff by linarith+
  show "1024 \<le> kilos B"
  proof (cases "m = 10 \<and> e = 20")
    case True
    then have "B = \<lfloor>of_int 1048576 + 1 / 2 :: rat\<rfloor>" using B(1) fl_int [of 1] by simp
    then have "B = 1048576" by linarith
    then show ?thesis using fl_int [of 1048576] by (simp add: kilos_def f64_of_int_def)
  next
    case False
    have "1153433 \<le> x"
    proof (cases "e = 20")
      case True
      with False m have "11 \<le> m" by auto
      then have "11 / 10 * 2 ^ 20 \<le> x" unfolding x_def True
        by (intro mult_right_mono divide_right_mono) auto
      then show ?thesis by simp
    next
      case False
      with e have "(2 :: rat) ^ 21 \<le> 2 ^ e" by (intro power_increasing) auto
      then have "10 / 10 * 2 ^ 21 \<le> x" unfolding x_def using m
        by (intro mult_mono divide_right_mono) auto
      then show ?thesis by simp
    qed
    then have "(1024 :: rat) \<le> of_int (kilos B)" using kx by simp
    then show ?thesis by (metis of_int_le_iff of_int_numeral)
  qed
  have "(2 :: rat) ^ e = 2 ^ (e - 20) * 2 ^ 20" using e by (simp only: power_add [symmetric] le_add_diff_inverse2)
  then have "x / 1024 * 10 / 1024 = of_int (m * 2 ^ (e - 20))" by (simp add: x_def)
  then have "\<bar>of_int (kilos B) * 10 / 1024 - of_int (m * 2 ^ (e - 20))\<bar> \<le> (1 / 4 :: rat)"
    using kx unfolding abs_le_iff by linarith
  then show "tenths (kilos B) = m * 2 ^ (e - 20)"
    using kb by (intro tenths_unique) auto
qed

lemma int_size_again:
  assumes "size_ok s" "size_bytes s < 2 ^ 63"
  shows "int_size (size_bytes s) = s" "0 \<le> size_bytes s"
proof (induction rule: conjE [rotated])
  show "int_size (size_bytes s) = s \<and> 0 \<le> size_bytes s"
  proof (cases s)
    case (Plain n)
    then show ?thesis using assms by (simp add: size_ok_def size_bytes_def int_size_def)
  next
    case (Kilo k)
    then have k: "1 \<le> k" "k < 1024" using assms by (simp_all add: size_ok_def)
    then have "f64_of_int (k * 1024) / 1024 = of_int k"
      unfolding f64_of_int_def using fl_int [of "k * 1024"] by simp
    then have "kilos (k * 1024) = k" unfolding kilos_def by (simp only:) linarith
    then show ?thesis using k Kilo by (simp add: int_size_def size_bytes_def)
  next
    case (Tenths m unit)
    then have m: "10 \<le> m" "m < 10240 \<or> unit = ''PB''"
      and u: "unit \<in> {''MB'', ''GB'', ''TB'', ''PB''}"
      using assms by (auto simp: size_ok_def)
    define B where "B = size_bytes s"
    have B: "B = \<lfloor>fl (of_int m / 10) * 2 ^ exponent unit + 1 / 2\<rfloor>" "B < 2 ^ 63"
      using assms(2) by (simp_all add: B_def Tenths size_bytes_def)
    have "20 \<le> exponent unit" by (simp add: exponent_def)
    note again = tenths_again [OF m(1) this B]
    have chain: "next_tenths (m * 1048576) = m * 1024" "next_tenths (m * 1073741824) = m * 1048576"
      using next_tenths_mult [of "m * 1024"] next_tenths_mult [of "m * 1048576"]
      by (simp_all add: mult.commute)
    show ?thesis
      using u again m next_tenths_mult [of m] chain unfolding Tenths [symmetric] B_def [symmetric]
      by (auto simp: int_size_def Let_def exponent_def Tenths)
  qed
qed auto

lemma normalizeBytes_int:
  assumes "0 \<le> sint n"
  shows "normalizeBytes oor n =
     Inr (let b = size_bytes (int_size (sint n)) in if fits_i64 b then word_of_int b else oor)"
proof -
  obtain v unit where vu: "float_size (int_size (sint n)) = (v, unit)" by fastforce
  have "size_ok (int_size (sint n))"
    using assms sint_i64_upper [of n] by (intro int_size_ok) auto
  from computerFileSize_size [OF this vu] show ?thesis
    using assms by (simp add: normalizeBytes_def humanFileSize_int vu Let_def del: fits_i64_code)
qed

lemma normalizeBytes_idem:
  assumes "0 \<le> sint n" "normalizeBytes oor n = Inr k" "fits_i64 (size_bytes (int_size (sint n)))"
  shows "normalizeBytes oor k = Inr k" "0 \<le> sint k"
proof -
  let ?b = "size_bytes (int_size (sint n))"
  have ok: "size_ok (int_size (sint n))"
    using assms(1) sint_i64_upper [of n] by (intro int_size_ok) auto
  have lt: "?b < 2 ^ 63" using assms(3) by simp
  note again = int_size_again [OF ok lt]
  have k: "k = word_of_int ?b"
    using assms by (simp add: normalizeBytes_int Let_def del: fits_i64_code)
  have sk: "sint k = ?b" unfolding k using assms(3) by (rule sint_of_fits)
  then show "0 \<le> sint k" using again(2) by simp
  then show "normalizeBytes oor k = Inr k"
    by (simp only: normalizeBytes_int sk again(1) Let_def assms(3) if_True)
       (simp only: k)
qed

section \<open>Normalisation as the planner uses it\<close>

text \<open>
  The conversion of an out-of-range double yields the most negative \<open>int64\<close> on amd64 and the
  largest one on arm64; these two are the results the contract is shown for.
\<close>

definition oor_amd64 :: int64 where
  "oor_amd64 = word_of_int (- 9223372036854775808)"

definition oor_arm64 :: int64 where
  "oor_arm64 = word_of_int 9223372036854775807"

lemma sint_oor [simp]: "sint oor_amd64 = - 9223372036854775808" "sint oor_arm64 = 9223372036854775807"
  by (simp_all add: oor_amd64_def oor_arm64_def sint_of_fits)

lemma kilos_max: "kilos 9223372036854775807 = 2 ^ 53"
  by code_simp

lemma size_bytes_max: "size_bytes (int_size 9223372036854775807) = 2 ^ 63"
  by code_simp

lemma normalize_oor_arm64: "normalizeBytes oor_arm64 oor_arm64 = Inr oor_arm64"
  by (simp add: normalizeBytes_int size_bytes_max)

lemma NcNormalizeQuota_valid: "Quota_Valid q = None \<Longrightarrow> Quota_Valid (NcNormalizeQuota oor q) = None"
  by (auto simp: Quota_Valid_None_iff NcNormalizeQuota_def BytesQuota_def split: sum.splits)

lemma NcNormalizeQuota_Unknown [simp]: "NcNormalizeQuota oor Unknown = Unknown"
  by (simp add: NcNormalizeQuota_def)

lemma NcNormalizeQuota_Unlimited [simp]: "NcNormalizeQuota oor Unlimited = Unlimited"
  by (simp add: NcNormalizeQuota_def)

lemma NcNormalizeQuota_bytes:
  assumes "0 \<le> sint n"
  shows "NcNormalizeQuota oor \<lparr>q_Kind = KindBytes, q_Bytes = n\<rparr> =
     (let b = size_bytes (int_size (sint n)) in
      if fits_i64 b then \<lparr>q_Kind = KindBytes, q_Bytes = word_of_int b\<rparr>
      else if sint oor < 0 then Unknown else \<lparr>q_Kind = KindBytes, q_Bytes = oor\<rparr>)"
proof -
  let ?b = "size_bytes (int_size (sint n))"
  have ok: "size_ok (int_size (sint n))"
    using assms sint_i64_upper [of n] by (intro int_size_ok) auto
  have "0 \<le> sint (word_of_int ?b :: int64)" if "fits_i64 ?b"
    unfolding sint_of_fits [OF that] using int_size_again(2) [OF ok] that by simp
  then show ?thesis
    using assms by (cases "fits_i64 ?b")
      (simp_all add: NcNormalizeQuota_def normalizeBytes_int BytesQuota_def Let_def del: fits_i64_code)
qed

lemma NcNormalizeQuota_idem:
  assumes "Quota_Valid q = None" and oor: "sint oor < 0 \<or> oor = oor_arm64"
  shows "NcNormalizeQuota oor (NcNormalizeQuota oor q) = NcNormalizeQuota oor q"
proof -
  from assms(1) consider "q = Unknown" | "q = Unlimited"
    | n where "0 \<le> sint n" "q = \<lparr>q_Kind = KindBytes, q_Bytes = n\<rparr>"
    by (auto simp: Quota_Valid_None_iff)
  then show ?thesis
  proof cases
    case (3 n)
    show ?thesis
    proof (cases "fits_i64 (size_bytes (int_size (sint n)))")
      case True
      then have n: "normalizeBytes oor n = Inr (word_of_int (size_bytes (int_size (sint n))))"
        using 3(1) by (simp add: normalizeBytes_int Let_def del: fits_i64_code)
      note again = normalizeBytes_idem [OF 3(1) n True]
      show ?thesis
        by (simp add: 3(2) NcNormalizeQuota_def n BytesQuota_def again)
    next
      case False
      then have "NcNormalizeQuota oor q =
          (if sint oor < 0 then Unknown else \<lparr>q_Kind = KindBytes, q_Bytes = oor\<rparr>)"
        using 3 by (simp add: NcNormalizeQuota_bytes Let_def del: fits_i64_code)
      with oor show ?thesis
        by (auto simp: NcNormalizeQuota_def [of _ "\<lparr>q_Kind = KindBytes, q_Bytes = oor_arm64\<rparr>"]
            normalize_oor_arm64 BytesQuota_def)
    qed
  qed simp_all
qed

interpretation nc_amd64: normalizer "NcNormalizeQuota oor_amd64"
  by unfold_locales (simp_all add: NcNormalizeQuota_valid NcNormalizeQuota_idem)

interpretation nc_arm64: normalizer "NcNormalizeQuota oor_arm64"
  by unfold_locales (simp_all add: NcNormalizeQuota_valid NcNormalizeQuota_idem)

section \<open>The trip in plain integer arithmetic\<close>

text \<open>
  Up to \<open>2 ^ 50\<close> bytes no step of the first half rounds in the floating point sense, so the
  size is the one integer division gives.
\<close>

lemma kilos_exact:
  assumes "0 \<le> n" "n < 2 ^ 53"
  shows "kilos n = (n + 512) div 1024"
proof -
  have "f64_of_int n = of_int n" unfolding f64_of_int_def using assms by (intro fl_int) simp
  then have "f64_of_int n / 1024 + 1 / 2 = (of_int (n + 512) / of_int 1024 :: rat)" by (simp add: field_simps)
  then show ?thesis unfolding kilos_def by (simp only: floor_divide_of_int_eq)
qed

lemma tenths_exact:
  assumes "0 \<le> k" "k * 10 < 2 ^ 53"
  shows "tenths k = (k * 10 + 512) div 1024"
proof -
  have "fl (of_int (k * 10)) = of_int (k * 10)" using assms by (intro fl_int) simp
  then have "fl (of_int k * 10) / 1024 + 1 / 2 = (of_int (k * 10 + 512) / of_int 1024 :: rat)"
    by (simp add: field_simps)
  then show ?thesis unfolding tenths_def by (simp only: floor_divide_of_int_eq)
qed

section \<open>How far the stored value is from the one asked for\<close>

lemma next_tenths_near: "\<bar>of_int (next_tenths m) - of_int m / 1024\<bar> \<le> (1 / 2 :: rat)"
proof -
  have "1024 * next_tenths m \<le> m + 512" "m + 512 < 1024 * next_tenths m + 1024"
    using div_mult_mod_eq [of "m + 512" 1024] pos_mod_sign [of 1024 "m + 512"]
      pos_mod_bound [of 1024 "m + 512"]
    unfolding next_tenths_def by linarith+
  then have "of_int (1024 * next_tenths m) \<le> (of_int (m + 512) :: rat)"
    "(of_int (m + 512) :: rat) \<le> of_int (1024 * next_tenths m + 1024)"
    by (simp_all only: of_int_le_iff)
  then show ?thesis unfolding abs_le_iff by (simp add: field_simps)
qed

definition near_tenths :: "int \<Rightarrow> nat \<Rightarrow> int \<Rightarrow> bool" where
  "near_tenths n e m \<longleftrightarrow> \<bar>of_int m - of_int n * 10 / 2 ^ e\<bar> \<le> (53 / 100 :: rat)"

lemma near_tenths_first:
  assumes "1024 \<le> n" "n < 2 ^ 63"
  shows "near_tenths n 20 (tenths (kilos n))"
proof -
  note k = kilos_bounds [OF assms]
  have "0 < kilos n" using k(1) by simp
  note t = tenths_near [OF this k(2)]
  have "\<bar>of_int (tenths (kilos n)) - fl (of_int (kilos n) * 10) / 1024\<bar> \<le> (1 / 2 :: rat)"
    unfolding tenths_def abs_le_iff by linarith
  then show ?thesis
    using t k(3) unfolding near_tenths_def abs_le_iff by simp
qed

lemma near_tenths_next: "near_tenths n e m \<Longrightarrow> near_tenths n (e + 10) (next_tenths m)"
  using next_tenths_near [of m] unfolding near_tenths_def abs_le_iff power_add by simp

lemma int_size_near:
  assumes "1024 \<le> n" "n < 2 ^ 63" "int_size n = Tenths m unit"
  shows "near_tenths n (exponent unit) m"
proof -
  note n1 = near_tenths_first [OF assms(1,2)]
  note n2 = near_tenths_next [OF n1]
  note n3 = near_tenths_next [OF n2]
  note n4 = near_tenths_next [OF n3]
  from assms(3) n1 n2 n3 n4 show ?thesis
    by (auto simp: int_size_def exponent_def Let_def split: if_splits)
qed

lemma size_bytes_within:
  assumes "2 ^ 20 \<le> n" "n < 2 ^ 63" "size_bytes (int_size n) < 2 ^ 63"
  shows "100 * \<bar>size_bytes (int_size n) - n\<bar> \<le> 6 * n"
proof -
  have n: "1024 \<le> n" using assms(1) by simp
  have "1024 \<le> kilos n"
  proof -
    have "2 powi 20 \<le> fl (of_int n :: rat)" by (rule fl_ge_powi) (use assms(1) in simp)
    then show ?thesis unfolding kilos_def f64_of_int_def le_floor_iff by simp
  qed
  then obtain m unit where s: "int_size n = Tenths m unit"
    using n by (cases "int_size n") (auto simp: int_size_def Let_def split: if_splits)
  have m: "10 \<le> m" using int_size_ok [of n] n assms(2) by (simp add: s size_ok_def)
  have near: "near_tenths n (exponent unit) m" by (rule int_size_near [OF n assms(2) s])
  let ?e = "exponent unit" and ?B = "size_bytes (int_size n)"
  define u where "u = (2 ^ ?e / 10 :: rat)"
  have "(2 :: rat) ^ 20 \<le> 2 ^ ?e" by (rule power_increasing) (simp_all add: exponent_def)
  then have u: "104857 \<le> u" by (simp add: u_def)
  have "of_int m - of_int n / u \<le> 53 / 100" "of_int n / u - of_int m \<le> 53 / 100"
    using near unfolding near_tenths_def abs_le_iff u_def by simp_all
  then have mu: "of_int m * u - of_int n \<le> 53 / 100 * u" "of_int n - of_int m * u \<le> 53 / 100 * u"
    using u by (simp_all add: field_simps)
  have "\<bar>of_int ?B - of_int m / 10 * 2 ^ ?e\<bar> \<le> (2049 :: rat)"
    using size_bytes_near [of m ?e] m assms(3) by (simp add: s size_bytes_def)
  then have B: "of_int ?B - of_int m * u \<le> 2049" "of_int m * u - of_int ?B \<le> 2049"
    unfolding abs_le_iff u_def by simp_all
  define v where "v = of_int m * u"
  have "10 * u \<le> v" unfolding v_def using m u by (intro mult_right_mono) auto
  then have d: "of_int ?B - of_int n \<le> 2049 + 53 / 100 * u" "of_int n - of_int ?B \<le> 2049 + 53 / 100 * u"
    and low: "947 / 100 * u \<le> of_int n"
    using mu B u unfolding v_def [symmetric] by linarith+
  have "2049 + 53 / 100 * u \<le> 6 / 100 * (of_int n :: rat)"
  proof -
    have "2049 + 53 / 100 * u \<le> 6 / 100 * (947 / 100 * u)" using u by (simp add: field_simps)
    also have "\<dots> \<le> 6 / 100 * of_int n" by (rule mult_left_mono [OF low]) simp
    finally show ?thesis .
  qed
  note d(1) [THEN order_trans, OF this] d(2) [THEN order_trans, OF this]
  then have "100 * (of_int ?B - of_int n) \<le> (6 * of_int n :: rat)"
    "100 * (of_int n - of_int ?B) \<le> (6 * of_int n :: rat)"
    by (simp_all add: field_simps)
  then have "of_int (100 * (?B - n)) \<le> (of_int (6 * n) :: rat)"
    "of_int (100 * (n - ?B)) \<le> (of_int (6 * n) :: rat)" by simp_all
  then have "100 * (?B - n) \<le> 6 * n" "100 * (n - ?B) \<le> 6 * n" by (simp_all only: of_int_le_iff)
  then show ?thesis by (simp add: abs_if)
qed

end
