(* ===== verification/Wire.thy ===== *)
theory Wire
  imports Model
begin

text \<open>
  What the adapters read from the wire. A response body is the JSON value it parses to, and
  the decoding functions are those of \<open>encoding/json\<close> into the Go types the adapters use:
  an absent key and a null leave the zero value, a value of another shape is an error, a
  pointer is an option and a \<open>json.RawMessage\<close> keeps the value. Keys are matched without
  regard to case and the last one wins, as in \<open>encoding/json\<close>.
\<close>

section \<open>JSON values\<close>

text \<open>
  \<open>JInt\<close> is a number literal with neither fraction nor exponent, which is the only kind that
  decodes into an \<open>int64\<close>; \<open>JFrac\<close> is every other number.
\<close>

datatype json =
    JNull | JBool bool | JInt int | JFrac rat | JStr string
  | JArr "json list" | JObj "(string \<times> json) list"

datatype decode_error = TypeMismatch

type_synonym 'a decoded = "decode_error + 'a"

definition jfield :: "string \<Rightarrow> (string \<times> json) list \<Rightarrow> json option" where
  "jfield name fs =
     map_of (map (\<lambda>(k, v). (ToLower k, v)) (rev fs)) (ToLower name)"

definition dec_object :: "json \<Rightarrow> (string \<times> json) list decoded" where
  "dec_object j = (case j of JObj fs \<Rightarrow> Inr fs | JNull \<Rightarrow> Inr [] | _ \<Rightarrow> Inl TypeMismatch)"

definition dec_string :: "json option \<Rightarrow> string decoded" where
  "dec_string v = (case v of None \<Rightarrow> Inr [] | Some JNull \<Rightarrow> Inr [] | Some (JStr s) \<Rightarrow> Inr s
     | Some _ \<Rightarrow> Inl TypeMismatch)"

definition dec_string_ptr :: "json option \<Rightarrow> string option decoded" where
  "dec_string_ptr v = (case v of None \<Rightarrow> Inr None | Some JNull \<Rightarrow> Inr None | Some (JStr s) \<Rightarrow> Inr (Some s)
     | Some _ \<Rightarrow> Inl TypeMismatch)"

definition dec_bool_ptr :: "json option \<Rightarrow> bool option decoded" where
  "dec_bool_ptr v = (case v of None \<Rightarrow> Inr None | Some JNull \<Rightarrow> Inr None | Some (JBool b) \<Rightarrow> Inr (Some b)
     | Some _ \<Rightarrow> Inl TypeMismatch)"

definition dec_int64_ptr :: "json option \<Rightarrow> int64 option decoded" where
  "dec_int64_ptr v = (case v of None \<Rightarrow> Inr None | Some JNull \<Rightarrow> Inr None
     | Some (JInt k) \<Rightarrow> if fits_i64 k then Inr (Some (word_of_int k)) else Inl TypeMismatch
     | Some _ \<Rightarrow> Inl TypeMismatch)"

definition dec_int64 :: "json option \<Rightarrow> int64 decoded" where
  "dec_int64 v = bind_result (dec_int64_ptr v)
     (\<lambda>p. Inr (case p of None \<Rightarrow> 0 | Some n \<Rightarrow> n))"

definition dec_float_ptr :: "json option \<Rightarrow> rat option decoded" where
  "dec_float_ptr v = (case v of None \<Rightarrow> Inr None | Some JNull \<Rightarrow> Inr None
     | Some (JInt k) \<Rightarrow> Inr (Some (fl (of_int k))) | Some (JFrac r) \<Rightarrow> Inr (Some (fl r))
     | Some _ \<Rightarrow> Inl TypeMismatch)"

text \<open>An \<open>any\<close>: a number arrives as a \<open>float64\<close>.\<close>

datatype any_value = AnyNil | AnyString string | AnyFloat rat | AnyInt64 int64 | AnyOther

definition dec_any :: "json option \<Rightarrow> any_value" where
  "dec_any v = (case v of None \<Rightarrow> AnyNil | Some JNull \<Rightarrow> AnyNil | Some (JStr s) \<Rightarrow> AnyString s
     | Some (JInt k) \<Rightarrow> AnyFloat (fl (of_int k)) | Some (JFrac r) \<Rightarrow> AnyFloat (fl r)
     | Some _ \<Rightarrow> AnyOther)"

fun dec_all :: "('a \<Rightarrow> 'e + 'b) \<Rightarrow> 'a list \<Rightarrow> 'e + 'b list" where
  "dec_all f [] = Inr []"
| "dec_all f (x # xs) = bind_result (f x) (\<lambda>y. bind_result (dec_all f xs) (\<lambda>ys. Inr (y # ys)))"

text \<open>A slice: null is the nil slice.\<close>

definition dec_list :: "(json \<Rightarrow> 'a decoded) \<Rightarrow> json option \<Rightarrow> 'a list decoded" where
  "dec_list f v = (case v of None \<Rightarrow> Inr [] | Some JNull \<Rightarrow> Inr [] | Some (JArr xs) \<Rightarrow> dec_all f xs
     | Some _ \<Rightarrow> Inl TypeMismatch)"

text \<open>A map of raw messages: the nil map is \<open>None\<close>, and a repeated key keeps its last value.\<close>

definition dec_raw_map :: "json option \<Rightarrow> (string \<times> json) list option decoded" where
  "dec_raw_map v = (case v of None \<Rightarrow> Inr None | Some JNull \<Rightarrow> Inr None
     | Some (JObj fs) \<Rightarrow>
         Inr (Some (filter (\<lambda>(k, j). map_of (rev fs) k = Some j) (remdups fs)))
     | Some _ \<Rightarrow> Inl TypeMismatch)"

section \<open>HTTP\<close>

text \<open>
  What \<open>http.Client.Do\<close> and reading the body give: no response, or a status, the
  \<open>Retry-After\<close> header (empty when absent), the text of the body and the JSON value it
  parses to.
\<close>

record HttpResponse =
  hr_Status :: int
  hr_RetryAfter :: string
  hr_Text :: string
  hr_Json :: "json option"

datatype transport = Failed | Answered HttpResponse

text \<open>
  \<open>retryAfter\<close> of both adapters. \<open>until v\<close> is how far ahead the HTTP date \<open>v\<close> lies, when
  \<open>v\<close> is one. The product with the second is on \<open>int64\<close>.
\<close>

definition second :: Duration where
  "second = 1000000000"

definition retryAfter :: "(string \<Rightarrow> Duration option) \<Rightarrow> string \<Rightarrow> Duration" where
  "retryAfter until v =
     (let date = (case until v of Some d \<Rightarrow> if 0 < d then d else 0 | None \<Rightarrow> 0) in
      if v = [] then 0
      else case ParseInt v of
        Inr seconds \<Rightarrow> if 0 \<le> sint seconds then sint (seconds * word_of_int second) else date
      | Inl _ \<Rightarrow> date)"

text \<open>\<open>strings.Fields\<close> joined by one space, cut to the limit of both adapters' messages.\<close>

fun fields_loop :: "string \<Rightarrow> string \<Rightarrow> string list" where
  "fields_loop acc [] = (if acc = [] then [] else [rev acc])"
| "fields_loop acc (c # cs) =
     (if is_space c then (if acc = [] then fields_loop [] cs else rev acc # fields_loop [] cs)
      else fields_loop (c # acc) cs)"

fun join_space :: "string list \<Rightarrow> string" where
  "join_space [] = []"
| "join_space [w] = w"
| "join_space (w # ws) = w @ '' '' @ join_space ws"

definition one_line :: "string \<Rightarrow> string \<Rightarrow> string" where
  "one_line blank raw =
     (let text = join_space (fields_loop [] raw) in
      if text = [] then blank
      else if 160 < length text then take 160 text @ ''...'' else text)"

section \<open>Lemmas\<close>

lemma jfield_Nil [simp]: "jfield name [] = None"
  by (simp add: jfield_def)

lemma dec_object_simps [simp]: "dec_object (JObj fs) = Inr fs" "dec_object JNull = Inr []"
  by (simp_all add: dec_object_def)

lemma one_line_length: "length (one_line blank raw) \<le> max (length blank) 163"
proof -
  have "length s \<le> 160 \<Longrightarrow> length s \<le> max (length blank) 163" for s :: string by linarith
  then show ?thesis by (simp add: one_line_def Let_def not_less)
qed

end
