(* ===== verification/Strconv.thy ===== *)
theory Strconv
  imports Float64
begin

text \<open>
  \<open>strconv.ParseFloat(s, 64)\<close>: a decimal or hexadecimal literal of the language, with underscores
  between digits, or the spelling of an infinity or of NaN. A literal is rounded to the nearest
  double; one that rounds beyond the largest double is the range error. A double below the normal
  range keeps 53 bits here, which no use in the program can tell apart.
\<close>

datatype f64 = Finite rat | Infinite bool | NotANumber

definition hex_val :: "char \<Rightarrow> nat option" where
  "hex_val c =
     (case digit_val c of Some d \<Rightarrow> Some d
      | None \<Rightarrow> let l = lower_char c in
          if CHR ''a'' \<le> l \<and> l \<le> CHR ''f'' then Some (of_char l - of_char CHR ''a'' + 10) else None)"

text \<open>The digits of a part of the mantissa: their value, their number and what follows.\<close>

fun digits_loop :: "bool \<Rightarrow> nat \<Rightarrow> nat \<Rightarrow> string \<Rightarrow> nat \<times> nat \<times> string" where
  "digits_loop hex acc k [] = (acc, k, [])"
| "digits_loop hex acc k (c # cs) =
     (if c = CHR ''_'' then digits_loop hex acc k cs
      else case (if hex then hex_val c else digit_val c) of
        None \<Rightarrow> (acc, k, c # cs)
      | Some d \<Rightarrow> digits_loop hex (acc * (if hex then 16 else 10) + d) (Suc k) cs)"

definition parse_sign :: "string \<Rightarrow> bool \<times> string" where
  "parse_sign s = (case s of c # cs \<Rightarrow> if c = CHR ''-'' then (True, cs)
      else if c = CHR ''+'' then (False, cs) else (False, s) | [] \<Rightarrow> (False, []))"

definition hex_prefix :: "string \<Rightarrow> bool" where
  "hex_prefix s = (case s of z # x # _ # _ \<Rightarrow> z = CHR ''0'' \<and> lower_char x = CHR ''x'' | _ \<Rightarrow> False)"

text \<open>The exponent must be the rest of the text; a hexadecimal literal has one.\<close>

definition parse_exponent :: "bool \<Rightarrow> string \<Rightarrow> int option" where
  "parse_exponent hex s =
     (case s of
        [] \<Rightarrow> if hex then None else Some 0
      | c # cs \<Rightarrow>
          if lower_char c \<noteq> (if hex then CHR ''p'' else CHR ''e'') then None
          else (case parse_sign cs of (neg, ds) \<Rightarrow>
            (case (ds, digits_loop False 0 0 ds) of
               (d # _, (e, k, [])) \<Rightarrow>
                 if digit_val d = None then None else Some (if neg then - int e else int e)
             | _ \<Rightarrow> None)))"

text \<open>\<open>underscoreOK\<close>: an underscore stands between digits, or between a base prefix and a digit.\<close>

datatype saw = SawStart | SawDigit | SawUnderscore | SawOther

fun underscore_loop :: "bool \<Rightarrow> saw \<Rightarrow> string \<Rightarrow> bool" where
  "underscore_loop hex saw [] \<longleftrightarrow> saw \<noteq> SawUnderscore"
| "underscore_loop hex saw (c # cs) \<longleftrightarrow>
     (if (if hex then hex_val c else digit_val c) \<noteq> None then underscore_loop hex SawDigit cs
      else if c = CHR ''_'' then saw = SawDigit \<and> underscore_loop hex SawUnderscore cs
      else saw \<noteq> SawUnderscore \<and> underscore_loop hex SawOther cs)"

definition underscores_ok :: "string \<Rightarrow> bool" where
  "underscores_ok s =
     (case s of
        z # x # cs \<Rightarrow>
          if z = CHR ''0'' \<and> lower_char x \<in> {CHR ''b'', CHR ''o'', CHR ''x''}
          then underscore_loop (lower_char x = CHR ''x'') SawDigit cs
          else underscore_loop False SawStart s
      | _ \<Rightarrow> underscore_loop False SawStart s)"

definition read_literal :: "string \<Rightarrow> rat option" where
  "read_literal s =
     (let hex = hex_prefix s; body = (if hex then drop 2 s else s) in
      case digits_loop hex 0 0 body of (whole, k1, s2) \<Rightarrow>
       (case (case s2 of c # cs \<Rightarrow> if c = CHR ''.'' then digits_loop hex whole 0 cs else (whole, 0, s2)
              | [] \<Rightarrow> (whole, 0, [])) of (mant, k2, s3) \<Rightarrow>
          if k1 + k2 = 0 \<or> (CHR ''_'' \<in> set s \<and> \<not> underscores_ok s) then None
          else map_option (\<lambda>e. of_nat mant * (if hex then 2 powi (e - 4 * int k2) else 10 powi (e - int k2)))
                 (parse_exponent hex s3)))"

definition ParseFloat :: "string \<Rightarrow> f64 option" where
  "ParseFloat s =
     (case parse_sign s of (neg, body) \<Rightarrow>
        if EqualFold body ''inf'' \<or> EqualFold body ''infinity'' then Some (Infinite neg)
        else if EqualFold s ''nan'' then Some NotANumber
        else case read_literal body of
          None \<Rightarrow> None
        | Some x \<Rightarrow>
            let v = fl x in
            if 2 ^ 1024 \<le> v then None else Some (Finite (if neg then - v else v)))"

text \<open>
  \<open>int64(v)\<close> of any double; \<open>oor\<close> is what the implementation yields where the language leaves it open.
\<close>

definition i64_of_float :: "(f64 \<Rightarrow> int64) \<Rightarrow> f64 \<Rightarrow> int64" where
  "i64_of_float oor f = (case f of Finite v \<Rightarrow> i64_of_f64 (oor f) v | _ \<Rightarrow> oor f)"

end
