(* ===== verification/Nextcloud.thy ===== *)
theory Nextcloud
  imports NcQuota Wire Strconv
begin

text \<open>
  \<open>internal/providers/nextcloud\<close>: the OCS client, the decoding of quotas and accounts, and
  the operations of the adapter. A call's requests go through \<open>send\<close>, the answer of the
  instance to a method, a path and a form; the operations that ask more than once thread
  nothing between the requests, as the client does.
\<close>

section \<open>Reading quota values: \<open>quota.go\<close>\<close>

definition is_digit :: "char \<Rightarrow> bool" where
  "is_digit c \<longleftrightarrow> digit_val c \<noteq> None"

text \<open>A number that ends in a digit does not spell an infinity or NaN, so only a finite one gets through.\<close>

definition parseHumanSize :: "int64 \<Rightarrow> string \<Rightarrow> size_error + int64" where
  "parseHumanSize oor s0 =
     (let s = TrimSpace s0;
          unit_raw = rev (takeWhile (\<lambda>c. \<not> is_digit c) (rev s));
          number = take (length s - length unit_raw) s in
      if number = [] then Inl (NoNumber s)
      else case ParseFloat (TrimSpace number) of
        Some (Finite v) \<Rightarrow>
          let unit = ToUpper (TrimSpace unit_raw);
              unit = (if unit = [] then ''B'' else unit);
              unit = filter (\<lambda>c. c \<noteq> CHR ''I'') unit;
              unit = (if HasSuffix unit ''B'' then unit else unit @ ''B'')
          in computerFileSize oor v unit
      | _ \<Rightarrow> Inl (BadNumber number))"

datatype quota_wire_error =
    RefusedQuota QuotaKind
  | UndecodableValue string size_error
  | UndecodableType
  | NegativeSentinel int64
  | QuotaErr quota_error

definition formatQuotaValue :: "Quota \<Rightarrow> quota_wire_error + string" where
  "formatQuotaValue q =
     (case q_Kind q of
        KindUnlimited \<Rightarrow> Inr ''none''
      | KindBytes \<Rightarrow> Inr (FormatInt (q_Bytes q))
      | k \<Rightarrow> Inl (RefusedQuota k))"

definition quotaFromWire :: "int64 \<Rightarrow> quota_wire_error + Quota" where
  "quotaFromWire n =
     (if n = SpaceUnlimited then Inr Unlimited
      else if sint n < 0 then Inl (NegativeSentinel n)
      else case BytesQuota n of Inl e \<Rightarrow> Inl (QuotaErr e) | Inr q \<Rightarrow> Inr q)"

definition decodeQuotaValue :: "int64 \<Rightarrow> any_value \<Rightarrow> quota_wire_error + Quota" where
  "decodeQuotaValue oor raw =
     (case raw of
        AnyNil \<Rightarrow> Inr Unknown
      | AnyString v \<Rightarrow>
          (let s = ToLower (TrimSpace v) in
           if s = ''none'' then Inr Unlimited
           else if s = [] then Inr Unknown
           else case parseHumanSize oor v of
             Inl e \<Rightarrow> Inl (UndecodableValue v e)
           | Inr n \<Rightarrow> quotaFromWire n)
      | AnyFloat v \<Rightarrow> quotaFromWire (i64_of_f64 oor v)
      | AnyInt64 v \<Rightarrow> quotaFromWire v
      | AnyOther \<Rightarrow> Inl UndecodableType)"

section \<open>The OCS client: \<open>ocs.go\<close>\<close>

definition providerType :: string where
  "providerType = ''nextcloud''"

definition isOK :: "int \<Rightarrow> bool" where
  "isOK metaStatus \<longleftrightarrow> metaStatus = 100 \<or> metaStatus = 200"

definition statusesAgree :: "int \<Rightarrow> int \<Rightarrow> bool" where
  "statusesAgree httpStatus metaStatus =
     (if httpStatus = metaStatus then True else httpStatus = 200 \<and> isOK metaStatus)"

definition statusError :: "string \<Rightarrow> int \<Rightarrow> string \<Rightarrow> AdapterError" where
  "statusError op status message =
     (if status = 401 \<or> status = 403 then AuthError providerType status message
      else if status = 429 then ThrottledError providerType 0
      else ProviderError providerType op status message)"

text \<open>The envelope: the meta status and message, and the data when present.\<close>

definition decode_envelope :: "json \<Rightarrow> (int \<times> string \<times> json option) decoded" where
  "decode_envelope j =
     bind_result (dec_object j) (\<lambda>top.
     bind_result (dec_object (case jfield ''ocs'' top of None \<Rightarrow> JNull | Some v \<Rightarrow> v)) (\<lambda>ocs.
     bind_result (dec_object (case jfield ''meta'' ocs of None \<Rightarrow> JNull | Some v \<Rightarrow> v)) (\<lambda>meta.
     bind_result (dec_string (jfield ''status'' meta)) (\<lambda>_.
     bind_result (dec_int64 (jfield ''statuscode'' meta)) (\<lambda>code.
     bind_result (dec_string (jfield ''message'' meta)) (\<lambda>message.
     Inr (sint code, message, jfield ''data'' ocs)))))))"

definition client_do ::
  "(string \<Rightarrow> Duration option) \<Rightarrow> string \<Rightarrow> transport \<Rightarrow> AdapterError + json option" where
  "client_do until op resp =
     (case resp of
        Failed \<Rightarrow> Inl (UnreachableError providerType)
      | Answered r \<Rightarrow>
          if hr_Status r = 429 then Inl (ThrottledError providerType (retryAfter until (hr_RetryAfter r)))
          else
            let bad = ProviderError providerType op (hr_Status r)
                  (''response is not an OCS envelope: '' @ one_line ''empty body'' (hr_Text r)) in
            case hr_Json r of
              None \<Rightarrow> Inl bad
            | Some j \<Rightarrow>
                (case decode_envelope j of
                   Inl _ \<Rightarrow> Inl bad
                 | Inr (code, message, data) \<Rightarrow>
                     if \<not> statusesAgree (hr_Status r) code
                     then Inl (ProviderError providerType op (hr_Status r)
                            (''HTTP '' @ show_int (hr_Status r) @ '' disagrees with ocs.meta.statuscode '' @
                             show_int code @ '' ('' @ message @ ''): trusting neither''))
                     else if \<not> isOK code then Inl (statusError op code message)
                     else Inr data))"

section \<open>Accounts: \<open>nextcloud.go\<close>\<close>

definition SupportedMajor :: int where
  "SupportedMajor = 34"

definition NcCapabilities :: Capabilities where
  "NcCapabilities =
     \<lparr>cap_CanReadUsers = True, cap_CanReadUsage = True, cap_CanSetUserQuota = True,
      cap_CanSetDefaultQuota = False, cap_HasGroups = False,
      cap_MatchKeys = [MatchSubject, MatchEmail, MatchUsername]\<rparr>"

text \<open>\<open>uuidLike\<close> walks the string with its index.\<close>

definition is_hex :: "char \<Rightarrow> bool" where
  "is_hex r \<longleftrightarrow> (CHR ''0'' \<le> r \<and> r \<le> CHR ''9'') \<or> (CHR ''a'' \<le> r \<and> r \<le> CHR ''f'') \<or>
     (CHR ''A'' \<le> r \<and> r \<le> CHR ''F'')"

fun uuidLike_loop :: "nat \<Rightarrow> string \<Rightarrow> bool" where
  "uuidLike_loop i [] = True"
| "uuidLike_loop i (r # rs) =
     (if i \<in> {8, 13, 18, 23} then (if r \<noteq> CHR ''-'' then False else uuidLike_loop (Suc i) rs)
      else if \<not> is_hex r then False else uuidLike_loop (Suc i) rs)"

definition uuidLike :: "string \<Rightarrow> bool" where
  "uuidLike s = (if length s \<noteq> 36 then False else uuidLike_loop 0 s)"

definition subjectFrom :: "string \<Rightarrow> string" where
  "subjectFrom i = (if \<not> uuidLike i then [] else i)"

datatype quota_object_error = QuotaObjectShape | QuotaObjectValue quota_wire_error | QuotaObjectBytes quota_error

text \<open>The result: configured quota, usage, and whether the account was never used.\<close>

definition decodeQuotaObject ::
  "int64 \<Rightarrow> json option \<Rightarrow> int64 option \<Rightarrow> quota_object_error + Quota \<times> Quota \<times> bool" where
  "decodeQuotaObject oor raw firstLogin =
     (case raw of
        None \<Rightarrow> Inr (Unknown, Unknown, False)
      | Some JNull \<Rightarrow> Inr (Unknown, Unknown, False)
      | Some (JArr _) \<Rightarrow> Inr (Unknown, Unknown, False)
      | Some (JObj fs) \<Rightarrow>
          (case dec_int64_ptr (jfield ''used'' fs) of
             Inl _ \<Rightarrow> Inl QuotaObjectShape
           | Inr used \<Rightarrow>
          (case dec_float_ptr (jfield ''relative'' fs) of
             Inl _ \<Rightarrow> Inl QuotaObjectShape
           | Inr relative \<Rightarrow>
          (case decodeQuotaValue oor (dec_any (jfield ''quota'' fs)) of
             Inl e \<Rightarrow> Inl (QuotaObjectValue e)
           | Inr configured \<Rightarrow>
               if jfield ''total'' fs = None \<or> relative = None then Inr (configured, Unknown, False)
               else (case used of
                  None \<Rightarrow> Inr (configured, Unknown, False)
                | Some u \<Rightarrow>
                    if firstLogin = Some 0
                    then (case BytesQuota 0 of
                            Inl e \<Rightarrow> Inl (QuotaObjectBytes e)
                          | Inr zero \<Rightarrow> Inr (configured, zero, True))
                    else if sint u < 0 then Inr (configured, Unknown, False)
                    else (case BytesQuota u of
                            Inl e \<Rightarrow> Inl (QuotaObjectBytes e)
                          | Inr usedQuota \<Rightarrow> Inr (configured, usedQuota, False))))))
      | Some _ \<Rightarrow> Inl QuotaObjectShape)"

text \<open>
  The message of a wrapped decoding error, without the text the JSON decoder adds to it.
\<close>

definition quota_object_message :: "quota_object_error \<Rightarrow> string" where
  "quota_object_message e =
     (case e of
        QuotaObjectShape \<Rightarrow> ''quota object did not decode''
      | QuotaObjectValue (UndecodableValue v _) \<Rightarrow> ''undecodable quota '' @ v
      | QuotaObjectValue (NegativeSentinel n) \<Rightarrow> ''unexpected negative quota '' @ FormatInt n
      | QuotaObjectValue _ \<Rightarrow> ''undecodable quota''
      | QuotaObjectBytes _ \<Rightarrow> ''undecodable quota'')"

definition decodeAccount ::
  "int64 \<Rightarrow> string \<Rightarrow> json \<Rightarrow> Time \<Rightarrow> AdapterError + Account" where
  "decodeAccount oor externalID raw observedAt =
     (let shape = ProviderError providerType (''decode account '' @ externalID) 0 ''account did not decode'' in
      case bind_result (dec_object raw) (\<lambda>fs.
             bind_result (dec_string (jfield ''id'' fs)) (\<lambda>wid.
             bind_result (dec_bool_ptr (jfield ''enabled'' fs)) (\<lambda>enabled.
             bind_result (dec_string_ptr (jfield ''email'' fs)) (\<lambda>email.
             bind_result (dec_string (jfield ''displayname'' fs)) (\<lambda>_.
             bind_result (dec_int64_ptr (jfield ''firstLoginTimestamp'' fs)) (\<lambda>firstLogin.
             Inr (wid, enabled, email, firstLogin, jfield ''quota'' fs))))))) of
        Inl _ \<Rightarrow> Inl shape
      | Inr (wid, enabled, email, firstLogin, quota) \<Rightarrow>
          let i = (if externalID = [] then wid else externalID) in
          (case decodeQuotaObject oor quota firstLogin of
             Inl e \<Rightarrow> Inl (ProviderError providerType (''decode account '' @ i) 0 (quota_object_message e))
           | Inr (configured, used, neverUsed) \<Rightarrow>
               Inr \<lparr>ac_ExternalID = i, ac_Subject = subjectFrom i, ac_Username = i,
                    ac_Email = (case email of None \<Rightarrow> [] | Some m \<Rightarrow> TrimSpace m),
                    ac_Enabled = (enabled = Some True), ac_Deleted = False,
                    ac_Quota = configured, ac_Used = used, ac_ObservedAt = observedAt,
                    ac_NeverUsed = neverUsed\<rparr>))"

text \<open>The loop over the users: an entry that does not decode is an error next to the accounts.\<close>

fun decode_users ::
  "int64 \<Rightarrow> Time \<Rightarrow> (string \<times> json) list \<Rightarrow> Account list \<times> AdapterError list" where
  "decode_users oor observedAt [] = ([], [])"
| "decode_users oor observedAt ((i, raw) # users) =
     (case decode_users oor observedAt users of (accounts, errs) \<Rightarrow>
        (case decodeAccount oor i raw observedAt of
           Inl e \<Rightarrow> (accounts, e # errs)
         | Inr account \<Rightarrow> (account # accounts, errs)))"

definition pathCapabilities :: string where
  "pathCapabilities = ''/ocs/v2.php/cloud/capabilities''"

definition pathUserDetails :: string where
  "pathUserDetails = ''/ocs/v2.php/cloud/users/details''"

definition pathUsers :: string where
  "pathUsers = ''/ocs/v2.php/cloud/users''"

definition pathAppConfig :: string where
  "pathAppConfig = ''/ocs/v2.php/apps/provisioning_api/api/v1/config/apps''"

text \<open>
  \<open>get\<close> is what the client's \<open>get\<close> answers for a path during the call. The list is returned
  with the errors, as the code returns both; Go's iteration over the users' map has no fixed
  order, so the order of the accounts means nothing.
\<close>

type_synonym getter = "string \<Rightarrow> AdapterError + json option"

definition NcListAccounts ::
  "int64 \<Rightarrow> Time \<Rightarrow> getter \<Rightarrow> Account list \<times> AdapterError list" where
  "NcListAccounts oor now get =
     (let failed = \<lambda>message. ([], [ProviderError providerType (''GET '' @ pathUserDetails) 0 message]) in
      case get pathUserDetails of
        Inl e \<Rightarrow> ([], [e])
      | Inr None \<Rightarrow> failed ''ocs.data did not decode''
      | Inr (Some data) \<Rightarrow>
          (case bind_result (dec_object data) (\<lambda>fs. dec_raw_map (jfield ''users'' fs)) of
             Inl _ \<Rightarrow> failed ''ocs.data did not decode''
           | Inr None \<Rightarrow> failed ''ocs.data has no users object''
           | Inr (Some users) \<Rightarrow> decode_users oor now users))"

text \<open>\<open>escape\<close> is \<open>url.PathEscape\<close>; only that the same identifier gives the same path is used.\<close>

definition NcGetAccount ::
  "int64 \<Rightarrow> Time \<Rightarrow> (string \<Rightarrow> string) \<Rightarrow> getter \<Rightarrow> string \<Rightarrow> AdapterError + Account" where
  "NcGetAccount oor now escape get externalID =
     (if externalID = [] then Inl (PlainError ''external id cannot be empty'')
      else case get (pathUsers @ ''/'' @ escape externalID) of
        Inl e \<Rightarrow> Inl e
      | Inr None \<Rightarrow> Inl (ProviderError providerType (''decode account '' @ externalID) 0 ''account did not decode'')
      | Inr (Some data) \<Rightarrow> decodeAccount oor externalID data now)"

definition NcHealth :: "getter \<Rightarrow> HealthResult" where
  "NcHealth get =
     (let none = ProviderError providerType (''GET '' @ pathCapabilities) 0 ''capabilities carried no version'';
          bad = \<lparr>he_Reachable = True, he_Version = [], he_InSupported = False, he_Err = Some none\<rparr> in
      case get pathCapabilities of
        Inl e \<Rightarrow> \<lparr>he_Reachable = \<not> IsUnreachable e, he_Version = [], he_InSupported = False, he_Err = Some e\<rparr>
      | Inr None \<Rightarrow> bad
      | Inr (Some data) \<Rightarrow>
          (case bind_result (dec_object data) (\<lambda>fs.
                  bind_result (dec_object (case jfield ''version'' fs of None \<Rightarrow> JNull | Some v \<Rightarrow> v)) (\<lambda>v.
                  bind_result (dec_int64 (jfield ''major'' v)) (\<lambda>major.
                  bind_result (dec_string (jfield ''string'' v)) (\<lambda>str. Inr (major, str))))) of
             Inl _ \<Rightarrow> bad
           | Inr (major, str) \<Rightarrow>
               \<lparr>he_Reachable = True, he_Version = (if str = [] then FormatInt major else str),
                he_InSupported = (sint major = SupportedMajor), he_Err = None\<rparr>))"

section \<open>Writing a quota\<close>

text \<open>
  \<open>put\<close> sends the form with the given value of the key \<open>quota\<close> to a path. The result says
  what was sent: nothing, or one request.
\<close>

definition NcSetQuota ::
  "(string \<Rightarrow> string) \<Rightarrow> (string \<Rightarrow> string \<Rightarrow> AdapterError + json option) \<Rightarrow> string \<Rightarrow> Quota \<Rightarrow>
   AdapterError option \<times> (string \<times> string) option" where
  "NcSetQuota escape put externalID q =
     (if externalID = [] then (Some (PlainError ''external id cannot be empty''), None)
      else case formatQuotaValue q of
        Inl _ \<Rightarrow> (Some (PlainError (''refusing to write a '' @ QuotaKind_String (q_Kind q) @ '' quota'')), None)
      | Inr v \<Rightarrow>
          let path = pathUsers @ ''/'' @ escape externalID in
          (case put path v of
             Inr _ \<Rightarrow> (None, Some (path, v))
           | Inl e \<Rightarrow>
               (case e of
                  ProviderError _ _ _ _ \<Rightarrow>
                    if q_Kind q = KindUnlimited
                    then (Some (UnsupportedError providerType ''unlimited quota''), Some (path, v))
                    else (Some e, Some (path, v))
                | _ \<Rightarrow> (Some e, Some (path, v)))))"

definition NcWriteLimit :: "nat \<times> Duration" where
  "NcWriteLimit = (50, 600 * second)"

section \<open>Competing writers\<close>

definition competingKeys :: "string list" where
  "competingKeys = [''ldapQuotaAttribute'', ''ldapQuotaDefault'']"

definition appConfigValue :: "(string \<Rightarrow> string) \<Rightarrow> getter \<Rightarrow> string \<Rightarrow> string \<Rightarrow> AdapterError + string" where
  "appConfigValue escape get app key =
     (case get (pathAppConfig @ ''/'' @ escape app @ ''/'' @ escape key) of
        Inl e \<Rightarrow> Inl e
      | Inr raw \<Rightarrow>
          let bad = ProviderError providerType (''read '' @ app @ ''/'' @ key) 0 ''app config value did not decode'' in
          (case raw of
             None \<Rightarrow> Inl bad
           | Some v \<Rightarrow>
               (case dec_string (Some v) of
                  Inr str \<Rightarrow> Inr str
                | Inl _ \<Rightarrow>
                    (case bind_result (dec_object v) (\<lambda>fs. dec_string (jfield ''data'' fs)) of
                       Inl _ \<Rightarrow> Inl bad
                     | Inr data \<Rightarrow> Inr data))))"

text \<open>The two nested loops: every key against every competing suffix, up to the first error.\<close>

definition competing_writer :: "string \<Rightarrow> string \<Rightarrow> string \<Rightarrow> CompetingWriter" where
  "competing_writer key v competing =
     \<lparr>cw_Setting = key, cw_Value = v,
      cw_Detail = ''user_ldap rewrites the quota from the directory on every user refresh, so a value Nuno sets does not survive'',
      cw_Remedy = [''occ ldap:set-config s01 '' @ competing @ [CHR '' '', CHR 0x27, CHR 0x27]]\<rparr>"

fun competing_loop ::
  "(string \<Rightarrow> AdapterError + string) \<Rightarrow> (string \<times> string) list \<Rightarrow> CompetingWriter list \<times> AdapterError option" where
  "competing_loop read [] = ([], None)"
| "competing_loop read ((key, competing) # rest) =
     (if \<not> HasSuffix key competing then competing_loop read rest
      else case read key of
        Inl e \<Rightarrow> ([], Some e)
      | Inr v \<Rightarrow>
          if TrimSpace v = [] then competing_loop read rest
          else (case competing_loop read rest of (found, err) \<Rightarrow>
                  (competing_writer key v competing # found, err)))"

definition NcCompetingWriters ::
  "(string \<Rightarrow> string) \<Rightarrow> getter \<Rightarrow> CompetingWriter list \<times> AdapterError option" where
  "NcCompetingWriters escape get =
     (let path = pathAppConfig @ ''/user_ldap'' in
      let bad = ProviderError providerType (''GET '' @ path) 0 ''app config did not decode'' in
      case get path of
        Inl e \<Rightarrow> (case e of ProviderError _ _ status _ \<Rightarrow> if status = 404 then ([], None) else ([], Some e)
                  | _ \<Rightarrow> ([], Some e))
      | Inr None \<Rightarrow> ([], Some bad)
      | Inr (Some raw) \<Rightarrow>
          (case bind_result (dec_object raw) (\<lambda>fs.
                  bind_result (dec_list (\<lambda>j. dec_string (Some j)) (jfield ''data'' fs)) (\<lambda>data.
                  bind_result (dec_list (\<lambda>j. dec_string (Some j)) (jfield ''keys'' fs)) (\<lambda>keys.
                  Inr (if data = [] then keys else data)))) of
             Inl _ \<Rightarrow> ([], Some bad)
           | Inr keys \<Rightarrow>
               competing_loop (appConfigValue escape get ''user_ldap'')
                 (concat (map (\<lambda>key. map (\<lambda>c. (key, c)) competingKeys) keys))))"

section \<open>Lemmas\<close>

lemma quotaFromWire_valid: "quotaFromWire n = Inr q \<Longrightarrow> Quota_Valid q = None \<and> Quota_IsKnown q"
  by (auto simp: quotaFromWire_def BytesQuota_def Quota_Valid_def nuno_simps split: if_splits)

lemma decodeQuotaValue_valid: "decodeQuotaValue oor raw = Inr q \<Longrightarrow> Quota_Valid q = None"
  by (auto simp: decodeQuotaValue_def Let_def Quota_Valid_None_iff [of Unknown]
      Quota_Valid_None_iff [of Unlimited] dest: quotaFromWire_valid
      split: any_value.splits if_splits sum.splits)

text \<open>What is written for a quota decodes to the same quota.\<close>

lemma wire_roundtrip:
  assumes "formatQuotaValue q = Inr v" "Quota_Valid q = None" "q_Kind q = KindBytes"
  shows "ParseInt v = Inr (q_Bytes q) \<and> quotaFromWire (q_Bytes q) = Inr q"
  using assms
  by (auto simp: formatQuotaValue_def Quota_Valid_None_iff quotaFromWire_def BytesQuota_def SpaceUnlimited_def)

lemma formatQuotaValue_known:
  "formatQuotaValue q = Inr v \<Longrightarrow> q_Kind q = KindUnlimited \<and> v = ''none'' \<or>
     q_Kind q = KindBytes \<and> v = FormatInt (q_Bytes q)"
  by (auto simp: formatQuotaValue_def split: QuotaKind.splits)

text \<open>The usage an account is reported with: known only from a complete quota object.\<close>

lemma decodeQuotaObject_used:
  assumes "decodeQuotaObject oor raw firstLogin = Inr (configured, used, neverUsed)"
  shows "Quota_Valid configured = None" "Quota_ValidAsUsage used = None"
    "neverUsed \<Longrightarrow> firstLogin = Some 0 \<and> used = \<lparr>q_Kind = KindBytes, q_Bytes = 0\<rparr>"
    "Quota_IsKnown used \<Longrightarrow> \<exists>fs. raw = Some (JObj fs) \<and> jfield ''total'' fs \<noteq> None \<and>
       (\<exists>r. dec_float_ptr (jfield ''relative'' fs) = Inr (Some r)) \<and>
       (\<exists>u. dec_int64_ptr (jfield ''used'' fs) = Inr (Some u))"
  using assms
  by (auto simp: decodeQuotaObject_def BytesQuota_def Quota_ValidAsUsage_None_iff nuno_simps
      Quota_Valid_None_iff [of Unknown] dest: decodeQuotaValue_valid
      split: option.splits json.splits sum.splits if_splits)

end
