(* ===== verification/Immich.thy ===== *)
theory Immich
  imports PlanCore Wire
begin

text \<open>
  \<open>internal/providers/immich\<close>: the admin API client, the divergence rule that decides whether
  usage is known, and the operations of the adapter. Requests are answered by \<open>get\<close> and
  \<open>put\<close>, as in the Nextcloud adapter.
\<close>

section \<open>The client: \<open>client.go\<close>\<close>

definition im_providerType :: string where
  "im_providerType = ''immich''"

definition im_message :: "HttpResponse \<Rightarrow> string" where
  "im_message r =
     (let rest = one_line ''no message'' (hr_Text r) in
      case hr_Json r of
        None \<Rightarrow> rest
      | Some j \<Rightarrow>
          (case bind_result (dec_object j) (\<lambda>fs.
                  bind_result (dec_string (jfield ''message'' fs)) (\<lambda>message.
                  bind_result (dec_string (jfield ''error'' fs)) (\<lambda>err. Inr (message, err)))) of
             Inl _ \<Rightarrow> rest
           | Inr (message, err) \<Rightarrow>
               if message \<noteq> [] then message else if err \<noteq> [] then err else rest))"

definition im_client_do ::
  "(string \<Rightarrow> Duration option) \<Rightarrow> string \<Rightarrow> transport \<Rightarrow> AdapterError + HttpResponse" where
  "im_client_do until op resp =
     (case resp of
        Failed \<Rightarrow> Inl (UnreachableError im_providerType)
      | Answered r \<Rightarrow>
          if hr_Status r = 429
          then Inl (ThrottledError im_providerType (retryAfter until (hr_RetryAfter r)))
          else if hr_Status r = 401 \<or> hr_Status r = 403
          then Inl (AuthError im_providerType (hr_Status r)
                 (im_message r @ '' (check the key's adminUser.read and adminUser.update scopes)''))
          else if hr_Status r < 200 \<or> 299 < hr_Status r
          then Inl (ProviderError im_providerType op (hr_Status r) (im_message r))
          else Inr r)"

section \<open>Quota and usage\<close>

definition im_SupportedMajor :: int where
  "im_SupportedMajor = 3"

definition ImCapabilities :: Capabilities where
  "ImCapabilities =
     \<lparr>cap_CanReadUsers = True, cap_CanReadUsage = True, cap_CanSetUserQuota = True,
      cap_CanSetDefaultQuota = False, cap_HasGroups = False,
      cap_MatchKeys = [MatchSubject, MatchEmail]\<rparr>"

definition ImNormalizeQuota :: "Quota \<Rightarrow> Quota" where
  "ImNormalizeQuota q = (if q_Kind q = KindUnknown then Unknown else q)"

datatype im_quota_error = ImNegativeQuota int64 | ImQuotaErr quota_error

definition decodeQuota :: "int64 option \<Rightarrow> im_quota_error + Quota" where
  "decodeQuota raw =
     (case raw of
        None \<Rightarrow> Inr Unlimited
      | Some n \<Rightarrow>
          if sint n < 0 then Inl (ImNegativeQuota n)
          else (case BytesQuota n of Inl e \<Rightarrow> Inl (ImQuotaErr e) | Inr q \<Rightarrow> Inr q))"

definition DivergenceFloor :: int64 where
  "DivergenceFloor = 67108864"

definition diverged :: "int64 \<Rightarrow> int64 \<Rightarrow> bool" where
  "diverged cached live =
     (let delta = cached - live;
          delta = (if sint delta < 0 then - delta else delta);
          onePercent = i64_div live 100;
          threshold = (if sint DivergenceFloor < sint onePercent then onePercent else DivergenceFloor)
      in sint threshold < sint delta)"

text \<open>\<open>aggregate\<close> is \<open>None\<close> for the nil map; a missing entry of a Go map reads as zero.\<close>

definition decodeUsage ::
  "int64 option \<Rightarrow> (string \<Rightarrow> int64 option) option \<Rightarrow> string \<Rightarrow> bool \<Rightarrow> im_quota_error + Quota" where
  "decodeUsage cached aggregate userID statsFailed =
     (if statsFailed then Inr Unknown
      else case aggregate of
        None \<Rightarrow> Inr Unknown
      | Some usage \<Rightarrow>
          let live = (case usage userID of None \<Rightarrow> 0 | Some n \<Rightarrow> n);
              bytes = (case BytesQuota live of Inl e \<Rightarrow> Inl (ImQuotaErr e) | Inr q \<Rightarrow> Inr q) in
          if sint live < 0 then Inr Unknown
          else (case cached of
                  None \<Rightarrow> bytes
                | Some c \<Rightarrow> if diverged c live then Inr Unknown else bytes))"

section \<open>Accounts: \<open>immich.go\<close>\<close>

record wireUser =
  wu_ID :: string
  wu_Email :: string
  wu_OAuthID :: string
  wu_Status :: string
  wu_DeletedAt :: "string option"
  wu_QuotaSizeInBytes :: "int64 option"
  wu_QuotaUsageInBytes :: "int64 option"

definition dec_wireUser :: "json \<Rightarrow> wireUser decoded" where
  "dec_wireUser j =
     bind_result (dec_object j) (\<lambda>fs.
     bind_result (dec_string (jfield ''id'' fs)) (\<lambda>i.
     bind_result (dec_string (jfield ''email'' fs)) (\<lambda>email.
     bind_result (dec_string (jfield ''name'' fs)) (\<lambda>_.
     bind_result (dec_string (jfield ''oauthId'' fs)) (\<lambda>oauth.
     bind_result (dec_string (jfield ''status'' fs)) (\<lambda>status.
     bind_result (dec_string_ptr (jfield ''deletedAt'' fs)) (\<lambda>deleted.
     bind_result (dec_int64_ptr (jfield ''quotaSizeInBytes'' fs)) (\<lambda>sz.
     bind_result (dec_int64_ptr (jfield ''quotaUsageInBytes'' fs)) (\<lambda>usage.
     Inr \<lparr>wu_ID = i, wu_Email = email, wu_OAuthID = oauth, wu_Status = status, wu_DeletedAt = deleted,
          wu_QuotaSizeInBytes = sz, wu_QuotaUsageInBytes = usage\<rparr>)))))))))"

definition im_error_message :: "im_quota_error \<Rightarrow> string" where
  "im_error_message e =
     (case e of ImNegativeQuota n \<Rightarrow> ''unexpected negative quota '' @ FormatInt n
      | ImQuotaErr _ \<Rightarrow> ''quota bytes cannot be negative'')"

definition im_decodeAccount ::
  "wireUser \<Rightarrow> (string \<Rightarrow> int64 option) option \<Rightarrow> bool \<Rightarrow> Time \<Rightarrow> AdapterError + Account" where
  "im_decodeAccount u aggregate statsFailed observedAt =
     (let deleted = (wu_DeletedAt u \<noteq> None \<and> wu_DeletedAt u \<noteq> Some []);
          bad = \<lambda>e. ProviderError im_providerType (''decode account '' @ wu_ID u) 0 (im_error_message e) in
      case decodeQuota (wu_QuotaSizeInBytes u) of
        Inl e \<Rightarrow> Inl (bad e)
      | Inr configured \<Rightarrow>
          (case decodeUsage (wu_QuotaUsageInBytes u) aggregate (wu_ID u) statsFailed of
             Inl e \<Rightarrow> Inl (bad e)
           | Inr used \<Rightarrow>
               Inr \<lparr>ac_ExternalID = wu_ID u, ac_Subject = wu_OAuthID u, ac_Username = [],
                    ac_Email = TrimSpace (wu_Email u),
                    ac_Enabled = (if deleted then False else wu_Status u = ''active''),
                    ac_Deleted = deleted, ac_Quota = configured, ac_Used = used,
                    ac_ObservedAt = observedAt, ac_NeverUsed = False\<rparr>))"

definition pathVersion :: string where
  "pathVersion = ''/api/server/version''"

definition pathStatistics :: string where
  "pathStatistics = ''/api/server/statistics''"

definition pathAdminUsers :: string where
  "pathAdminUsers = ''/api/admin/users''"

type_synonym im_getter = "string \<Rightarrow> AdapterError + HttpResponse"

definition im_body :: "HttpResponse \<Rightarrow> json decoded" where
  "im_body r = (case hr_Json r of None \<Rightarrow> Inl TypeMismatch | Some j \<Rightarrow> Inr j)"

definition dec_usage_entry :: "json \<Rightarrow> (string \<times> int64) decoded" where
  "dec_usage_entry j =
     bind_result (dec_object j) (\<lambda>fs.
     bind_result (dec_string (jfield ''userId'' fs)) (\<lambda>i.
     bind_result (dec_int64 (jfield ''usage'' fs)) (\<lambda>n. Inr (i, n))))"

definition usageByUser :: "im_getter \<Rightarrow> AdapterError + (string \<Rightarrow> int64 option)" where
  "usageByUser get =
     (case get pathStatistics of
        Inl e \<Rightarrow> Inl e
      | Inr r \<Rightarrow>
          (case bind_result (im_body r) (\<lambda>j. bind_result (dec_object j) (\<lambda>fs.
                  dec_list dec_usage_entry (jfield ''usageByUser'' fs))) of
             Inl _ \<Rightarrow> Inl (ProviderError im_providerType (''GET '' @ pathStatistics) 0 ''statistics did not decode'')
           | Inr entries \<Rightarrow> Inr (foldl (\<lambda>usage (i, n). usage(i \<mapsto> n)) Map.empty entries)))"

text \<open>The loop over the users: it stops at the first account that does not decode.\<close>

fun im_decode_users ::
  "(wireUser \<Rightarrow> AdapterError + Account) \<Rightarrow> wireUser list \<Rightarrow> Account list \<times> AdapterError option" where
  "im_decode_users dec [] = ([], None)"
| "im_decode_users dec (u # us) =
     (case dec u of
        Inl e \<Rightarrow> ([], Some e)
      | Inr account \<Rightarrow> (case im_decode_users dec us of (accounts, err) \<Rightarrow> (account # accounts, err)))"

definition aggregate_of :: "AdapterError + (string \<Rightarrow> int64 option) \<Rightarrow> (string \<Rightarrow> int64 option) option \<times> bool" where
  "aggregate_of stats = (case stats of Inl _ \<Rightarrow> (None, True) | Inr usage \<Rightarrow> (Some usage, False))"

definition ImListAccounts :: "Time \<Rightarrow> im_getter \<Rightarrow> Account list \<times> AdapterError option" where
  "ImListAccounts now get =
     (case get pathAdminUsers of
        Inl e \<Rightarrow> ([], Some e)
      | Inr r \<Rightarrow>
          (case bind_result (im_body r) (\<lambda>j. dec_list dec_wireUser (Some j)) of
             Inl _ \<Rightarrow> ([], Some (ProviderError im_providerType (''GET '' @ pathAdminUsers) 0
                             ''admin users did not decode''))
           | Inr users \<Rightarrow>
               (case aggregate_of (usageByUser get) of (aggregate, statsFailed) \<Rightarrow>
                  im_decode_users (\<lambda>u. im_decodeAccount u aggregate statsFailed now) users)))"

definition ImGetAccount ::
  "Time \<Rightarrow> (string \<Rightarrow> string) \<Rightarrow> im_getter \<Rightarrow> string \<Rightarrow> AdapterError + Account" where
  "ImGetAccount now escape get externalID =
     (if externalID = [] then Inl (PlainError ''external id cannot be empty'')
      else case get (pathAdminUsers @ ''/'' @ escape externalID) of
        Inl e \<Rightarrow> Inl e
      | Inr r \<Rightarrow>
          (case bind_result (im_body r) dec_wireUser of
             Inl _ \<Rightarrow> Inl (ProviderError im_providerType (''GET '' @ pathAdminUsers @ ''/'' @ externalID) 0
                          ''account did not decode'')
           | Inr u \<Rightarrow>
               (case aggregate_of (usageByUser get) of (aggregate, statsFailed) \<Rightarrow>
                  im_decodeAccount u aggregate statsFailed now)))"

definition ImHealth :: "im_getter \<Rightarrow> HealthResult" where
  "ImHealth get =
     (case get pathVersion of
        Inl e \<Rightarrow> \<lparr>he_Reachable = \<not> IsUnreachable e, he_Version = [], he_InSupported = False, he_Err = Some e\<rparr>
      | Inr r \<Rightarrow>
          (case bind_result (im_body r) (\<lambda>j. bind_result (dec_object j) (\<lambda>fs.
                  bind_result (dec_int64 (jfield ''major'' fs)) (\<lambda>major.
                  bind_result (dec_int64 (jfield ''minor'' fs)) (\<lambda>minor.
                  bind_result (dec_int64 (jfield ''patch'' fs)) (\<lambda>patch. Inr (major, minor, patch)))))) of
             Inl _ \<Rightarrow> \<lparr>he_Reachable = True, he_Version = [], he_InSupported = False,
                 he_Err = Some (ProviderError im_providerType (''GET '' @ pathVersion) 0 ''version did not decode'')\<rparr>
           | Inr (major, minor, patch) \<Rightarrow>
               \<lparr>he_Reachable = True,
                he_Version = ''v'' @ FormatInt major @ ''.'' @ FormatInt minor @ ''.'' @ FormatInt patch,
                he_InSupported = (sint major = im_SupportedMajor),
                he_Err = (case get pathAdminUsers of Inl e \<Rightarrow> Some e | Inr _ \<Rightarrow> None)\<rparr>))"

text \<open>
  The body of a write: the key is always present, and null is unlimited. \<open>put\<close> sends a body to
  a path; the second result is what was sent.
\<close>

definition im_SetQuota_body :: "Quota \<Rightarrow> int64 option option" where
  "im_SetQuota_body q =
     (case q_Kind q of
        KindUnlimited \<Rightarrow> Some None
      | KindBytes \<Rightarrow> Some (Some (q_Bytes q))
      | _ \<Rightarrow> None)"

definition ImSetQuota ::
  "(string \<Rightarrow> string) \<Rightarrow> (string \<Rightarrow> json \<Rightarrow> AdapterError + HttpResponse) \<Rightarrow> string \<Rightarrow> Quota \<Rightarrow>
   AdapterError option \<times> (string \<times> json) option" where
  "ImSetQuota escape put externalID q =
     (if externalID = [] then (Some (PlainError ''external id cannot be empty''), None)
      else case im_SetQuota_body q of
        None \<Rightarrow> (Some (PlainError (''refusing to write a '' @ QuotaKind_String (q_Kind q) @ '' quota'')), None)
      | Some sz \<Rightarrow>
          let path = pathAdminUsers @ ''/'' @ escape externalID;
              body = JObj [(''quotaSizeInBytes'', case sz of None \<Rightarrow> JNull | Some n \<Rightarrow> JInt (sint n))] in
          (case put path body of Inr _ \<Rightarrow> (None, Some (path, body)) | Inl e \<Rightarrow> (Some e, Some (path, body))))"

section \<open>Lemmas\<close>

interpretation immich: normalizer ImNormalizeQuota
  by unfold_locales (auto simp: ImNormalizeQuota_def Quota_Valid_None_iff [of Unknown])

lemma decodeQuota_valid: "decodeQuota raw = Inr q \<Longrightarrow> Quota_Valid q = None \<and> Quota_IsKnown q"
  by (auto simp: decodeQuota_def BytesQuota_def Quota_Valid_def nuno_simps
      split: option.splits if_splits sum.splits)

text \<open>What a write sends decodes to the quota written.\<close>

lemma ImSetQuota_roundtrip:
  assumes "Quota_Valid q = None" "im_SetQuota_body q = Some sz"
  shows "decodeQuota sz = Inr q"
  using assms
  by (auto simp: Quota_Valid_None_iff im_SetQuota_body_def decodeQuota_def BytesQuota_def)

lemma diverged_exact:
  assumes "0 \<le> sint cached" "0 \<le> sint live"
  shows "diverged cached live \<longleftrightarrow>
     max 67108864 (sint live div 100) < \<bar>sint cached - sint live\<bar>"
proof -
  have floor: "sint DivergenceFloor = 67108864" by (simp add: DivergenceFloor_def)
  have d: "sint (cached - live) = sint cached - sint live"
    using assms sint_i64_bounds [of cached] sint_i64_bounds [of live] by (intro sint_sub_fits) simp
  have m: "sint (- (cached - live)) = - (sint cached - sint live)"
    using sint_sub_fits [of live cached] assms sint_i64_bounds [of cached] sint_i64_bounds [of live] by simp
  have p: "sint (i64_div live 100) = sint live div 100"
    using assms by (subst sint_i64_div) simp_all
  show ?thesis
    unfolding diverged_def Let_def using floor d m p by (simp add: max_def abs_if)
qed

lemma decodeUsage_known:
  assumes "decodeUsage cached aggregate i failed = Inr q" "Quota_IsKnown q"
  obtains usage live where "aggregate = Some usage" "\<not> failed"
    "live = (case usage i of None \<Rightarrow> 0 | Some n \<Rightarrow> n)" "0 \<le> sint live"
    "q = \<lparr>q_Kind = KindBytes, q_Bytes = live\<rparr>" "\<And>c. cached = Some c \<Longrightarrow> \<not> diverged c live"
  using assms
  by (auto simp: decodeUsage_def BytesQuota_def nuno_simps Let_def split: option.splits if_splits)

end
