(* ===== verification/Tables.thy ===== *)
theory Tables
  imports Prelude
begin

text \<open>
  Tables of the SQLite file as lists of rows with a primary key. The statements the store
  issues are \<open>INSERT ... ON CONFLICT (key) DO UPDATE\<close> (\<open>tbl_put\<close>), \<open>SELECT ... WHERE key = ?\<close>
  (\<open>tbl_find\<close>), \<open>DELETE ... WHERE\<close> (\<open>tbl_del\<close>) and \<open>UPDATE ... WHERE\<close> (\<open>tbl_update\<close>). The
  locale \<open>keyed_table\<close> is what the store's operations rely on, so that the effect of a whole
  transaction is proved once for every table.
\<close>

section \<open>The statements\<close>

definition tbl_find :: "('r \<Rightarrow> 'k) \<Rightarrow> 'k \<Rightarrow> 'r list \<Rightarrow> 'r option" where
  "tbl_find key k rows = find (\<lambda>r. key r = k) rows"

fun tbl_put :: "('r \<Rightarrow> 'k) \<Rightarrow> 'r \<Rightarrow> 'r list \<Rightarrow> 'r list" where
  "tbl_put key row [] = [row]"
| "tbl_put key row (r # rs) = (if key r = key row then row # rs else r # tbl_put key row rs)"

definition tbl_del :: "('r \<Rightarrow> 'k) \<Rightarrow> 'k \<Rightarrow> 'r list \<Rightarrow> 'r list" where
  "tbl_del key k rows = filter (\<lambda>r. key r \<noteq> k) rows"

definition tbl_update :: "('r \<Rightarrow> bool) \<Rightarrow> ('r \<Rightarrow> 'r) \<Rightarrow> 'r list \<Rightarrow> 'r list" where
  "tbl_update P f rows = map (\<lambda>r. if P r then f r else r) rows"

definition tbl_ok :: "('r \<Rightarrow> 'k) \<Rightarrow> 'r list \<Rightarrow> bool" where
  "tbl_ok key rows \<longleftrightarrow> distinct (map key rows)"

text \<open>
  The row id SQLite gives to a new row of a table without \<open>AUTOINCREMENT\<close>: one more than the
  largest in use.
\<close>

definition next_id :: "('r \<Rightarrow> RowID) \<Rightarrow> 'r list \<Rightarrow> RowID" where
  "next_id key rows = foldr (\<lambda>r m. max (key r + 1) m) rows 1"

section \<open>The contract\<close>

locale keyed_table =
  fixes find_row :: "'k \<Rightarrow> 't \<Rightarrow> 'r option"
    and put_row :: "'r \<Rightarrow> 't \<Rightarrow> 't"
    and del_row :: "'k \<Rightarrow> 't \<Rightarrow> 't"
    and key_of :: "'r \<Rightarrow> 'k"
    and ok :: "'t \<Rightarrow> bool"
  assumes find_put: "ok t \<Longrightarrow> find_row k (put_row r t) = (if k = key_of r then Some r else find_row k t)"
    and find_del: "ok t \<Longrightarrow> find_row k (del_row j t) = (if k = j then None else find_row k t)"
    and ok_put: "ok t \<Longrightarrow> ok (put_row r t)"
    and ok_del: "ok t \<Longrightarrow> ok (del_row j t)"
begin

definition put_all :: "'r list \<Rightarrow> 't \<Rightarrow> 't" where
  "put_all rs t = foldl (\<lambda>t r. put_row r t) t rs"

definition del_all :: "'k list \<Rightarrow> 't \<Rightarrow> 't" where
  "del_all ks t = foldl (\<lambda>t k. del_row k t) t ks"

lemma ok_put_all: "ok t \<Longrightarrow> ok (put_all rs t)"
  unfolding put_all_def by (induction rs arbitrary: t) (simp_all add: ok_put)

lemma ok_del_all: "ok t \<Longrightarrow> ok (del_all ks t)"
  unfolding del_all_def by (induction ks arbitrary: t) (simp_all add: ok_del)

lemma find_put_all:
  assumes "ok t"
  shows "find_row k (put_all rs t) =
     (case find (\<lambda>r. key_of r = k) (rev rs) of None \<Rightarrow> find_row k t | Some r \<Rightarrow> Some r)"
  using assms
proof (induction rs rule: rev_induct)
  case Nil
  then show ?case by (simp add: put_all_def)
next
  case (snoc r rs)
  then show ?case
    using find_put [OF ok_put_all [OF snoc.prems, of rs], of k r] by (auto simp: put_all_def)
qed

lemma find_del_all:
  assumes "ok t"
  shows "find_row k (del_all ks t) = (if k \<in> set ks then None else find_row k t)"
  using assms unfolding del_all_def
  by (induction ks arbitrary: t) (auto simp: find_del ok_del)

end

lemma tbl_find_Cons: "tbl_find key k (r # rs) = (if key r = k then Some r else tbl_find key k rs)"
  by (simp add: tbl_find_def)

lemma tbl_find_Nil [simp]: "tbl_find key k [] = None"
  by (simp add: tbl_find_def)

lemma tbl_find_Some: "tbl_find key k rows = Some r \<Longrightarrow> r \<in> set rows \<and> key r = k"
  by (induction rows) (auto simp: tbl_find_Cons split: if_splits)

lemma tbl_find_None: "tbl_find key k rows = None \<longleftrightarrow> k \<notin> key ` set rows"
  by (induction rows) (auto simp: tbl_find_Cons)

lemma tbl_find_mem: "tbl_ok key rows \<Longrightarrow> r \<in> set rows \<Longrightarrow> tbl_find key (key r) rows = Some r"
  by (induction rows) (auto simp: tbl_find_Cons tbl_ok_def image_iff)

lemma tbl_find_eq_iff:
  "tbl_ok key rows \<Longrightarrow> tbl_find key k rows = Some r \<longleftrightarrow> r \<in> set rows \<and> key r = k"
  using tbl_find_mem tbl_find_Some by fastforce

lemma tbl_put_keys: "key ` set (tbl_put key r rows) = insert (key r) (key ` set rows)"
  by (induction rows) auto

lemma tbl_put_set:
  "tbl_ok key rows \<Longrightarrow> set (tbl_put key r rows) = insert r {s \<in> set rows. key s \<noteq> key r}"
  by (induction rows) (auto simp: tbl_ok_def image_iff)

lemma tbl_ok_put: "tbl_ok key rows \<Longrightarrow> tbl_ok key (tbl_put key r rows)"
proof (induction rows)
  case (Cons s rows)
  then show ?case using tbl_put_keys [of key r rows] by (auto simp: tbl_ok_def)
qed (simp add: tbl_ok_def)

lemma tbl_ok_filter: "tbl_ok key rows \<Longrightarrow> tbl_ok key (filter P rows)"
  by (simp add: tbl_ok_def distinct_map_filter)

lemma tbl_ok_del: "tbl_ok key rows \<Longrightarrow> tbl_ok key (tbl_del key k rows)"
  by (simp add: tbl_del_def tbl_ok_filter)

lemma tbl_update_keys:
  "(\<And>r. key (f r) = key r) \<Longrightarrow> map key (tbl_update P f rows) = map key rows"
  by (simp add: tbl_update_def)

lemma tbl_ok_update: "(\<And>r. key (f r) = key r) \<Longrightarrow> tbl_ok key rows \<Longrightarrow> tbl_ok key (tbl_update P f rows)"
  unfolding tbl_ok_def by (simp only: tbl_update_keys)

lemma tbl_find_update:
  "(\<And>r. key (f r) = key r) \<Longrightarrow>
     tbl_find key k (tbl_update P f rows) = map_option (\<lambda>r. if P r then f r else r) (tbl_find key k rows)"
  by (induction rows) (auto simp: tbl_update_def tbl_find_Cons)

lemma tbl_find_put:
  "tbl_find key k (tbl_put key r rows) = (if k = key r then Some r else tbl_find key k rows)"
  by (induction rows) (auto simp: tbl_find_Cons)

lemma tbl_find_del:
  "tbl_find key k (tbl_del key j rows) = (if k = j then None else tbl_find key k rows)"
  unfolding tbl_del_def by (induction rows) (auto simp: tbl_find_Cons)

text \<open>Every table of the store, with its own key, meets the contract.\<close>

interpretation rows: keyed_table "tbl_find key" "tbl_put key" "tbl_del key" key "tbl_ok key" for key
  by unfold_locales (simp_all add: tbl_find_put tbl_find_del tbl_ok_put tbl_ok_del)

lemma next_id_fresh: "r \<in> set rows \<Longrightarrow> key r < next_id key rows"
  by (induction rows) (auto simp: next_id_def)

lemma next_id_pos: "1 \<le> next_id key rows"
  by (induction rows) (auto simp: next_id_def)

end
