(* ===== verification/Store.thy ===== *)
theory Store
  imports Tables Policy
begin

text \<open>
  \<open>internal/store\<close>: the tables (\<open>migrations/*.sql\<close>), the constraints they declare, and the
  operations on providers, observed accounts, links and link issues (\<open>accounts.go\<close>,
  \<open>providers.go\<close>). A failing statement is a value of \<open>store_error\<close>; the failure of a
  transaction leaves the database as it was. Failures of the engine itself (a full disk, a
  lost connection) are outside the model, and \<open>time.Now()\<close> is the argument \<open>now\<close>. The
  texts of timestamps are the instants they stand for; quotas are kept in their stored text.
\<close>

section \<open>Rows\<close>

record ProviderRow =
  pr_Inst :: ProviderInstance
  pr_WriteAccess :: WriteAccess
  pr_WriteProbedAt :: "Time option"
  pr_Version :: string
  pr_Reachable :: bool
  pr_InSupported :: bool
  pr_LastObserveAt :: "Time option"
  pr_LastObserveOK :: bool
  pr_LastError :: string
  pr_DegradedReason :: string

record AccountRow =
  ar_ProviderID :: RowID
  ar_ExternalID :: string
  ar_UserID :: "RowID option"
  ar_Subject :: string
  ar_Username :: string
  ar_Email :: string
  ar_EmailNormalized :: string
  ar_Enabled :: bool
  ar_Deleted :: bool
  ar_Quota :: string
  ar_Used :: string
  ar_NeverUsed :: bool
  ar_ObservedAt :: Time
  ar_ObserveOK :: bool

record TierRow =
  tr_ID :: RowID
  tr_Name :: string
  tr_Budget :: string
  tr_IsDefault :: bool

datatype OverrideOrigin = OverrideManual | OverrideAdopted

record OverrideRow =
  or_UserID :: RowID
  or_ProviderID :: RowID
  or_Quota :: string
  or_Origin :: OverrideOrigin

datatype RunMode = RunPlan | RunDryRun | RunApply

record RunRow =
  rr_ID :: RowID
  rr_StartedAt :: Time
  rr_FinishedAt :: "Time option"
  rr_Mode :: RunMode
  rr_Actor :: string
  rr_Consent :: bool
  rr_Status :: string
  rr_Summary :: string

datatype AuditResult = AuditApplied | AuditFailed | AuditRefused | AuditSkipped

record AuditRow =
  au_ID :: RowID
  au_RunID :: "RowID option"
  au_At :: Time
  au_Actor :: string
  au_UserID :: "RowID option"
  au_ProviderID :: "RowID option"
  au_ExternalID :: string
  au_From :: string
  au_To :: string
  au_Result :: AuditResult
  au_Detail :: string

record PlanRow =
  pb_ID :: RowID
  pb_RunID :: RowID
  pb_ComputedAt :: Time
  pb_Body :: string

record NotifiedRow =
  nr_Key :: string
  nr_FirstSeen :: Time
  nr_LastSeen :: Time

datatype AdminKeySource = AdminKeyFromEnv | AdminKeyFromUI

record KeyRow =
  kr_ID :: RowID
  kr_Hash :: string
  kr_Label :: string
  kr_Source :: AdminKeySource
  kr_CreatedAt :: Time
  kr_LastUsedAt :: "Time option"
  kr_RevokedAt :: "Time option"

text \<open>The file. Users are stored without their memberships, which are rows of their own.\<close>

record Database =
  d_Providers :: "ProviderRow list"
  d_Users :: "User list"
  d_Groups :: "Group list"
  d_UserGroups :: "(RowID \<times> RowID) list"
  d_Accounts :: "AccountRow list"
  d_Links :: "AccountLink list"
  d_Issues :: "LinkIssue list"
  d_Tiers :: "TierRow list"
  d_Allocations :: "(RowID \<times> Allocation) list"
  d_GroupTiers :: "(RowID \<times> RowID) list"
  d_UserTiers :: "(RowID \<times> RowID) list"
  d_Overrides :: "OverrideRow list"
  d_Runs :: "RunRow list"
  d_Audit :: "AuditRow list"
  d_Notified :: "NotifiedRow list"
  d_Keys :: "KeyRow list"
  d_Settings :: "(string \<times> string) list"
  d_Plans :: "PlanRow list"

datatype store_error =
    NoExternalID RowID
  | InvalidQuota string quota_error
  | InvalidUsage string quota_error
  | UndecodableRow string quota_error
  | ForeignKeyViolation
  | UniqueViolation
  | CheckViolation
  | ProviderNeedsNameAndType
  | ProviderTypeChanged string
  | InvalidTier tier_error
  | NoSuchTier RowID
  | NoSuchGroup string
  | UnknownOverride
  | GroupWithoutUUID string
  | UserWithoutUUID string
  | UnknownMembership RowID string
  | UserNeedsUID
  | UIDTaken string
  | EmptyKey
  | NoSuchKey RowID
  | KeyFromEnvironment
  | NoSuchRow

section \<open>Keys and references\<close>

definition provider_id :: "ProviderRow \<Rightarrow> RowID" where
  "provider_id r = pi_ID (pr_Inst r)"

definition account_key :: "AccountRow \<Rightarrow> RowID \<times> string" where
  "account_key r = (ar_ProviderID r, ar_ExternalID r)"

definition link_key :: "AccountLink \<Rightarrow> RowID \<times> RowID" where
  "link_key l = (lk_UserID l, lk_ProviderID l)"

definition link_target :: "AccountLink \<Rightarrow> RowID \<times> string" where
  "link_target l = (lk_ProviderID l, lk_ExternalID l)"

definition has_provider :: "Database \<Rightarrow> RowID \<Rightarrow> bool" where
  "has_provider db i \<longleftrightarrow> i \<in> provider_id ` set (d_Providers db)"

definition has_user :: "Database \<Rightarrow> RowID \<Rightarrow> bool" where
  "has_user db i \<longleftrightarrow> i \<in> u_ID ` set (d_Users db)"

definition has_tier :: "Database \<Rightarrow> RowID \<Rightarrow> bool" where
  "has_tier db i \<longleftrightarrow> i \<in> tr_ID ` set (d_Tiers db)"

text \<open>What the declared constraints say of the tables of this theory.\<close>

definition accounts_ok :: "Database \<Rightarrow> bool" where
  "accounts_ok db \<longleftrightarrow> tbl_ok account_key (d_Accounts db) \<and>
     (\<forall>r \<in> set (d_Accounts db). has_provider db (ar_ProviderID r) \<and>
        (\<forall>u. ar_UserID r = Some u \<longrightarrow> has_user db u))"

definition links_ok :: "Database \<Rightarrow> bool" where
  "links_ok db \<longleftrightarrow> tbl_ok link_key (d_Links db) \<and> tbl_ok link_target (d_Links db) \<and>
     (\<forall>l \<in> set (d_Links db). has_user db (lk_UserID l) \<and> has_provider db (lk_ProviderID l))"

definition issues_ok :: "Database \<Rightarrow> bool" where
  "issues_ok db \<longleftrightarrow>
     (\<forall>i \<in> set (d_Issues db). has_provider db (li_ProviderID i) \<and>
        (\<forall>u. li_UserID i = Some u \<longrightarrow> has_user db u))"

section \<open>Observed accounts\<close>

definition account_row :: "RowID \<Rightarrow> Time \<Rightarrow> Account \<Rightarrow> AccountRow" where
  "account_row providerID observedAt a =
     \<lparr>ar_ProviderID = providerID, ar_ExternalID = ac_ExternalID a, ar_UserID = None,
      ar_Subject = ac_Subject a, ar_Username = ac_Username a, ar_Email = ac_Email a,
      ar_EmailNormalized = NormalizeEmail (ac_Email a),
      ar_Enabled = ac_Enabled a, ar_Deleted = ac_Deleted a,
      ar_Quota = Quota_Encode (ac_Quota a), ar_Used = Quota_Encode (ac_Used a),
      ar_NeverUsed = ac_NeverUsed a,
      ar_ObservedAt = (if ac_ObservedAt a = 0 then observedAt else ac_ObservedAt a),
      ar_ObserveOK = True\<rparr>"

text \<open>The upsert: a row that is already there keeps its owner.\<close>

definition put_account :: "AccountRow \<Rightarrow> AccountRow list \<Rightarrow> AccountRow list" where
  "put_account row rows =
     tbl_put account_key
       (row\<lparr>ar_UserID := (case tbl_find account_key (account_key row) rows of
                            None \<Rightarrow> None | Some old \<Rightarrow> ar_UserID old)\<rparr>) rows"

fun store_accounts ::
  "RowID \<Rightarrow> Time \<Rightarrow> Account list \<Rightarrow> Database \<Rightarrow> store_error + Database" where
  "store_accounts providerID observedAt [] db = Inr db"
| "store_accounts providerID observedAt (a # as) db =
     (if ac_ExternalID a = [] then Inl (NoExternalID providerID)
      else case Quota_Valid (ac_Quota a) of Some e \<Rightarrow> Inl (InvalidQuota (ac_ExternalID a) e)
      | None \<Rightarrow>
      (case Quota_ValidAsUsage (ac_Used a) of Some e \<Rightarrow> Inl (InvalidUsage (ac_ExternalID a) e)
      | None \<Rightarrow>
          if \<not> has_provider db providerID then Inl ForeignKeyViolation
          else store_accounts providerID observedAt as
                 (db\<lparr>d_Accounts := put_account (account_row providerID observedAt a) (d_Accounts db)\<rparr>)))"

definition ReplaceExternalAccounts ::
  "RowID \<Rightarrow> Account list \<Rightarrow> Time \<Rightarrow> Database \<Rightarrow> store_error + Database" where
  "ReplaceExternalAccounts providerID accounts observedAt db =
     bind_result (store_accounts providerID observedAt accounts db) (\<lambda>db.
       let vanished = filter (\<lambda>i. i \<notin> ac_ExternalID ` set accounts)
             (map ar_ExternalID (filter (\<lambda>r. ar_ProviderID r = providerID) (d_Accounts db)))
       in Inr (db\<lparr>d_Accounts :=
            foldl (\<lambda>rows i. tbl_del account_key (providerID, i) rows) (d_Accounts db) vanished\<rparr>))"

definition decode_account :: "AccountRow \<Rightarrow> store_error + ExternalAccount" where
  "decode_account r =
     (case DecodeQuota (ar_Quota r) of Inl e \<Rightarrow> Inl (UndecodableRow (ar_ExternalID r) e)
      | Inr quota \<Rightarrow>
      (case DecodeQuota (ar_Used r) of Inl e \<Rightarrow> Inl (UndecodableRow (ar_ExternalID r) e)
       | Inr used \<Rightarrow>
           Inr \<lparr>xa_ProviderID = ar_ProviderID r, xa_ExternalID = ar_ExternalID r, xa_UserID = ar_UserID r,
                xa_Subject = ar_Subject r, xa_Username = ar_Username r, xa_Email = ar_Email r,
                xa_Enabled = ar_Enabled r, xa_Deleted = ar_Deleted r, xa_Quota = quota, xa_Used = used,
                xa_NeverUsed = ar_NeverUsed r, xa_ObservedAt = ar_ObservedAt r,
                xa_ObserveOK = ar_ObserveOK r\<rparr>))"

fun decode_rows :: "('r \<Rightarrow> 'e + 'a) \<Rightarrow> 'r list \<Rightarrow> 'e + 'a list" where
  "decode_rows f [] = Inr []"
| "decode_rows f (r # rs) = bind_result (f r) (\<lambda>x. bind_result (decode_rows f rs) (\<lambda>xs. Inr (x # xs)))"

definition ListExternalAccounts :: "RowID \<Rightarrow> Database \<Rightarrow> store_error + ExternalAccount list" where
  "ListExternalAccounts providerID db =
     decode_rows decode_account
       (sort_key ar_ExternalID (filter (\<lambda>r. ar_ProviderID r = providerID) (d_Accounts db)))"

definition ListAllExternalAccounts :: "Database \<Rightarrow> store_error + ExternalAccount list" where
  "ListAllExternalAccounts db = decode_rows decode_account (sort_key account_key (d_Accounts db))"

definition SetAccountOwner ::
  "RowID \<Rightarrow> string \<Rightarrow> RowID option \<Rightarrow> Database \<Rightarrow> store_error + Database" where
  "SetAccountOwner providerID externalID userID db =
     (if tbl_find account_key (providerID, externalID) (d_Accounts db) \<noteq> None \<and>
         (case userID of None \<Rightarrow> False | Some u \<Rightarrow> \<not> has_user db u)
      then Inl ForeignKeyViolation
      else Inr (db\<lparr>d_Accounts := tbl_update (\<lambda>r. account_key r = (providerID, externalID))
                      (ar_UserID_update (\<lambda>_. userID)) (d_Accounts db)\<rparr>))"

definition UpdateObservedAccount ::
  "RowID \<Rightarrow> Account \<Rightarrow> Time \<Rightarrow> Database \<Rightarrow> store_error + Database" where
  "UpdateObservedAccount providerID account observedAt db =
     (if ac_ExternalID account = [] then Inl (NoExternalID providerID)
      else case Quota_Valid (ac_Quota account) of Some e \<Rightarrow> Inl (InvalidQuota (ac_ExternalID account) e)
      | None \<Rightarrow>
      (case Quota_ValidAsUsage (ac_Used account) of
         Some e \<Rightarrow> Inl (InvalidUsage (ac_ExternalID account) e)
       | None \<Rightarrow>
           Inr (db\<lparr>d_Accounts := tbl_update (\<lambda>r. account_key r = (providerID, ac_ExternalID account))
              (\<lambda>r. (account_row providerID observedAt account)
                     \<lparr>ar_ProviderID := ar_ProviderID r, ar_ExternalID := ar_ExternalID r,
                      ar_UserID := ar_UserID r\<rparr>) (d_Accounts db)\<rparr>)))"

definition MarkAccountUnobserved :: "RowID \<Rightarrow> string \<Rightarrow> Database \<Rightarrow> Database" where
  "MarkAccountUnobserved providerID externalID db =
     db\<lparr>d_Accounts := tbl_update (\<lambda>r. account_key r = (providerID, externalID))
          (ar_ObserveOK_update (\<lambda>_. False)) (d_Accounts db)\<rparr>"

section \<open>Links and link issues\<close>

text \<open>
  The conflict clause names the primary key alone, so a row of another person with the same
  account on the provider makes the statement fail.
\<close>

definition UpsertLink :: "Time \<Rightarrow> AccountLink \<Rightarrow> Database \<Rightarrow> store_error + Database" where
  "UpsertLink now link db =
     (let link = (if lk_LinkedAt link = 0 then link\<lparr>lk_LinkedAt := now\<rparr> else link) in
      if \<exists>l \<in> set (d_Links db). link_target l = link_target link \<and> link_key l \<noteq> link_key link
      then Inl UniqueViolation
      else if \<not> has_user db (lk_UserID link) \<or> \<not> has_provider db (lk_ProviderID link)
      then Inl ForeignKeyViolation
      else Inr (db\<lparr>d_Links := tbl_put link_key link (d_Links db)\<rparr>))"

definition DeleteLink :: "RowID \<Rightarrow> RowID \<Rightarrow> Database \<Rightarrow> Database \<times> bool" where
  "DeleteLink userID providerID db =
     (db\<lparr>d_Links := tbl_del link_key (userID, providerID) (d_Links db)\<rparr>,
      tbl_find link_key (userID, providerID) (d_Links db) \<noteq> None)"

definition ListLinks :: "Database \<Rightarrow> AccountLink list" where
  "ListLinks db = sort_key link_target (d_Links db)"

definition issue_refs_ok :: "Database \<Rightarrow> LinkIssue \<Rightarrow> bool" where
  "issue_refs_ok db i \<longleftrightarrow> has_provider db (li_ProviderID i) \<and>
     (case li_UserID i of None \<Rightarrow> True | Some u \<Rightarrow> has_user db u)"

text \<open>The provider of the stored issue is the argument, not the field of the issue.\<close>

definition ReplaceLinkIssues :: "RowID \<Rightarrow> LinkIssue list \<Rightarrow> Database \<Rightarrow> store_error + Database" where
  "ReplaceLinkIssues providerID issues db =
     (let rows = map (li_ProviderID_update (\<lambda>_. providerID)) issues in
      if list_all (issue_refs_ok db) rows
      then Inr (db\<lparr>d_Issues := filter (\<lambda>i. li_ProviderID i \<noteq> providerID) (d_Issues db) @ rows\<rparr>)
      else Inl ForeignKeyViolation)"

definition issue_kind_text :: "LinkIssueKind \<Rightarrow> string" where
  "issue_kind_text k =
     (case k of IssueUnlinked \<Rightarrow> ''unlinked'' | IssueAmbiguous \<Rightarrow> ''ambiguous''
      | IssueDangling \<Rightarrow> ''dangling'' | IssueStale \<Rightarrow> ''stale'' | IssueUnmanaged \<Rightarrow> ''unmanaged'')"

definition ListLinkIssues :: "Database \<Rightarrow> LinkIssue list" where
  "ListLinkIssues db =
     sort_key (\<lambda>i. (li_ProviderID i, issue_kind_text (li_Kind i), li_ExternalID i)) (d_Issues db)"

section \<open>Providers\<close>

definition Degraded :: "ProviderRow \<Rightarrow> bool" where
  "Degraded r \<longleftrightarrow> pr_DegradedReason r \<noteq> []"

definition new_provider :: "RowID \<Rightarrow> ProviderInstance \<Rightarrow> ProviderRow" where
  "new_provider i inst =
     \<lparr>pr_Inst = inst\<lparr>pi_ID := i\<rparr>, pr_WriteAccess = WriteUnproven, pr_WriteProbedAt = None,
      pr_Version = [], pr_Reachable = False, pr_InSupported = False, pr_LastObserveAt = None,
      pr_LastObserveOK = False, pr_LastError = [], pr_DegradedReason = []\<rparr>"

definition update_provider :: "RowID \<Rightarrow> (ProviderRow \<Rightarrow> ProviderRow) \<Rightarrow> Database \<Rightarrow> Database" where
  "update_provider i f db =
     db\<lparr>d_Providers := tbl_update (\<lambda>r. provider_id r = i) f (d_Providers db)\<rparr>"

definition UpsertProvider :: "ProviderInstance \<Rightarrow> Database \<Rightarrow> store_error + Database \<times> RowID" where
  "UpsertProvider inst db =
     (if pi_Name inst = [] \<or> pi_Type inst = [] then Inl ProviderNeedsNameAndType
      else case find (\<lambda>r. pi_Name (pr_Inst r) = pi_Name inst) (d_Providers db) of
        None \<Rightarrow>
          if \<not> MatchKey_Valid (pi_MatchKey inst) then Inl CheckViolation
          else let i = next_id provider_id (d_Providers db) in
               Inr (db\<lparr>d_Providers := d_Providers db @ [new_provider i inst]\<rparr>, i)
      | Some r \<Rightarrow>
          if pi_Type (pr_Inst r) \<noteq> pi_Type inst then Inl (ProviderTypeChanged (pi_Name inst))
          else if \<not> MatchKey_Valid (pi_MatchKey inst) then Inl CheckViolation
          else Inr (update_provider (provider_id r)
                 (\<lambda>r. r\<lparr>pr_Inst := (pr_Inst r)\<lparr>pi_MatchKey := pi_MatchKey inst,
                                             pi_ConfigRef := pi_ConfigRef inst\<rparr>\<rparr>) db,
               provider_id r))"

definition ListProviders :: "Database \<Rightarrow> ProviderRow list" where
  "ListProviders db = sort_key (\<lambda>r. pi_Name (pr_Inst r)) (d_Providers db)"

definition GetProviderByName :: "string \<Rightarrow> Database \<Rightarrow> store_error + ProviderRow" where
  "GetProviderByName name db =
     (case find (\<lambda>r. pi_Name (pr_Inst r) = name) (d_Providers db) of
        None \<Rightarrow> Inl NoSuchRow | Some r \<Rightarrow> Inr r)"

definition parseWriteAccess :: "string \<Rightarrow> WriteAccess option" where
  "parseWriteAccess s =
     (if s = ''unproven'' then Some WriteUnproven else if s = ''yes'' then Some WriteYes
      else if s = ''no'' then Some WriteNo else None)"

text \<open>\<open>message\<close> is the text of the error, empty for none.\<close>

definition SaveHealth :: "RowID \<Rightarrow> HealthResult \<Rightarrow> string \<Rightarrow> Database \<Rightarrow> Database" where
  "SaveHealth i h message =
     update_provider i (\<lambda>r. r\<lparr>pr_Version := he_Version h, pr_Reachable := he_Reachable h,
       pr_InSupported := he_InSupported h, pr_LastError := message\<rparr>)"

definition SaveWriteAccess :: "RowID \<Rightarrow> WriteAccess \<Rightarrow> Time \<Rightarrow> Database \<Rightarrow> Database" where
  "SaveWriteAccess i access probedAt =
     update_provider i (\<lambda>r. r\<lparr>pr_WriteAccess := access, pr_WriteProbedAt := Some probedAt\<rparr>)"

definition SaveObserveResult :: "RowID \<Rightarrow> Time \<Rightarrow> bool \<Rightarrow> string \<Rightarrow> Database \<Rightarrow> Database" where
  "SaveObserveResult i observedAt success message =
     update_provider i (\<lambda>r. r\<lparr>pr_LastObserveAt := Some observedAt, pr_LastObserveOK := success,
       pr_LastError := message\<rparr>)"

definition SetDegraded :: "RowID \<Rightarrow> string \<Rightarrow> Database \<Rightarrow> Database" where
  "SetDegraded i reason = update_provider i (\<lambda>r. r\<lparr>pr_DegradedReason := reason\<rparr>)"

definition providers_ok :: "Database \<Rightarrow> bool" where
  "providers_ok db \<longleftrightarrow> tbl_ok provider_id (d_Providers db) \<and>
     tbl_ok (\<lambda>r. pi_Name (pr_Inst r)) (d_Providers db) \<and>
     (\<forall>r \<in> set (d_Providers db). MatchKey_Valid (pi_MatchKey (pr_Inst r)) \<and> pi_Name (pr_Inst r) \<noteq> [])"

section \<open>Reading back what was stored\<close>

lemma decode_rows_total: "\<forall>r \<in> set rs. f r = Inr (g r) \<Longrightarrow> decode_rows f rs = Inr (map g rs)"
  by (induction rs) auto

lemma decode_rows_map:
  "decode_rows f rs = Inr xs \<Longrightarrow> xs = map (\<lambda>r. projr (f r)) rs \<and> (\<forall>r \<in> set rs. f r = Inr (projr (f r)))"
proof (induction rs arbitrary: xs)
  case (Cons r rs)
  from Cons.prems obtain y ys where "f r = Inr y" "decode_rows f rs = Inr ys" "xs = y # ys"
    by (cases "f r"; cases "decode_rows f rs") simp_all
  with Cons.IH [of ys] show ?case by simp
qed simp

definition external_of :: "AccountRow \<Rightarrow> Quota \<Rightarrow> Quota \<Rightarrow> ExternalAccount" where
  "external_of r quota used =
     \<lparr>xa_ProviderID = ar_ProviderID r, xa_ExternalID = ar_ExternalID r, xa_UserID = ar_UserID r,
      xa_Subject = ar_Subject r, xa_Username = ar_Username r, xa_Email = ar_Email r,
      xa_Enabled = ar_Enabled r, xa_Deleted = ar_Deleted r, xa_Quota = quota, xa_Used = used,
      xa_NeverUsed = ar_NeverUsed r, xa_ObservedAt = ar_ObservedAt r, xa_ObserveOK = ar_ObserveOK r\<rparr>"

lemma decode_account_row:
  assumes "Quota_Valid (ac_Quota a) = None" "Quota_ValidAsUsage (ac_Used a) = None"
  shows "decode_account ((account_row p t a)\<lparr>ar_UserID := u\<rparr>) =
     Inr (external_of ((account_row p t a)\<lparr>ar_UserID := u\<rparr>) (ac_Quota a) (ac_Used a))"
proof -
  have "Quota_Valid (ac_Used a) = None" using assms(2) by (simp add: Quota_ValidAsUsage_def split: if_splits)
  then show ?thesis
    using assms by (simp add: decode_account_def account_row_def DecodeQuota_Encode_valid external_of_def)
qed

section \<open>What one observation leaves in the table\<close>

text \<open>
  The row a cycle leaves for an account: the reported values, and the owner the row had.
\<close>

definition row_after :: "RowID \<Rightarrow> Time \<Rightarrow> Account list \<Rightarrow> AccountRow list \<Rightarrow> RowID \<times> string \<Rightarrow> AccountRow option" where
  "row_after p t accounts rows k =
     (if fst k \<noteq> p then tbl_find account_key k rows
      else case find (\<lambda>a. ac_ExternalID a = snd k) (rev accounts) of
        None \<Rightarrow> None
      | Some a \<Rightarrow> Some ((account_row p t a)\<lparr>ar_UserID :=
          (case tbl_find account_key k rows of None \<Rightarrow> None | Some old \<Rightarrow> ar_UserID old)\<rparr>))"

lemma account_key_row [simp]:
  "account_key (account_row p t a) = (p, ac_ExternalID a)"
  "account_key (r\<lparr>ar_UserID := u\<rparr>) = account_key r"
  "account_key (r\<lparr>ar_ObserveOK := b\<rparr>) = account_key r"
  "account_key (ar_UserID_update f r) = account_key r"
  "account_key (ar_ObserveOK_update g r) = account_key r"
  by (simp_all add: account_key_def account_row_def)

lemma ar_UserID_account_row [simp]: "ar_UserID (account_row p t a) = None"
  by (simp add: account_row_def)

lemma put_account_find:
  "tbl_find account_key k (put_account row rows) =
     (if k = account_key row
      then Some (row\<lparr>ar_UserID := (case tbl_find account_key k rows of None \<Rightarrow> None | Some old \<Rightarrow> ar_UserID old)\<rparr>)
      else tbl_find account_key k rows)"
  by (simp add: put_account_def tbl_find_put)

lemma put_account_ok: "tbl_ok account_key rows \<Longrightarrow> tbl_ok account_key (put_account row rows)"
  by (simp add: put_account_def tbl_ok_put)

lemma store_accounts_frame:
  "store_accounts p t accounts db = Inr db' \<Longrightarrow>
     (\<exists>rows. db' = db\<lparr>d_Accounts := rows\<rparr> \<and> (tbl_ok account_key (d_Accounts db) \<longrightarrow> tbl_ok account_key rows)) \<and>
     (accounts \<noteq> [] \<longrightarrow> has_provider db p) \<and>
     (\<forall>a \<in> set accounts. ac_ExternalID a \<noteq> [] \<and> Quota_Valid (ac_Quota a) = None \<and>
        Quota_ValidAsUsage (ac_Used a) = None)"
proof (induction accounts arbitrary: db)
  case Nil
  then show ?case by (auto intro!: exI [of _ "d_Accounts db"])
next
  case (Cons a accounts)
  let ?db = "db\<lparr>d_Accounts := put_account (account_row p t a) (d_Accounts db)\<rparr>"
  from Cons.prems have "store_accounts p t accounts ?db = Inr db'" and a: "ac_ExternalID a \<noteq> []"
    "Quota_Valid (ac_Quota a) = None" "Quota_ValidAsUsage (ac_Used a) = None" "has_provider db p"
    by (auto split: if_splits option.splits)
  with Cons.IH [of ?db] show ?case
    by (auto simp: put_account_ok)
qed

lemma find_snoc: "find P (xs @ [x]) = (case find P xs of None \<Rightarrow> if P x then Some x else None | Some y \<Rightarrow> Some y)"
  by (induction xs) auto

lemma store_accounts_find:
  "store_accounts p t accounts db = Inr db' \<Longrightarrow>
     tbl_find account_key k (d_Accounts db') =
       (if fst k = p \<and> find (\<lambda>a. ac_ExternalID a = snd k) (rev accounts) = None
        then tbl_find account_key k (d_Accounts db)
        else row_after p t accounts (d_Accounts db) k)"
proof (induction accounts arbitrary: db)
  case Nil
  then show ?case by (auto simp: row_after_def)
next
  case (Cons a accounts)
  let ?db = "db\<lparr>d_Accounts := put_account (account_row p t a) (d_Accounts db)\<rparr>"
  from Cons.prems have "store_accounts p t accounts ?db = Inr db'"
    by (auto split: if_splits option.splits)
  note IH = Cons.IH [OF this]
  show ?case
    unfolding IH
    by (cases k; cases "find (\<lambda>a. ac_ExternalID a = snd k) (rev accounts)")
       (auto simp: row_after_def put_account_find find_snoc split: option.splits)
qed

lemma ReplaceExternalAccounts_find:
  assumes "ReplaceExternalAccounts p accounts t db = Inr db'" "tbl_ok account_key (d_Accounts db)"
  shows "tbl_find account_key k (d_Accounts db') = row_after p t accounts (d_Accounts db) k"
    and "tbl_ok account_key (d_Accounts db')"
    and "db' = db\<lparr>d_Accounts := d_Accounts db'\<rparr>"
proof -
  from assms(1) obtain db1 where db1: "store_accounts p t accounts db = Inr db1"
    by (auto simp: ReplaceExternalAccounts_def bind_result_eq_Inr)
  obtain rows where rows: "db1 = db\<lparr>d_Accounts := rows\<rparr>" and ok: "tbl_ok account_key rows"
    using store_accounts_frame [OF db1] assms(2) by auto
  define vanished where "vanished = map (Pair p) (filter (\<lambda>i. i \<notin> ac_ExternalID ` set accounts)
    (map ar_ExternalID (filter (\<lambda>r. ar_ProviderID r = p) rows)))"
  have db': "db' = db\<lparr>d_Accounts := rows.del_all account_key vanished rows\<rparr>"
    using assms(1) by (auto simp: ReplaceExternalAccounts_def db1 rows rows.del_all_def vanished_def foldl_map)
  show "db' = db\<lparr>d_Accounts := d_Accounts db'\<rparr>" by (simp add: db')
  show "tbl_ok account_key (d_Accounts db')" using rows.ok_del_all [OF ok] by (simp add: db')
  have find1: "tbl_find account_key k rows =
       (if fst k = p \<and> find (\<lambda>a. ac_ExternalID a = snd k) (rev accounts) = None
        then tbl_find account_key k (d_Accounts db) else row_after p t accounts (d_Accounts db) k)"
    using store_accounts_find [OF db1, of k] by (simp add: rows)
  have gone: "find (\<lambda>a. ac_ExternalID a = snd k) (rev accounts) = None \<longleftrightarrow> snd k \<notin> ac_ExternalID ` set accounts"
    by (force simp: find_None_iff)
  show "tbl_find account_key k (d_Accounts db') = row_after p t accounts (d_Accounts db) k"
  proof (cases "k \<in> set vanished")
    case True
    then show ?thesis
      using gone rows.find_del_all [OF ok, of k vanished]
      by (auto simp: db' vanished_def row_after_def)
  next
    case False
    have "tbl_find account_key k rows = row_after p t accounts (d_Accounts db) k"
    proof (cases "fst k = p \<and> snd k \<notin> ac_ExternalID ` set accounts")
      case True
      have "tbl_find account_key k rows = None"
      proof (rule ccontr)
        assume "tbl_find account_key k rows \<noteq> None"
        then obtain r where "r \<in> set rows" "account_key r = k" by (auto dest: tbl_find_Some)
        then have "k \<in> set vanished" using True
          by (cases k) (auto simp: vanished_def account_key_def image_iff)
        with False show False ..
      qed
      then show ?thesis using True gone by (auto simp: row_after_def)
    qed (use find1 gone in auto)
    then show ?thesis using False rows.find_del_all [OF ok, of k vanished] by (simp add: db')
  qed
qed

lemma refs_frame [simp]:
  "has_provider (d_Accounts_update f db) = has_provider db" "has_user (d_Accounts_update f db) = has_user db"
  "has_provider (d_Links_update g db) = has_provider db" "has_user (d_Links_update g db) = has_user db"
  "has_provider (d_Issues_update h db) = has_provider db" "has_user (d_Issues_update h db) = has_user db"
  by (simp_all add: has_provider_def has_user_def fun_eq_iff)

text \<open>
  After a successful observation the accounts of the provider read back as the reported ones,
  one row per account, in the order of the external id.
\<close>

definition reports :: "Account \<Rightarrow> ExternalAccount \<Rightarrow> bool" where
  "reports a x \<longleftrightarrow> xa_ExternalID x = ac_ExternalID a \<and> xa_Subject x = ac_Subject a \<and>
     xa_Username x = ac_Username a \<and> xa_Email x = ac_Email a \<and> xa_Enabled x = ac_Enabled a \<and>
     xa_Deleted x = ac_Deleted a \<and> xa_Quota x = ac_Quota a \<and> xa_Used x = ac_Used a \<and>
     xa_NeverUsed x = ac_NeverUsed a \<and> xa_ObserveOK x"

lemma find_rev_mem: "find P (rev xs) = Some a \<Longrightarrow> a \<in> set xs \<and> P a"
  by (induction xs) (auto simp: find_snoc split: option.splits if_splits)

lemma row_after_cases:
  assumes "row_after p t accounts rows k = Some r"
  obtains (other) "fst k \<noteq> p" "tbl_find account_key k rows = Some r"
  | (reported) a where "fst k = p" "a \<in> set accounts" "ac_ExternalID a = snd k"
      "r = (account_row p t a)\<lparr>ar_UserID := ar_UserID r\<rparr>" "ar_ProviderID r = p"
      "\<And>u. ar_UserID r = Some u \<Longrightarrow> \<exists>old. tbl_find account_key k rows = Some old \<and> ar_UserID old = Some u"
proof (cases "fst k = p")
  case True
  then obtain a where a: "find (\<lambda>a. ac_ExternalID a = snd k) (rev accounts) = Some a"
    and r: "r = (account_row p t a)\<lparr>ar_UserID :=
          (case tbl_find account_key k rows of None \<Rightarrow> None | Some old \<Rightarrow> ar_UserID old)\<rparr>"
    using assms by (auto simp: row_after_def split: option.splits)
  show ?thesis
    by (rule reported [OF True]) (use find_rev_mem [OF a] r in \<open>auto simp: account_row_def split: option.splits\<close>)
next
  case False
  then show ?thesis using assms by (intro other) (simp_all add: row_after_def)
qed

lemma row_after_reports:
  assumes "store_accounts p t accounts db = Inr db1" "row_after p t accounts rows (p, i) = Some r"
  obtains a x where "a \<in> set accounts" "ac_ExternalID a = i" "decode_account r = Inr x"
    "reports a x" "xa_ProviderID x = p"
proof -
  from assms(2) obtain a where a: "find (\<lambda>a. ac_ExternalID a = i) (rev accounts) = Some a"
    and r: "\<exists>u. r = (account_row p t a)\<lparr>ar_UserID := u\<rparr>"
    by (auto simp: row_after_def split: option.splits)
  then have mem: "a \<in> set accounts" "ac_ExternalID a = i"
    using find_rev_mem by force+
  obtain u where r: "r = (account_row p t a)\<lparr>ar_UserID := u\<rparr>" using r by blast
  have "decode_account r = Inr (external_of r (ac_Quota a) (ac_Used a))"
    unfolding r by (rule decode_account_row) (use store_accounts_frame [OF assms(1)] mem in auto)
  then show ?thesis
    using that mem r by (simp add: reports_def external_of_def account_row_def)
qed

lemma sorted_key_ids:
  assumes "tbl_ok account_key rows"
  shows "map ar_ExternalID (sort_key ar_ExternalID (filter (\<lambda>r. ar_ProviderID r = p) rows)) =
     sorted_list_of_set (snd ` {k \<in> account_key ` set rows. fst k = p})"
proof -
  let ?rs = "filter (\<lambda>r. ar_ProviderID r = p) rows"
  have inj: "inj_on ar_ExternalID (set ?rs)"
    using assms by (auto simp: inj_on_def tbl_ok_def distinct_map account_key_def)
  have "distinct ?rs" using assms by (simp add: tbl_ok_def distinct_map)
  then have "distinct (map ar_ExternalID (sort_key ar_ExternalID ?rs))"
    using inj by (simp add: distinct_map)
  moreover have "sorted (map ar_ExternalID (sort_key ar_ExternalID ?rs))" by simp
  moreover have "set (map ar_ExternalID (sort_key ar_ExternalID ?rs)) =
      snd ` {k \<in> account_key ` set rows. fst k = p}"
    by (force simp: account_key_def)
  ultimately show ?thesis by (metis sorted_list_of_set.idem_if_sorted_distinct)
qed

lemma ReplaceExternalAccounts_list:
  assumes rep: "ReplaceExternalAccounts p accounts t db = Inr db'"
    and ok: "tbl_ok account_key (d_Accounts db)"
  shows "\<exists>xs. ListExternalAccounts p db' = Inr xs \<and>
     map xa_ExternalID xs = sorted_list_of_set (ac_ExternalID ` set accounts) \<and>
     (\<forall>x \<in> set xs. \<exists>a \<in> set accounts. reports a x)"
proof -
  from rep obtain db1 where db1: "store_accounts p t accounts db = Inr db1"
    by (auto simp: ReplaceExternalAccounts_def bind_result_eq_Inr)
  note find = ReplaceExternalAccounts_find(1) [OF rep ok]
    and ok' = ReplaceExternalAccounts_find(2) [OF rep ok]
  let ?rows = "d_Accounts db'"
  define rs where "rs = sort_key ar_ExternalID (filter (\<lambda>r. ar_ProviderID r = p) ?rows)"
  have dec: "\<exists>a x. a \<in> set accounts \<and> decode_account r = Inr x \<and> reports a x \<and> xa_ExternalID x = ar_ExternalID r"
    if "r \<in> set rs" for r
  proof -
    have "r \<in> set ?rows" "account_key r = (p, ar_ExternalID r)"
      using that by (auto simp: rs_def account_key_def)
    then have "row_after p t accounts (d_Accounts db) (p, ar_ExternalID r) = Some r"
      using find [of "(p, ar_ExternalID r)"] tbl_find_mem [OF ok', of r] by simp
    then obtain a x where "a \<in> set accounts" "ac_ExternalID a = ar_ExternalID r" "decode_account r = Inr x"
      "reports a x" by (rule row_after_reports [OF db1])
    then show ?thesis by (auto simp: reports_def)
  qed
  define g where "g r = (case decode_account r of Inr x \<Rightarrow> x | Inl _ \<Rightarrow> undefined)" for r
  have g: "decode_account r = Inr (g r)" "xa_ExternalID (g r) = ar_ExternalID r"
    "\<exists>a \<in> set accounts. reports a (g r)" if "r \<in> set rs" for r
    using dec [OF that] by (auto simp: g_def)
  have list: "ListExternalAccounts p db' = Inr (map g rs)"
    unfolding ListExternalAccounts_def rs_def [symmetric] by (rule decode_rows_total) (use g in blast)
  have mem: "k \<in> account_key ` set ?rows \<longleftrightarrow> row_after p t accounts (d_Accounts db) k \<noteq> None" for k
    using tbl_find_None [of account_key k ?rows] find [of k] by metis
  have "row_after p t accounts (d_Accounts db) (p, i) \<noteq> None \<longleftrightarrow> i \<in> ac_ExternalID ` set accounts" for i
    by (auto simp: row_after_def find_None_iff split: option.splits dest: find_rev_mem)
  then have "{k \<in> account_key ` set ?rows. fst k = p} = Pair p ` (ac_ExternalID ` set accounts)"
    by (auto simp: mem) blast
  then have "map ar_ExternalID rs = sorted_list_of_set (ac_ExternalID ` set accounts)"
    unfolding rs_def sorted_key_ids [OF ok'] by (simp add: image_image)
  moreover have "map xa_ExternalID (map g rs) = map ar_ExternalID rs" using g(2) by simp
  ultimately show ?thesis using list g(3) by auto
qed

section \<open>The constraints hold after every operation\<close>

lemma ReplaceExternalAccounts_ok:
  assumes rep: "ReplaceExternalAccounts p accounts t db = Inr db'" and ok: "accounts_ok db"
  shows "accounts_ok db'"
proof -
  have tok: "tbl_ok account_key (d_Accounts db)" using ok by (simp add: accounts_ok_def)
  from rep obtain db1 where db1: "store_accounts p t accounts db = Inr db1"
    by (auto simp: ReplaceExternalAccounts_def bind_result_eq_Inr)
  note find = ReplaceExternalAccounts_find(1) [OF rep tok]
    and tok' = ReplaceExternalAccounts_find(2) [OF rep tok]
    and frame = ReplaceExternalAccounts_find(3) [OF rep tok]
  have refs: "has_provider db' = has_provider db" "has_user db' = has_user db"
    by (subst frame, simp)+
  have "has_provider db (ar_ProviderID r) \<and> (\<forall>u. ar_UserID r = Some u \<longrightarrow> has_user db u)"
    if r: "r \<in> set (d_Accounts db')" for r
  proof -
    have "row_after p t accounts (d_Accounts db) (account_key r) = Some r"
      using find [of "account_key r"] tbl_find_mem [OF tok' r] by simp
    then show ?thesis
    proof (cases rule: row_after_cases)
      case other
      then show ?thesis using ok tbl_find_Some by (force simp: accounts_ok_def)
    next
      case (reported a)
      then have "has_provider db p" using store_accounts_frame [OF db1] by (cases accounts) auto
      moreover have "has_user db u" if "ar_UserID r = Some u" for u
        using reported(6) [OF that] ok tbl_find_Some by (force simp: accounts_ok_def)
      ultimately show ?thesis by (simp add: reported(5))
    qed
  qed
  then show ?thesis using tok' by (simp add: accounts_ok_def refs)
qed

lemma accounts_ok_update:
  assumes "accounts_ok db" "\<And>r. account_key (f r) = account_key r"
    and "\<And>r u. r \<in> set (d_Accounts db) \<Longrightarrow> P r \<Longrightarrow> ar_UserID (f r) = Some u \<Longrightarrow> has_user db u"
  shows "accounts_ok (db\<lparr>d_Accounts := tbl_update P f (d_Accounts db)\<rparr>)"
proof -
  have "ar_ProviderID (f r) = ar_ProviderID r" for r using assms(2) [of r] by (simp add: account_key_def)
  then show ?thesis
    using assms by (auto simp: accounts_ok_def tbl_ok_update) (auto simp: tbl_update_def)
qed

lemma SetAccountOwner_ok:
  assumes "SetAccountOwner p e u db = Inr db'" "accounts_ok db"
  shows "accounts_ok db'"
proof -
  have "has_user db v" if "r \<in> set (d_Accounts db)" "account_key r = (p, e)" "u = Some v" for r v
    using assms that tbl_find_mem [of account_key "d_Accounts db" r]
    by (auto simp: SetAccountOwner_def accounts_ok_def split: if_splits)
  then have "accounts_ok (db\<lparr>d_Accounts := tbl_update (\<lambda>r. account_key r = (p, e))
      (ar_UserID_update (\<lambda>_. u)) (d_Accounts db)\<rparr>)"
    by (intro accounts_ok_update [OF assms(2)]) auto
  then show ?thesis using assms(1) by (auto simp: SetAccountOwner_def split: if_splits)
qed

lemma UpdateObservedAccount_ok:
  assumes "UpdateObservedAccount p a t db = Inr db'" "accounts_ok db"
  shows "accounts_ok db'"
proof -
  let ?f = "\<lambda>r. (account_row p t a)\<lparr>ar_ProviderID := ar_ProviderID r, ar_ExternalID := ar_ExternalID r,
                     ar_UserID := ar_UserID r\<rparr>"
  have "accounts_ok (db\<lparr>d_Accounts := tbl_update (\<lambda>r. account_key r = (p, ac_ExternalID a)) ?f (d_Accounts db)\<rparr>)"
    using assms(2) by (intro accounts_ok_update) (auto simp: account_key_def accounts_ok_def)
  then show ?thesis using assms(1) by (auto simp: UpdateObservedAccount_def split: if_splits option.splits)
qed

lemma MarkAccountUnobserved_ok: "accounts_ok db \<Longrightarrow> accounts_ok (MarkAccountUnobserved p e db)"
  unfolding MarkAccountUnobserved_def
  by (rule accounts_ok_update) (auto simp: accounts_ok_def)

text \<open>One account of a provider has one person, and a person one account on a provider.\<close>

lemma tbl_ok_put_other:
  assumes "tbl_ok other rows" "tbl_ok key rows"
    and "\<And>s. s \<in> set rows \<Longrightarrow> other s = other r \<Longrightarrow> key s = key r"
  shows "tbl_ok other (tbl_put key r rows)"
  using assms
proof (induction rows)
  case (Cons s rows)
  have keep: "other t \<in> other ` set rows" if "t \<in> set (tbl_put key r rows)" "t \<noteq> r" for t
    using that Cons.prems(2) by (auto simp: tbl_put_set tbl_ok_def)
  show ?case
  proof (cases "key s = key r")
    case True
    then have "other r \<notin> other ` set rows"
      using Cons.prems by (auto simp: tbl_ok_def image_iff)
    then show ?thesis using True Cons.prems(1) by (simp add: tbl_ok_def)
  next
    case False
    then have "other s \<noteq> other r" using Cons.prems(3) [of s] by auto
    then have "other s \<notin> other ` set (tbl_put key r rows)"
      using keep Cons.prems(1) by (force simp: tbl_ok_def)
    moreover have "tbl_ok other (tbl_put key r rows)"
      using Cons by (auto simp: tbl_ok_def)
    ultimately show ?thesis using False by (simp add: tbl_ok_def)
  qed
qed (simp add: tbl_ok_def)

lemma UpsertLink_ok:
  assumes "UpsertLink now l db = Inr db'" "links_ok db"
  shows "links_ok db'"
proof -
  define l' where "l' = (if lk_LinkedAt l = 0 then l\<lparr>lk_LinkedAt := now\<rparr> else l)"
  have free: "\<And>m. m \<in> set (d_Links db) \<Longrightarrow> link_target m = link_target l' \<Longrightarrow> link_key m = link_key l'"
    and refs: "has_user db (lk_UserID l')" "has_provider db (lk_ProviderID l')"
    and db': "db' = db\<lparr>d_Links := tbl_put link_key l' (d_Links db)\<rparr>"
    using assms(1) unfolding UpsertLink_def l'_def Let_def by (auto split: if_splits)
  have ok: "tbl_ok link_key (d_Links db)" "tbl_ok link_target (d_Links db)"
    using assms(2) by (simp_all add: links_ok_def)
  have "tbl_ok link_target (tbl_put link_key l' (d_Links db))"
    by (rule tbl_ok_put_other [OF ok(2,1)]) (rule free)
  then show ?thesis
    using assms(2) refs ok(1)
    by (auto simp: links_ok_def db' tbl_ok_put tbl_put_set)
qed

lemma DeleteLink_ok: "links_ok db \<Longrightarrow> links_ok (fst (DeleteLink u p db))"
  by (auto simp: links_ok_def DeleteLink_def tbl_ok_del) (auto simp: tbl_del_def tbl_ok_filter)

lemma ReplaceLinkIssues_ok:
  assumes "ReplaceLinkIssues p issues db = Inr db'" "issues_ok db"
  shows "issues_ok db'"
proof -
  have refs: "issue_refs_ok db i \<longleftrightarrow> has_provider db (li_ProviderID i) \<and>
      (\<forall>u. li_UserID i = Some u \<longrightarrow> has_user db u)" for i
    by (cases "li_UserID i") (simp_all add: issue_refs_ok_def)
  show ?thesis
    using assms by (auto simp: ReplaceLinkIssues_def issues_ok_def refs list_all_iff split: if_splits)
qed

end
