(* ===== verification/StoreIdentity.thy ===== *)
theory StoreIdentity
  imports Store
begin

text \<open>
  \<open>internal/store/identity.go\<close>: applying a directory snapshot in one transaction, people
  entered by hand, and reading everyone back with their groups.
\<close>

section \<open>Applying a snapshot\<close>

record IdentityResult =
  id_Users :: nat
  id_Groups :: nat
  id_Orphaned :: nat
  id_Restored :: nat

definition group_identity :: "Group \<Rightarrow> IdentitySource \<times> string" where
  "group_identity g = (g_Source g, g_SourceUUID g)"

definition user_identity :: "User \<Rightarrow> IdentitySource \<times> string" where
  "user_identity u = (u_Source u, u_SourceUUID u)"

definition upsertGroup :: "IdentitySource \<Rightarrow> Group \<Rightarrow> Database \<Rightarrow> Database \<times> RowID" where
  "upsertGroup source g db =
     (case find (\<lambda>r. group_identity r = (source, g_SourceUUID g)) (d_Groups db) of
        Some r \<Rightarrow>
          (db\<lparr>d_Groups := tbl_update (\<lambda>s. group_identity s = (source, g_SourceUUID g))
                (\<lambda>s. s\<lparr>g_Name := g_Name g, g_DisplayName := g_DisplayName g\<rparr>) (d_Groups db)\<rparr>, g_ID r)
      | None \<Rightarrow>
          (let i = next_id g_ID (d_Groups db) in
           (db\<lparr>d_Groups := d_Groups db @ [\<lparr>g_ID = i, g_Source = source, g_SourceUUID = g_SourceUUID g,
                g_Name = g_Name g, g_DisplayName = g_DisplayName g\<rparr>]\<rparr>, i)))"

text \<open>The third result says that an orphaned person came back.\<close>

definition upsertUser :: "IdentitySource \<Rightarrow> User \<Rightarrow> Database \<Rightarrow> Database \<times> RowID \<times> bool" where
  "upsertUser source u db =
     (case find (\<lambda>r. user_identity r = (source, u_SourceUUID u)) (d_Users db) of
        Some r \<Rightarrow>
          (db\<lparr>d_Users := tbl_update (\<lambda>s. u_ID s = u_ID r)
                (\<lambda>s. s\<lparr>u_UID := u_UID u, u_Email := u_Email u, u_DisplayName := u_DisplayName u,
                       u_Status := UserActive\<rparr>) (d_Users db)\<rparr>,
           u_ID r, u_Status r = UserOrphaned)
      | None \<Rightarrow>
          (let i = next_id u_ID (d_Users db) in
           (db\<lparr>d_Users := d_Users db @ [\<lparr>u_ID = i, u_Source = source, u_SourceUUID = u_SourceUUID u,
                u_UID = u_UID u, u_Email = u_Email u, u_DisplayName = u_DisplayName u,
                u_Status = UserActive, u_GroupUUIDs = []\<rparr>]\<rparr>, i, False)))"

fun insert_memberships ::
  "RowID \<Rightarrow> (string \<rightharpoonup> RowID) \<Rightarrow> string list \<Rightarrow> Database \<Rightarrow> store_error + Database" where
  "insert_memberships userID groupIDs [] db = Inr db"
| "insert_memberships userID groupIDs (uuid # uuids) db =
     (case groupIDs uuid of
        None \<Rightarrow> Inl (UnknownMembership userID uuid)
      | Some groupID \<Rightarrow>
          insert_memberships userID groupIDs uuids
            (if (userID, groupID) \<in> set (d_UserGroups db) then db
             else db\<lparr>d_UserGroups := d_UserGroups db @ [(userID, groupID)]\<rparr>))"

definition setUserGroups ::
  "RowID \<Rightarrow> string list \<Rightarrow> (string \<rightharpoonup> RowID) \<Rightarrow> Database \<Rightarrow> store_error + Database" where
  "setUserGroups userID groupUUIDs groupIDs db =
     insert_memberships userID groupIDs groupUUIDs
       (db\<lparr>d_UserGroups := filter (\<lambda>m. fst m \<noteq> userID) (d_UserGroups db)\<rparr>)"

definition to_orphan :: "IdentitySource \<Rightarrow> string list \<Rightarrow> User \<Rightarrow> bool" where
  "to_orphan source seen r \<longleftrightarrow>
     u_Source r = source \<and> u_Status r = UserActive \<and> u_SourceUUID r \<notin> set seen"

definition markOrphaned :: "IdentitySource \<Rightarrow> string list \<Rightarrow> Database \<Rightarrow> Database \<times> nat" where
  "markOrphaned source seen db =
     (db\<lparr>d_Users := tbl_update (to_orphan source seen) (u_Status_update (\<lambda>_. UserOrphaned)) (d_Users db)\<rparr>,
      length (filter (to_orphan source seen) (d_Users db)))"

fun replace_groups ::
  "IdentitySource \<Rightarrow> Group list \<Rightarrow> (string \<rightharpoonup> RowID) \<Rightarrow> Database \<Rightarrow> store_error + Database \<times> (string \<rightharpoonup> RowID)" where
  "replace_groups source [] groupIDs db = Inr (db, groupIDs)"
| "replace_groups source (g # gs) groupIDs db =
     (if g_SourceUUID g = [] then Inl (GroupWithoutUUID (g_Name g))
      else case upsertGroup source g db of
        (db, i) \<Rightarrow> replace_groups source gs (groupIDs(g_SourceUUID g \<mapsto> i)) db)"

fun replace_users ::
  "IdentitySource \<Rightarrow> (string \<rightharpoonup> RowID) \<Rightarrow> User list \<Rightarrow> nat \<Rightarrow> Database \<Rightarrow> store_error + Database \<times> nat" where
  "replace_users source groupIDs [] restored db = Inr (db, restored)"
| "replace_users source groupIDs (u # us) restored db =
     (if u_SourceUUID u = [] then Inl (UserWithoutUUID (u_UID u))
      else case upsertUser source u db of
        (db, i, back) \<Rightarrow>
          bind_result (setUserGroups i (u_GroupUUIDs u) groupIDs db)
            (replace_users source groupIDs us (if back then restored + 1 else restored)))"

definition ReplaceIdentity :: "IdentitySnapshot \<Rightarrow> Database \<Rightarrow> store_error + Database \<times> IdentityResult" where
  "ReplaceIdentity snap db =
     bind_result (replace_groups (sn_Source snap) (sn_Groups snap) Map.empty db) (\<lambda>(db, groupIDs).
     bind_result (replace_users (sn_Source snap) groupIDs (sn_Users snap) 0 db) (\<lambda>(db, restored).
       case markOrphaned (sn_Source snap) (map u_SourceUUID (sn_Users snap)) db of
         (db, orphaned) \<Rightarrow>
           Inr (db, \<lparr>id_Users = length (sn_Users snap), id_Groups = length (sn_Groups snap),
                     id_Orphaned = orphaned, id_Restored = restored\<rparr>)))"

section \<open>Reading\<close>

text \<open>The memberships of one user, joined to the uuid of the group, in the order of the uuid.\<close>

definition user_groups :: "Database \<Rightarrow> RowID \<Rightarrow> string list" where
  "user_groups db i =
     sort (concat (map (\<lambda>(userID, groupID).
        if userID = i then (case find (\<lambda>g. g_ID g = groupID) (d_Groups db) of
                              None \<Rightarrow> [] | Some g \<Rightarrow> [g_SourceUUID g]) else []) (d_UserGroups db)))"

definition ListUsers :: "Database \<Rightarrow> User list" where
  "ListUsers db = map (\<lambda>u. u\<lparr>u_GroupUUIDs := user_groups db (u_ID u)\<rparr>) (sort_key u_SourceUUID (d_Users db))"

definition ListGroups :: "Database \<Rightarrow> Group list" where
  "ListGroups db = sort_key g_Name (d_Groups db)"

section \<open>People entered by hand\<close>

text \<open>\<open>uuid\<close> is the value of \<open>randomUUID\<close>, used when the person has none.\<close>

definition AddManualUser :: "string \<Rightarrow> User \<Rightarrow> Database \<Rightarrow> store_error + Database \<times> User" where
  "AddManualUser uuid u db =
     (if TrimSpace (u_UID u) = [] then Inl UserNeedsUID
      else
        let u = u\<lparr>u_Source := SourceManual, u_Status := UserActive\<rparr>;
            u = (if u_SourceUUID u = [] then u\<lparr>u_SourceUUID := uuid\<rparr> else u);
            u = (if u_DisplayName u = [] then u\<lparr>u_DisplayName := u_UID u\<rparr> else u)
        in if \<exists>r \<in> set (d_Users db). EqualFold (u_UID r) (u_UID u) then Inl (UIDTaken (u_UID u))
           else case upsertUser SourceManual u db of
             (db, i, _) \<Rightarrow> Inr (db, u\<lparr>u_ID := i\<rparr>))"

text \<open>
  The references to a person: memberships, links, issues and policy rows go with the row,
  observed accounts and the audit log keep theirs without the person.
\<close>

definition DeleteUser :: "RowID \<Rightarrow> Database \<Rightarrow> Database \<times> bool" where
  "DeleteUser i db =
     (if \<not> has_user db i then (db, False)
      else (db\<lparr>d_Users := tbl_del u_ID i (d_Users db),
               d_UserGroups := filter (\<lambda>m. fst m \<noteq> i) (d_UserGroups db),
               d_Accounts := tbl_update (\<lambda>r. ar_UserID r = Some i) (ar_UserID_update (\<lambda>_. None)) (d_Accounts db),
               d_Links := filter (\<lambda>l. lk_UserID l \<noteq> i) (d_Links db),
               d_Issues := filter (\<lambda>x. li_UserID x \<noteq> Some i) (d_Issues db),
               d_UserTiers := filter (\<lambda>m. fst m \<noteq> i) (d_UserTiers db),
               d_Overrides := filter (\<lambda>r. or_UserID r \<noteq> i) (d_Overrides db),
               d_Audit := tbl_update (\<lambda>r. au_UserID r = Some i) (au_UserID_update (\<lambda>_. None)) (d_Audit db)\<rparr>,
            True))"

section \<open>Identity survives\<close>

definition users_ok :: "Database \<Rightarrow> bool" where
  "users_ok db \<longleftrightarrow> tbl_ok u_ID (d_Users db) \<and> tbl_ok user_identity (d_Users db)"

text \<open>
  What a person keeps from one snapshot to the next: the row id under the same identity.
\<close>

definition id_of :: "Database \<Rightarrow> IdentitySource \<times> string \<Rightarrow> RowID option" where
  "id_of db k = map_option u_ID (find (\<lambda>r. user_identity r = k) (d_Users db))"

lemma user_identity_update [simp]:
  "user_identity (u_UID_update fa r) = user_identity r" "user_identity (u_Email_update fa r) = user_identity r"
  "user_identity (u_DisplayName_update fa r) = user_identity r"
  "user_identity (u_Status_update fb r) = user_identity r"
  by (simp_all add: user_identity_def)

lemma find_update_id:
  assumes "\<And>r. user_identity (f r) = user_identity r" "\<And>r. u_ID (f r) = u_ID r"
  shows "map_option u_ID (find (\<lambda>r. user_identity r = k) (tbl_update P f rows)) =
     map_option u_ID (find (\<lambda>r. user_identity r = k) rows)"
  by (induction rows) (auto simp: tbl_update_def assms)

lemma find_append: "find P (xs @ ys) = (case find P xs of None \<Rightarrow> find P ys | Some x \<Rightarrow> Some x)"
  by (induction xs) auto

lemma users_ok_insert:
  assumes "users_ok db" "find (\<lambda>r. user_identity r = user_identity u) (d_Users db) = None"
    "u_ID u = next_id u_ID (d_Users db)"
  shows "users_ok (db\<lparr>d_Users := d_Users db @ [u]\<rparr>)"
proof -
  have "u_ID u \<notin> u_ID ` set (d_Users db)" using next_id_fresh [of _ "d_Users db" u_ID] assms(3) by force
  moreover have "user_identity u \<notin> user_identity ` set (d_Users db)" using assms(2) by (auto simp: find_None_iff)
  ultimately show ?thesis using assms(1) by (simp add: users_ok_def tbl_ok_def)
qed

lemma upsertUser_props:
  assumes "upsertUser source u db = (db', i, back)" "users_ok db"
  shows "users_ok db'" "id_of db' (source, u_SourceUUID u) = Some i"
    "\<And>k j. id_of db k = Some j \<Longrightarrow> id_of db' k = Some j"
    "d_UserGroups db' = d_UserGroups db" "d_Groups db' = d_Groups db"
proof -
  let ?P = "\<lambda>r. user_identity r = (source, u_SourceUUID u)"
  have "users_ok db' \<and> id_of db' (source, u_SourceUUID u) = Some i \<and>
      (\<forall>k j. id_of db k = Some j \<longrightarrow> id_of db' k = Some j) \<and>
      d_UserGroups db' = d_UserGroups db \<and> d_Groups db' = d_Groups db"
  proof (cases "find ?P (d_Users db)")
    case None
    let ?new = "\<lparr>u_ID = next_id u_ID (d_Users db), u_Source = source, u_SourceUUID = u_SourceUUID u,
        u_UID = u_UID u, u_Email = u_Email u, u_DisplayName = u_DisplayName u,
        u_Status = UserActive, u_GroupUUIDs = []\<rparr>"
    have eq: "db' = db\<lparr>d_Users := d_Users db @ [?new]\<rparr>" "i = u_ID ?new"
      using assms(1) None by (auto simp: upsertUser_def Let_def)
    have ident: "user_identity ?new = (source, u_SourceUUID u)" by (simp add: user_identity_def)
    have "users_ok db'" unfolding eq by (rule users_ok_insert [OF assms(2)]) (simp_all add: ident None)
    moreover have ids: "id_of db' k = (case id_of db k of None \<Rightarrow> if k = (source, u_SourceUUID u) then Some i else None
        | Some j \<Rightarrow> Some j)" for k
      unfolding eq by (auto simp: id_of_def find_append ident split: option.splits)
    moreover have "id_of db' (source, u_SourceUUID u) = Some i" using ids None by (simp add: id_of_def)
    moreover have "\<forall>k j. id_of db k = Some j \<longrightarrow> id_of db' k = Some j" using ids by simp
    moreover have "d_UserGroups db' = d_UserGroups db" "d_Groups db' = d_Groups db" by (simp_all add: eq)
    ultimately show ?thesis by blast
  next
    case (Some r)
    let ?f = "\<lambda>s. s\<lparr>u_UID := u_UID u, u_Email := u_Email u, u_DisplayName := u_DisplayName u,
                     u_Status := UserActive\<rparr>"
    have eq: "db' = db\<lparr>d_Users := tbl_update (\<lambda>s. u_ID s = u_ID r) ?f (d_Users db)\<rparr>" "i = u_ID r"
      using assms(1) Some by (auto simp: upsertUser_def)
    have ids: "id_of db' k = id_of db k" for k
      unfolding eq id_of_def by (simp add: find_update_id)
    have "users_ok db'" using assms(2) unfolding eq by (simp add: users_ok_def tbl_ok_update)
    then show ?thesis using ids Some eq by (simp add: id_of_def)
  qed
  then show "users_ok db'" "id_of db' (source, u_SourceUUID u) = Some i"
    "\<And>k j. id_of db k = Some j \<Longrightarrow> id_of db' k = Some j"
    "d_UserGroups db' = d_UserGroups db" "d_Groups db' = d_Groups db" by blast+
qed

text \<open>Whether a person is active, by identity.\<close>

definition status_of :: "Database \<Rightarrow> IdentitySource \<times> string \<Rightarrow> UserStatus option" where
  "status_of db k = map_option u_Status (find (\<lambda>r. user_identity r = k) (d_Users db))"

lemma find_update:
  assumes "\<And>r. user_identity (f r) = user_identity r"
  shows "find (\<lambda>r. user_identity r = k) (tbl_update P f rows) =
     map_option (\<lambda>r. if P r then f r else r) (find (\<lambda>r. user_identity r = k) rows)"
  by (induction rows) (auto simp: tbl_update_def assms)

lemma find_user_mem:
  "find (\<lambda>r. user_identity r = k) rows = Some r \<Longrightarrow> r \<in> set rows \<and> user_identity r = k"
  by (auto simp: find_Some_iff)

lemma upsertUser_status:
  assumes "upsertUser source u db = (db', i, back)" "users_ok db"
  shows "status_of db' k = (if k = (source, u_SourceUUID u) then Some UserActive else status_of db k)"
proof (cases "find (\<lambda>r. user_identity r = (source, u_SourceUUID u)) (d_Users db)")
  case None
  then show ?thesis
    using assms(1)
    by (auto simp: upsertUser_def Let_def status_of_def find_append user_identity_def split: option.splits)
next
  case (Some r)
  have same: "u_ID s = u_ID r \<longleftrightarrow> user_identity s = (source, u_SourceUUID u)" if "s \<in> set (d_Users db)" for s
    using assms(2) that find_user_mem [OF Some]
    by (auto simp: users_ok_def tbl_ok_def distinct_map inj_on_def)
  let ?f = "\<lambda>s. s\<lparr>u_UID := u_UID u, u_Email := u_Email u, u_DisplayName := u_DisplayName u,
                   u_Status := UserActive\<rparr>"
  have db': "d_Users db' = tbl_update (\<lambda>s. u_ID s = u_ID r) ?f (d_Users db)"
    using assms(1) Some by (auto simp: upsertUser_def)
  have st: "status_of db' k = map_option (\<lambda>s. if u_ID s = u_ID r then UserActive else u_Status s)
      (find (\<lambda>r. user_identity r = k) (d_Users db))"
    unfolding status_of_def db' by (cases "find (\<lambda>r. user_identity r = k) (d_Users db)") (simp_all add: find_update)
  show ?thesis
  proof (cases "find (\<lambda>r. user_identity r = k) (d_Users db)")
    case None
    with Some have "k \<noteq> (source, u_SourceUUID u)" by auto
    then show ?thesis using None st by (simp add: status_of_def)
  next
    case (Some s)
    have "u_ID s = u_ID r \<longleftrightarrow> k = (source, u_SourceUUID u)"
      using same [of s] find_user_mem [OF Some] by auto
    moreover have "status_of db k = Some (u_Status s)" by (simp add: status_of_def Some)
    ultimately show ?thesis unfolding st Some by simp
  qed
qed

lemma insert_memberships_frame:
  "insert_memberships i groupIDs uuids db = Inr db' \<Longrightarrow>
     d_Users db' = d_Users db \<and> d_Groups db' = d_Groups db \<and>
     set (d_UserGroups db') = set (d_UserGroups db) \<union> Pair i ` {g. \<exists>x \<in> set uuids. groupIDs x = Some g} \<and>
     (\<forall>x \<in> set uuids. groupIDs x \<noteq> None)"
proof (induction uuids arbitrary: db)
  case (Cons x uuids)
  then obtain g where g: "groupIDs x = Some g" by (auto split: option.splits)
  let ?db = "if (i, g) \<in> set (d_UserGroups db) then db
             else db\<lparr>d_UserGroups := d_UserGroups db @ [(i, g)]\<rparr>"
  have "insert_memberships i groupIDs uuids ?db = Inr db'" using Cons.prems g by simp
  from Cons.IH [OF this] show ?case using g by auto
qed auto

lemma setUserGroups_frame:
  assumes "setUserGroups i uuids groupIDs db = Inr db'"
  shows "d_Users db' = d_Users db" "d_Groups db' = d_Groups db"
    "set (d_UserGroups db') = {m \<in> set (d_UserGroups db). fst m \<noteq> i} \<union>
       Pair i ` {g. \<exists>x \<in> set uuids. groupIDs x = Some g}"
  using insert_memberships_frame [OF assms [unfolded setUserGroups_def]] by auto

lemma status_frame: "d_Users db' = d_Users db \<Longrightarrow> status_of db' = status_of db \<and> id_of db' = id_of db \<and>
    users_ok db' = users_ok db"
  by (simp add: status_of_def id_of_def users_ok_def fun_eq_iff)

lemma replace_groups_users:
  "replace_groups source gs m db = Inr (db', m') \<Longrightarrow> d_Users db' = d_Users db \<and> d_UserGroups db' = d_UserGroups db"
proof (induction gs arbitrary: db m)
  case (Cons g gs)
  obtain db1 i where up: "upsertGroup source g db = (db1, i)" by fastforce
  then have "d_Users db1 = d_Users db" "d_UserGroups db1 = d_UserGroups db"
    by (auto simp: upsertGroup_def Let_def split: option.splits)
  then show ?case using Cons.IH [of _ db1] Cons.prems up by (auto split: if_splits)
qed simp

lemma replace_users_props:
  "replace_users source groupIDs us n db = Inr (db', n') \<Longrightarrow> users_ok db \<Longrightarrow>
     users_ok db' \<and> (\<forall>k j. id_of db k = Some j \<longrightarrow> id_of db' k = Some j) \<and>
     (\<forall>k. status_of db' k = (if k \<in> (\<lambda>u. (source, u_SourceUUID u)) ` set us then Some UserActive
                              else status_of db k))"
proof (induction us arbitrary: db n)
  case (Cons u us)
  obtain db1 i bk where up: "upsertUser source u db = (db1, i, bk)" by (metis prod_cases3)
  note p = upsertUser_props [OF up Cons.prems(2)] and st = upsertUser_status [OF up Cons.prems(2)]
  from Cons.prems up obtain db2 where sug: "setUserGroups i (u_GroupUUIDs u) groupIDs db1 = Inr db2"
    and tail: "replace_users source groupIDs us (if bk then n + 1 else n) db2 = Inr (db', n')"
    by (auto simp: bind_result_eq_Inr split: if_splits)
  have fr: "status_of db2 = status_of db1" "id_of db2 = id_of db1" "users_ok db2 = users_ok db1"
    using status_frame [OF setUserGroups_frame(1) [OF sug]] by auto
  have IH: "users_ok db' \<and> (\<forall>k j. id_of db1 k = Some j \<longrightarrow> id_of db' k = Some j) \<and>
     (\<forall>k. status_of db' k = (if k \<in> (\<lambda>u. (source, u_SourceUUID u)) ` set us then Some UserActive
                              else status_of db1 k))"
    using Cons.IH [OF tail] fr p(1) by simp
  then show ?case using p(3) st by auto
qed auto

text \<open>
  After a snapshot everyone in it is active, everyone else of the same source is orphaned,
  other sources are as they were, and every person keeps the row id.
\<close>

lemma ReplaceIdentity_props:
  assumes rep: "ReplaceIdentity snap db = Inr (db', result)" and ok: "users_ok db"
  shows "users_ok db'"
    and "\<And>k j. id_of db k = Some j \<Longrightarrow> id_of db' k = Some j"
    and "\<And>u. u \<in> set (sn_Users snap) \<Longrightarrow> status_of db' (sn_Source snap, u_SourceUUID u) = Some UserActive"
    and "\<And>x. x \<notin> u_SourceUUID ` set (sn_Users snap) \<Longrightarrow>
           status_of db' (sn_Source snap, x) = map_option (\<lambda>_. UserOrphaned) (status_of db (sn_Source snap, x))"
    and "\<And>s x. s \<noteq> sn_Source snap \<Longrightarrow> status_of db' (s, x) = status_of db (s, x)"
proof -
  let ?seen = "map u_SourceUUID (sn_Users snap)"
  from rep obtain db1 m db2 n where g: "replace_groups (sn_Source snap) (sn_Groups snap) Map.empty db = Inr (db1, m)"
    and u: "replace_users (sn_Source snap) m (sn_Users snap) 0 db1 = Inr (db2, n)"
    and db': "db' = fst (markOrphaned (sn_Source snap) ?seen db2)"
    by (auto simp: ReplaceIdentity_def bind_result_eq_Inr markOrphaned_def)
  have fr: "status_of db1 = status_of db" "id_of db1 = id_of db" "users_ok db1"
    using status_frame [of db1 db] replace_groups_users [OF g] ok by auto
  note p = replace_users_props [OF u fr(3)]
  have st: "status_of db' k = (case find (\<lambda>r. user_identity r = k) (d_Users db2) of None \<Rightarrow> None
      | Some r \<Rightarrow> Some (if to_orphan (sn_Source snap) ?seen r then UserOrphaned else u_Status r))" for k
    by (auto simp: db' markOrphaned_def status_of_def find_update split: option.splits)
  show "users_ok db'" using p by (simp add: db' markOrphaned_def users_ok_def tbl_ok_update)
  show "id_of db' k = Some j" if "id_of db k = Some j" for k j
  proof -
    have "id_of db' k = id_of db2 k" by (simp add: db' markOrphaned_def id_of_def find_update_id)
    then show ?thesis using p that fr(2) by simp
  qed
  show "status_of db' (sn_Source snap, u_SourceUUID u) = Some UserActive" if "u \<in> set (sn_Users snap)" for u
  proof -
    have "status_of db2 (sn_Source snap, u_SourceUUID u) = Some UserActive" using p that by auto
    then obtain r where r: "find (\<lambda>r. user_identity r = (sn_Source snap, u_SourceUUID u)) (d_Users db2) = Some r"
      "u_Status r = UserActive" by (auto simp: status_of_def)
    then have "u_SourceUUID r \<in> set ?seen"
      using find_user_mem [OF r(1)] that by (simp add: user_identity_def)
    then show ?thesis unfolding st r(1) using r(2) by (simp add: to_orphan_def)
  qed
  show "status_of db' (sn_Source snap, x) = map_option (\<lambda>_. UserOrphaned) (status_of db (sn_Source snap, x))"
    if "x \<notin> u_SourceUUID ` set (sn_Users snap)" for x
  proof -
    have "status_of db2 (sn_Source snap, x) = status_of db (sn_Source snap, x)" using p that fr(1) by auto
    moreover have "status_of db' (sn_Source snap, x) = map_option (\<lambda>_. UserOrphaned) (status_of db2 (sn_Source snap, x))"
    proof (cases "find (\<lambda>r. user_identity r = (sn_Source snap, x)) (d_Users db2)")
      case None
      then show ?thesis unfolding st by (simp add: status_of_def)
    next
      case (Some r)
      have "u_Source r = sn_Source snap" "u_SourceUUID r \<notin> set ?seen"
        using find_user_mem [OF Some] that by (auto simp: user_identity_def)
      then have "(if to_orphan (sn_Source snap) ?seen r then UserOrphaned else u_Status r) = UserOrphaned"
        by (cases "u_Status r") (simp_all add: to_orphan_def)
      then show ?thesis unfolding st Some by (simp add: status_of_def Some)
    qed
    ultimately show ?thesis by simp
  qed
  show "status_of db' (s, x) = status_of db (s, x)" if "s \<noteq> sn_Source snap" for s x
  proof -
    have "status_of db2 (s, x) = status_of db (s, x)" using p that fr(1) by auto
    moreover have "status_of db' (s, x) = status_of db2 (s, x)"
    proof (cases "find (\<lambda>r. user_identity r = (s, x)) (d_Users db2)")
      case None
      then show ?thesis unfolding st by (simp add: status_of_def)
    next
      case (Some r)
      have "u_Source r = s" using find_user_mem [OF Some] by (simp add: user_identity_def)
      then have "\<not> to_orphan (sn_Source snap) ?seen r" using that by (simp add: to_orphan_def)
      then show ?thesis unfolding st Some by (simp add: status_of_def Some)
    qed
    ultimately show ?thesis by simp
  qed
qed

end
