(* ===== verification/StoreAudit.thy ===== *)
theory StoreAudit
  imports Store PlanCore
begin

text \<open>
  \<open>internal/store/audit.go\<close> and \<open>keys.go\<close>: the audit log, the memory of notified changes, the
  admin keys and the settings. \<open>hash\<close> stands for the hexadecimal SHA-256 of \<open>HashKey\<close>; only
  that it is a function is used, and the statements say what follows when it does not collide.
\<close>

section \<open>The audit log\<close>

definition has_run :: "Database \<Rightarrow> RowID \<Rightarrow> bool" where
  "has_run db i \<longleftrightarrow> i \<in> rr_ID ` set (d_Runs db)"

definition RecordChange ::
  "RowID \<Rightarrow> string \<Rightarrow> Change \<Rightarrow> AuditResult \<Rightarrow> string \<Rightarrow> Time \<Rightarrow> Database \<Rightarrow> store_error + Database" where
  "RecordChange runID actor change result detail now db =
     (if \<not> has_run db runID \<or> \<not> has_user db (ch_UserID change) \<or> \<not> has_provider db (ch_ProviderID change)
      then Inl ForeignKeyViolation
      else Inr (db\<lparr>d_Audit := d_Audit db @
        [\<lparr>au_ID = next_id au_ID (d_Audit db), au_RunID = Some runID, au_At = now, au_Actor = actor,
          au_UserID = Some (ch_UserID change), au_ProviderID = Some (ch_ProviderID change),
          au_ExternalID = ch_ExternalID change, au_From = Quota_Encode (ch_From change),
          au_To = Quota_Encode (ch_To change), au_Result = result, au_Detail = detail\<rparr>]\<rparr>))"

text \<open>One entry as shown: the names of the person and the provider, empty when they are gone.\<close>

record AuditView =
  av_ID :: RowID
  av_RunID :: "RowID option"
  av_At :: Time
  av_Actor :: string
  av_User :: string
  av_Provider :: string
  av_External :: string
  av_From :: Quota
  av_To :: Quota
  av_Result :: AuditResult
  av_Detail :: string

definition user_name :: "Database \<Rightarrow> RowID option \<Rightarrow> string" where
  "user_name db i = (case i of None \<Rightarrow> [] | Some k \<Rightarrow>
     (case tbl_find u_ID k (d_Users db) of None \<Rightarrow> [] | Some u \<Rightarrow> u_UID u))"

definition provider_name :: "Database \<Rightarrow> RowID option \<Rightarrow> string" where
  "provider_name db i = (case i of None \<Rightarrow> [] | Some k \<Rightarrow>
     (case tbl_find provider_id k (d_Providers db) of None \<Rightarrow> [] | Some r \<Rightarrow> pi_Name (pr_Inst r)))"

definition audit_view :: "Database \<Rightarrow> AuditRow \<Rightarrow> store_error + AuditView" where
  "audit_view db r =
     (case DecodeQuota (au_From r) of Inl e \<Rightarrow> Inl (UndecodableRow (au_ExternalID r) e) | Inr from_q \<Rightarrow>
     (case DecodeQuota (au_To r) of Inl e \<Rightarrow> Inl (UndecodableRow (au_ExternalID r) e) | Inr to_q \<Rightarrow>
        Inr \<lparr>av_ID = au_ID r, av_RunID = au_RunID r, av_At = au_At r, av_Actor = au_Actor r,
             av_User = user_name db (au_UserID r), av_Provider = provider_name db (au_ProviderID r),
             av_External = au_ExternalID r, av_From = from_q, av_To = to_q, av_Result = au_Result r,
             av_Detail = au_Detail r\<rparr>))"

definition RecentChanges :: "int \<Rightarrow> Database \<Rightarrow> store_error + AuditView list" where
  "RecentChanges limit db =
     decode_rows (audit_view db)
       (take (nat (if limit \<le> 0 then 20 else limit)) (rev (sort_key au_ID (d_Audit db))))"

text \<open>The last changes of one person (\<open>policy.go\<close>), with the stored values as they are.\<close>

record AuditEntry =
  ae_At :: Time
  ae_Actor :: string
  ae_Provider :: string
  ae_From :: string
  ae_To :: string
  ae_Result :: AuditResult

definition RecentAudit :: "RowID \<Rightarrow> int \<Rightarrow> Database \<Rightarrow> AuditEntry list" where
  "RecentAudit userID limit db =
     map (\<lambda>r. \<lparr>ae_At = au_At r, ae_Actor = au_Actor r, ae_Provider = provider_name db (au_ProviderID r),
                ae_From = au_From r, ae_To = au_To r, ae_Result = au_Result r\<rparr>)
       (take (nat (if limit \<le> 0 then 5 else limit))
          (rev (sort_key au_ID (filter (\<lambda>r. au_UserID r = Some userID) (d_Audit db)))))"

section \<open>Notified changes\<close>

definition SeenGuardedChange :: "string \<Rightarrow> Time \<Rightarrow> Database \<Rightarrow> Database \<times> bool" where
  "SeenGuardedChange key now db =
     (let row = (case tbl_find nr_Key key (d_Notified db) of
                   None \<Rightarrow> \<lparr>nr_Key = key, nr_FirstSeen = now, nr_LastSeen = now\<rparr>
                 | Some r \<Rightarrow> r\<lparr>nr_LastSeen := now\<rparr>) in
      (db\<lparr>d_Notified := tbl_put nr_Key row (d_Notified db)\<rparr>, nr_FirstSeen row = nr_LastSeen row))"

definition ForgetGuardedChanges :: "string list \<Rightarrow> Database \<Rightarrow> Database" where
  "ForgetGuardedChanges keep db =
     (if keep = [] then db\<lparr>d_Notified := []\<rparr>
      else db\<lparr>d_Notified := filter (\<lambda>r. nr_Key r \<in> set keep) (d_Notified db)\<rparr>)"

section \<open>Admin keys\<close>

definition EnsureAdminKey ::
  "(string \<Rightarrow> string) \<Rightarrow> string \<Rightarrow> string \<Rightarrow> Time \<Rightarrow> Database \<Rightarrow> store_error + Database" where
  "EnsureAdminKey hash v label now db =
     (if v = [] then Inl EmptyKey
      else Inr (case tbl_find kr_Hash (hash v) (d_Keys db) of
        None \<Rightarrow> db\<lparr>d_Keys := d_Keys db @ [\<lparr>kr_ID = next_id kr_ID (d_Keys db), kr_Hash = hash v,
                   kr_Label = label, kr_Source = AdminKeyFromEnv, kr_CreatedAt = now,
                   kr_LastUsedAt = None, kr_RevokedAt = None\<rparr>]\<rparr>
      | Some _ \<Rightarrow> db\<lparr>d_Keys := tbl_update (\<lambda>r. kr_Hash r = hash v)
                   (\<lambda>r. r\<lparr>kr_Label := label, kr_RevokedAt := None\<rparr>) (d_Keys db)\<rparr>))"

definition env_stale :: "(string \<Rightarrow> string) \<Rightarrow> string \<Rightarrow> KeyRow \<Rightarrow> bool" where
  "env_stale hash keep r \<longleftrightarrow> kr_Source r = AdminKeyFromEnv \<and> kr_RevokedAt r = None \<and>
     (keep = [] \<or> kr_Hash r \<noteq> hash keep)"

definition RevokeEnvKeysExcept :: "(string \<Rightarrow> string) \<Rightarrow> string \<Rightarrow> Time \<Rightarrow> Database \<Rightarrow> Database \<times> nat" where
  "RevokeEnvKeysExcept hash keep now db =
     (db\<lparr>d_Keys := tbl_update (env_stale hash keep) (kr_RevokedAt_update (\<lambda>_. Some now)) (d_Keys db)\<rparr>,
      length (filter (env_stale hash keep) (d_Keys db)))"

text \<open>The use of a valid key is recorded; a failure to record it does not deny the key.\<close>

definition CheckAdminKey :: "(string \<Rightarrow> string) \<Rightarrow> string \<Rightarrow> Time \<Rightarrow> Database \<Rightarrow> Database \<times> bool" where
  "CheckAdminKey hash presented now db =
     (if presented = [] then (db, False)
      else case find (\<lambda>r. kr_Hash r = hash presented \<and> kr_RevokedAt r = None) (d_Keys db) of
        None \<Rightarrow> (db, False)
      | Some _ \<Rightarrow> (db\<lparr>d_Keys := tbl_update (\<lambda>r. kr_Hash r = hash presented)
                       (kr_LastUsedAt_update (\<lambda>_. Some now)) (d_Keys db)\<rparr>, True))"

definition CountAdminKeys :: "Database \<Rightarrow> nat" where
  "CountAdminKeys db = length (filter (\<lambda>r. kr_RevokedAt r = None) (d_Keys db))"

text \<open>\<open>v\<close> is the fresh random value; the hash column is unique.\<close>

definition IssueAdminKey ::
  "(string \<Rightarrow> string) \<Rightarrow> string \<Rightarrow> string \<Rightarrow> Time \<Rightarrow> Database \<Rightarrow> store_error + Database \<times> string" where
  "IssueAdminKey hash v label now db =
     (if tbl_find kr_Hash (hash v) (d_Keys db) \<noteq> None then Inl UniqueViolation
      else Inr (db\<lparr>d_Keys := d_Keys db @ [\<lparr>kr_ID = next_id kr_ID (d_Keys db), kr_Hash = hash v,
             kr_Label = label, kr_Source = AdminKeyFromUI, kr_CreatedAt = now,
             kr_LastUsedAt = None, kr_RevokedAt = None\<rparr>]\<rparr>, v))"

definition RevokeAdminKey :: "RowID \<Rightarrow> Time \<Rightarrow> Database \<Rightarrow> store_error + Database" where
  "RevokeAdminKey i now db =
     (case tbl_find kr_ID i (d_Keys db) of
        None \<Rightarrow> Inl (NoSuchKey i)
      | Some r \<Rightarrow>
          if kr_Source r = AdminKeyFromEnv then Inl KeyFromEnvironment
          else Inr (db\<lparr>d_Keys := tbl_update (\<lambda>r. kr_ID r = i \<and> kr_RevokedAt r = None)
                        (kr_RevokedAt_update (\<lambda>_. Some now)) (d_Keys db)\<rparr>))"

definition ListAdminKeys :: "Database \<Rightarrow> KeyRow list" where
  "ListAdminKeys db = sort_key kr_ID (d_Keys db)"

definition SetSetting :: "string \<Rightarrow> string \<Rightarrow> Database \<Rightarrow> Database" where
  "SetSetting key v db = db\<lparr>d_Settings := tbl_put fst (key, v) (d_Settings db)\<rparr>"

definition GetSetting :: "string \<Rightarrow> Database \<Rightarrow> string option" where
  "GetSetting key db = map_option snd (tbl_find fst key (d_Settings db))"

section \<open>Lemmas\<close>

lemma GetSetting_SetSetting:
  "GetSetting k (SetSetting key v db) = (if k = key then Some v else GetSetting k db)"
  by (simp add: GetSetting_def SetSetting_def tbl_find_put)

definition keys_ok :: "Database \<Rightarrow> bool" where
  "keys_ok db \<longleftrightarrow> tbl_ok kr_ID (d_Keys db) \<and> tbl_ok kr_Hash (d_Keys db)"

lemma CheckAdminKey_iff:
  "snd (CheckAdminKey hash v now db) \<longleftrightarrow> v \<noteq> [] \<and>
     (\<exists>r \<in> set (d_Keys db). kr_Hash r = hash v \<and> kr_RevokedAt r = None)"
proof -
  have "snd (CheckAdminKey hash v now db) \<longleftrightarrow> v \<noteq> [] \<and>
      find (\<lambda>r. kr_Hash r = hash v \<and> kr_RevokedAt r = None) (d_Keys db) \<noteq> None"
    by (simp add: CheckAdminKey_def split: option.split)
  then show ?thesis by (auto simp: find_None_iff)
qed

text \<open>An issued key is accepted until it is revoked, and never after.\<close>

lemma IssueAdminKey_accepted:
  assumes "IssueAdminKey hash v label now db = Inr (db', w)" "v \<noteq> []"
  shows "w = v \<and> snd (CheckAdminKey hash w t db')"
proof -
  have "w = v" and "\<exists>r \<in> set (d_Keys db'). kr_Hash r = hash v \<and> kr_RevokedAt r = None"
    using assms(1) by (auto simp: IssueAdminKey_def split: if_splits)
  then show ?thesis using assms(2) by (simp add: CheckAdminKey_iff)
qed

lemma RevokeAdminKey_rejected:
  assumes "keys_ok db" "RevokeAdminKey i now db = Inr db'"
    and "tbl_find kr_ID i (d_Keys db) = Some r" "kr_Hash r = hash v"
  shows "\<not> snd (CheckAdminKey hash v t db')"
proof -
  have r: "r \<in> set (d_Keys db)" "kr_ID r = i" using tbl_find_Some [OF assms(3)] by auto
  have same: "kr_ID s = i" if "s \<in> set (d_Keys db)" "kr_Hash s = hash v" for s
    using assms(1,4) that r by (auto simp: keys_ok_def tbl_ok_def distinct_map inj_on_def)
  have rows: "d_Keys db' = tbl_update (\<lambda>r. kr_ID r = i \<and> kr_RevokedAt r = None)
                        (kr_RevokedAt_update (\<lambda>_. Some now)) (d_Keys db)"
    using assms(2,3) by (auto simp: RevokeAdminKey_def split: if_splits)
  have "kr_RevokedAt s \<noteq> None" if s: "s \<in> set (d_Keys db')" "kr_Hash s = hash v" for s
  proof -
    from s(1) obtain s0 where s0: "s0 \<in> set (d_Keys db)"
      "s = (if kr_ID s0 = i \<and> kr_RevokedAt s0 = None then kr_RevokedAt_update (\<lambda>_. Some now) s0 else s0)"
      by (auto simp: rows tbl_update_def)
    then have "kr_Hash s0 = hash v" using s(2) by (auto split: if_splits)
    with same s0(1) have "kr_ID s0 = i" by blast
    then show ?thesis using s0(2) by (cases "kr_RevokedAt s0") auto
  qed
  then show ?thesis by (auto simp: CheckAdminKey_iff)
qed

lemma SeenGuardedChange_first:
  assumes "tbl_ok nr_Key (d_Notified db)"
  shows "tbl_find nr_Key key (d_Notified db) = None \<Longrightarrow> snd (SeenGuardedChange key now db)"
    and "tbl_find nr_Key key (d_Notified db) = Some r \<Longrightarrow> nr_FirstSeen r \<noteq> now \<Longrightarrow>
           \<not> snd (SeenGuardedChange key now db)"
    and "tbl_find nr_Key k (d_Notified (fst (SeenGuardedChange key now db))) \<noteq> None \<longleftrightarrow>
           k = key \<or> tbl_find nr_Key k (d_Notified db) \<noteq> None"
  by (auto simp: SeenGuardedChange_def Let_def tbl_find_put split: option.splits dest: tbl_find_Some)

lemma ForgetGuardedChanges_find:
  "tbl_find nr_Key k (d_Notified (ForgetGuardedChanges keep db)) =
     (if k \<in> set keep then tbl_find nr_Key k (d_Notified db) else None)"
proof -
  have "tbl_find nr_Key k (filter (\<lambda>r. nr_Key r \<in> set keep) rows) =
      (if k \<in> set keep then tbl_find nr_Key k rows else None)" for rows
    by (induction rows) (auto simp: tbl_find_Cons)
  note filtered = this
  show ?thesis
  proof (cases "keep = []")
    case True
    then show ?thesis by (simp add: ForgetGuardedChanges_def)
  next
    case False
    then show ?thesis by (simp add: ForgetGuardedChanges_def filtered)
  qed
qed

end
