(* ===== verification/StorePolicy.thy ===== *)
theory StorePolicy
  imports Store Resolve PlanCore
begin

text \<open>
  \<open>internal/store/policy.go\<close>: saving and loading tiers, the group mapping, the two kinds of
  override and the history of runs. What is saved is what resolution reads: a tier that was
  saved offers on every provider what the tier given to \<open>SaveTier\<close> offers.
\<close>

section \<open>Tiers\<close>

definition put_tier :: "Tier \<Rightarrow> Database \<Rightarrow> store_error + Database \<times> RowID" where
  "put_tier tier db =
     (let clash = \<lambda>i. t_IsDefault tier \<and> (\<exists>r \<in> set (d_Tiers db). tr_IsDefault r \<and> tr_ID r \<noteq> i) in
      case find (\<lambda>r. tr_Name r = t_Name tier) (d_Tiers db) of
        None \<Rightarrow>
          (let i = next_id tr_ID (d_Tiers db) in
           if clash i then Inl UniqueViolation
           else Inr (db\<lparr>d_Tiers := d_Tiers db @
                  [\<lparr>tr_ID = i, tr_Name = t_Name tier, tr_Budget = Quota_Encode (t_Budget tier),
                    tr_IsDefault = t_IsDefault tier\<rparr>]\<rparr>, i))
      | Some r \<Rightarrow>
          if clash (tr_ID r) then Inl UniqueViolation
          else Inr (db\<lparr>d_Tiers := tbl_update (\<lambda>s. tr_ID s = tr_ID r)
                 (\<lambda>s. s\<lparr>tr_Budget := Quota_Encode (t_Budget tier), tr_IsDefault := t_IsDefault tier\<rparr>)
                 (d_Tiers db)\<rparr>, tr_ID r))"

definition allocation_key :: "RowID \<times> Allocation \<Rightarrow> RowID \<times> RowID" where
  "allocation_key r = (fst r, al_ProviderID (snd r))"

text \<open>One \<open>INSERT\<close> per allocation, with the constraints of the table.\<close>

fun insert_allocations ::
  "RowID \<Rightarrow> Allocation list \<Rightarrow> Database \<Rightarrow> store_error + Database" where
  "insert_allocations i [] db = Inr db"
| "insert_allocations i (a # as) db =
     (if \<not> AllocationMode_Valid (al_Mode a) \<or> sint (al_Value a) < 0 then Inl CheckViolation
      else if tbl_find allocation_key (i, al_ProviderID a) (d_Allocations db) \<noteq> None then Inl UniqueViolation
      else if \<not> has_provider db (al_ProviderID a) then Inl ForeignKeyViolation
      else insert_allocations i as (db\<lparr>d_Allocations := d_Allocations db @ [(i, a)]\<rparr>))"

definition SaveTier :: "Tier \<Rightarrow> Database \<Rightarrow> store_error + Database \<times> RowID" where
  "SaveTier tier db =
     (case Tier_Validate tier of
        Some e \<Rightarrow> Inl (InvalidTier e)
      | None \<Rightarrow>
          bind_result (put_tier tier db) (\<lambda>(db, i).
          bind_result (insert_allocations i (t_Allocations tier)
              (db\<lparr>d_Allocations := filter (\<lambda>r. fst r \<noteq> i) (d_Allocations db)\<rparr>)) (\<lambda>db.
          Inr (db, i))))"

definition SetDefaultTier :: "RowID \<Rightarrow> Database \<Rightarrow> store_error + Database" where
  "SetDefaultTier tierID db =
     (let cleared = tbl_update tr_IsDefault (tr_IsDefault_update (\<lambda>_. False)) (d_Tiers db) in
      if \<not> has_tier db tierID then Inl (NoSuchTier tierID)
      else Inr (db\<lparr>d_Tiers := tbl_update (\<lambda>r. tr_ID r = tierID) (tr_IsDefault_update (\<lambda>_. True)) cleared\<rparr>))"

text \<open>Deleting a tier takes its allocations, its group mappings and its assignments with it.\<close>

definition DeleteTier :: "string \<Rightarrow> Database \<Rightarrow> Database \<times> bool" where
  "DeleteTier name db =
     (let gone = tr_ID ` {r \<in> set (d_Tiers db). tr_Name r = name} in
      (db\<lparr>d_Tiers := filter (\<lambda>r. tr_Name r \<noteq> name) (d_Tiers db),
          d_Allocations := filter (\<lambda>r. fst r \<notin> gone) (d_Allocations db),
          d_GroupTiers := filter (\<lambda>r. snd r \<notin> gone) (d_GroupTiers db),
          d_UserTiers := filter (\<lambda>r. snd r \<notin> gone) (d_UserTiers db)\<rparr>,
       gone \<noteq> {}))"

section \<open>Groups and overrides\<close>

definition MapGroupToTier :: "string \<Rightarrow> RowID \<Rightarrow> Database \<Rightarrow> store_error + Database" where
  "MapGroupToTier groupUUID tierID db =
     (case find (\<lambda>g. g_SourceUUID g = groupUUID) (d_Groups db) of
        None \<Rightarrow> Inl (NoSuchGroup groupUUID)
      | Some g \<Rightarrow>
          if \<not> has_tier db tierID then Inl ForeignKeyViolation
          else Inr (db\<lparr>d_GroupTiers := tbl_put fst (g_ID g, tierID) (d_GroupTiers db)\<rparr>))"

definition UnmapGroup :: "string \<Rightarrow> Database \<Rightarrow> Database \<times> bool" where
  "UnmapGroup groupUUID db =
     (case find (\<lambda>g. g_SourceUUID g = groupUUID) (d_Groups db) of
        None \<Rightarrow> (db, False)
      | Some g \<Rightarrow> (db\<lparr>d_GroupTiers := tbl_del fst (g_ID g) (d_GroupTiers db)\<rparr>,
                   tbl_find fst (g_ID g) (d_GroupTiers db) \<noteq> None))"

definition SetUserTierOverride :: "RowID \<Rightarrow> RowID option \<Rightarrow> Database \<Rightarrow> store_error + Database" where
  "SetUserTierOverride userID tierID db =
     (case tierID of
        None \<Rightarrow> Inr (db\<lparr>d_UserTiers := tbl_del fst userID (d_UserTiers db)\<rparr>)
      | Some t \<Rightarrow>
          if \<not> has_user db userID \<or> \<not> has_tier db t then Inl ForeignKeyViolation
          else Inr (db\<lparr>d_UserTiers := tbl_put fst (userID, t) (d_UserTiers db)\<rparr>))"

definition override_key :: "OverrideRow \<Rightarrow> RowID \<times> RowID" where
  "override_key r = (or_UserID r, or_ProviderID r)"

definition SetProviderOverride ::
  "RowID \<Rightarrow> RowID \<Rightarrow> Quota \<Rightarrow> OverrideOrigin \<Rightarrow> Database \<Rightarrow> store_error + Database" where
  "SetProviderOverride userID providerID quota origin db =
     (case Quota_Valid quota of
        Some e \<Rightarrow> Inl (InvalidQuota [] e)
      | None \<Rightarrow>
          if \<not> Quota_IsKnown quota then Inl UnknownOverride
          else if \<not> has_user db userID \<or> \<not> has_provider db providerID then Inl ForeignKeyViolation
          else Inr (db\<lparr>d_Overrides := tbl_put override_key
                 \<lparr>or_UserID = userID, or_ProviderID = providerID, or_Quota = Quota_Encode quota,
                  or_Origin = origin\<rparr> (d_Overrides db)\<rparr>))"

definition ClearProviderOverride :: "RowID \<Rightarrow> RowID \<Rightarrow> Database \<Rightarrow> Database \<times> bool" where
  "ClearProviderOverride userID providerID db =
     (db\<lparr>d_Overrides := tbl_del override_key (userID, providerID) (d_Overrides db)\<rparr>,
      tbl_find override_key (userID, providerID) (d_Overrides db) \<noteq> None)"

section \<open>Loading\<close>

definition load_tier :: "(RowID \<times> Allocation) list \<Rightarrow> TierRow \<Rightarrow> store_error + Tier" where
  "load_tier allocations r =
     (case DecodeQuota (tr_Budget r) of
        Inl e \<Rightarrow> Inl (UndecodableRow (tr_Name r) e)
      | Inr budget \<Rightarrow>
          Inr \<lparr>t_ID = tr_ID r, t_Name = tr_Name r, t_Budget = budget, t_IsDefault = tr_IsDefault r,
               t_Allocations = map snd (filter (\<lambda>a. fst a = tr_ID r) (sort_key allocation_key allocations))\<rparr>)"

text \<open>The groups' rows are joined to their uuid; a later row of the join replaces an earlier one.\<close>

definition load_group_tiers :: "Database \<Rightarrow> string \<rightharpoonup> RowID" where
  "load_group_tiers db =
     foldl (\<lambda>m (groupID, tierID).
        case find (\<lambda>g. g_ID g = groupID) (d_Groups db) of
          None \<Rightarrow> m | Some g \<Rightarrow> m(g_SourceUUID g \<mapsto> tierID)) Map.empty (d_GroupTiers db)"

definition LoadPolicy :: "Database \<Rightarrow> store_error + Policy" where
  "LoadPolicy db =
     (let rows = sort_key tr_Name (d_Tiers db) in
      bind_result (decode_rows (load_tier (d_Allocations db)) rows) (\<lambda>tiers.
      Inr \<lparr>p_Tiers = foldl (\<lambda>m t. m(t_ID t \<mapsto> t)) Map.empty tiers,
           p_GroupTiers = load_group_tiers db,
           p_DefaultTierID = foldl (\<lambda>d t. if t_IsDefault t then Some (t_ID t) else d) None tiers\<rparr>))"

fun load_overrides ::
  "OverrideRow list \<Rightarrow> (RowID \<rightharpoonup> Quota) \<Rightarrow> store_error + (RowID \<rightharpoonup> Quota)" where
  "load_overrides [] m = Inr m"
| "load_overrides (r # rs) m =
     (case DecodeQuota (or_Quota r) of
        Inl e \<Rightarrow> Inl (UndecodableRow [] e)
      | Inr q \<Rightarrow> load_overrides rs (m(or_ProviderID r \<mapsto> q)))"

definition UserPolicy_of :: "RowID \<Rightarrow> Database \<Rightarrow> store_error + UserPolicy" where
  "UserPolicy_of userID db =
     bind_result (load_overrides (filter (\<lambda>r. or_UserID r = userID) (d_Overrides db)) Map.empty) (\<lambda>m.
       Inr \<lparr>up_ProviderOverrides = m, up_TierOverride = map_option snd (tbl_find fst userID (d_UserTiers db))\<rparr>)"

definition override_origins :: "RowID \<Rightarrow> Database \<Rightarrow> RowID \<rightharpoonup> OverrideOrigin" where
  "override_origins userID db =
     foldl (\<lambda>m r. m(or_ProviderID r \<mapsto> or_Origin r)) Map.empty
       (filter (\<lambda>r. or_UserID r = userID) (d_Overrides db))"

definition GroupsWithTiers :: "Database \<Rightarrow> string \<rightharpoonup> string" where
  "GroupsWithTiers db =
     foldl (\<lambda>m (name, tier). m(name \<mapsto> tier)) Map.empty
       (sort_key fst (concat (map (\<lambda>(groupID, tierID).
          case (find (\<lambda>g. g_ID g = groupID) (d_Groups db), find (\<lambda>t. tr_ID t = tierID) (d_Tiers db)) of
            (Some g, Some t) \<Rightarrow> [(g_Name g, tr_Name t)] | _ \<Rightarrow> []) (d_GroupTiers db))))"

section \<open>Runs\<close>

definition StartRun :: "RunMode \<Rightarrow> string \<Rightarrow> bool \<Rightarrow> Time \<Rightarrow> Database \<Rightarrow> Database \<times> RowID" where
  "StartRun mode actor consentShrink now db =
     (let i = next_id rr_ID (d_Runs db) in
      (db\<lparr>d_Runs := d_Runs db @ [\<lparr>rr_ID = i, rr_StartedAt = now, rr_FinishedAt = None, rr_Mode = mode,
          rr_Actor = actor, rr_Consent = consentShrink, rr_Status = ''running'', rr_Summary = []\<rparr>]\<rparr>, i))"

definition FinishRun :: "RowID \<Rightarrow> string \<Rightarrow> string \<Rightarrow> Time \<Rightarrow> Database \<Rightarrow> Database" where
  "FinishRun runID status summary now db =
     db\<lparr>d_Runs := tbl_update (\<lambda>r. rr_ID r = runID)
       (\<lambda>r. r\<lparr>rr_FinishedAt := Some now, rr_Status := status, rr_Summary := summary\<rparr>) (d_Runs db)\<rparr>"

definition LastRuns :: "int \<Rightarrow> Database \<Rightarrow> RunRow list" where
  "LastRuns limit db =
     take (nat (if limit \<le> 0 then 10 else limit)) (rev (sort_key rr_ID (d_Runs db)))"

definition SavePlanBody :: "RowID \<Rightarrow> string \<Rightarrow> Time \<Rightarrow> Database \<Rightarrow> store_error + Database" where
  "SavePlanBody runID body now db =
     (if runID \<notin> rr_ID ` set (d_Runs db) then Inl ForeignKeyViolation
      else Inr (db\<lparr>d_Plans := d_Plans db @ [\<lparr>pb_ID = next_id pb_ID (d_Plans db), pb_RunID = runID,
             pb_ComputedAt = now, pb_Body = body\<rparr>]\<rparr>))"

definition PlanBody :: "RowID \<Rightarrow> Database \<Rightarrow> store_error + string \<times> Time" where
  "PlanBody runID db =
     (case rev (sort_key pb_ID (filter (\<lambda>r. pb_RunID r = runID) (d_Plans db))) of
        [] \<Rightarrow> Inl NoSuchRow | r # _ \<Rightarrow> Inr (pb_Body r, pb_ComputedAt r))"

section \<open>The constraints on tiers\<close>

definition tiers_ok :: "Database \<Rightarrow> bool" where
  "tiers_ok db \<longleftrightarrow> tbl_ok tr_ID (d_Tiers db) \<and> tbl_ok tr_Name (d_Tiers db) \<and>
     tbl_ok allocation_key (d_Allocations db) \<and>
     (\<forall>r \<in> set (d_Tiers db). \<forall>s \<in> set (d_Tiers db). tr_IsDefault r \<and> tr_IsDefault s \<longrightarrow> r = s)"

lemma find_name:
  "find (\<lambda>r. tr_Name r = n) rows = Some r \<Longrightarrow> r \<in> set rows \<and> tr_Name r = n"
  by (auto simp: find_Some_iff)

lemma put_tier_props:
  assumes put: "put_tier tier db = Inr (db', i)" and ok: "tiers_ok db"
  shows "tiers_ok db'" "d_Allocations db' = d_Allocations db" "d_Providers db' = d_Providers db"
    "\<exists>r \<in> set (d_Tiers db'). tr_ID r = i \<and> tr_Name r = t_Name tier \<and>
       tr_Budget r = Quota_Encode (t_Budget tier) \<and> tr_IsDefault r = t_IsDefault tier"
proof -
  show "d_Allocations db' = d_Allocations db" "d_Providers db' = d_Providers db"
    using put by (auto simp: put_tier_def Let_def split: option.splits if_splits)
  have "tiers_ok db' \<and> (\<exists>r \<in> set (d_Tiers db'). tr_ID r = i \<and> tr_Name r = t_Name tier \<and>
       tr_Budget r = Quota_Encode (t_Budget tier) \<and> tr_IsDefault r = t_IsDefault tier)"
  proof (cases "find (\<lambda>r. tr_Name r = t_Name tier) (d_Tiers db)")
    case None
    then have name: "t_Name tier \<notin> tr_Name ` set (d_Tiers db)" by (auto simp: find_None_iff)
    have "next_id tr_ID (d_Tiers db) \<notin> tr_ID ` set (d_Tiers db)"
      "\<And>r. r \<in> set (d_Tiers db) \<Longrightarrow> tr_ID r \<noteq> next_id tr_ID (d_Tiers db)"
      using next_id_fresh [of _ "d_Tiers db" tr_ID] by force+
    note fresh = this
    let ?i = "next_id tr_ID (d_Tiers db)"
    let ?new = "\<lparr>tr_ID = ?i, tr_Name = t_Name tier, tr_Budget = Quota_Encode (t_Budget tier),
        tr_IsDefault = t_IsDefault tier\<rparr>"
    from None put have i: "i = ?i" and db': "db' = db\<lparr>d_Tiers := d_Tiers db @ [?new]\<rparr>"
      and clash: "\<not> (t_IsDefault tier \<and> (\<exists>r \<in> set (d_Tiers db). tr_IsDefault r \<and> tr_ID r \<noteq> ?i))"
      by (auto simp: put_tier_def Let_def split: if_splits)
    have "tbl_ok tr_ID (d_Tiers db @ [?new])" "tbl_ok tr_Name (d_Tiers db @ [?new])"
      using ok fresh(1) name by (simp_all add: tiers_ok_def tbl_ok_def)
    moreover have "\<forall>s \<in> set (d_Tiers db @ [?new]). \<forall>u \<in> set (d_Tiers db @ [?new]).
        tr_IsDefault s \<and> tr_IsDefault u \<longrightarrow> s = u"
      using ok clash fresh(2) by (simp add: tiers_ok_def) blast
    ultimately show ?thesis using ok by (simp add: tiers_ok_def db' i)
  next
    case (Some r)
    let ?f = "\<lambda>s. s\<lparr>tr_Budget := Quota_Encode (t_Budget tier), tr_IsDefault := t_IsDefault tier\<rparr>"
    let ?rows = "tbl_update (\<lambda>s. tr_ID s = tr_ID r) ?f (d_Tiers db)"
    from Some have r: "r \<in> set (d_Tiers db)" "tr_Name r = t_Name tier" by (auto dest: find_name)
    from Some put have i: "i = tr_ID r" and db': "db' = db\<lparr>d_Tiers := ?rows\<rparr>"
      and clash: "t_IsDefault tier \<Longrightarrow> \<forall>s \<in> set (d_Tiers db). tr_IsDefault s \<longrightarrow> tr_ID s = tr_ID r"
      by (auto simp: put_tier_def Let_def split: if_splits)
    have id: "tr_ID s = tr_ID r \<longleftrightarrow> s = r" if "s \<in> set (d_Tiers db)" for s
      using ok that r(1) by (auto simp: tiers_ok_def tbl_ok_def distinct_map inj_on_def)
    have "set ?rows = (\<lambda>s. if s = r then ?f s else s) ` set (d_Tiers db)"
      unfolding tbl_update_def set_map by (rule image_cong) (simp_all add: id)
    then have rows: "set ?rows = insert (?f r) (set (d_Tiers db) - {r})"
      using r(1) by auto
    have "tbl_ok tr_ID ?rows" "tbl_ok tr_Name ?rows"
      using ok by (simp_all add: tiers_ok_def tbl_ok_update)
    moreover have "\<forall>s \<in> set ?rows. \<forall>u \<in> set ?rows. tr_IsDefault s \<and> tr_IsDefault u \<longrightarrow> s = u"
      unfolding rows using ok clash id by (auto simp: tiers_ok_def)
    ultimately have "tiers_ok db'" using ok by (simp only: tiers_ok_def db') simp
    moreover have "?f r \<in> set (d_Tiers db')" by (simp add: rows db')
    moreover have "tr_ID (?f r) = i \<and> tr_Name (?f r) = t_Name tier \<and>
        tr_Budget (?f r) = Quota_Encode (t_Budget tier) \<and> tr_IsDefault (?f r) = t_IsDefault tier"
      by (simp add: i r(2))
    ultimately show ?thesis by blast
  qed
  then show "tiers_ok db'" "\<exists>r \<in> set (d_Tiers db'). tr_ID r = i \<and> tr_Name r = t_Name tier \<and>
       tr_Budget r = Quota_Encode (t_Budget tier) \<and> tr_IsDefault r = t_IsDefault tier"
    by blast+
qed

lemma insert_allocations_eq:
  "insert_allocations i as db = Inr db' \<Longrightarrow>
     db' = db\<lparr>d_Allocations := d_Allocations db @ map (Pair i) as\<rparr> \<and>
     (tbl_ok allocation_key (d_Allocations db) \<longrightarrow>
        tbl_ok allocation_key (d_Allocations db @ map (Pair i) as)) \<and>
     (\<forall>a \<in> set as. has_provider db (al_ProviderID a))"
proof (induction as arbitrary: db)
  case (Cons a as)
  let ?db = "db\<lparr>d_Allocations := d_Allocations db @ [(i, a)]\<rparr>"
  from Cons.prems have next_eq: "insert_allocations i as ?db = Inr db'"
    and free: "tbl_find allocation_key (i, al_ProviderID a) (d_Allocations db) = None"
    and prov: "has_provider db (al_ProviderID a)"
    by (simp_all only: insert_allocations.simps split: if_splits) auto
  have "tbl_ok allocation_key (d_Allocations db) \<Longrightarrow> tbl_ok allocation_key (d_Allocations ?db)"
    using free by (auto simp: tbl_ok_def tbl_find_None allocation_key_def)
  moreover have "has_provider ?db = has_provider db" by (simp add: has_provider_def fun_eq_iff)
  ultimately show ?case using Cons.IH [OF next_eq] prov by simp
qed simp

lemma SaveTier_props:
  assumes save: "SaveTier tier db = Inr (db', i)" and ok: "tiers_ok db"
  obtains r rest where "tiers_ok db'" "Tier_Validate tier = None"
    "r \<in> set (d_Tiers db')" "tr_ID r = i" "tr_Name r = t_Name tier"
    "tr_Budget r = Quota_Encode (t_Budget tier)" "tr_IsDefault r = t_IsDefault tier"
    "d_Allocations db' = rest @ map (Pair i) (t_Allocations tier)" "\<forall>a \<in> set rest. fst a \<noteq> i"
proof -
  from save have v: "Tier_Validate tier = None" by (auto simp: SaveTier_def split: option.splits)
  with save obtain db1 where put: "put_tier tier db = Inr (db1, i)"
    and ins: "insert_allocations i (t_Allocations tier)
      (db1\<lparr>d_Allocations := filter (\<lambda>r. fst r \<noteq> i) (d_Allocations db1)\<rparr>) = Inr db'"
    by (auto simp: SaveTier_def bind_result_eq_Inr)
  note p = put_tier_props [OF put ok]
  let ?db = "db1\<lparr>d_Allocations := filter (\<lambda>r. fst r \<noteq> i) (d_Allocations db1)\<rparr>"
  from insert_allocations_eq [OF ins]
  have a: "db' = ?db\<lparr>d_Allocations := d_Allocations ?db @ map (Pair i) (t_Allocations tier)\<rparr>"
    and a2: "tbl_ok allocation_key (d_Allocations ?db) \<longrightarrow>
      tbl_ok allocation_key (d_Allocations ?db @ map (Pair i) (t_Allocations tier))"
    by blast+
  let ?rest = "filter (\<lambda>r. fst r \<noteq> i) (d_Allocations db1)"
  have "tbl_ok allocation_key ?rest" using p(1) by (simp add: tiers_ok_def tbl_ok_filter)
  then have "tbl_ok allocation_key (d_Allocations db')" using a a2 by simp
  moreover have "d_Tiers db' = d_Tiers db1" "d_Allocations db' = ?rest @ map (Pair i) (t_Allocations tier)"
    using a by simp_all
  moreover obtain r where "r \<in> set (d_Tiers db1)" "tr_ID r = i" "tr_Name r = t_Name tier"
    "tr_Budget r = Quota_Encode (t_Budget tier)" "tr_IsDefault r = t_IsDefault tier"
    using p(4) by blast
  moreover have "tiers_ok db'"
    using calculation(1,2) p(1) by (simp add: tiers_ok_def)
  ultimately show ?thesis
    by (intro that [of r ?rest]) (simp_all add: v)
qed

section \<open>A saved tier offers what was saved\<close>

lemma map_fold_id:
  assumes "distinct (map t_ID ts)" "t \<in> set ts"
  shows "foldl (\<lambda>m t. m(t_ID t \<mapsto> t)) m ts (t_ID t) = Some t"
  using assms
proof (induction ts rule: rev_induct)
  case (snoc u ts)
  then show ?case by (cases "t = u") (auto simp: image_iff)
qed simp

lemma LoadPolicy_tier:
  assumes load: "LoadPolicy db = Inr policy" and ok: "tiers_ok db" and r: "r \<in> set (d_Tiers db)"
  obtains t where "load_tier (d_Allocations db) r = Inr t" "p_Tiers policy (tr_ID r) = Some t"
proof -
  let ?rows = "sort_key tr_Name (d_Tiers db)"
  from load obtain ts where ts: "decode_rows (load_tier (d_Allocations db)) ?rows = Inr ts"
    and p: "p_Tiers policy = foldl (\<lambda>m t. m(t_ID t \<mapsto> t)) Map.empty ts"
    by (auto simp: LoadPolicy_def bind_result_eq_Inr Let_def)
  note m = decode_rows_map [OF ts]
  define t where "t = projr (load_tier (d_Allocations db) r)"
  have t: "load_tier (d_Allocations db) r = Inr t" "t \<in> set ts" using m r by (auto simp: t_def)
  have ids: "t_ID (projr (load_tier (d_Allocations db) s)) = tr_ID s" if "s \<in> set ?rows" for s
    using m that by (auto simp: load_tier_def split: sum.splits)
  then have "map t_ID ts = map tr_ID ?rows" using m by (auto simp del: set_sort)
  moreover have "distinct (map tr_ID ?rows)"
    using ok by (simp add: tiers_ok_def tbl_ok_def distinct_map)
  ultimately have "p_Tiers policy (t_ID t) = Some t" using t(2) by (simp add: p map_fold_id)
  moreover have "t_ID t = tr_ID r" using ids r by (simp add: t_def)
  ultimately show ?thesis using that t(1) by simp
qed

lemma SaveTier_offers:
  assumes save: "SaveTier tier db = Inr (db', i)" and ok: "tiers_ok db"
    and load: "LoadPolicy db' = Inr policy"
  shows "\<exists>t. p_Tiers policy i = Some t \<and> t_ID t = i \<and> t_Name t = t_Name tier \<and> t_Budget t = t_Budget tier \<and>
     (\<forall>p. AllocationFor t p = AllocationFor tier p) \<and> Overcommitted t = Overcommitted tier"
proof -
  from SaveTier_props [OF save ok] obtain r rest where ok': "tiers_ok db'" and v: "Tier_Validate tier = None"
    and r: "r \<in> set (d_Tiers db')" "tr_ID r = i" "tr_Name r = t_Name tier"
      "tr_Budget r = Quota_Encode (t_Budget tier)"
    and alloc: "d_Allocations db' = rest @ map (Pair i) (t_Allocations tier)" "\<forall>a \<in> set rest. fst a \<noteq> i"
    by metis
  from LoadPolicy_tier [OF load ok' r(1)] obtain t
    where t: "load_tier (d_Allocations db') r = Inr t" "p_Tiers policy (tr_ID r) = Some t" .
  note valid = v [unfolded Tier_Validate_None_iff]
  have dec: "DecodeQuota (tr_Budget r) = Inr (t_Budget tier)"
    unfolding r(4) using valid by (intro DecodeQuota_Encode_valid) simp
  then have b: "t_Budget t = t_Budget tier" "t_ID t = i" "t_Name t = t_Name tier"
    using t(1) r by (auto simp: load_tier_def)
  have "mset (t_Allocations t) = image_mset snd (filter_mset (\<lambda>a. fst a = i) (mset (d_Allocations db')))"
    using t(1) dec r(2) by (auto simp: load_tier_def)
  also have "\<dots> = mset (map snd (filter (\<lambda>a. fst a = i) (d_Allocations db')))" by simp
  also have "filter (\<lambda>a. fst a = i) (d_Allocations db') = map (Pair i) (t_Allocations tier)"
    using alloc by (simp add: filter_empty_conv)
  finally have ms: "mset (t_Allocations t) = mset (t_Allocations tier)" by (simp add: comp_def)
  then have "AllocationFor t p = AllocationFor tier p" for p
    using b valid by (intro AllocationFor_perm) auto
  then show ?thesis using t(2) r(2) b Overcommitted_perm [OF ms] by auto
qed

section \<open>Overrides are read back\<close>

lemma load_overrides_at:
  "load_overrides rs m = Inr m' \<Longrightarrow> tbl_ok or_ProviderID rs \<Longrightarrow>
     m' p = (case tbl_find or_ProviderID p rs of
       None \<Rightarrow> m p | Some r \<Rightarrow> (case DecodeQuota (or_Quota r) of Inl _ \<Rightarrow> None | Inr q \<Rightarrow> Some q))"
proof (induction rs arbitrary: m)
  case Nil
  then show ?case by (simp add: tbl_find_def)
next
  case (Cons r rs)
  from Cons.prems obtain q where q: "DecodeQuota (or_Quota r) = Inr q"
    "load_overrides rs (m(or_ProviderID r \<mapsto> q)) = Inr m'"
    by (auto split: sum.splits)
  have rest: "tbl_ok or_ProviderID rs" and new: "or_ProviderID r \<notin> or_ProviderID ` set rs"
    using Cons.prems(2) by (simp_all add: tbl_ok_def)
  show ?case
  proof (cases "or_ProviderID r = p")
    case True
    then have "tbl_find or_ProviderID p rs = None" using new by (simp add: tbl_find_None)
    with Cons.IH [OF q(2) rest] True show ?thesis by (simp add: tbl_find_Cons q(1))
  next
    case False
    with Cons.IH [OF q(2) rest] show ?thesis by (simp add: tbl_find_Cons split: option.splits)
  qed
qed

lemma tbl_find_filter_fst:
  "tbl_find or_ProviderID p (filter (\<lambda>r. or_UserID r = u) rows) = tbl_find override_key (u, p) rows"
  by (induction rows) (auto simp: tbl_find_def override_key_def)

lemma UserPolicy_override:
  assumes "UserPolicy_of u db = Inr up" "tbl_ok override_key (d_Overrides db)"
  shows "up_ProviderOverrides up p = (case tbl_find override_key (u, p) (d_Overrides db) of
       None \<Rightarrow> None | Some r \<Rightarrow> (case DecodeQuota (or_Quota r) of Inl _ \<Rightarrow> None | Inr q \<Rightarrow> Some q))"
proof -
  let ?rows = "filter (\<lambda>r. or_UserID r = u) (d_Overrides db)"
  have "distinct (map override_key rows) \<Longrightarrow> distinct (map or_ProviderID (filter (\<lambda>r. or_UserID r = u) rows))" for rows
    by (auto simp: distinct_map inj_on_def override_key_def)
  then have "tbl_ok or_ProviderID ?rows" using assms(2) by (simp add: tbl_ok_def)
  moreover obtain m where "load_overrides ?rows Map.empty = Inr m" "up_ProviderOverrides up = m"
    using assms(1) by (auto simp: UserPolicy_of_def bind_result_def split: sum.splits)
  ultimately show ?thesis
    using load_overrides_at [of ?rows Map.empty m p] by (simp add: tbl_find_filter_fst split: option.splits)
qed

lemma SetProviderOverride_find:
  assumes "SetProviderOverride u p q origin db = Inr db'"
  shows "Quota_Valid q = None \<and> Quota_IsKnown q \<and>
     tbl_find override_key k (d_Overrides db') =
       (if k = (u, p) then Some \<lparr>or_UserID = u, or_ProviderID = p, or_Quota = Quota_Encode q, or_Origin = origin\<rparr>
        else tbl_find override_key k (d_Overrides db)) \<and>
     (tbl_ok override_key (d_Overrides db) \<longrightarrow> tbl_ok override_key (d_Overrides db')) \<and>
     (\<exists>rows. db' = db\<lparr>d_Overrides := rows\<rparr>)"
  using assms
  by (auto simp: SetProviderOverride_def tbl_find_put override_key_def tbl_ok_put split: option.splits if_splits)

text \<open>An override read back is the one that was set, and it is the ceiling.\<close>

lemma SetProviderOverride_Resolve:
  assumes set: "SetProviderOverride (u_ID user) p q origin db = Inr db'" and ok: "tbl_ok override_key (d_Overrides db)"
    and up: "UserPolicy_of (u_ID user) db' = Inr up"
  shows "Resolve user p policy up =
     empty_resolution\<lparr>r_Present := True, r_Ceiling := q, r_Rule := RuleProviderOverride\<rparr>"
proof -
  note s = SetProviderOverride_find [OF set, of "(u_ID user, p)"]
  then have "up_ProviderOverrides up p = Some q"
    using UserPolicy_override [OF up, of p] ok by (simp add: DecodeQuota_Encode_valid)
  then show ?thesis by (rule Resolve_override)
qed

end
