(* ===== verification/Engine.thy ===== *)
theory Engine
  imports StoreIdentity StoreAudit StorePolicy "HOL-Library.AList"
begin

text \<open>
  The ground of \<open>internal/reconcile\<close>: a live adapter, the services it talks to, and the trace
  of the calls made to them; the report of a cycle (\<open>reconcile.go\<close>); and the directory sync
  (\<open>identity.go\<close>).

  The services are a state of an arbitrary type. Every call is a function on that state, so an
  answer may depend on everything that happened before, and every call is appended to the
  trace, so that a property can speak of what was sent and in which order. The clock is a
  function of the state of the services too.
\<close>

section \<open>Adapters, services and the trace\<close>

text \<open>
  \<open>core.Provider\<close> with its two optional capabilities: \<open>WriteLimit\<close> is the number of calls of
  \<open>RateLimited\<close>, and \<open>Detector\<close> is \<open>CompetingWriters\<close> of a \<open>WriterDetector\<close>.
\<close>

record 'w Adapter =
  ad_Capabilities :: Capabilities
  ad_Health :: "'w \<Rightarrow> HealthResult \<times> 'w"
  ad_ListAccounts :: "'w \<Rightarrow> (AdapterError list + Account list) \<times> 'w"
  ad_GetAccount :: "string \<Rightarrow> 'w \<Rightarrow> (AdapterError + Account) \<times> 'w"
  ad_SetQuota :: "string \<Rightarrow> Quota \<Rightarrow> 'w \<Rightarrow> AdapterError option \<times> 'w"
  ad_NormalizeQuota :: "Quota \<Rightarrow> Quota"
  ad_WriteLimit :: "int option"
  ad_Detector :: "('w \<Rightarrow> (CompetingWriter list \<times> AdapterError option) \<times> 'w) option"
  ad_Undetectable :: "CompetingWriter list"

record 'w Instance =
  in_Row :: ProviderRow
  in_Provider :: "'w Adapter"

definition in_ID :: "'w Instance \<Rightarrow> RowID" where
  "in_ID i = provider_id (in_Row i)"

definition in_Name :: "'w Instance \<Rightarrow> string" where
  "in_Name i = pi_Name (pr_Inst (in_Row i))"

text \<open>The body of a notification (\<open>notify.go\<close>); the host is stamped on the way out.\<close>

datatype EventKind = KindFailed | KindGuarded | KindDegraded

record Detail =
  dt_User :: string
  dt_Provider :: string
  dt_From :: string
  dt_To :: string
  dt_Reason :: string

record Event =
  ev_Kind :: EventKind
  ev_At :: Time
  ev_Summary :: string
  ev_Details :: "Detail list"

datatype Call =
    CallHealth RowID
  | CallList RowID
  | CallDetect RowID
  | CallGet RowID string "AdapterError + Account"
  | CallSet RowID string Quota "AdapterError option"
  | CallSleep bool
  | CallNotify Event

record 'w World =
  wd_State :: 'w
  wd_Calls :: "Call list"

definition does :: "Call \<Rightarrow> 'w \<Rightarrow> 'w World \<Rightarrow> 'w World" where
  "does c s w = w\<lparr>wd_State := s, wd_Calls := wd_Calls w @ [c]\<rparr>"

definition call_Health :: "'w Instance \<Rightarrow> 'w World \<Rightarrow> HealthResult \<times> 'w World" where
  "call_Health i w =
     (case ad_Health (in_Provider i) (wd_State w) of (r, s) \<Rightarrow> (r, does (CallHealth (in_ID i)) s w))"

definition call_List :: "'w Instance \<Rightarrow> 'w World \<Rightarrow> (AdapterError list + Account list) \<times> 'w World" where
  "call_List i w =
     (case ad_ListAccounts (in_Provider i) (wd_State w) of (r, s) \<Rightarrow> (r, does (CallList (in_ID i)) s w))"

definition call_Get :: "'w Instance \<Rightarrow> string \<Rightarrow> 'w World \<Rightarrow> (AdapterError + Account) \<times> 'w World" where
  "call_Get i e w =
     (case ad_GetAccount (in_Provider i) e (wd_State w) of
        (r, s) \<Rightarrow> (r, does (CallGet (in_ID i) e r) s w))"

definition call_Set ::
  "'w Instance \<Rightarrow> string \<Rightarrow> Quota \<Rightarrow> 'w World \<Rightarrow> AdapterError option \<times> 'w World" where
  "call_Set i e q w =
     (case ad_SetQuota (in_Provider i) e q (wd_State w) of
        (r, s) \<Rightarrow> (r, does (CallSet (in_ID i) e q r) s w))"

text \<open>
  What the engine is given besides the store and the instances: the clock, the wait between two
  writes (true when the context ended first), the text of an error, and the notifier, when one
  is configured.
\<close>

datatype engine_error =
    AdapterErr AdapterError
  | AdapterErrs "AdapterError list"
  | StoreErr store_error
  | Reread string string AdapterError
  | NotWritableNow string string
  | ReadBackFailed AdapterError
  | WouldOrphanEveryone nat
  | DirectoryErr string
  | PlanTooOld Duration
  | Cancelled
  | NotRegistered

record 'w Env =
  env_Now :: "'w \<Rightarrow> Time"
  env_Sleep :: "'w \<Rightarrow> bool \<times> 'w"
  env_Error :: "engine_error \<Rightarrow> string"
  env_Notifier :: "(Event \<Rightarrow> 'w \<Rightarrow> 'w) option"

definition clock :: "'w Env \<Rightarrow> 'w World \<Rightarrow> Time" where
  "clock env w = env_Now env (wd_State w)"

section \<open>The report of a cycle\<close>

datatype observe_error = ListFailed "AdapterError list" | StoreFailed store_error

record ProviderResult =
  rs_Name :: string
  rs_Type :: string
  rs_Observed :: nat
  rs_Skipped :: nat
  rs_Linked :: nat
  rs_Issues :: nat
  rs_Err :: "observe_error option"

definition ProviderResult_OK :: "ProviderResult \<Rightarrow> bool" where
  "ProviderResult_OK r \<longleftrightarrow> rs_Err r = None"

record Report =
  rp_StartedAt :: Time
  rp_FinishedAt :: Time
  rp_Providers :: "ProviderResult list"

definition Report_Failed :: "Report \<Rightarrow> ProviderResult list" where
  "Report_Failed r = filter (\<lambda>p. \<not> ProviderResult_OK p) (rp_Providers r)"

definition Report_OK :: "Report \<Rightarrow> bool" where
  "Report_OK r \<longleftrightarrow> Report_Failed r = []"

definition Report_Totals :: "Report \<Rightarrow> nat \<times> nat \<times> nat" where
  "Report_Totals r = foldl (\<lambda>(observed, linked, issues) p.
     (observed + rs_Observed p, linked + rs_Linked p, issues + rs_Issues p)) (0, 0, 0) (rp_Providers r)"

section \<open>The directory\<close>

definition countActiveUsers :: "Database \<Rightarrow> nat" where
  "countActiveUsers db = length (filter (\<lambda>u. u_Status u = UserActive) (ListUsers db))"

text \<open>
  \<open>directory\<close> is the answer of \<open>Directory.Sync\<close>, when one is configured; the warnings about
  what it left out are only logged.
\<close>

definition no_identity :: IdentityResult where
  "no_identity = \<lparr>id_Users = 0, id_Groups = 0, id_Orphaned = 0, id_Restored = 0\<rparr>"

definition SyncIdentity ::
  "(string + IdentityRead) option \<Rightarrow> Database \<Rightarrow> (engine_error + IdentityResult) \<times> Database" where
  "SyncIdentity directory db =
     (case directory of
        None \<Rightarrow> (Inr no_identity, db)
      | Some (Inl e) \<Rightarrow> (Inl (DirectoryErr e), db)
      | Some (Inr read) \<Rightarrow>
          let known = countActiveUsers db in
          if sn_Users (ir_Snapshot read) = [] \<and> 0 < known
          then (Inl (WouldOrphanEveryone known), db)
          else case ReplaceIdentity (ir_Snapshot read) db of
            Inl e \<Rightarrow> (Inl (StoreErr e), db)
          | Inr (db', result) \<Rightarrow> (Inr result, db'))"

section \<open>Lemmas\<close>

lemma does_simps [simp]:
  "wd_State (does c s w) = s" "wd_Calls (does c s w) = wd_Calls w @ [c]"
  by (simp_all add: does_def)

lemma call_Get_calls:
  "call_Get i e w = (r, w') \<Longrightarrow> wd_Calls w' = wd_Calls w @ [CallGet (in_ID i) e r]"
  by (auto simp: call_Get_def split: prod.splits)

lemma call_Set_calls:
  "call_Set i e q w = (r, w') \<Longrightarrow> wd_Calls w' = wd_Calls w @ [CallSet (in_ID i) e q r]"
  by (auto simp: call_Set_def split: prod.splits)

lemma call_Health_calls: "call_Health i w = (r, w') \<Longrightarrow> wd_Calls w' = wd_Calls w @ [CallHealth (in_ID i)]"
  by (auto simp: call_Health_def split: prod.splits)

lemma call_List_calls: "call_List i w = (r, w') \<Longrightarrow> wd_Calls w' = wd_Calls w @ [CallList (in_ID i)]"
  by (auto simp: call_List_def split: prod.splits)

lemmas call_calls = call_Get_calls call_Set_calls call_Health_calls call_List_calls

lemma Report_Totals_sums:
  "Report_Totals r = (sum_list (map rs_Observed (rp_Providers r)), sum_list (map rs_Linked (rp_Providers r)),
     sum_list (map rs_Issues (rp_Providers r)))"
proof -
  have "foldl (\<lambda>(observed, linked, issues) p.
      (observed + rs_Observed p, linked + rs_Linked p, issues + rs_Issues p)) (a, b, c) ps =
    (a + sum_list (map rs_Observed ps), b + sum_list (map rs_Linked ps), c + sum_list (map rs_Issues ps))"
    for a b c and ps :: "ProviderResult list"
    by (induction ps arbitrary: a b c) auto
  then show ?thesis by (simp add: Report_Totals_def)
qed

text \<open>An empty answer of the directory leaves everybody as they were.\<close>

lemma SyncIdentity_empty:
  assumes "sn_Users (ir_Snapshot read) = []" "0 < countActiveUsers db"
  shows "SyncIdentity (Some (Inr read)) db = (Inl (WouldOrphanEveryone (countActiveUsers db)), db)"
  using assms by (simp add: SyncIdentity_def Let_def)

lemma SyncIdentity_error: "SyncIdentity d db = (Inl e, db') \<Longrightarrow> db' = db"
  by (auto simp: SyncIdentity_def Let_def split: option.splits sum.splits if_splits)

lemma SyncIdentity_stored:
  "SyncIdentity (Some (Inr read)) db = (Inr result, db') \<Longrightarrow>
     ReplaceIdentity (ir_Snapshot read) db = Inr (db', result) \<and>
     (sn_Users (ir_Snapshot read) = [] \<longrightarrow> countActiveUsers db = 0)"
  by (auto simp: SyncIdentity_def Let_def split: option.splits sum.splits if_splits)

end
