(* ===== verification/Link.thy ===== *)
theory Link
  imports Engine "HOL-Library.Sublist"
begin

text \<open>
  \<open>internal/reconcile/link.go\<close>: the pass that ties observed accounts to people. A pass is a
  sequence of steps on the state of each provider: check the links there are, match directly
  on the configured key, carry a link to other providers through the OIDC subject, list what
  is left, and write it to the store.

  The maps of the pass are association lists. Go ranges over a map in an order of its own
  choosing; \<open>MapOrder\<close> is that choice, a rearrangement of the entries at each of the three
  places where the pass ranges over a map, and every result holds for all of them.
\<close>

section \<open>The state of a pass\<close>

record LinkState =
  ls_Row :: ProviderRow
  ls_Result :: nat
  ls_Accounts :: "ExternalAccount list"
  ls_ById :: "string \<rightharpoonup> ExternalAccount"
  ls_Linked :: "(RowID \<times> AccountLink) list"
  ls_Owner :: "(string \<times> RowID) list"
  ls_NewLinks :: "AccountLink list"
  ls_Issues :: "LinkIssue list"
  ls_Dangling :: "RowID set"

record MapOrder =
  mo_Linked :: "RowID \<Rightarrow> (RowID \<times> AccountLink) list \<Rightarrow> (RowID \<times> AccountLink) list"
  mo_Keys :: "RowID \<Rightarrow> (string \<times> User list) list \<Rightarrow> (string \<times> User list) list"
  mo_Owned :: "RowID \<Rightarrow> (string \<times> RowID) list \<Rightarrow> (string \<times> RowID) list"

definition order_ok :: "MapOrder \<Rightarrow> bool" where
  "order_ok ord \<longleftrightarrow>
     (\<forall>p xs. mset (mo_Linked ord p xs) = mset xs) \<and>
     (\<forall>p xs. mset (mo_Keys ord p xs) = mset xs) \<and>
     (\<forall>p xs. mset (mo_Owned ord p xs) = mset xs)"

definition ls_ID :: "LinkState \<Rightarrow> RowID" where
  "ls_ID s = provider_id (ls_Row s)"

definition ls_Key :: "LinkState \<Rightarrow> MatchKey" where
  "ls_Key s = pi_MatchKey (pr_Inst (ls_Row s))"

definition userMatchValue :: "User \<Rightarrow> MatchKey \<Rightarrow> string" where
  "userMatchValue u key =
     (case key of
        MatchEmail \<Rightarrow> NormalizeEmail (u_Email u)
      | MatchUsername \<Rightarrow> NormalizeUsername (u_UID u)
      | _ \<Rightarrow> [])"

definition accountMatchValue :: "ExternalAccount \<Rightarrow> MatchKey \<Rightarrow> string" where
  "accountMatchValue a key =
     (case key of
        MatchEmail \<Rightarrow> NormalizeEmail (xa_Email a)
      | MatchUsername \<Rightarrow> NormalizeUsername (xa_Username a)
      | MatchSubject \<Rightarrow> xa_Subject a
      | MatchOther _ \<Rightarrow> [])"

definition issue :: "LinkState \<Rightarrow> LinkIssueKind \<Rightarrow> RowID option \<Rightarrow> string \<Rightarrow> LinkIssue" where
  "issue s kind userID externalID =
     \<lparr>li_ProviderID = ls_ID s, li_Kind = kind, li_UserID = userID, li_ExternalID = externalID\<rparr>"

definition report_issue :: "LinkIssueKind \<Rightarrow> RowID option \<Rightarrow> string \<Rightarrow> LinkState \<Rightarrow> LinkState" where
  "report_issue kind userID externalID s =
     s\<lparr>ls_Issues := ls_Issues s @ [issue s kind userID externalID]\<rparr>"

section \<open>Loading\<close>

text \<open>The result of a provider by its name: the last one of that name, as in the map.\<close>

definition result_of :: "ProviderResult list \<Rightarrow> string \<Rightarrow> nat option" where
  "result_of results name =
     (case filter (\<lambda>i. rs_Name (results ! i) = name) [0..<length results] of
        [] \<Rightarrow> None | is \<Rightarrow> Some (last is))"

definition new_state :: "ProviderRow \<Rightarrow> nat \<Rightarrow> ExternalAccount list \<Rightarrow> AccountLink list \<Rightarrow> LinkState" where
  "new_state row result accounts existing =
     \<lparr>ls_Row = row, ls_Result = result, ls_Accounts = accounts,
      ls_ById = foldl (\<lambda>m a. m(xa_ExternalID a \<mapsto> a)) Map.empty accounts,
      ls_Linked = foldl (\<lambda>m l. AList.update (lk_UserID l) l m) []
                    (filter (\<lambda>l. lk_ProviderID l = provider_id row) existing),
      ls_Owner = [], ls_NewLinks = [], ls_Issues = [], ls_Dangling = {}\<rparr>"

fun loadStates ::
  "'w Instance list \<Rightarrow> ProviderResult list \<Rightarrow> AccountLink list \<Rightarrow> Database \<Rightarrow> store_error + LinkState list" where
  "loadStates [] results existing db = Inr []"
| "loadStates (i # is) results existing db =
     (case result_of results (in_Name i) of
        None \<Rightarrow> loadStates is results existing db
      | Some k \<Rightarrow>
          if \<not> ProviderResult_OK (results ! k) \<or> \<not> cap_CanReadUsers (ad_Capabilities (in_Provider i))
          then loadStates is results existing db
          else bind_result (ListExternalAccounts (in_ID i) db) (\<lambda>accounts.
               bind_result (loadStates is results existing db) (\<lambda>states.
                 Inr (new_state (in_Row i) k accounts existing # states))))"

section \<open>The links there are\<close>

definition revalidate_step :: "(RowID \<rightharpoonup> User) \<Rightarrow> LinkState \<Rightarrow> RowID \<times> AccountLink \<Rightarrow> LinkState" where
  "revalidate_step byID s entry =
     (case entry of (userID, link) \<Rightarrow>
        let dangle = (\<lambda>kind s. (report_issue kind (Some userID) (lk_ExternalID link) s)
              \<lparr>ls_Dangling := insert userID (ls_Dangling s)\<rparr>) in
        case byID userID of
          None \<Rightarrow> s\<lparr>ls_Dangling := insert userID (ls_Dangling s)\<rparr>
        | Some user \<Rightarrow>
            (case ls_ById s (lk_ExternalID link) of
               None \<Rightarrow> dangle IssueDangling s
             | Some account \<Rightarrow>
                 if \<not> ExternalAccount_Writable account then dangle IssueDangling s
                 else
                   let want = userMatchValue user (ls_Key s);
                       got = accountMatchValue account (ls_Key s) in
                   if lk_Origin link = LinkMatched \<and> want \<noteq> [] \<and> want \<noteq> got
                   then dangle IssueStale s
                   else s\<lparr>ls_Owner := AList.update (lk_ExternalID link) userID (ls_Owner s)\<rparr>))"

definition users_by_id :: "User list \<Rightarrow> RowID \<rightharpoonup> User" where
  "users_by_id users = foldl (\<lambda>m u. m(u_ID u \<mapsto> u)) Map.empty users"

definition revalidate :: "MapOrder \<Rightarrow> User list \<Rightarrow> LinkState \<Rightarrow> LinkState" where
  "revalidate ord users s =
     foldl (revalidate_step (users_by_id users)) s (mo_Linked ord (ls_ID s) (ls_Linked s))"

section \<open>Direct matches\<close>

definition adopt :: "Time \<Rightarrow> RowID \<Rightarrow> string \<Rightarrow> LinkOrigin \<Rightarrow> LinkState \<Rightarrow> LinkState" where
  "adopt now userID externalID origin s =
     (let link = \<lparr>lk_UserID = userID, lk_ProviderID = ls_ID s, lk_ExternalID = externalID,
                  lk_Origin = origin, lk_LinkedAt = now\<rparr> in
      s\<lparr>ls_Linked := AList.update userID link (ls_Linked s),
        ls_Owner := AList.update externalID userID (ls_Owner s),
        ls_NewLinks := ls_NewLinks s @ [link]\<rparr>)"

text \<open>\<open>m[value] = append(m[value], x)\<close> for every \<open>x\<close> with a value.\<close>

definition group_by :: "('a \<Rightarrow> string) \<Rightarrow> 'a list \<Rightarrow> (string \<times> 'a list) list" where
  "group_by f xs =
     foldl (\<lambda>m x. if f x = [] then m
                  else AList.update (f x) (case map_of m (f x) of None \<Rightarrow> [x] | Some ys \<Rightarrow> ys @ [x]) m) [] xs"

definition match_step ::
  "Time \<Rightarrow> (string \<times> ExternalAccount list) list \<Rightarrow> LinkState \<Rightarrow> string \<times> User list \<Rightarrow> LinkState" where
  "match_step now accountsByKey s entry =
     (case entry of (v, candidates) \<Rightarrow>
        (case map_of accountsByKey v of
           None \<Rightarrow> s
         | Some matched \<Rightarrow>
             if matched = [] then s
             else case (candidates, matched) of
               ([u], [a]) \<Rightarrow> adopt now (u_ID u) (xa_ExternalID a) LinkMatched s
             | _ \<Rightarrow> foldl (\<lambda>s u. report_issue IssueAmbiguous (Some (u_ID u)) [] s) s candidates))"

definition free_users :: "LinkState \<Rightarrow> User list \<Rightarrow> User list" where
  "free_users s users = filter (\<lambda>u. map_of (ls_Linked s) (u_ID u) = None) users"

definition free_accounts :: "LinkState \<Rightarrow> ExternalAccount list" where
  "free_accounts s =
     filter (\<lambda>a. ExternalAccount_Writable a \<and> map_of (ls_Owner s) (xa_ExternalID a) = None) (ls_Accounts s)"

definition matchDirect :: "MapOrder \<Rightarrow> Time \<Rightarrow> User list \<Rightarrow> LinkState \<Rightarrow> LinkState" where
  "matchDirect ord now users s =
     (let key = ls_Key s in
      if key = MatchOther [] then s
      else
        let usersByKey = group_by (\<lambda>u. userMatchValue u key) (free_users s users);
            accountsByKey = group_by (\<lambda>a. accountMatchValue a key) (free_accounts s)
        in foldl (match_step now accountsByKey) s (mo_Keys ord (ls_ID s) usersByKey))"

section \<open>The join on the subject\<close>

definition subject_step ::
  "LinkState \<Rightarrow> (string \<rightharpoonup> RowID) \<times> string set \<Rightarrow> string \<times> RowID \<Rightarrow> (string \<rightharpoonup> RowID) \<times> string set" where
  "subject_step s acc entry =
     (case (acc, entry) of ((userBySubject, conflicting), (externalID, userID)) \<Rightarrow>
        let subject = (case ls_ById s externalID of None \<Rightarrow> [] | Some a \<Rightarrow> xa_Subject a) in
        if subject = [] then acc
        else case userBySubject subject of
          Some other \<Rightarrow>
            if other \<noteq> userID then (userBySubject, insert subject conflicting)
            else (userBySubject(subject \<mapsto> userID), conflicting)
        | None \<Rightarrow> (userBySubject(subject \<mapsto> userID), conflicting))"

definition subjects :: "MapOrder \<Rightarrow> LinkState list \<Rightarrow> (string \<rightharpoonup> RowID) \<times> string set" where
  "subjects ord states =
     foldl (\<lambda>acc s. foldl (subject_step s) acc (mo_Owned ord (ls_ID s) (ls_Owner s))) (Map.empty, {}) states"

definition join_step ::
  "Time \<Rightarrow> (string \<rightharpoonup> RowID) \<times> string set \<Rightarrow> LinkState \<Rightarrow> ExternalAccount \<Rightarrow> LinkState" where
  "join_step now found s a =
     (case found of (userBySubject, conflicting) \<Rightarrow>
        if \<not> ExternalAccount_Writable a \<or> xa_Subject a = [] then s
        else if map_of (ls_Owner s) (xa_ExternalID a) \<noteq> None then s
        else case userBySubject (xa_Subject a) of
          None \<Rightarrow> s
        | Some userID \<Rightarrow>
            if xa_Subject a \<in> conflicting then s
            else if map_of (ls_Linked s) userID \<noteq> None
            then report_issue IssueAmbiguous (Some userID) (xa_ExternalID a) s
            else adopt now userID (xa_ExternalID a) LinkMatched s)"

definition matchBySubject :: "MapOrder \<Rightarrow> Time \<Rightarrow> LinkState list \<Rightarrow> LinkState list" where
  "matchBySubject ord now states =
     (let found = subjects ord states in
      map (\<lambda>s. foldl (join_step now found) s (ls_Accounts s)) states)"

section \<open>What is left\<close>

definition hasAmbiguity :: "LinkIssue list \<Rightarrow> RowID \<Rightarrow> bool" where
  "hasAmbiguity issues userID \<longleftrightarrow>
     (\<exists>i \<in> set issues. li_Kind i = IssueAmbiguous \<and> li_UserID i = Some userID)"

definition collect_user :: "LinkState \<Rightarrow> User \<Rightarrow> LinkState" where
  "collect_user s u =
     (if map_of (ls_Linked s) (u_ID u) \<noteq> None \<and> u_ID u \<notin> ls_Dangling s then s
      else if u_ID u \<in> ls_Dangling s then s
      else if hasAmbiguity (ls_Issues s) (u_ID u) then s
      else report_issue IssueUnlinked (Some (u_ID u)) [] s)"

definition collect_account :: "LinkState \<Rightarrow> ExternalAccount \<Rightarrow> LinkState" where
  "collect_account s a =
     (if \<not> ExternalAccount_Writable a then s
      else if map_of (ls_Owner s) (xa_ExternalID a) \<noteq> None then s
      else report_issue IssueUnmanaged None (xa_ExternalID a) s)"

definition collectIssues :: "User list \<Rightarrow> LinkState \<Rightarrow> LinkState" where
  "collectIssues users s = foldl collect_account (foldl collect_user s users) (ls_Accounts s)"

definition countLinkable :: "LinkState \<Rightarrow> nat" where
  "countLinkable s = length (filter ExternalAccount_Writable (ls_Accounts s))"

section \<open>Writing it down\<close>

text \<open>Statements issued one after the other: the first that fails ends the sequence, the ones before it stand.\<close>

fun each :: "('a \<Rightarrow> Database \<Rightarrow> store_error + Database) \<Rightarrow> 'a list \<Rightarrow> Database \<Rightarrow> Database \<times> store_error option" where
  "each f [] db = (db, None)"
| "each f (x # xs) db = (case f x db of Inl e \<Rightarrow> (db, Some e) | Inr db' \<Rightarrow> each f xs db')"

definition persist :: "Time \<Rightarrow> LinkState \<Rightarrow> Database \<Rightarrow> Database \<times> store_error option" where
  "persist now s db =
     (case each (UpsertLink now) (ls_NewLinks s) db of
        (db, Some e) \<Rightarrow> (db, Some e)
      | (db, None) \<Rightarrow>
          (case each (\<lambda>a. SetAccountOwner (ls_ID s) (xa_ExternalID a) (map_of (ls_Owner s) (xa_ExternalID a)))
                  (ls_Accounts s) db of
             (db, Some e) \<Rightarrow> (db, Some e)
           | (db, None) \<Rightarrow>
               (case ReplaceLinkIssues (ls_ID s) (ls_Issues s) db of
                  Inl e \<Rightarrow> (db, Some e)
                | Inr db \<Rightarrow> (db, None))))"

definition count_result :: "LinkState \<Rightarrow> ProviderResult list \<Rightarrow> ProviderResult list" where
  "count_result s results =
     results[ls_Result s := (results ! ls_Result s)
        \<lparr>rs_Linked := length (ls_Owner s), rs_Issues := length (ls_Issues s)\<rparr>]"

fun persist_all ::
  "Time \<Rightarrow> User list \<Rightarrow> LinkState list \<Rightarrow> ProviderResult list \<Rightarrow> Database \<Rightarrow>
   (Database \<times> ProviderResult list) \<times> store_error option" where
  "persist_all now users [] results db = ((db, results), None)"
| "persist_all now users (s # ss) results db =
     (let s = collectIssues users s in
      case persist now s db of
        (db, Some e) \<Rightarrow> ((db, results), Some e)
      | (db, None) \<Rightarrow> persist_all now users ss (count_result s results) db)"

definition active_users :: "Database \<Rightarrow> User list" where
  "active_users db = filter (\<lambda>u. u_Status u = UserActive) (ListUsers db)"

definition match_all :: "MapOrder \<Rightarrow> Time \<Rightarrow> User list \<Rightarrow> LinkState list \<Rightarrow> LinkState list" where
  "match_all ord now users states =
     matchBySubject ord now (map (\<lambda>s. matchDirect ord now users (revalidate ord users s)) states)"

definition link ::
  "MapOrder \<Rightarrow> Time \<Rightarrow> 'w Instance list \<Rightarrow> ProviderResult list \<Rightarrow> Database \<Rightarrow>
   (Database \<times> ProviderResult list) \<times> store_error option" where
  "link ord now instances results db =
     (case loadStates instances results (ListLinks db) db of
        Inl e \<Rightarrow> ((db, results), Some e)
      | Inr states \<Rightarrow>
          persist_all now (active_users db) (match_all ord now (active_users db) states) results db)"

section \<open>Grouping by a value\<close>

definition group_at :: "('a \<Rightarrow> string) \<Rightarrow> 'a list \<Rightarrow> string \<Rightarrow> 'a list option" where
  "group_at f xs v =
     (if v = [] \<or> filter (\<lambda>x. f x = v) xs = [] then None else Some (filter (\<lambda>x. f x = v) xs))"

lemma group_by_snoc:
  "group_by f (xs @ [x]) =
     (if f x = [] then group_by f xs
      else AList.update (f x)
        (case map_of (group_by f xs) (f x) of None \<Rightarrow> [x] | Some ys \<Rightarrow> ys @ [x]) (group_by f xs))"
  by (simp add: group_by_def)

lemma group_by_map_of: "map_of (group_by f xs) = group_at f xs"
proof (induction xs rule: rev_induct)
  case Nil
  then show ?case by (rule ext) (simp add: group_by_def group_at_def)
next
  case (snoc x xs)
  show ?case
    by (rule ext) (auto simp: group_by_snoc snoc.IH update_conv' group_at_def)
qed

lemma group_by_distinct: "distinct (map fst (group_by f xs))"
  by (induction xs rule: rev_induct) (simp add: group_by_def, simp add: group_by_snoc distinct_update)

lemma group_by_mem:
  "(v, g) \<in> set (group_by f xs) \<longleftrightarrow> v \<noteq> [] \<and> g \<noteq> [] \<and> g = filter (\<lambda>x. f x = v) xs"
  using group_by_distinct [of f xs]
  by (auto simp: map_of_eq_Some_iff [symmetric] group_by_map_of group_at_def split: if_splits)

section \<open>Every step keeps the pass well formed\<close>

text \<open>
  What holds of a state at every point of a pass. \<open>L0\<close> are the links the pass started from:
  they are all still there, as they were. An account has an owner only when the owner's link
  names it and the account can be written.
\<close>

definition accounts_wf :: "LinkState \<Rightarrow> bool" where
  "accounts_wf s \<longleftrightarrow> distinct (map xa_ExternalID (ls_Accounts s)) \<and>
     (\<forall>e a. ls_ById s e = Some a \<longleftrightarrow> a \<in> set (ls_Accounts s) \<and> xa_ExternalID a = e)"

definition owner_ok :: "LinkState \<Rightarrow> bool" where
  "owner_ok s \<longleftrightarrow> (\<forall>e u. map_of (ls_Owner s) e = Some u \<longrightarrow>
     (\<exists>l a. map_of (ls_Linked s) u = Some l \<and> lk_ExternalID l = e \<and>
        ls_ById s e = Some a \<and> ExternalAccount_Writable a))"

definition new_ok :: "(RowID \<times> AccountLink) list \<Rightarrow> LinkState \<Rightarrow> bool" where
  "new_ok L0 s \<longleftrightarrow>
     (\<forall>l \<in> set (ls_NewLinks s). map_of L0 (lk_UserID l) = None \<and> lk_ProviderID l = ls_ID s \<and>
        map_of (ls_Owner s) (lk_ExternalID l) = Some (lk_UserID l)) \<and>
     (\<forall>u. map_of (ls_Linked s) u = (case map_of L0 u of Some l \<Rightarrow> Some l
        | None \<Rightarrow> find (\<lambda>l. lk_UserID l = u) (ls_NewLinks s))) \<and>
     distinct (map lk_UserID (ls_NewLinks s)) \<and> distinct (map lk_ExternalID (ls_NewLinks s))"

definition pass_ok :: "(RowID \<times> AccountLink) list \<Rightarrow> LinkState \<Rightarrow> bool" where
  "pass_ok L0 s \<longleftrightarrow> accounts_wf s \<and> distinct (map fst (ls_Owner s)) \<and>
     distinct (map fst (ls_Linked s)) \<and> owner_ok s \<and> new_ok L0 s"

lemma find_SomeD: "find P xs = Some x \<Longrightarrow> x \<in> set xs \<and> P x"
  by (auto simp: find_Some_iff)

lemma report_issue_simps [simp]:
  "ls_Row (report_issue k u e s) = ls_Row s" "ls_Accounts (report_issue k u e s) = ls_Accounts s"
  "ls_ById (report_issue k u e s) = ls_ById s" "ls_Linked (report_issue k u e s) = ls_Linked s"
  "ls_Owner (report_issue k u e s) = ls_Owner s" "ls_NewLinks (report_issue k u e s) = ls_NewLinks s"
  "ls_Dangling (report_issue k u e s) = ls_Dangling s" "ls_ID (report_issue k u e s) = ls_ID s"
  "ls_Key (report_issue k u e s) = ls_Key s" "ls_Result (report_issue k u e s) = ls_Result s"
  by (simp_all add: report_issue_def ls_ID_def ls_Key_def)

lemma adopt_simps [simp]:
  "ls_Row (adopt now u e og s) = ls_Row s" "ls_Accounts (adopt now u e og s) = ls_Accounts s"
  "ls_ById (adopt now u e og s) = ls_ById s" "ls_Dangling (adopt now u e og s) = ls_Dangling s"
  "ls_Issues (adopt now u e og s) = ls_Issues s" "ls_ID (adopt now u e og s) = ls_ID s"
  "ls_Key (adopt now u e og s) = ls_Key s" "ls_Result (adopt now u e og s) = ls_Result s"
  "ls_Owner (adopt now u e og s) = AList.update e u (ls_Owner s)"
  by (simp_all add: adopt_def ls_ID_def ls_Key_def Let_def)

lemma pass_ok_cong:
  assumes "ls_Row s' = ls_Row s" "ls_Accounts s' = ls_Accounts s" "ls_ById s' = ls_ById s"
    "ls_Linked s' = ls_Linked s" "ls_Owner s' = ls_Owner s" "ls_NewLinks s' = ls_NewLinks s"
  shows "pass_ok L0 s' = pass_ok L0 s"
  using assms by (simp add: pass_ok_def accounts_wf_def owner_ok_def new_ok_def ls_ID_def cong: option.case_cong)

lemma pass_ok_report [simp]: "pass_ok L0 (report_issue k u e s) = pass_ok L0 s"
  by (rule pass_ok_cong) simp_all

lemma pass_ok_dangling [simp]: "pass_ok L0 (s\<lparr>ls_Dangling := d\<rparr>) = pass_ok L0 s"
  by (rule pass_ok_cong) simp_all

lemma adopt_ok:
  assumes ok: "pass_ok L0 s" and free: "map_of (ls_Linked s) u = None" "map_of (ls_Owner s) e = None"
    and a: "a \<in> set (ls_Accounts s)" "xa_ExternalID a = e" "ExternalAccount_Writable a"
  shows "pass_ok L0 (adopt now u e og s)"
proof -
  let ?s = "adopt now u e og s"
  let ?l = "\<lparr>lk_UserID = u, lk_ProviderID = ls_ID s, lk_ExternalID = e, lk_Origin = og, lk_LinkedAt = now\<rparr>"
  have linked: "ls_Linked ?s = AList.update u ?l (ls_Linked s)"
    and new: "ls_NewLinks ?s = ls_NewLinks s @ [?l]"
    by (simp_all add: adopt_def Let_def)
  have wf: "accounts_wf ?s" using ok by (simp add: pass_ok_def accounts_wf_def)
  have nl: "new_ok L0 s" and ow: "owner_ok s" using ok by (simp_all add: pass_ok_def)
  have L0: "map_of L0 u = None" and notnew: "find (\<lambda>l. lk_UserID l = u) (ls_NewLinks s) = None"
    using nl free(1) by (auto simp: new_ok_def split: option.splits)
  have "lk_ExternalID l \<noteq> e" if "l \<in> set (ls_NewLinks s)" for l
    using nl that free(2) by (auto simp: new_ok_def)
  then have "new_ok L0 ?s"
    using nl L0 notnew
    by (auto simp: new_ok_def linked new update_conv' find_None_iff find_append split: option.splits dest: find_SomeD)
  moreover have "owner_ok ?s"
    unfolding owner_ok_def
  proof (intro allI impI)
    fix e' v assume own: "map_of (ls_Owner ?s) e' = Some v"
    show "\<exists>l a. map_of (ls_Linked ?s) v = Some l \<and> lk_ExternalID l = e' \<and>
        ls_ById ?s e' = Some a \<and> ExternalAccount_Writable a"
    proof (cases "e' = e")
      case True
      with own have "v = u" by (simp add: update_conv')
      moreover have "ls_ById s e = Some a" using ok a by (simp add: pass_ok_def accounts_wf_def)
      ultimately show ?thesis using True a(3) by (simp add: linked update_conv')
    next
      case False
      with own have old: "map_of (ls_Owner s) e' = Some v" by (simp add: update_conv')
      with ow obtain l b where "map_of (ls_Linked s) v = Some l" "lk_ExternalID l = e'"
        "ls_ById s e' = Some b" "ExternalAccount_Writable b" unfolding owner_ok_def by blast
      moreover from this free(1) have "v \<noteq> u" by auto
      ultimately show ?thesis by (simp add: linked update_conv')
    qed
  qed
  ultimately show ?thesis
    using ok wf by (simp add: pass_ok_def linked distinct_update)
qed

text \<open>What no step of a pass touches.\<close>

definition keeps :: "LinkState \<Rightarrow> LinkState \<Rightarrow> bool" where
  "keeps s s' \<longleftrightarrow> ls_Row s' = ls_Row s \<and> ls_Result s' = ls_Result s \<and>
     ls_Accounts s' = ls_Accounts s \<and> ls_ById s' = ls_ById s"

lemma keeps_simps [simp]: "keeps s s" "keeps s (report_issue k u e s)" "keeps s (adopt now v e og s)"
  by (simp_all add: keeps_def)

lemma keeps_trans: "keeps s t \<Longrightarrow> keeps t r \<Longrightarrow> keeps s r"
  by (simp add: keeps_def)

lemma keeps_ID: "keeps s t \<Longrightarrow> ls_ID t = ls_ID s \<and> ls_Key t = ls_Key s \<and> ls_Accounts t = ls_Accounts s \<and>
    ls_ById t = ls_ById s"
  by (simp add: keeps_def ls_ID_def ls_Key_def)

lemma foldl_byId:
  assumes "distinct (map xa_ExternalID as)"
  shows "foldl (\<lambda>m a. m(xa_ExternalID a \<mapsto> a)) m as e =
     (case find (\<lambda>a. xa_ExternalID a = e) as of None \<Rightarrow> m e | Some a \<Rightarrow> Some a)"
  using assms
proof (induction as arbitrary: m)
  case (Cons a as)
  have "find (\<lambda>x. xa_ExternalID x = e) as = None" if "xa_ExternalID a = e"
    using Cons.prems that by (auto simp: find_None_iff) (metis imageI)
  with Cons show ?case by auto
qed simp

lemma new_state_ok:
  fixes row :: ProviderRow and existing :: "AccountLink list" and k :: nat
  assumes "distinct (map xa_ExternalID accounts)"
  defines "s \<equiv> new_state row k accounts existing"
  shows "pass_ok (ls_Linked s) s" "ls_NewLinks s = []" "ls_Accounts s = accounts" "ls_Row s = row"
    "\<And>u l. map_of (ls_Linked s) u = Some l \<Longrightarrow> l \<in> set existing \<and> lk_UserID l = u \<and> lk_ProviderID l = ls_ID s"
    "\<And>l. l \<in> set existing \<Longrightarrow> lk_ProviderID l = ls_ID s \<Longrightarrow> map_of (ls_Linked s) (lk_UserID l) \<noteq> None"
proof -
  have one: "find (\<lambda>a. xa_ExternalID a = e) accounts = Some a \<longleftrightarrow> a \<in> set accounts \<and> xa_ExternalID a = e"
    for e a
    using assms(1) tbl_find_eq_iff [of xa_ExternalID accounts e a] by (simp add: tbl_find_def tbl_ok_def)
  have "ls_ById s e = find (\<lambda>a. xa_ExternalID a = e) accounts" for e
    using foldl_byId [OF assms(1), of Map.empty e] by (simp add: s_def new_state_def split: option.splits)
  then have "accounts_wf s"
    unfolding accounts_wf_def by (simp add: one) (simp add: s_def new_state_def assms(1))
  moreover have dist: "distinct (map fst (foldl (\<lambda>m l. AList.update (lk_UserID l) l m) [] ls))"
    for ls :: "AccountLink list"
    by (induction ls rule: rev_induct) (simp_all add: distinct_update)
  ultimately show "pass_ok (ls_Linked s) s"
    by (simp add: pass_ok_def owner_ok_def new_ok_def s_def new_state_def split: option.splits)
  have mem: "map_of (foldl (\<lambda>m l. AList.update (lk_UserID l) l m) [] ls) u = Some l \<Longrightarrow> l \<in> set ls \<and> lk_UserID l = u"
    for ls :: "AccountLink list" and u l
    by (induction ls rule: rev_induct) (auto simp: update_conv' split: if_splits)
  have all: "l \<in> set ls \<Longrightarrow> map_of (foldl (\<lambda>m l. AList.update (lk_UserID l) l m) [] ls) (lk_UserID l) \<noteq> None"
    for ls :: "AccountLink list" and l
    by (induction ls rule: rev_induct) (auto simp: update_conv')
  show "ls_NewLinks s = []" "ls_Accounts s = accounts" "ls_Row s = row"
    by (simp_all add: s_def new_state_def)
  show "\<And>u l. map_of (ls_Linked s) u = Some l \<Longrightarrow> l \<in> set existing \<and> lk_UserID l = u \<and> lk_ProviderID l = ls_ID s"
  proof -
    fix u l assume "map_of (ls_Linked s) u = Some l"
    then have "l \<in> set (filter (\<lambda>l. lk_ProviderID l = provider_id row) existing) \<and> lk_UserID l = u"
      by (intro mem) (simp add: s_def new_state_def)
    then show "l \<in> set existing \<and> lk_UserID l = u \<and> lk_ProviderID l = ls_ID s"
      by (simp add: s_def new_state_def ls_ID_def)
  qed
  show "\<And>l. l \<in> set existing \<Longrightarrow> lk_ProviderID l = ls_ID s \<Longrightarrow> map_of (ls_Linked s) (lk_UserID l) \<noteq> None"
  proof -
    fix l assume "l \<in> set existing" "lk_ProviderID l = ls_ID s"
    then have "l \<in> set (filter (\<lambda>l. lk_ProviderID l = provider_id row) existing)"
      by (simp add: s_def new_state_def ls_ID_def)
    from all [OF this] show "map_of (ls_Linked s) (lk_UserID l) \<noteq> None" by (simp add: s_def new_state_def)
  qed
qed

lemma revalidate_step_ok:
  assumes ok: "pass_ok L0 s" "ls_NewLinks s = []" and entry: "map_of (ls_Linked s) u = Some l"
  shows "pass_ok L0 (revalidate_step users s (u, l)) \<and> keeps s (revalidate_step users s (u, l)) \<and>
     ls_NewLinks (revalidate_step users s (u, l)) = [] \<and>
     ls_Linked (revalidate_step users s (u, l)) = ls_Linked s"
proof -
  have own: "pass_ok L0 (s\<lparr>ls_Owner := AList.update (lk_ExternalID l) u (ls_Owner s)\<rparr>)"
    if "ls_ById s (lk_ExternalID l) = Some a" "ExternalAccount_Writable a" for a
    using ok entry that
    by (auto simp: pass_ok_def accounts_wf_def owner_ok_def new_ok_def update_conv' distinct_update ls_ID_def
        cong: option.case_cong)
  show ?thesis
    using own ok
    by (simp add: revalidate_step_def Let_def keeps_def split: option.splits)
qed

lemma revalidate_fold_ok:
  assumes "pass_ok L0 s" "ls_NewLinks s = []" "\<forall>(u, l) \<in> set es. map_of (ls_Linked s) u = Some l"
  shows "pass_ok L0 (foldl (revalidate_step users) s es) \<and> keeps s (foldl (revalidate_step users) s es) \<and>
     ls_NewLinks (foldl (revalidate_step users) s es) = [] \<and>
     ls_Linked (foldl (revalidate_step users) s es) = ls_Linked s"
  using assms
proof (induction es arbitrary: s)
  case (Cons x es)
  obtain u l where x: "x = (u, l)" by (cases x)
  from revalidate_step_ok [OF Cons.prems(1,2), of u l users] Cons.prems(3)
  have st: "pass_ok L0 (revalidate_step users s x)" "keeps s (revalidate_step users s x)"
    "ls_NewLinks (revalidate_step users s x) = []"
    "ls_Linked (revalidate_step users s x) = ls_Linked s"
    by (auto simp: x)
  from Cons.IH [OF st(1,3)] Cons.prems(3) st show ?case by (auto intro: keeps_trans)
qed simp

lemma revalidate_ok:
  assumes "pass_ok L0 s" "ls_NewLinks s = []" "order_ok ord"
  shows "pass_ok L0 (revalidate ord users s) \<and> keeps s (revalidate ord users s) \<and>
     ls_NewLinks (revalidate ord users s) = [] \<and> ls_Linked (revalidate ord users s) = ls_Linked s"
proof -
  have "set (mo_Linked ord (ls_ID s) (ls_Linked s)) = set (ls_Linked s)"
    using assms(3) mset_eq_setD by (metis order_ok_def)
  moreover have "distinct (map fst (ls_Linked s))" using assms(1) by (simp add: pass_ok_def)
  ultimately show ?thesis
    unfolding revalidate_def using assms(1,2) by (intro revalidate_fold_ok) (auto simp: map_of_eq_Some_iff)
qed

section \<open>Every new link has a reason\<close>

text \<open>
  A direct match: one free person and one free account share a value of the configured key,
  and nobody and nothing else has that value.
\<close>

definition direct_match :: "MatchKey \<Rightarrow> User list \<Rightarrow> ExternalAccount list \<Rightarrow> AccountLink \<Rightarrow> bool" where
  "direct_match key us as l \<longleftrightarrow> (\<exists>u \<in> set us. \<exists>a \<in> set as.
     u_ID u = lk_UserID l \<and> xa_ExternalID a = lk_ExternalID l \<and>
     userMatchValue u key \<noteq> [] \<and> accountMatchValue a key = userMatchValue u key \<and>
     (\<forall>v \<in> set us. userMatchValue v key = userMatchValue u key \<longrightarrow> v = u) \<and>
     (\<forall>b \<in> set as. accountMatchValue b key = userMatchValue u key \<longrightarrow> b = a))"

text \<open>What matching has done so far, when the values in \<open>done\<close> were handled.\<close>

definition matched_so_far ::
  "LinkState \<Rightarrow> User list \<Rightarrow> string set \<Rightarrow> LinkState \<Rightarrow> bool" where
  "matched_so_far s0 us handled s \<longleftrightarrow> keeps s0 s \<and>
     (\<forall>u. map_of (ls_Linked s0) u = None \<and> map_of (ls_Linked s) u \<noteq> None \<longrightarrow>
        (\<exists>x \<in> set us. u_ID x = u \<and> userMatchValue x (ls_Key s0) \<in> handled)) \<and>
     (\<forall>e. map_of (ls_Owner s0) e = None \<and> map_of (ls_Owner s) e \<noteq> None \<longrightarrow>
        (\<exists>a \<in> set (free_accounts s0). xa_ExternalID a = e \<and> accountMatchValue a (ls_Key s0) \<in> handled)) \<and>
     (\<forall>l \<in> set (ls_NewLinks s). direct_match (ls_Key s0) us (free_accounts s0) l)"

lemma filter_singleton: "filter P xs = [x] \<Longrightarrow> x \<in> set xs \<and> P x \<and> (\<forall>y \<in> set xs. P y \<longrightarrow> y = x)"
  using set_filter [of P xs] by auto

lemma fold_report_ok:
  "foldl (\<lambda>s u. report_issue k (Some (u_ID u)) e s) s us =
     s\<lparr>ls_Issues := ls_Issues s @ map (\<lambda>u. issue s k (Some (u_ID u)) e) us\<rparr>"
  by (induction us arbitrary: s) (simp_all add: report_issue_def issue_def ls_ID_def)

lemma match_step_ok:
  fixes now :: Time
  assumes ok: "pass_ok L0 s" and so: "matched_so_far s0 (free_users s0 users) handled s"
    and users: "distinct (map u_ID users)" and wf: "accounts_wf s0" and v: "v \<notin> handled" "v \<noteq> []"
    and g: "g = filter (\<lambda>u. userMatchValue u (ls_Key s0) = v) (free_users s0 users)"
  defines "s' \<equiv> match_step now (group_by (\<lambda>a. accountMatchValue a (ls_Key s0)) (free_accounts s0)) s (v, g)"
  shows "pass_ok L0 s' \<and> matched_so_far s0 (free_users s0 users) (insert v handled) s'"
proof -
  let ?as = "filter (\<lambda>a. accountMatchValue a (ls_Key s0) = v) (free_accounts s0)"
  have mono: "matched_so_far s0 (free_users s0 users) (insert v handled) s"
    using so unfolding matched_so_far_def by blast
  consider (same) "pass_ok L0 s' = pass_ok L0 s"
      "matched_so_far s0 (free_users s0 users) (insert v handled) s' =
       matched_so_far s0 (free_users s0 users) (insert v handled) s"
    | (adopted) u a where "g = [u]" "?as = [a]" "s' = adopt now (u_ID u) (xa_ExternalID a) LinkMatched s"
  proof (cases "\<exists>u a. g = [u] \<and> ?as = [a]")
    case True
    then obtain u a where ua: "g = [u]" "?as = [a]" by blast
    then have "s' = adopt now (u_ID u) (xa_ExternalID a) LinkMatched s"
      using v(2) by (simp add: s'_def match_step_def group_by_map_of group_at_def)
    with ua that(2) show ?thesis by blast
  next
    case False
    then have "s' = s \<or> s' = s\<lparr>ls_Issues := ls_Issues s @ map (\<lambda>u. issue s IssueAmbiguous (Some (u_ID u)) []) g\<rparr>"
      by (auto simp: s'_def match_step_def group_by_map_of group_at_def fold_report_ok
          split: list.splits if_splits)
    then show ?thesis
    proof
      assume "s' = s"
      then show ?thesis by (intro that(1)) simp_all
    next
      assume s': "s' = s\<lparr>ls_Issues := ls_Issues s @ map (\<lambda>u. issue s IssueAmbiguous (Some (u_ID u)) []) g\<rparr>"
      show ?thesis
        by (rule that(1), unfold s', rule pass_ok_cong) (simp_all add: matched_so_far_def keeps_def)
    qed
  qed
  then show ?thesis
  proof cases
    case same
    with ok mono show ?thesis by simp
  next
    case adopted
    have u: "u \<in> set (free_users s0 users)" "userMatchValue u (ls_Key s0) = v"
      "\<forall>x \<in> set (free_users s0 users). userMatchValue x (ls_Key s0) = v \<longrightarrow> x = u"
      using filter_singleton [OF trans [OF g [symmetric] adopted(1)]] by auto
    have a: "a \<in> set (free_accounts s0)" "accountMatchValue a (ls_Key s0) = v"
      "\<forall>x \<in> set (free_accounts s0). accountMatchValue x (ls_Key s0) = v \<longrightarrow> x = a"
      using filter_singleton [OF adopted(2)] by auto
    have "x = u" if "x \<in> set (free_users s0 users)" "u_ID x = u_ID u" for x
      using users that u(1) by (auto simp: free_users_def distinct_map inj_on_def)
    then have "\<not> (\<exists>x \<in> set (free_users s0 users). u_ID x = u_ID u \<and> userMatchValue x (ls_Key s0) \<in> handled)"
      using u(2) v(1) by blast
    moreover have "map_of (ls_Linked s0) (u_ID u) = None" using u(1) by (simp add: free_users_def)
    ultimately have ufree: "map_of (ls_Linked s) (u_ID u) = None"
      using so unfolding matched_so_far_def by blast
    have "x = a" if "x \<in> set (free_accounts s0)" "xa_ExternalID x = xa_ExternalID a" for x
      using wf that a(1) by (auto simp: accounts_wf_def free_accounts_def distinct_map inj_on_def)
    then have "\<not> (\<exists>x \<in> set (free_accounts s0). xa_ExternalID x = xa_ExternalID a \<and>
        accountMatchValue x (ls_Key s0) \<in> handled)"
      using a(2) v(1) by blast
    moreover have "map_of (ls_Owner s0) (xa_ExternalID a) = None" using a(1) by (simp add: free_accounts_def)
    ultimately have afree: "map_of (ls_Owner s) (xa_ExternalID a) = None"
      using so unfolding matched_so_far_def by blast
    have acc: "a \<in> set (ls_Accounts s)" "ExternalAccount_Writable a"
      using a(1) so by (auto simp: free_accounts_def matched_so_far_def keeps_def)
    have "pass_ok L0 s'"
      unfolding adopted(3) by (rule adopt_ok [OF ok ufree afree acc(1) refl acc(2)])
    moreover have "matched_so_far s0 (free_users s0 users) (insert v handled) s'"
      unfolding matched_so_far_def
    proof (intro conjI allI ballI impI)
      have "keeps s0 s" using so by (simp add: matched_so_far_def)
      then show "keeps s0 s'" unfolding adopted(3) by (rule keeps_trans) simp
    next
      fix x assume x: "map_of (ls_Linked s0) x = None \<and> map_of (ls_Linked s') x \<noteq> None"
      show "\<exists>y\<in>set (free_users s0 users). u_ID y = x \<and> userMatchValue y (ls_Key s0) \<in> insert v handled"
      proof (cases "x = u_ID u")
        case False
        with x have "map_of (ls_Linked s) x \<noteq> None"
          unfolding adopted(3) by (simp add: adopt_def Let_def update_conv')
        with x mono show ?thesis unfolding matched_so_far_def by blast
      qed (use u(1,2) in blast)
    next
      fix x assume x: "map_of (ls_Owner s0) x = None \<and> map_of (ls_Owner s') x \<noteq> None"
      show "\<exists>b\<in>set (free_accounts s0). xa_ExternalID b = x \<and> accountMatchValue b (ls_Key s0) \<in> insert v handled"
      proof (cases "x = xa_ExternalID a")
        case False
        with x have "map_of (ls_Owner s) x \<noteq> None" unfolding adopted(3) by (simp add: update_conv')
        with x mono show ?thesis unfolding matched_so_far_def by blast
      qed (use a(1,2) in blast)
    next
      fix l assume "l \<in> set (ls_NewLinks s')"
      then have "l \<in> set (ls_NewLinks s) \<or> lk_UserID l = u_ID u \<and> lk_ExternalID l = xa_ExternalID a"
        unfolding adopted(3) by (auto simp: adopt_def Let_def)
      then show "direct_match (ls_Key s0) (free_users s0 users) (free_accounts s0) l"
      proof
        assume "l \<in> set (ls_NewLinks s)"
        with so show ?thesis unfolding matched_so_far_def by blast
      next
        assume l: "lk_UserID l = u_ID u \<and> lk_ExternalID l = xa_ExternalID a"
        show ?thesis
          unfolding direct_match_def
          by (rule bexI [OF _ u(1)], rule bexI [OF _ a(1)]) (use l u(2,3) a(2,3) v(2) in simp)
      qed
    qed
    ultimately show ?thesis by simp
  qed
qed

lemma match_fold_ok:
  fixes now :: Time
  assumes "distinct (map fst es)" "fst ` set es \<inter> handled = {}"
    and "\<forall>(v, g) \<in> set es. v \<noteq> [] \<and>
           g = filter (\<lambda>u. userMatchValue u (ls_Key s0) = v) (free_users s0 users)"
    and "pass_ok L0 s" "matched_so_far s0 (free_users s0 users) handled s"
    and "distinct (map u_ID users)" "accounts_wf s0"
  defines "step \<equiv> match_step now (group_by (\<lambda>a. accountMatchValue a (ls_Key s0)) (free_accounts s0))"
  shows "pass_ok L0 (foldl step s es) \<and>
     matched_so_far s0 (free_users s0 users) (handled \<union> fst ` set es) (foldl step s es)"
  using assms(1-5)
proof (induction es arbitrary: s handled)
  case (Cons x es)
  obtain v g where x: "x = (v, g)" by (cases x)
  have st: "pass_ok L0 (step s x)" "matched_so_far s0 (free_users s0 users) (insert v handled) (step s x)"
    using match_step_ok [OF Cons.prems(4,5) assms(6,7), of v g now] Cons.prems(2,3)
    by (auto simp: x step_def)
  have dis: "fst ` set es \<inter> insert v handled = {}" using Cons.prems(1,2) by (auto simp: x)
  have "pass_ok L0 (foldl step (step s x) es) \<and>
     matched_so_far s0 (free_users s0 users) (insert v handled \<union> fst ` set es) (foldl step (step s x) es)"
    using Cons.IH [OF _ dis _ st] Cons.prems(1,3) by (simp add: x)
  then show ?case by (simp add: x)
qed simp

lemma matchDirect_ok:
  fixes now :: Time
  assumes ok: "pass_ok L0 s" "ls_NewLinks s = []" and users: "distinct (map u_ID users)" and ord: "order_ok ord"
  defines "s' \<equiv> matchDirect ord now users s"
  shows "pass_ok L0 s' \<and> keeps s s' \<and>
     (\<forall>l \<in> set (ls_NewLinks s'). direct_match (ls_Key s) (free_users s users) (free_accounts s) l)"
proof (cases "ls_Key s = MatchOther []")
  case True
  then show ?thesis using ok by (simp add: s'_def matchDirect_def)
next
  case False
  let ?g = "group_by (\<lambda>u. userMatchValue u (ls_Key s)) (free_users s users)"
  let ?es = "mo_Keys ord (ls_ID s) ?g"
  have ms: "mset ?es = mset ?g" using ord by (simp add: order_ok_def)
  then have "mset (map fst ?es) = mset (map fst ?g)" by simp
  then have "distinct (map fst ?es)" using group_by_distinct mset_eq_imp_distinct_iff by blast
  moreover have "\<forall>(v, g) \<in> set ?es. v \<noteq> [] \<and>
      g = filter (\<lambda>u. userMatchValue u (ls_Key s) = v) (free_users s users)"
    using group_by_mem mset_eq_setD [OF ms] by fastforce
  moreover have "accounts_wf s" using ok(1) by (simp add: pass_ok_def)
  moreover have "matched_so_far s (free_users s users) {} s" using ok(2) by (auto simp: matched_so_far_def)
  ultimately have "pass_ok L0 s' \<and> matched_so_far s (free_users s users) ({} \<union> fst ` set ?es) s'"
    unfolding s'_def matchDirect_def using False ok(1) users
    by (simp add: Let_def) (intro match_fold_ok [where handled = "{}", simplified]; simp)
  then show ?thesis by (simp add: matched_so_far_def)
qed

text \<open>
  The join: the account carries the subject of an account some other provider ties to that
  very person, and no account of anybody else carries it.
\<close>

definition subject_at :: "LinkState \<Rightarrow> string \<Rightarrow> string" where
  "subject_at s e = (case ls_ById s e of None \<Rightarrow> [] | Some a \<Rightarrow> xa_Subject a)"

definition claims :: "LinkState list \<Rightarrow> string \<Rightarrow> RowID \<Rightarrow> bool" where
  "claims states subject u \<longleftrightarrow>
     (\<exists>s \<in> set states. \<exists>e. map_of (ls_Owner s) e = Some u \<and> subject_at s e = subject)"

definition subject_match :: "LinkState list \<Rightarrow> LinkState \<Rightarrow> AccountLink \<Rightarrow> bool" where
  "subject_match states s l \<longleftrightarrow> (\<exists>a \<in> set (ls_Accounts s).
     xa_ExternalID a = lk_ExternalID l \<and> xa_Subject a \<noteq> [] \<and> claims states (xa_Subject a) (lk_UserID l) \<and>
     (\<forall>u. claims states (xa_Subject a) u \<longrightarrow> u = lk_UserID l))"

definition found_ok :: "(string \<times> RowID) set \<Rightarrow> (string \<rightharpoonup> RowID) \<times> string set \<Rightarrow> bool" where
  "found_ok C found \<longleftrightarrow>
     (\<forall>x u. fst found x = Some u \<longrightarrow> (x, u) \<in> C \<and> (x \<in> snd found \<or> (\<forall>v. (x, v) \<in> C \<longrightarrow> v = u))) \<and>
     (\<forall>(x, u) \<in> C. x \<noteq> [] \<and> fst found x \<noteq> None)"

lemma found_okD:
  "found_ok C (m, c) \<Longrightarrow> m x = Some u \<Longrightarrow> x \<notin> c \<Longrightarrow> (x, u) \<in> C \<and> (\<forall>v. (x, v) \<in> C \<longrightarrow> v = u)"
  unfolding found_ok_def fst_conv snd_conv by blast

lemma subject_step_found:
  assumes "found_ok C found"
  shows "found_ok (C \<union> (if subject_at s e = [] then {} else {(subject_at s e, u)})) (subject_step s found (e, u))"
proof -
  obtain m c where f: "found = (m, c)" by (cases found)
  show ?thesis
  proof (cases "subject_at s e = []")
    case True
    then show ?thesis using assms by (simp add: subject_step_def subject_at_def f Let_def)
  next
    case False
    let ?x = "subject_at s e"
    consider (fresh) "m ?x = None" | (same) "m ?x = Some u" | (other) v where "m ?x = Some v" "v \<noteq> u"
      by (cases "m ?x") auto
    then show ?thesis
    proof cases
      case fresh
      then have "subject_step s found (e, u) = (m(?x \<mapsto> u), c)" and "\<And>v. (?x, v) \<notin> C"
        using False assms by (auto simp: subject_step_def subject_at_def [symmetric] f found_ok_def Let_def)
      then show ?thesis using False assms by (auto simp: f found_ok_def)
    next
      case same
      then have "subject_step s found (e, u) = (m(?x \<mapsto> u), c)"
        using False by (simp add: subject_step_def subject_at_def [symmetric] f Let_def)
      then show ?thesis using False assms same by (auto simp: f found_ok_def)
    next
      case other
      then have "subject_step s found (e, u) = (m, insert ?x c)"
        using False by (simp add: subject_step_def subject_at_def [symmetric] f Let_def)
      then show ?thesis using False assms other by (auto simp: f found_ok_def)
    qed
  qed
qed

lemma subject_fold_found:
  assumes "found_ok C found"
  shows "found_ok (C \<union> {(subject_at s e, u) | e u. (e, u) \<in> set es \<and> subject_at s e \<noteq> []}) (foldl (subject_step s) found es)"
  using assms
proof (induction es arbitrary: C found)
  case (Cons x es)
  obtain e u where x: "x = (e, u)" by (cases x)
  let ?C = "C \<union> (if subject_at s e = [] then {} else {(subject_at s e, u)})"
  have "found_ok (?C \<union> {(subject_at s e, u) | e u. (e, u) \<in> set es \<and> subject_at s e \<noteq> []})
      (foldl (subject_step s) (subject_step s found x) es)"
    unfolding x by (rule Cons.IH [OF subject_step_found [OF Cons.prems]])
  moreover have "?C \<union> {(subject_at s e, u) | e u. (e, u) \<in> set es \<and> subject_at s e \<noteq> []} =
      C \<union> {(subject_at s e, u) | e u. (e, u) \<in> set (x # es) \<and> subject_at s e \<noteq> []}"
    by (auto simp: x)
  ultimately show ?case by simp
qed simp

lemma subjects_found:
  assumes "order_ok ord" "\<forall>s \<in> set states. distinct (map fst (ls_Owner s))"
  shows "found_ok {(x, u). x \<noteq> [] \<and> claims states x u} (subjects ord states)"
proof -
  let ?f = "\<lambda>acc s. foldl (subject_step s) acc (mo_Owned ord (ls_ID s) (ls_Owner s))"
  have entries: "set (mo_Owned ord (ls_ID s) (ls_Owner s)) = set (ls_Owner s)" for s
    using assms(1) mset_eq_setD by (metis order_ok_def)
  have "found_ok (C \<union> {(x, u). x \<noteq> [] \<and> claims ss x u}) (foldl ?f found ss)"
    if "found_ok C found" "\<forall>s \<in> set ss. distinct (map fst (ls_Owner s))" for C found ss
    using that
  proof (induction ss arbitrary: C found)
    case (Cons s ss)
    have mem: "(e, u) \<in> set (ls_Owner s) \<longleftrightarrow> map_of (ls_Owner s) e = Some u" for e u
      using Cons.prems(2) by (simp add: map_of_eq_Some_iff)
    let ?C = "C \<union> {(subject_at s e, u) | e u. (e, u) \<in> set (ls_Owner s) \<and> subject_at s e \<noteq> []}"
    have "found_ok ?C (?f found s)"
      using subject_fold_found [OF Cons.prems(1), of s "mo_Owned ord (ls_ID s) (ls_Owner s)"]
      by (simp add: entries)
    from Cons.IH [OF this] Cons.prems(2)
    have "found_ok (?C \<union> {(x, u). x \<noteq> [] \<and> claims ss x u}) (foldl ?f found (s # ss))" by simp
    moreover have "?C \<union> {(x, u). x \<noteq> [] \<and> claims ss x u} = C \<union> {(x, u). x \<noteq> [] \<and> claims (s # ss) x u}"
      by (auto simp: claims_def mem)
    ultimately show ?case by simp
  qed (simp add: claims_def)
  moreover have "found_ok {} (Map.empty, {})" by (simp add: found_ok_def)
  ultimately have "found_ok ({} \<union> {(x, u). x \<noteq> [] \<and> claims states x u}) (foldl ?f (Map.empty, {}) states)"
    using assms(2) by blast
  then show ?thesis by (simp add: subjects_def)
qed

lemma join_fold_ok:
  assumes "found_ok {(x, u). x \<noteq> [] \<and> claims states x u} found"
    and "pass_ok L0 s" "keeps s0 s" "set as \<subseteq> set (ls_Accounts s0)"
    and "\<forall>l \<in> set (ls_NewLinks s). P l \<or> subject_match states s0 l"
  shows "pass_ok L0 (foldl (join_step now found) s as) \<and> keeps s0 (foldl (join_step now found) s as) \<and>
     (\<forall>l \<in> set (ls_NewLinks (foldl (join_step now found) s as)). P l \<or> subject_match states s0 l)"
  using assms(2-)
proof (induction as arbitrary: s)
  case (Cons a as)
  obtain m c where f: "found = (m, c)" by (cases found)
  have acc: "ls_Accounts s = ls_Accounts s0" using Cons.prems(2) by (simp add: keeps_def)
  consider (same) "join_step now found s a = s"
    | (issue) u where "join_step now found s a = report_issue IssueAmbiguous (Some u) (xa_ExternalID a) s"
    | (adopted) u where "join_step now found s a = adopt now u (xa_ExternalID a) LinkMatched s"
        "ExternalAccount_Writable a" "xa_Subject a \<noteq> []" "map_of (ls_Owner s) (xa_ExternalID a) = None"
        "m (xa_Subject a) = Some u" "xa_Subject a \<notin> c" "map_of (ls_Linked s) u = None"
  proof -
    have "join_step now found s a = s \<or>
        (\<exists>u. join_step now found s a = report_issue IssueAmbiguous (Some u) (xa_ExternalID a) s) \<or>
        (\<exists>u. join_step now found s a = adopt now u (xa_ExternalID a) LinkMatched s \<and>
           ExternalAccount_Writable a \<and> xa_Subject a \<noteq> [] \<and> map_of (ls_Owner s) (xa_ExternalID a) = None \<and>
           m (xa_Subject a) = Some u \<and> xa_Subject a \<notin> c \<and> map_of (ls_Linked s) u = None)"
      by (cases "m (xa_Subject a)") (auto simp: join_step_def f)
    then show thesis using that by blast
  qed
  then show ?case
  proof cases
    case same
    with Cons.IH [of s] Cons.prems show ?thesis by simp
  next
    case issue
    with Cons.IH [of "join_step now found s a"] Cons.prems keeps_trans [OF Cons.prems(2)] show ?thesis by simp
  next
    case adopted
    have mem: "a \<in> set (ls_Accounts s)" using Cons.prems(3) acc by simp
    have "pass_ok L0 (join_step now found s a)"
      unfolding adopted(1)
      by (rule adopt_ok [OF Cons.prems(1) adopted(7,4) mem refl adopted(2)])
    moreover have "keeps s0 (join_step now found s a)"
      unfolding adopted(1) by (rule keeps_trans [OF Cons.prems(2)]) simp
    moreover have "(xa_Subject a, u) \<in> {(x, u). x \<noteq> [] \<and> claims states x u} \<and>
        (\<forall>v. (xa_Subject a, v) \<in> {(x, u). x \<noteq> [] \<and> claims states x u} \<longrightarrow> v = u)"
      by (rule found_okD [OF assms(1) [unfolded f] adopted(5,6)])
    then have claim: "claims states (xa_Subject a) u" "\<And>v. claims states (xa_Subject a) v \<Longrightarrow> v = u"
      using adopted(3) by simp_all
    have "subject_match states s0 l" if l: "lk_UserID l = u" "lk_ExternalID l = xa_ExternalID a" for l
      unfolding subject_match_def
    proof (intro bexI conjI allI impI)
      show "xa_ExternalID a = lk_ExternalID l" "xa_Subject a \<noteq> []" using l adopted(3) by simp_all
      show "claims states (xa_Subject a) (lk_UserID l)" using claim(1) l by simp
      show "v = lk_UserID l" if "claims states (xa_Subject a) v" for v using claim(2) [OF that] l by simp
      show "a \<in> set (ls_Accounts s0)" using Cons.prems(3) by simp
    qed
    then have "\<forall>l \<in> set (ls_NewLinks (join_step now found s a)). P l \<or> subject_match states s0 l"
      using Cons.prems(4) unfolding adopted(1) by (auto simp: adopt_def Let_def)
    ultimately show ?thesis using Cons.IH [of "join_step now found s a"] Cons.prems(3) by simp
  qed
qed simp

text \<open>The state of one provider before the join, and at the end of the pass.\<close>

definition direct :: "MapOrder \<Rightarrow> Time \<Rightarrow> User list \<Rightarrow> LinkState \<Rightarrow> LinkState" where
  "direct ord now users s = matchDirect ord now users (revalidate ord users s)"

definition justified :: "MapOrder \<Rightarrow> Time \<Rightarrow> User list \<Rightarrow> LinkState list \<Rightarrow> LinkState \<Rightarrow> AccountLink \<Rightarrow> bool" where
  "justified ord now users states s l \<longleftrightarrow>
     direct_match (ls_Key s) (free_users s users) (free_accounts (revalidate ord users s)) l \<or>
     subject_match (map (direct ord now users) states) s l"

lemma direct_ok:
  assumes "pass_ok (ls_Linked s) s" "ls_NewLinks s = []" "distinct (map u_ID users)" "order_ok ord"
  shows "pass_ok (ls_Linked s) (direct ord now users s)" "keeps s (direct ord now users s)"
    "\<And>l. l \<in> set (ls_NewLinks (direct ord now users s)) \<Longrightarrow>
       direct_match (ls_Key s) (free_users s users) (free_accounts (revalidate ord users s)) l"
proof -
  note r = revalidate_ok [OF assms(1,2,4), of users]
  then have rk: "keeps s (revalidate ord users s)" by simp
  note d = matchDirect_ok [of "ls_Linked s" "revalidate ord users s" users ord now]
  have "pass_ok (ls_Linked s) (direct ord now users s) \<and>
     keeps (revalidate ord users s) (direct ord now users s) \<and>
     (\<forall>l \<in> set (ls_NewLinks (direct ord now users s)). direct_match (ls_Key (revalidate ord users s))
        (free_users (revalidate ord users s) users) (free_accounts (revalidate ord users s)) l)"
    unfolding direct_def using r assms(3,4) by (intro d) simp_all
  moreover have "free_users (revalidate ord users s) users = free_users s users"
    using r by (simp add: free_users_def)
  ultimately show "pass_ok (ls_Linked s) (direct ord now users s)" "keeps s (direct ord now users s)"
    "\<And>l. l \<in> set (ls_NewLinks (direct ord now users s)) \<Longrightarrow>
       direct_match (ls_Key s) (free_users s users) (free_accounts (revalidate ord users s)) l"
    using keeps_trans [OF rk] keeps_ID [OF rk] by auto
qed

lemma match_all_ok:
  assumes states: "\<forall>s \<in> set states. pass_ok (ls_Linked s) s \<and> ls_NewLinks s = []"
    and "distinct (map u_ID users)" "order_ok ord"
  shows "\<exists>final. match_all ord now users states = map final states \<and>
     (\<forall>s \<in> set states. pass_ok (ls_Linked s) (final s) \<and> keeps s (final s) \<and>
        (\<forall>l \<in> set (ls_NewLinks (final s)). justified ord now users states s l))"
proof -
  let ?d = "direct ord now users"
  let ?found = "subjects ord (map ?d states)"
  let ?final = "\<lambda>s. foldl (join_step now ?found) (?d s) (ls_Accounts (?d s))"
  have ok: "pass_ok (ls_Linked s) (?d s) \<and> keeps s (?d s) \<and>
      (\<forall>l \<in> set (ls_NewLinks (?d s)).
         direct_match (ls_Key s) (free_users s users) (free_accounts (revalidate ord users s)) l)"
    if "s \<in> set states" for s
    using direct_ok [where s = s and users = users and ord = ord and now = now] states that assms(2,3) by blast
  have found: "found_ok {(x, u). x \<noteq> [] \<and> claims (map ?d states) x u} ?found"
    using ok by (intro subjects_found [OF assms(3)]) (auto simp: pass_ok_def)
  have "pass_ok (ls_Linked s) (?final s) \<and> keeps s (?final s) \<and>
     (\<forall>l \<in> set (ls_NewLinks (?final s)). direct_match (ls_Key s) (free_users s users)
          (free_accounts (revalidate ord users s)) l \<or> subject_match (map ?d states) s l)"
    if "s \<in> set states" for s
    by (rule join_fold_ok [OF found]) (use ok [OF that] in \<open>auto simp: keeps_def\<close>)
  moreover have "match_all ord now users states = map ?final states"
    by (simp add: match_all_def matchBySubject_def direct_def [abs_def] Let_def comp_def)
  ultimately show ?thesis unfolding justified_def by blast
qed

section \<open>What the pass leaves in the store\<close>

text \<open>
  The links of a database after some writes: those there were, as they were, and new ones that
  satisfy \<open>P\<close>. Besides the links only observed accounts and issues change.
\<close>

definition grew :: "(AccountLink \<Rightarrow> bool) \<Rightarrow> Database \<Rightarrow> Database \<Rightarrow> bool" where
  "grew P db db' \<longleftrightarrow>
     set (d_Links db) \<subseteq> set (d_Links db') \<and> (\<forall>l \<in> set (d_Links db') - set (d_Links db). P l) \<and>
     (\<exists>links accounts issues. db' = db\<lparr>d_Links := links, d_Accounts := accounts, d_Issues := issues\<rparr>) \<and>
     (links_ok db \<longrightarrow> links_ok db')"

lemma grew_refl [simp]: "grew P db db"
  by (simp add: grew_def) (metis Database.surjective Database.update_convs(5,6,7))

lemma grew_trans: "grew P a b \<Longrightarrow> grew P b c \<Longrightarrow> grew P a c"
  unfolding grew_def by (intro conjI) (blast, blast, fastforce, blast)

lemma grew_mono: "grew P a b \<Longrightarrow> (\<And>l. P l \<Longrightarrow> Q l) \<Longrightarrow> grew Q a b"
  by (auto simp: grew_def)

lemma grew_same_links: "grew P db (db\<lparr>d_Accounts := x\<rparr>)" "grew P db (db\<lparr>d_Issues := y\<rparr>)"
proof -
  have "db\<lparr>d_Accounts := x\<rparr> = db\<lparr>d_Links := d_Links db, d_Accounts := x, d_Issues := d_Issues db\<rparr>"
    "db\<lparr>d_Issues := y\<rparr> = db\<lparr>d_Links := d_Links db, d_Accounts := d_Accounts db, d_Issues := y\<rparr>" by simp_all
  then show "grew P db (db\<lparr>d_Accounts := x\<rparr>)" "grew P db (db\<lparr>d_Issues := y\<rparr>)"
    unfolding grew_def links_ok_def by (simp, metis)+
qed

lemma each_frame:
  assumes "\<And>x db db'. x \<in> set xs \<Longrightarrow> f x db = Inr db' \<Longrightarrow> grew P db db'"
  shows "grew P db (fst (each f xs db))"
  using assms
proof (induction xs arbitrary: db)
  case (Cons x xs)
  show ?case
  proof (cases "f x db")
    case (Inr db1)
    have "grew P db1 (fst (each f xs db1))"
    proof (rule Cons.IH)
      fix y a b assume "y \<in> set xs" "f y a = Inr b"
      then show "grew P a b" using Cons.prems [of y a b] by simp
    qed
    with Cons.prems [OF _ Inr] Inr show ?thesis by (auto intro: grew_trans)
  qed simp
qed simp

text \<open>Links of people who have none on the provider.\<close>

definition unlinked :: "Database \<Rightarrow> RowID \<Rightarrow> RowID \<Rightarrow> bool" where
  "unlinked db u p \<longleftrightarrow> tbl_find link_key (u, p) (d_Links db) = None"

lemma UpsertLink_grew:
  assumes up: "UpsertLink now l db = Inr db'" and free: "unlinked db (lk_UserID l) (lk_ProviderID l)"
    and P: "\<And>t. P (l\<lparr>lk_LinkedAt := t\<rparr>)"
  shows "grew P db db' \<and> (\<forall>u p. unlinked db u p \<and> (u, p) \<noteq> link_key l \<longrightarrow> unlinked db' u p)"
proof -
  define l' where "l' = (if lk_LinkedAt l = 0 then l\<lparr>lk_LinkedAt := now\<rparr> else l)"
  have key: "link_key l' = link_key l" by (simp add: l'_def link_key_def)
  have db': "db' = db\<lparr>d_Links := tbl_put link_key l' (d_Links db)\<rparr>"
    using up by (auto simp: UpsertLink_def l'_def Let_def split: if_splits)
  have none: "\<forall>r \<in> set (d_Links db). link_key r \<noteq> link_key l'"
    using free key by (auto simp: unlinked_def tbl_find_None link_key_def image_iff)
  have "tbl_put link_key l' rows = rows @ [l']" if "\<forall>r \<in> set rows. link_key r \<noteq> link_key l'" for rows
    using that by (induction rows) auto
  with none have app: "tbl_put link_key l' (d_Links db) = d_Links db @ [l']" by blast
  have "P l'" using P [of now] P [of "lk_LinkedAt l"] by (simp add: l'_def)
  moreover have "links_ok db \<longrightarrow> links_ok db'" using UpsertLink_ok [OF up] by simp
  moreover have "\<exists>links accounts issues. db' = db\<lparr>d_Links := links, d_Accounts := accounts, d_Issues := issues\<rparr>"
    by (intro exI [of _ "d_Links db @ [l']"] exI [of _ "d_Accounts db"] exI [of _ "d_Issues db"]) (simp add: db' app)
  moreover have "set (d_Links db') = insert l' (set (d_Links db))" by (simp add: db' app)
  ultimately have "grew P db db'"
    unfolding grew_def by (intro conjI) (simp_all, blast+)
  moreover have "unlinked db' u p" if "unlinked db u p" "(u, p) \<noteq> link_key l" for u p
    using that by (auto simp: unlinked_def db' tbl_find_put key)
  ultimately show ?thesis by blast
qed

lemma each_UpsertLink:
  assumes "\<forall>l \<in> set ls. unlinked db (lk_UserID l) p \<and> lk_ProviderID l = p" "distinct (map lk_UserID ls)"
    and "\<And>l t. l \<in> set ls \<Longrightarrow> P (l\<lparr>lk_LinkedAt := t\<rparr>)"
  shows "grew P db (fst (each (UpsertLink now) ls db)) \<and>
     (\<forall>u q. unlinked db u q \<and> q \<noteq> p \<longrightarrow> unlinked (fst (each (UpsertLink now) ls db)) u q)"
  using assms
proof (induction ls arbitrary: db)
  case (Cons l ls)
  show ?case
  proof (cases "UpsertLink now l db")
    case (Inr db1)
    have st: "grew P db db1 \<and> (\<forall>u q. unlinked db u q \<and> (u, q) \<noteq> link_key l \<longrightarrow> unlinked db1 u q)"
      by (rule UpsertLink_grew [OF Inr]) (use Cons.prems in auto)
    have "\<forall>k \<in> set ls. unlinked db1 (lk_UserID k) p \<and> lk_ProviderID k = p"
    proof
      fix k assume k: "k \<in> set ls"
      then have "(lk_UserID k, p) \<noteq> link_key l"
        using Cons.prems(2) imageI [OF k, of lk_UserID] by (metis distinct.simps(2) link_key_def list.simps(9) prod.inject set_map)
      with st k Cons.prems(1) show "unlinked db1 (lk_UserID k) p \<and> lk_ProviderID k = p" by simp
    qed
    from Cons.IH [OF this] Cons.prems(2,3)
    have rest: "grew P db1 (fst (each (UpsertLink now) ls db1)) \<and>
        (\<forall>u q. unlinked db1 u q \<and> q \<noteq> p \<longrightarrow> unlinked (fst (each (UpsertLink now) ls db1)) u q)"
      by simp
    have "lk_ProviderID l = p" using Cons.prems(1) by simp
    then have "\<forall>u q. unlinked db u q \<and> q \<noteq> p \<longrightarrow> unlinked db1 u q" using st by (auto simp: link_key_def)
    with rest st show ?thesis by (auto simp: Inr intro: grew_trans)
  qed simp
qed simp

lemma persist_grew:
  assumes "\<forall>l \<in> set (ls_NewLinks s). unlinked db (lk_UserID l) (ls_ID s) \<and> lk_ProviderID l = ls_ID s"
    and "distinct (map lk_UserID (ls_NewLinks s))"
    and "\<And>l t. l \<in> set (ls_NewLinks s) \<Longrightarrow> P (l\<lparr>lk_LinkedAt := t\<rparr>)"
  shows "grew P db (fst (persist now s db)) \<and>
     (\<forall>u q. unlinked db u q \<and> q \<noteq> ls_ID s \<longrightarrow> unlinked (fst (persist now s db)) u q)"
proof -
  obtain db1 e1 where one: "each (UpsertLink now) (ls_NewLinks s) db = (db1, e1)" by force
  have up: "grew P db db1 \<and> (\<forall>u q. unlinked db u q \<and> q \<noteq> ls_ID s \<longrightarrow> unlinked db1 u q)"
    using each_UpsertLink [of "ls_NewLinks s" db "ls_ID s" P now] assms by (simp add: one)
  define own where "own = (\<lambda>a :: ExternalAccount. SetAccountOwner (ls_ID s) (xa_ExternalID a) (map_of (ls_Owner s) (xa_ExternalID a)))"
  obtain db2 e2 where two: "each own (ls_Accounts s) db1 = (db2, e2)" by force
  have accounts: "\<exists>x. db' = db\<lparr>d_Accounts := x\<rparr>" if "own a db = Inr db'" for a db db'
    using that by (auto simp: own_def SetAccountOwner_def split: if_splits)
  have "grew P' db1 db2" for P'
    using each_frame [of "ls_Accounts s" own P' db1] two accounts grew_same_links(1) by fastforce
  note g2 = this
  have l2: "d_Links db2 = d_Links db1"
  proof -
    have "d_Links (fst (each own as db)) = d_Links db" for as db
    proof (induction as arbitrary: db)
      case (Cons a as)
      then show ?case using accounts [of a db] by (cases "own a db") auto
    qed simp
    from this [of "ls_Accounts s" db1] two show ?thesis by simp
  qed
  have three: "ReplaceLinkIssues (ls_ID s) (ls_Issues s) db2 = Inr db3 \<Longrightarrow> \<exists>y. db3 = db2\<lparr>d_Issues := y\<rparr>" for db3
    by (auto simp: ReplaceLinkIssues_def Let_def split: if_splits)
  have "grew P db (fst (persist now s db)) \<and>
      (d_Links (fst (persist now s db)) = d_Links db1)"
    using up g2 [of P] l2 three
    by (auto simp: persist_def one two own_def [symmetric] split: option.splits sum.splits
        intro: grew_trans grew_trans [OF grew_trans grew_same_links(2)])
  with up show ?thesis by (simp add: unlinked_def)
qed

text \<open>The whole sequence of providers: each is written against its own rows only.\<close>

lemma collectIssues_keeps:
  "ls_NewLinks (collectIssues users s) = ls_NewLinks s \<and> ls_ID (collectIssues users s) = ls_ID s"
proof -
  have "ls_NewLinks (foldl collect_user s us) = ls_NewLinks s \<and> ls_ID (foldl collect_user s us) = ls_ID s" for us s
    by (induction us arbitrary: s) (simp_all add: collect_user_def)
  moreover have "ls_NewLinks (foldl collect_account s as) = ls_NewLinks s \<and>
      ls_ID (foldl collect_account s as) = ls_ID s" for as s
    by (induction as arbitrary: s) (simp_all add: collect_account_def)
  ultimately show ?thesis by (simp add: collectIssues_def)
qed

lemma persist_all_grew:
  assumes "distinct (map ls_ID ss)"
    and "\<forall>s \<in> set ss. distinct (map lk_UserID (ls_NewLinks s)) \<and>
      (\<forall>l \<in> set (ls_NewLinks s). unlinked db (lk_UserID l) (ls_ID s) \<and> lk_ProviderID l = ls_ID s)"
    and "\<forall>s \<in> set ss. \<forall>l \<in> set (ls_NewLinks s). \<forall>t. P (l\<lparr>lk_LinkedAt := t\<rparr>)"
  shows "grew P db (fst (fst (persist_all now users ss results db)))"
  using assms
proof (induction ss arbitrary: db results)
  case (Cons s ss)
  let ?s = "collectIssues users s"
  note k = collectIssues_keeps [of users s]
  obtain db1 e where one: "persist now ?s db = (db1, e)" by force
  have st: "grew P db db1 \<and> (\<forall>u q. unlinked db u q \<and> q \<noteq> ls_ID s \<longrightarrow> unlinked db1 u q)"
    using persist_grew [of ?s db P now] Cons.prems k by (simp add: one)
  have "\<forall>r \<in> set ss. distinct (map lk_UserID (ls_NewLinks r)) \<and>
      (\<forall>l \<in> set (ls_NewLinks r). unlinked db1 (lk_UserID l) (ls_ID r) \<and> lk_ProviderID l = ls_ID r)"
  proof (intro ballI conjI)
    fix r assume r: "r \<in> set ss"
    then have "ls_ID r \<noteq> ls_ID s" using Cons.prems(1) by (metis distinct.simps(2) image_eqI list.simps(9) set_map)
    then show "unlinked db1 (lk_UserID l) (ls_ID r)" if "l \<in> set (ls_NewLinks r)" for l
      using st Cons.prems(2) r that by simp
    show "lk_ProviderID l = ls_ID r" if "l \<in> set (ls_NewLinks r)" for l using Cons.prems(2) r that by simp
    show "distinct (map lk_UserID (ls_NewLinks r))" using Cons.prems(2) r by simp
  qed
  with Cons.IH [of db1 "count_result ?s results"] Cons.prems(1,3)
  have "grew P db1 (fst (fst (persist_all now users ss (count_result ?s results) db1)))" by simp
  with st show ?case by (cases e) (auto simp: one Let_def intro: grew_trans)
qed simp

lemma decode_rows_keys:
  "decode_rows f rs = Inr xs \<Longrightarrow> (\<And>r x. f r = Inr x \<Longrightarrow> g x = h r) \<Longrightarrow> map g xs = map h rs"
proof (induction rs arbitrary: xs)
  case (Cons r rs)
  from Cons.prems(1) obtain y ys where "f r = Inr y" "decode_rows f rs = Inr ys" "xs = y # ys"
    by (cases "f r"; cases "decode_rows f rs") simp_all
  with Cons.IH [of ys] Cons.prems(2) show ?case by simp
qed simp

lemma loadStates_ok:
  assumes "loadStates is results existing db = Inr states" "accounts_ok db"
  shows "\<forall>s \<in> set states. pass_ok (ls_Linked s) s \<and> ls_NewLinks s = [] \<and>
       (\<forall>u. map_of (ls_Linked s) u = None \<longrightarrow>
          (\<forall>l \<in> set existing. lk_ProviderID l = ls_ID s \<longrightarrow> lk_UserID l \<noteq> u)) \<and>
       (\<forall>u l. map_of (ls_Linked s) u = Some l \<longrightarrow> l \<in> set existing \<and> lk_UserID l = u \<and> lk_ProviderID l = ls_ID s)"
    and "\<exists>is'. subseq is' is \<and> map ls_ID states = map in_ID is'"
  using assms(1)
proof (induction "is" arbitrary: states)
  case Nil
  { case 1 then show ?case using Nil by simp next case 2 then show ?case using Nil by simp }
next
  case (Cons i "is")
  have cases: "loadStates is results existing db = Inr states \<or>
     (\<exists>k accounts rest. ListExternalAccounts (in_ID i) db = Inr accounts \<and>
        loadStates is results existing db = Inr rest \<and>
        states = new_state (in_Row i) k accounts existing # rest)"
    if "loadStates (i # is) results existing db = Inr states" for states
    using that by (auto simp: bind_result_def split: option.splits if_splits sum.splits)
  have dist: "distinct (map xa_ExternalID accounts)" if "ListExternalAccounts (in_ID i) db = Inr accounts" for accounts
  proof -
    let ?rows = "sort_key ar_ExternalID (filter (\<lambda>r. ar_ProviderID r = in_ID i) (d_Accounts db))"
    have "xa_ExternalID x = ar_ExternalID r" if "decode_account r = Inr x" for r x
      using that by (auto simp: decode_account_def split: sum.splits)
    then have "map xa_ExternalID accounts = map ar_ExternalID ?rows"
      using that unfolding ListExternalAccounts_def by (rule decode_rows_keys [rotated])
    moreover have "distinct (map ar_ExternalID ?rows)"
      using assms(2) sorted_key_ids [of "d_Accounts db" "in_ID i"] by (simp add: accounts_ok_def)
    ultimately show ?thesis by simp
  qed
  { case 1
    from cases [OF 1] show ?case
    proof (elim disjE exE conjE)
      assume "loadStates is results existing db = Inr states"
      then show ?thesis by (rule Cons(1))
    next
      fix k accounts rest
      assume a: "ListExternalAccounts (in_ID i) db = Inr accounts" "loadStates is results existing db = Inr rest"
        "states = new_state (in_Row i) k accounts existing # rest"
      note n = new_state_ok [OF dist [OF a(1)], where row = "in_Row i" and k = k and existing = existing]
      let ?s = "new_state (in_Row i) k accounts existing"
      have "\<forall>u. map_of (ls_Linked ?s) u = None \<longrightarrow>
          (\<forall>l \<in> set existing. lk_ProviderID l = ls_ID ?s \<longrightarrow> lk_UserID l \<noteq> u)"
        using n(6) by blast
      with n(5) show ?thesis unfolding a(3) using Cons(1) [OF a(2)] n(1,2) by simp
    qed
  next
    case 2
    from cases [OF 2] show ?case
    proof (elim disjE exE conjE)
      assume "loadStates is results existing db = Inr states"
      from Cons(2) [OF this] show ?thesis by blast
    next
      fix k accounts rest
      assume a: "ListExternalAccounts (in_ID i) db = Inr accounts" "loadStates is results existing db = Inr rest"
        "states = new_state (in_Row i) k accounts existing # rest"
      obtain is' where "subseq is' is" "map ls_ID rest = map in_ID is'" using Cons(2) [OF a(2)] by blast
      moreover have "ls_ID (new_state (in_Row i) k accounts existing) = in_ID i"
        by (simp add: new_state_def ls_ID_def in_ID_def)
      ultimately show ?thesis unfolding a(3) by (intro exI [of _ "i # is'"]) simp
    qed
  }
qed

lemma ListUsers_IDs: "mset (map u_ID (ListUsers db)) = mset (map u_ID (d_Users db))"
proof -
  have "map u_ID (ListUsers db) = map u_ID (sort_key u_SourceUUID (d_Users db))"
    by (simp add: ListUsers_def)
  then show ?thesis by simp
qed

lemma active_users_distinct:
  assumes "distinct (map u_ID (d_Users db))"
  shows "distinct (map u_ID (active_users db))"
proof -
  have "distinct (map u_ID (ListUsers db))" using assms mset_eq_imp_distinct_iff [OF ListUsers_IDs] by blast
  then show ?thesis unfolding active_users_def by (rule distinct_map_filter)
qed

text \<open>
  A pass adds links and changes none. Each added link was justified by a direct match or by
  the subject join, whether or not every statement of the pass succeeded.
\<close>

lemma link_grew:
  assumes ok: "links_ok db" "accounts_ok db" "distinct (map u_ID (d_Users db))"
    and inst: "distinct (map in_ID instances)" and ord: "order_ok ord"
    and run: "link ord now instances results db = ((db', results'), err)"
  defines "why \<equiv> \<lambda>l. \<exists>states. \<exists>s \<in> set states.
      loadStates instances results (ListLinks db) db = Inr states \<and> lk_ProviderID l = ls_ID s \<and>
      justified ord now (active_users db) states s l"
  shows "grew why db db'"
proof (cases "loadStates instances results (ListLinks db) db")
  case (Inl e)
  with run show ?thesis by (simp add: link_def)
next
  case (Inr states)
  let ?users = "active_users db"
  note load = loadStates_ok [OF Inr ok(2)]
  have st: "\<forall>s \<in> set states. pass_ok (ls_Linked s) s \<and> ls_NewLinks s = []" using load(1) by blast
  obtain final where final: "match_all ord now ?users states = map final states"
    and fin: "\<forall>s \<in> set states. pass_ok (ls_Linked s) (final s) \<and> keeps s (final s) \<and>
        (\<forall>l \<in> set (ls_NewLinks (final s)). justified ord now ?users states s l)"
    using match_all_ok [OF st active_users_distinct [OF ok(3)] ord, of now] by blast
  have id: "ls_ID (final s) = ls_ID s" if "s \<in> set states" for s
    using fin that keeps_ID by blast
  have ids: "distinct (map ls_ID (map final states))"
  proof -
    obtain is' where "subseq is' instances" "map ls_ID states = map in_ID is'" using load(2) by blast
    then have "distinct (map ls_ID states)" using inst by (metis subseq_map subseq_conv_nths distinct_nthsI)
    then show ?thesis using id by (simp add: distinct_map inj_on_def)
  qed
  have "unlinked db (lk_UserID l) (ls_ID (final s)) \<and> lk_ProviderID l = ls_ID (final s)"
    if s: "s \<in> set states" and l: "l \<in> set (ls_NewLinks (final s))" for s l
  proof -
    have n: "map_of (ls_Linked s) (lk_UserID l) = None" "lk_ProviderID l = ls_ID (final s)"
      using fin s l unfolding pass_ok_def new_ok_def by blast+
    have "\<forall>k \<in> set (ListLinks db). lk_ProviderID k = ls_ID s \<longrightarrow> lk_UserID k \<noteq> lk_UserID l"
      using load(1) s n(1) by blast
    then show ?thesis using n(2) id [OF s]
      by (auto simp: unlinked_def tbl_find_None ListLinks_def link_key_def)
  qed
  moreover have "distinct (map lk_UserID (ls_NewLinks (final s)))" if "s \<in> set states" for s
    using fin that unfolding pass_ok_def new_ok_def by blast
  moreover have "why (l\<lparr>lk_LinkedAt := t\<rparr>)"
    if s: "s \<in> set states" and l: "l \<in> set (ls_NewLinks (final s))" for s l t
  proof -
    have "lk_ProviderID l = ls_ID s" using fin s l id [OF s] unfolding pass_ok_def new_ok_def by simp
    moreover have "justified ord now ?users states s (l\<lparr>lk_LinkedAt := t\<rparr>)"
      using fin s l by (simp add: justified_def direct_match_def subject_match_def)
    ultimately show ?thesis using Inr s unfolding why_def by auto
  qed
  ultimately have "grew why db (fst (fst (persist_all now ?users (map final states) results db)))"
    by (intro persist_all_grew [OF ids]) auto
  moreover have "db' = fst (fst (persist_all now ?users (map final states) results db))"
    using run by (simp add: link_def Inr final)
  ultimately show ?thesis by simp
qed

end
