(* ===== verification/PlanEngine.thy ===== *)
theory PlanEngine
  imports Link
begin

text \<open>
  \<open>internal/reconcile/plan.go\<close>: the plan over every linked account of an active person, and
  adoption, which imports the ceilings that are there as overrides.
\<close>

section \<open>Filters\<close>

record PlanFilter =
  pf_UID :: string
  pf_Provider :: string

definition filter_empty :: "PlanFilter \<Rightarrow> bool" where
  "filter_empty f \<longleftrightarrow> pf_UID f = [] \<and> pf_Provider f = []"

definition admits :: "PlanFilter \<Rightarrow> string \<Rightarrow> string \<Rightarrow> bool" where
  "admits f uid provider \<longleftrightarrow>
     (if filter_empty f then True
      else if pf_UID f \<noteq> [] \<and> \<not> EqualFold (pf_UID f) uid then False
      else if pf_Provider f \<noteq> [] \<and> \<not> EqualFold (pf_Provider f) provider then False
      else True)"

section \<open>The plan\<close>

record PlanResult =
  px_Plan :: Plan
  px_Considered :: nat
  px_Degraded :: "string list"
  px_Resolutions :: "string \<rightharpoonup> Resolution"

definition by_provider :: "'w Instance list \<Rightarrow> RowID \<rightharpoonup> 'w Instance" where
  "by_provider instances = foldl (\<lambda>m i. m(in_ID i \<mapsto> i)) Map.empty instances"

fun load_accounts ::
  "'w Instance list \<Rightarrow> Database \<Rightarrow> (RowID \<rightharpoonup> (string \<rightharpoonup> ExternalAccount)) \<Rightarrow>
   store_error + (RowID \<rightharpoonup> (string \<rightharpoonup> ExternalAccount))" where
  "load_accounts [] db m = Inr m"
| "load_accounts (i # is) db m =
     (case ListExternalAccounts (in_ID i) db of
        Inl e \<Rightarrow> Inl e
      | Inr stored \<Rightarrow>
          load_accounts is db (m(in_ID i \<mapsto> foldl (\<lambda>b a. b(xa_ExternalID a \<mapsto> a)) Map.empty stored)))"

text \<open>The running state of the loop over the links: the policies read so far, and what was found.\<close>

record PlanState =
  ps_Policies :: "RowID \<rightharpoonup> UserPolicy"
  ps_Resolutions :: "string \<rightharpoonup> Resolution"
  ps_Considered :: nat
  ps_Accounts :: "PlanAccount list"

definition resolution_key :: "string \<Rightarrow> string \<Rightarrow> string" where
  "resolution_key uid provider = uid @ ''/'' @ provider"

definition plan_account :: "'w Instance \<Rightarrow> User \<Rightarrow> AccountLink \<Rightarrow> ExternalAccount \<Rightarrow> Resolution \<Rightarrow> PlanAccount" where
  "plan_account i user l account resolution =
     \<lparr>pa_User = user, pa_ProviderID = lk_ProviderID l, pa_Provider = in_Name i,
      pa_ExternalID = lk_ExternalID l,
      pa_Desired = (if r_Present resolution then ad_NormalizeQuota (in_Provider i) (r_Ceiling resolution)
                    else Unknown),
      pa_Present = r_Present resolution, pa_Observed = xa_Quota account, pa_Used = xa_Used account,
      pa_NeverUsed = xa_NeverUsed account, pa_ObserveOK = xa_ObserveOK account,
      pa_Rule = r_Rule resolution, pa_TierName = r_TierName resolution\<rparr>"

definition plan_pair ::
  "(RowID \<rightharpoonup> 'w Instance) \<Rightarrow> (RowID \<rightharpoonup> User) \<Rightarrow> PlanFilter \<Rightarrow> (RowID \<rightharpoonup> (string \<rightharpoonup> ExternalAccount)) \<Rightarrow>
   AccountLink \<Rightarrow> ('w Instance \<times> User \<times> ExternalAccount) option" where
  "plan_pair byProvider usersByID f accounts l =
     (case byProvider (lk_ProviderID l) of None \<Rightarrow> None
      | Some i \<Rightarrow>
      (case usersByID (lk_UserID l) of None \<Rightarrow> None
       | Some user \<Rightarrow>
          if u_Status user \<noteq> UserActive then None
          else if \<not> admits f (u_UID user) (in_Name i) then None
          else case accounts (lk_ProviderID l) of None \<Rightarrow> None
          | Some stored \<Rightarrow>
              (case stored (lk_ExternalID l) of None \<Rightarrow> None
               | Some account \<Rightarrow> Some (i, user, account))))"

fun plan_loop ::
  "(AccountLink \<Rightarrow> ('w Instance \<times> User \<times> ExternalAccount) option) \<Rightarrow> Policy \<Rightarrow> Database \<Rightarrow>
   AccountLink list \<Rightarrow> PlanState \<Rightarrow> store_error + PlanState" where
  "plan_loop pair policy db [] s = Inr s"
| "plan_loop pair policy db (l # ls) s =
     (case pair l of
        None \<Rightarrow> plan_loop pair policy db ls s
      | Some (i, user, account) \<Rightarrow>
          (case (case ps_Policies s (u_ID user) of
                   Some up \<Rightarrow> Inr up | None \<Rightarrow> UserPolicy_of (u_ID user) db) of
             Inl e \<Rightarrow> Inl e
           | Inr up \<Rightarrow>
               let resolution = Resolve user (lk_ProviderID l) policy up in
               plan_loop pair policy db ls
                 \<lparr>ps_Policies = (ps_Policies s)(u_ID user \<mapsto> up),
                  ps_Resolutions = (ps_Resolutions s)(resolution_key (u_UID user) (in_Name i) \<mapsto> resolution),
                  ps_Considered = ps_Considered s + 1,
                  ps_Accounts = ps_Accounts s @ [plan_account i user l account resolution]\<rparr>))"

definition EnginePlan :: "'w Instance list \<Rightarrow> PlanFilter \<Rightarrow> Database \<Rightarrow> store_error + PlanResult" where
  "EnginePlan instances f db =
     bind_result (LoadPolicy db) (\<lambda>policy.
     bind_result (load_accounts instances db Map.empty) (\<lambda>accounts.
     bind_result (plan_loop (plan_pair (by_provider instances) (users_by_id (ListUsers db)) f accounts)
         policy db (ListLinks db)
         \<lparr>ps_Policies = Map.empty, ps_Resolutions = Map.empty, ps_Considered = 0, ps_Accounts = []\<rparr>) (\<lambda>s.
       Inr \<lparr>px_Plan = BuildPlan (ps_Accounts s), px_Considered = ps_Considered s,
            px_Degraded = map in_Name (filter (\<lambda>i. Degraded (in_Row i)) instances),
            px_Resolutions = ps_Resolutions s\<rparr>)))"

section \<open>Saving a plan\<close>

definition class_count :: "Plan \<Rightarrow> ChangeClass \<Rightarrow> nat" where
  "class_count p c = (case CountByClass p c of None \<Rightarrow> 0 | Some n \<Rightarrow> n)"

definition plan_summary :: "PlanResult \<Rightarrow> string" where
  "plan_summary r =
     show_nat (length (pl_Changes (px_Plan r))) @ '' changes ('' @
     show_nat (class_count (px_Plan r) ClassSafe) @ '' safe, '' @
     show_nat (class_count (px_Plan r) ClassShrinkBelowUsage) @ '' guarded, '' @
     show_nat (class_count (px_Plan r) ClassUnknownState) @ '' unknown state) over '' @
     show_nat (px_Considered r) @ '' linked accounts''"

text \<open>\<open>body\<close> is the plan as JSON; only that it is stored as it is matters here.\<close>

definition SavePlan ::
  "Time \<Rightarrow> RunMode \<Rightarrow> string \<Rightarrow> bool \<Rightarrow> PlanResult \<Rightarrow> string \<Rightarrow> Database \<Rightarrow>
   Database \<times> RowID \<times> store_error option" where
  "SavePlan now mode actor consentShrink result body db =
     (case StartRun mode actor consentShrink now db of
        (db, runID) \<Rightarrow>
          (case SavePlanBody runID body now db of
             Inl e \<Rightarrow> (db, runID, Some e)
           | Inr db \<Rightarrow>
               let status = (if pl_Changes (px_Plan result) = [] then ''clean'' else ''pending'') in
               (FinishRun runID status (plan_summary result) now db, runID, None)))"

section \<open>Adoption\<close>

text \<open>\<open>account\<close> is the last stored account with the identifier of the link.\<close>

definition last_account :: "string \<Rightarrow> ExternalAccount list \<Rightarrow> ExternalAccount option" where
  "last_account externalID accounts = find (\<lambda>a. xa_ExternalID a = externalID) (rev accounts)"

definition skipped_text :: "string \<Rightarrow> string \<Rightarrow> string" where
  "skipped_text uid provider = uid @ '' on '' @ provider @ '': the provider did not report a ceiling to adopt''"

fun Adopt_loop ::
  "(RowID \<rightharpoonup> 'w Instance) \<Rightarrow> (RowID \<rightharpoonup> User) \<Rightarrow> PlanFilter \<Rightarrow> AccountLink list \<Rightarrow> nat \<Rightarrow> string list \<Rightarrow> Database \<Rightarrow>
   (nat \<times> string list \<times> store_error option) \<times> Database" where
  "Adopt_loop byProvider usersByID f [] adopted skipped db = ((adopted, skipped, None), db)"
| "Adopt_loop byProvider usersByID f (l # ls) adopted skipped db =
     (case (byProvider (lk_ProviderID l), usersByID (lk_UserID l)) of
        (Some i, Some user) \<Rightarrow>
          if u_Status user \<noteq> UserActive \<or> \<not> admits f (u_UID user) (in_Name i)
          then Adopt_loop byProvider usersByID f ls adopted skipped db
          else (case ListExternalAccounts (lk_ProviderID l) db of
            Inl e \<Rightarrow> ((adopted, skipped, Some e), db)
          | Inr accounts \<Rightarrow>
              (case last_account (lk_ExternalID l) accounts of
                 None \<Rightarrow> Adopt_loop byProvider usersByID f ls adopted skipped db
               | Some account \<Rightarrow>
                   if \<not> Quota_IsKnown (xa_Quota account)
                   then Adopt_loop byProvider usersByID f ls adopted
                          (skipped @ [skipped_text (u_UID user) (in_Name i)]) db
                   else (case SetProviderOverride (u_ID user) (lk_ProviderID l) (xa_Quota account) OverrideAdopted db of
                      Inl e \<Rightarrow> ((adopted, skipped, Some e), db)
                    | Inr db \<Rightarrow> Adopt_loop byProvider usersByID f ls (adopted + 1) skipped db)))
      | _ \<Rightarrow> Adopt_loop byProvider usersByID f ls adopted skipped db)"

definition Adopt ::
  "'w Instance list \<Rightarrow> PlanFilter \<Rightarrow> Database \<Rightarrow> (nat \<times> string list \<times> store_error option) \<times> Database" where
  "Adopt instances f db =
     Adopt_loop (by_provider instances) (users_by_id (ListUsers db)) f (ListLinks db) 0 [] db"

section \<open>Where a plan comes from\<close>

text \<open>
  The pairs a plan is about: the links whose provider is configured, whose person is active,
  whose account is stored, and which the filter admits, each resolved with that person's
  policy.
\<close>

definition considered ::
  "(AccountLink \<Rightarrow> ('w Instance \<times> User \<times> ExternalAccount) option) \<Rightarrow> Policy \<Rightarrow> Database \<Rightarrow> AccountLink \<Rightarrow>
   PlanAccount option" where
  "considered pair policy db l =
     (case pair l of None \<Rightarrow> None
      | Some (i, user, account) \<Rightarrow>
          (case UserPolicy_of (u_ID user) db of Inl _ \<Rightarrow> None
           | Inr up \<Rightarrow> Some (plan_account i user l account (Resolve user (lk_ProviderID l) policy up))))"

lemma plan_loop_eq:
  assumes "plan_loop pair policy db ls s = Inr s'"
    and "\<forall>u up. ps_Policies s u = Some up \<longrightarrow> UserPolicy_of u db = Inr up"
  shows "ps_Accounts s' = ps_Accounts s @ List.map_filter (considered pair policy db) ls \<and>
     ps_Considered s' = ps_Considered s + length (List.map_filter (considered pair policy db) ls) \<and>
     (\<forall>l \<in> set ls. \<forall>i user account. pair l = Some (i, user, account) \<longrightarrow>
        (\<exists>up. UserPolicy_of (u_ID user) db = Inr up))"
  using assms
proof (induction ls arbitrary: s)
  case (Cons l ls)
  show ?case
  proof (cases "pair l")
    case None
    with Cons show ?thesis by (simp add: List.map_filter_simps considered_def)
  next
    case (Some p)
    obtain i user account where p: "p = (i, user, account)" by (cases p)
    let ?read = "case ps_Policies s (u_ID user) of Some up \<Rightarrow> Inr up | None \<Rightarrow> UserPolicy_of (u_ID user) db"
    have same: "?read = UserPolicy_of (u_ID user) db"
      using Cons.prems(2) by (auto split: option.split)
    from Cons.prems(1) obtain up where up: "UserPolicy_of (u_ID user) db = Inr up"
      by (auto simp: Some p same split: sum.splits)
    define s1 where "s1 = \<lparr>ps_Policies = (ps_Policies s)(u_ID user \<mapsto> up),
        ps_Resolutions = (ps_Resolutions s)(resolution_key (u_UID user) (in_Name i) \<mapsto>
          Resolve user (lk_ProviderID l) policy up),
        ps_Considered = ps_Considered s + 1,
        ps_Accounts = ps_Accounts s @ [plan_account i user l account (Resolve user (lk_ProviderID l) policy up)]\<rparr>"
    have run: "plan_loop pair policy db ls s1 = Inr s'"
      using Cons.prems(1) by (simp add: Some p same up Let_def s1_def)
    have pol: "\<forall>u up. ps_Policies s1 u = Some up \<longrightarrow> UserPolicy_of u db = Inr up"
      using Cons.prems(2) up by (simp add: s1_def)
    from Cons.IH [OF run pol] show ?thesis
      by (simp add: List.map_filter_simps considered_def Some p up s1_def)
  qed
qed (simp add: List.map_filter_simps)

lemma EnginePlan_eq:
  assumes "EnginePlan instances f db = Inr result"
  obtains policy accounts where "LoadPolicy db = Inr policy" "load_accounts instances db Map.empty = Inr accounts"
    and "px_Plan result = BuildPlan (List.map_filter (considered
           (plan_pair (by_provider instances) (users_by_id (ListUsers db)) f accounts) policy db) (ListLinks db))"
    and "px_Considered result = length (List.map_filter (considered
           (plan_pair (by_provider instances) (users_by_id (ListUsers db)) f accounts) policy db) (ListLinks db))"
proof -
  from assms obtain policy accounts s where ok: "LoadPolicy db = Inr policy"
    "load_accounts instances db Map.empty = Inr accounts"
    "plan_loop (plan_pair (by_provider instances) (users_by_id (ListUsers db)) f accounts) policy db (ListLinks db)
       \<lparr>ps_Policies = Map.empty, ps_Resolutions = Map.empty, ps_Considered = 0, ps_Accounts = []\<rparr> = Inr s"
    and r: "result = \<lparr>px_Plan = BuildPlan (ps_Accounts s), px_Considered = ps_Considered s,
            px_Degraded = map in_Name (filter (\<lambda>i. Degraded (in_Row i)) instances),
            px_Resolutions = ps_Resolutions s\<rparr>"
    by (auto simp: EnginePlan_def bind_result_def split: sum.splits)
  show thesis
    by (rule that [OF ok(1,2)]) (use plan_loop_eq [OF ok(3)] r in simp_all)
qed

lemma foldl_upd_find:
  "foldl (\<lambda>m x. m(k x \<mapsto> x)) Map.empty xs e = find (\<lambda>x. k x = e) (rev xs)"
  by (induction xs rule: rev_induct) simp_all

lemma by_provider_Some: "by_provider is p = Some i \<Longrightarrow> i \<in> set is \<and> in_ID i = p"
  unfolding by_provider_def foldl_upd_find by (drule find_SomeD) simp

lemma users_by_id_Some: "users_by_id us x = Some u \<Longrightarrow> u \<in> set us \<and> u_ID u = x"
  unfolding users_by_id_def foldl_upd_find by (drule find_SomeD) simp

lemma load_accounts_at:
  "load_accounts is db m = Inr m' \<Longrightarrow> m' p = Some b \<Longrightarrow>
     m p = Some b \<or> (\<exists>stored. ListExternalAccounts p db = Inr stored \<and> (\<forall>e. b e = last_account e stored))"
proof (induction "is" arbitrary: m)
  case (Cons i "is")
  from Cons.prems(1) obtain stored where st: "ListExternalAccounts (in_ID i) db = Inr stored"
    "load_accounts is db (m(in_ID i \<mapsto> foldl (\<lambda>b a. b(xa_ExternalID a \<mapsto> a)) Map.empty stored)) = Inr m'"
    by (auto split: sum.splits)
  from Cons.IH [OF st(2) Cons.prems(2)] st(1) show ?case
    by (auto simp: foldl_upd_find last_account_def split: if_splits)
qed simp

text \<open>What a pair is, in the words of the store.\<close>

lemma plan_pair_Some:
  assumes "plan_pair (by_provider instances) (users_by_id (ListUsers db)) f accounts l = Some (i, user, account)"
    and "load_accounts instances db Map.empty = Inr accounts"
  shows "i \<in> set instances \<and> in_ID i = lk_ProviderID l \<and> user \<in> set (ListUsers db) \<and> u_ID user = lk_UserID l \<and>
     u_Status user = UserActive \<and> admits f (u_UID user) (in_Name i) \<and>
     (\<exists>stored. ListExternalAccounts (lk_ProviderID l) db = Inr stored \<and>
        last_account (lk_ExternalID l) stored = Some account)"
proof -
  from assms(1) obtain b where b: "by_provider instances (lk_ProviderID l) = Some i"
    "users_by_id (ListUsers db) (lk_UserID l) = Some user" "u_Status user = UserActive"
    "admits f (u_UID user) (in_Name i)" "accounts (lk_ProviderID l) = Some b" "b (lk_ExternalID l) = Some account"
    by (auto simp: plan_pair_def split: option.splits if_splits)
  from load_accounts_at [OF assms(2) b(5)] b(6)
  have "\<exists>stored. ListExternalAccounts (lk_ProviderID l) db = Inr stored \<and>
      last_account (lk_ExternalID l) stored = Some account" by auto
  with by_provider_Some [OF b(1)] users_by_id_Some [OF b(2)] b(3,4) show ?thesis by blast
qed

lemma set_map_filter: "x \<in> set (List.map_filter f xs) \<longleftrightarrow> (\<exists>y \<in> set xs. f y = Some x)"
  by (induction xs) (auto simp: List.map_filter_simps split: option.splits)

lemma considered_Some:
  "considered pair policy db l = Some pa \<Longrightarrow> \<exists>i user account up.
     pair l = Some (i, user, account) \<and> UserPolicy_of (u_ID user) db = Inr up \<and>
     pa = plan_account i user l account (Resolve user (lk_ProviderID l) policy up)"
  by (auto simp: considered_def split: option.splits sum.splits prod.splits)

text \<open>Every change of a plan is about a stored link of an active person, and sets the resolved ceiling.\<close>

lemma EnginePlan_source:
  assumes plan: "EnginePlan instances f db = Inr result" and c: "c \<in> set (pl_Changes (px_Plan result))"
  shows "\<exists>l \<in> set (d_Links db). \<exists>i \<in> set instances. \<exists>user \<in> set (ListUsers db). \<exists>stored account policy up.
     in_ID i = lk_ProviderID l \<and> u_ID user = lk_UserID l \<and> u_Status user = UserActive \<and>
     ListExternalAccounts (lk_ProviderID l) db = Inr stored \<and>
     last_account (lk_ExternalID l) stored = Some account \<and>
     LoadPolicy db = Inr policy \<and> UserPolicy_of (u_ID user) db = Inr up \<and>
     r_Present (Resolve user (lk_ProviderID l) policy up) \<and>
     c = change_of (plan_account i user l account (Resolve user (lk_ProviderID l) policy up))"
proof -
  obtain policy accounts where pl: "LoadPolicy db = Inr policy" "load_accounts instances db Map.empty = Inr accounts"
    and eq: "px_Plan result = BuildPlan (List.map_filter (considered
           (plan_pair (by_provider instances) (users_by_id (ListUsers db)) f accounts) policy db) (ListLinks db))"
    using EnginePlan_eq [OF plan] by metis
  from c obtain pa where mem: "pa \<in> set (List.map_filter (considered
         (plan_pair (by_provider instances) (users_by_id (ListUsers db)) f accounts) policy db) (ListLinks db))"
    and pa: "pa_Present pa" "c = change_of pa" by (auto simp: eq BuildPlan_set)
  from mem obtain l where l: "l \<in> set (ListLinks db)"
    and con: "considered (plan_pair (by_provider instances) (users_by_id (ListUsers db)) f accounts) policy db l = Some pa"
    by (auto simp: set_map_filter)
  from considered_Some [OF con] obtain i user account up where
    pair: "plan_pair (by_provider instances) (users_by_id (ListUsers db)) f accounts l = Some (i, user, account)"
    and up: "UserPolicy_of (u_ID user) db = Inr up"
    and eqpa: "pa = plan_account i user l account (Resolve user (lk_ProviderID l) policy up)" by blast
  have "l \<in> set (d_Links db)" using l by (simp add: ListLinks_def)
  moreover note plan_pair_Some [OF pair pl(2)]
  moreover have "r_Present (Resolve user (lk_ProviderID l) policy up)"
    using pa(1) by (simp add: eqpa plan_account_def)
  ultimately show ?thesis using up pl(1) pa(2) eqpa by blast
qed

section \<open>A plan after adoption\<close>

lemma ListExternalAccounts_overrides [simp]:
  "ListExternalAccounts p (db\<lparr>d_Overrides := rows\<rparr>) = ListExternalAccounts p db"
  by (simp add: ListExternalAccounts_def)

text \<open>The links adoption acts on, and what it leaves for each of them.\<close>

definition adoptable ::
  "(RowID \<rightharpoonup> 'w Instance) \<Rightarrow> (RowID \<rightharpoonup> User) \<Rightarrow> PlanFilter \<Rightarrow> Database \<Rightarrow> AccountLink \<Rightarrow> ExternalAccount \<Rightarrow> bool" where
  "adoptable byProvider usersByID f db l account \<longleftrightarrow> (\<exists>i user stored.
     byProvider (lk_ProviderID l) = Some i \<and> usersByID (lk_UserID l) = Some user \<and>
     u_Status user = UserActive \<and> admits f (u_UID user) (in_Name i) \<and>
     ListExternalAccounts (lk_ProviderID l) db = Inr stored \<and>
     last_account (lk_ExternalID l) stored = Some account \<and> Quota_IsKnown (xa_Quota account))"

definition adopted_as :: "Database \<Rightarrow> AccountLink \<Rightarrow> Quota \<Rightarrow> bool" where
  "adopted_as db l q \<longleftrightarrow> Quota_Valid q = None \<and>
     map_option or_Quota (tbl_find override_key (link_key l) (d_Overrides db)) = Some (Quota_Encode q)"

lemma Adopt_loop_step:
  assumes "Adopt_loop byProvider usersByID f (l # ls) n sk db = ((n', sk', None), db')"
  obtains (pass) n1 sk1 where "Adopt_loop byProvider usersByID f ls n1 sk1 db = ((n', sk', None), db')"
      "\<nexists>account. adoptable byProvider usersByID f db l account"
    | (adopted) user account db1 where "adoptable byProvider usersByID f db l account"
        "\<And>a. adoptable byProvider usersByID f db l a \<Longrightarrow> a = account"
        "usersByID (lk_UserID l) = Some user"
        "SetProviderOverride (u_ID user) (lk_ProviderID l) (xa_Quota account) OverrideAdopted db = Inr db1"
        "Adopt_loop byProvider usersByID f ls (n + 1) sk db1 = ((n', sk', None), db')"
proof -
  let ?R = "((n', sk', None), db')"
  show thesis
  proof (cases "\<exists>i user. byProvider (lk_ProviderID l) = Some i \<and> usersByID (lk_UserID l) = Some user \<and>
      u_Status user = UserActive \<and> admits f (u_UID user) (in_Name i)")
    case False
    then have "Adopt_loop byProvider usersByID f ls n sk db = ?R"
      using assms by (cases "byProvider (lk_ProviderID l)"; cases "usersByID (lk_UserID l)") (simp_all split: if_splits)
    moreover have "\<nexists>account. adoptable byProvider usersByID f db l account"
      using False unfolding adoptable_def by blast
    ultimately show thesis by (rule pass)
  next
    case True
    then obtain i user where iu: "byProvider (lk_ProviderID l) = Some i" "usersByID (lk_UserID l) = Some user"
      "u_Status user = UserActive" "admits f (u_UID user) (in_Name i)" by blast
    with assms obtain stored where st: "ListExternalAccounts (lk_ProviderID l) db = Inr stored"
      by (cases "ListExternalAccounts (lk_ProviderID l) db") simp_all
    have ad: "adoptable byProvider usersByID f db l a \<longleftrightarrow>
        last_account (lk_ExternalID l) stored = Some a \<and> Quota_IsKnown (xa_Quota a)" for a
      using iu st by (simp add: adoptable_def)
    show thesis
    proof (cases "last_account (lk_ExternalID l) stored")
      case None
      with assms iu st have "Adopt_loop byProvider usersByID f ls n sk db = ?R" by simp
      then show thesis by (rule pass) (simp add: ad None)
    next
      case (Some account)
      show thesis
      proof (cases "Quota_IsKnown (xa_Quota account)")
        case False
        with assms iu st Some have
          "Adopt_loop byProvider usersByID f ls n (sk @ [skipped_text (u_UID user) (in_Name i)]) db = ?R" by simp
        then show thesis by (rule pass) (use Some False in \<open>simp add: ad\<close>)
      next
        case True
        with assms iu st Some obtain db1 where db1:
          "SetProviderOverride (u_ID user) (lk_ProviderID l) (xa_Quota account) OverrideAdopted db = Inr db1"
          "Adopt_loop byProvider usersByID f ls (n + 1) sk db1 = ?R"
          by (cases "SetProviderOverride (u_ID user) (lk_ProviderID l) (xa_Quota account) OverrideAdopted db") simp_all
        show thesis by (rule adopted [OF _ _ iu(2) db1]) (use Some True in \<open>simp_all add: ad\<close>)
      qed
    qed
  qed
qed

lemma adoptable_overrides [simp]:
  "adoptable byProvider usersByID f (db\<lparr>d_Overrides := rows\<rparr>) l a = adoptable byProvider usersByID f db l a"
  by (simp add: adoptable_def)

lemma Adopt_loop_props:
  assumes "Adopt_loop byProvider usersByID f ls n sk db = ((n', sk', None), db')"
    and "distinct (map link_key ls)" "tbl_ok override_key (d_Overrides db)"
    and ids: "\<And>x u. usersByID x = Some u \<Longrightarrow> u_ID u = x"
  shows "(\<exists>rows. db' = db\<lparr>d_Overrides := rows\<rparr>) \<and> tbl_ok override_key (d_Overrides db') \<and>
     (\<forall>k. k \<notin> link_key ` set ls \<longrightarrow>
        tbl_find override_key k (d_Overrides db') = tbl_find override_key k (d_Overrides db)) \<and>
     (\<forall>l \<in> set ls. \<forall>a. adoptable byProvider usersByID f db l a \<longrightarrow> adopted_as db' l (xa_Quota a))"
  using assms(1-3)
proof (induction ls arbitrary: n sk db)
  case Nil
  then show ?case by (auto intro!: exI [of _ "d_Overrides db"])
next
  case (Cons l ls)
  have dist: "distinct (map link_key ls)" and new: "link_key l \<notin> link_key ` set ls"
    using Cons.prems(2) by simp_all
  show ?case
  proof (rule Adopt_loop_step [OF Cons.prems(1)])
    fix n1 sk1
    assume pass: "Adopt_loop byProvider usersByID f ls n1 sk1 db = ((n', sk', None), db')"
      "\<nexists>account. adoptable byProvider usersByID f db l account"
    from Cons.IH [OF pass(1) dist Cons.prems(3)] pass(2) show ?thesis by simp
  next
    fix user account db1
    assume ad: "adoptable byProvider usersByID f db l account"
        "\<And>a. adoptable byProvider usersByID f db l a \<Longrightarrow> a = account"
      and user: "usersByID (lk_UserID l) = Some user"
      and set_it: "SetProviderOverride (u_ID user) (lk_ProviderID l) (xa_Quota account) OverrideAdopted db = Inr db1"
      and run: "Adopt_loop byProvider usersByID f ls (n + 1) sk db1 = ((n', sk', None), db')"
    note s = SetProviderOverride_find [OF set_it]
    obtain rows where db1: "db1 = db\<lparr>d_Overrides := rows\<rparr>" using s by blast
    have ok1: "tbl_ok override_key (d_Overrides db1)" using s Cons.prems(3) by blast
    from Cons.IH [OF run dist ok1] have IH:
      "\<exists>rows. db' = db\<lparr>d_Overrides := rows\<rparr>" "tbl_ok override_key (d_Overrides db')"
      "\<And>k. k \<notin> link_key ` set ls \<Longrightarrow>
        tbl_find override_key k (d_Overrides db') = tbl_find override_key k (d_Overrides db1)"
      "\<forall>l \<in> set ls. \<forall>a. adoptable byProvider usersByID f db l a \<longrightarrow> adopted_as db' l (xa_Quota a)"
      by (auto simp: db1)
    have key: "link_key l = (u_ID user, lk_ProviderID l)" using ids [OF user] by (simp add: link_key_def)
    have "adopted_as db' l (xa_Quota account)"
      using IH(3) [OF new] s by (simp add: adopted_as_def key)
    then have "\<forall>a. adoptable byProvider usersByID f db l a \<longrightarrow> adopted_as db' l (xa_Quota a)"
      using ad(2) by blast
    moreover have "tbl_find override_key k (d_Overrides db') = tbl_find override_key k (d_Overrides db)"
      if "k \<notin> link_key ` set (l # ls)" for k
      using IH(3) [of k] s that by (simp add: key)
    ultimately show ?thesis using IH(1,2,4) by simp
  qed
qed

text \<open>
  After an adoption that reported nothing wrong, the plan is empty, as long as every linked
  account was read, and the adapter stores the ceiling it reported as it is.
\<close>

definition stable :: "('w Instance) \<Rightarrow> ExternalAccount \<Rightarrow> bool" where
  "stable i a \<longleftrightarrow> Quota_IsKnown (xa_Quota a) \<and> ad_NormalizeQuota (in_Provider i) (xa_Quota a) = xa_Quota a \<and>
     Quota_IsKnown (xa_Used a) \<and> xa_ObserveOK a"

lemma Adopt_then_plan:
  assumes ok: "links_ok db" "tbl_ok override_key (d_Overrides db)"
    and f0: "filter_empty f0" and adopt: "Adopt instances f0 db = ((n, sk, None), db')"
    and plan: "EnginePlan instances f db' = Inr result"
    and stable: "\<And>l i stored a. l \<in> set (d_Links db) \<Longrightarrow> i \<in> set instances \<Longrightarrow> in_ID i = lk_ProviderID l \<Longrightarrow>
       ListExternalAccounts (lk_ProviderID l) db = Inr stored \<Longrightarrow> last_account (lk_ExternalID l) stored = Some a \<Longrightarrow>
       stable i a"
  shows "pl_Changes (px_Plan result) = []"
proof -
  let ?users = "users_by_id (ListUsers db)"
  have run: "Adopt_loop (by_provider instances) ?users f0 (ListLinks db) 0 [] db = ((n, sk, None), db')"
    using adopt by (simp add: Adopt_def)
  have dist: "distinct (map link_key (ListLinks db))"
  proof -
    have "mset (map link_key (ListLinks db)) = mset (map link_key (d_Links db))"
      by (simp add: ListLinks_def)
    then show ?thesis using ok(1) mset_eq_imp_distinct_iff by (metis links_ok_def tbl_ok_def)
  qed
  have props: "(\<exists>rows. db' = db\<lparr>d_Overrides := rows\<rparr>) \<and> tbl_ok override_key (d_Overrides db') \<and>
     (\<forall>k. k \<notin> link_key ` set (ListLinks db) \<longrightarrow>
        tbl_find override_key k (d_Overrides db') = tbl_find override_key k (d_Overrides db)) \<and>
     (\<forall>l \<in> set (ListLinks db). \<forall>a. adoptable (by_provider instances) ?users f0 db l a \<longrightarrow>
        adopted_as db' l (xa_Quota a))"
    by (rule Adopt_loop_props [OF run dist ok(2)]) (use users_by_id_Some in blast)
  then obtain rows where db': "db' = db\<lparr>d_Overrides := rows\<rparr>" by blast
  have "user_groups db' = user_groups db"
    by (rule ext) (simp add: db' user_groups_def cong: option.case_cong if_cong)
  then have frame: "ListLinks db' = ListLinks db" "ListUsers db' = ListUsers db"
    by (simp_all add: db' ListLinks_def ListUsers_def)
  obtain policy accounts where pl: "LoadPolicy db' = Inr policy" "load_accounts instances db' Map.empty = Inr accounts"
    and eq: "px_Plan result = BuildPlan (List.map_filter (considered
           (plan_pair (by_provider instances) (users_by_id (ListUsers db')) f accounts) policy db') (ListLinks db'))"
    using EnginePlan_eq [OF plan] by metis
  have "pa_Present pa \<longrightarrow> trusted pa \<and> Quota_Equal (pa_Desired pa) (pa_Observed pa)"
    if mem: "pa \<in> set (List.map_filter (considered
           (plan_pair (by_provider instances) (users_by_id (ListUsers db')) f accounts) policy db') (ListLinks db'))" for pa
  proof -
    from mem obtain l where l: "l \<in> set (ListLinks db')"
      and con: "considered (plan_pair (by_provider instances) (users_by_id (ListUsers db')) f accounts) policy db' l = Some pa"
      by (auto simp: set_map_filter)
    from considered_Some [OF con] obtain i user account up where
      pair: "plan_pair (by_provider instances) (users_by_id (ListUsers db')) f accounts l = Some (i, user, account)"
      and up: "UserPolicy_of (u_ID user) db' = Inr up"
      and pa: "pa = plan_account i user l account (Resolve user (lk_ProviderID l) policy up)" by blast
    note pp = plan_pair_Some [OF pair pl(2)]
    then obtain stored where stored: "ListExternalAccounts (lk_ProviderID l) db = Inr stored"
      "last_account (lk_ExternalID l) stored = Some account" by (auto simp: db')
    have ll: "l \<in> set (d_Links db)" using l by (simp add: ListLinks_def db')
    have st: "stable i account" using stable [OF ll _ _ stored] pp by blast
    have "by_provider instances (lk_ProviderID l) = Some i" "?users (lk_UserID l) = Some user"
      using pair frame by (auto simp: plan_pair_def split: option.splits if_splits)
    then have "adoptable (by_provider instances) ?users f0 db l account"
      using stored pp st f0 by (auto simp: adoptable_def admits_def stable_def)
    then have "adopted_as db' l (xa_Quota account)" using props l frame by simp
    moreover have "link_key l = (u_ID user, lk_ProviderID l)" using pp by (simp add: link_key_def)
    ultimately have "up_ProviderOverrides up (lk_ProviderID l) = Some (xa_Quota account)"
      using UserPolicy_override [OF up, of "lk_ProviderID l"] props
      by (auto simp: adopted_as_def DecodeQuota_Encode_valid split: option.splits)
    from Resolve_override [OF this, of user policy] st show ?thesis
      by (simp add: pa plan_account_def trusted_def stable_def)
  qed
  then show ?thesis unfolding eq by (intro BuildPlan_settled) blast
qed

end
