(* ===== verification/Apply.thy ===== *)
theory Apply
  imports PlanEngine Wire
begin

text \<open>
  \<open>internal/reconcile/apply.go\<close>: writing a plan. Every change is read again and classified
  again before it is written; a provider stops at its first error; a published write limit is
  kept; refusals are audited; what a guardrail refused is notified once.
\<close>

section \<open>Options and report\<close>

definition DefaultPlanWindow :: Duration where
  "DefaultPlanWindow = 300 * second"

record ApplyOptions =
  ao_ConsentShrink :: bool
  ao_DryRun :: bool
  ao_Actor :: string
  ao_PlanWindow :: Duration
  ao_ComputedAt :: Time

record ApplyReport =
  ay_RunID :: RowID
  ay_Applied :: nat
  ay_Failed :: nat
  ay_Guarded :: nat
  ay_Unknown :: nat
  ay_Moved :: nat
  ay_Skipped :: nat
  ay_Throttled :: bool
  ay_DryRun :: bool
  ay_Errors :: "engine_error list"

definition new_report :: "bool \<Rightarrow> ApplyReport" where
  "new_report dry =
     \<lparr>ay_RunID = 0, ay_Applied = 0, ay_Failed = 0, ay_Guarded = 0, ay_Unknown = 0, ay_Moved = 0,
      ay_Skipped = 0, ay_Throttled = False, ay_DryRun = dry, ay_Errors = []\<rparr>"

definition ApplyReport_Clean :: "ApplyReport \<Rightarrow> bool" where
  "ApplyReport_Clean r \<longleftrightarrow> ay_Failed r = 0 \<and> ay_Guarded r = 0 \<and> ay_Unknown r = 0 \<and> ay_Moved r = 0 \<and>
     ay_Skipped r = 0 \<and> \<not> ay_Throttled r \<and> ay_Errors r = []"

definition ApplyReport_Incomplete :: "ApplyReport \<Rightarrow> bool" where
  "ApplyReport_Incomplete r \<longleftrightarrow> 0 < ay_Guarded r \<or> 0 < ay_Unknown r \<or> 0 < ay_Moved r \<or>
     0 < ay_Skipped r \<or> ay_Throttled r"

definition show_bool :: "bool \<Rightarrow> string" where
  "show_bool b = (if b then ''true'' else ''false'')"

definition ApplyReport_Summary :: "ApplyReport \<Rightarrow> string" where
  "ApplyReport_Summary r =
     ''applied '' @ show_nat (ay_Applied r) @ '', failed '' @ show_nat (ay_Failed r) @
     '', guarded '' @ show_nat (ay_Guarded r) @ '', unknown state '' @ show_nat (ay_Unknown r) @
     '', moved '' @ show_nat (ay_Moved r) @ '', skipped '' @ show_nat (ay_Skipped r) @
     '', throttled '' @ show_bool (ay_Throttled r)"

section \<open>Pacing\<close>

record pacer =
  pc_Limit :: int
  pc_Remaining :: int
  pc_Unlimited :: bool

definition newPacer :: "'w Adapter \<Rightarrow> pacer" where
  "newPacer a =
     (case ad_WriteLimit a of
        None \<Rightarrow> \<lparr>pc_Limit = 0, pc_Remaining = 0, pc_Unlimited = True\<rparr>
      | Some calls \<Rightarrow>
          if calls \<le> 0 then \<lparr>pc_Limit = 0, pc_Remaining = 0, pc_Unlimited = True\<rparr>
          else \<lparr>pc_Limit = calls, pc_Remaining = calls - calls div 10, pc_Unlimited = False\<rparr>)"

definition pacer_allow :: "pacer \<Rightarrow> bool \<times> pacer" where
  "pacer_allow p =
     (if pc_Unlimited p then (True, p)
      else if pc_Remaining p \<le> 0 then (False, p)
      else (True, p\<lparr>pc_Remaining := pc_Remaining p - 1\<rparr>))"

section \<open>One change\<close>

text \<open>An audit entry that cannot be stored is only logged.\<close>

definition record_change ::
  "'w Env \<Rightarrow> RowID \<Rightarrow> string \<Rightarrow> Change \<Rightarrow> AuditResult \<Rightarrow> string \<Rightarrow> 'w World \<Rightarrow> Database \<Rightarrow> Database" where
  "record_change env runID actor c result detail w db =
     (case RecordChange runID actor c result detail (clock env w) db of Inl _ \<Rightarrow> db | Inr db' \<Rightarrow> db')"

definition recheck_account :: "Change \<Rightarrow> Account \<Rightarrow> PlanAccount" where
  "recheck_account c a =
     \<lparr>pa_User = \<lparr>u_ID = ch_UserID c, u_Source = SourceLDAP, u_SourceUUID = [], u_UID = ch_UserUID c, u_Email = [],
        u_DisplayName = [], u_Status = UserActive, u_GroupUUIDs = []\<rparr>,
      pa_ProviderID = ch_ProviderID c, pa_Provider = ch_Provider c, pa_ExternalID = ch_ExternalID c,
      pa_Desired = ch_To c, pa_Present = True, pa_Observed = ac_Quota a, pa_Used = ac_Used a,
      pa_NeverUsed = ac_NeverUsed a, pa_ObserveOK = True, pa_Rule = RuleNone, pa_TierName = []\<rparr>"

definition recheck ::
  "'w Instance \<Rightarrow> Change \<Rightarrow> 'w World \<Rightarrow> (engine_error + Account \<times> ChangeClass) \<times> 'w World" where
  "recheck i c w =
     (case call_Get i (ch_ExternalID c) w of
        (Inl e, w) \<Rightarrow> (Inl (Reread (ch_ExternalID c) (ch_Provider c) e), w)
      | (Inr a, w) \<Rightarrow>
          if \<not> Account_Writable a then (Inl (NotWritableNow (ch_ExternalID c) (ch_Provider c)), w)
          else (case pl_Changes (BuildPlan [recheck_account c a]) of
                  [] \<Rightarrow> (Inr (a, ch_Class c), w)
                | x # _ \<Rightarrow> (Inr (a, ch_Class x), w)))"

definition refreshAfterWrite ::
  "'w Env \<Rightarrow> 'w Instance \<Rightarrow> Change \<Rightarrow> 'w World \<Rightarrow> Database \<Rightarrow> 'w World \<times> Database" where
  "refreshAfterWrite env i c w db =
     (case call_Get i (ch_ExternalID c) w of
        (Inl _, w) \<Rightarrow> (w, MarkAccountUnobserved (ch_ProviderID c) (ch_ExternalID c) db)
      | (Inr written, w) \<Rightarrow>
          (w, case UpdateObservedAccount (ch_ProviderID c) written (clock env w) db of Inl _ \<Rightarrow> db | Inr db' \<Rightarrow> db'))"

record 'w ApplyState =
  as_World :: "'w World"
  as_DB :: Database
  as_Report :: ApplyReport
  as_Pacers :: "RowID \<rightharpoonup> pacer"
  as_Stopped :: "RowID set"

definition audit ::
  "'w Env \<Rightarrow> ApplyOptions \<Rightarrow> Change \<Rightarrow> AuditResult \<Rightarrow> string \<Rightarrow> 'w ApplyState \<Rightarrow> 'w ApplyState" where
  "audit env opts c result detail s =
     s\<lparr>as_DB := record_change env (ay_RunID (as_Report s)) (ao_Actor opts) c result detail (as_World s) (as_DB s)\<rparr>"

definition class_text :: "ChangeClass \<Rightarrow> string" where
  "class_text c = (case c of ClassSafe \<Rightarrow> ''safe'' | ClassShrinkBelowUsage \<Rightarrow> ''shrink-below-usage''
     | ClassUnknownState \<Rightarrow> ''unknown-state'')"

definition skip_one :: "'w ApplyState \<Rightarrow> 'w ApplyState" where
  "skip_one s = s\<lparr>as_Report := (as_Report s)\<lparr>ay_Skipped := ay_Skipped (as_Report s) + 1\<rparr>\<rparr>"

definition fail_one :: "'w Env \<Rightarrow> ApplyOptions \<Rightarrow> Change \<Rightarrow> engine_error \<Rightarrow> 'w ApplyState \<Rightarrow> 'w ApplyState" where
  "fail_one env opts c e s =
     audit env opts c AuditFailed (env_Error env e)
       (s\<lparr>as_Report := (as_Report s)\<lparr>ay_Failed := ay_Failed (as_Report s) + 1,
                                     ay_Errors := ay_Errors (as_Report s) @ [e]\<rparr>,
          as_Stopped := insert (ch_ProviderID c) (as_Stopped s)\<rparr>)"

definition throttle_one :: "'w Env \<Rightarrow> ApplyOptions \<Rightarrow> Change \<Rightarrow> string \<Rightarrow> 'w ApplyState \<Rightarrow> 'w ApplyState" where
  "throttle_one env opts c detail s =
     audit env opts c AuditSkipped detail
       (s\<lparr>as_Report := (as_Report s)\<lparr>ay_Throttled := True\<rparr>,
          as_Stopped := insert (ch_ProviderID c) (as_Stopped s)\<rparr>)"

definition applied_one :: "'w ApplyState \<Rightarrow> 'w ApplyState" where
  "applied_one s = s\<lparr>as_Report := (as_Report s)\<lparr>ay_Applied := ay_Applied (as_Report s) + 1\<rparr>\<rparr>"

definition call_Sleep :: "'w Env \<Rightarrow> 'w World \<Rightarrow> bool \<times> 'w World" where
  "call_Sleep env w = (case env_Sleep env (wd_State w) of (ended, s) \<Rightarrow> (ended, does (CallSleep ended) s w))"

text \<open>The write itself, once it was decided: the pacer, the wait, the call, and the read-back.\<close>

definition write_one ::
  "'w Env \<Rightarrow> ApplyOptions \<Rightarrow> 'w Instance \<Rightarrow> Change \<Rightarrow> 'w ApplyState \<Rightarrow> 'w ApplyState \<times> engine_error option" where
  "write_one env opts i c s =
     (let pace = (case as_Pacers s (ch_ProviderID c) of None \<Rightarrow> newPacer (in_Provider i) | Some p \<Rightarrow> p) in
      case pacer_allow pace of (allowed, pace) \<Rightarrow>
        let s = s\<lparr>as_Pacers := (as_Pacers s)(ch_ProviderID c \<mapsto> pace)\<rparr> in
        if \<not> allowed
        then (throttle_one env opts c
                ''not attempted: this provider's write limit for the window was reached'' s, None)
        else case call_Sleep env (as_World s) of (ended, w) \<Rightarrow>
          let s = s\<lparr>as_World := w\<rparr> in
          if ended then (s, Some Cancelled)
          else case call_Set i (ch_ExternalID c) (ch_To c) (as_World s) of (r, w) \<Rightarrow>
            let s = s\<lparr>as_World := w\<rparr> in
            (case r of
               Some e \<Rightarrow>
                 if Throttled e \<noteq> None then (throttle_one env opts c ''throttled by the provider'' s, None)
                 else (fail_one env opts c (AdapterErr e) s, None)
             | None \<Rightarrow>
                 let s = audit env opts c AuditApplied [] (applied_one s) in
                 (case refreshAfterWrite env i c (as_World s) (as_DB s) of
                    (w, db) \<Rightarrow> (s\<lparr>as_World := w, as_DB := db\<rparr>, None))))"

definition apply_one ::
  "'w Env \<Rightarrow> ApplyOptions \<Rightarrow> (RowID \<rightharpoonup> 'w Instance) \<Rightarrow> Change \<Rightarrow> 'w ApplyState \<Rightarrow>
   'w ApplyState \<times> engine_error option" where
  "apply_one env opts byProvider c s =
     (case byProvider (ch_ProviderID c) of
        None \<Rightarrow> (skip_one s, None)
      | Some i \<Rightarrow>
          if ch_ProviderID c \<in> as_Stopped s
          then (audit env opts c AuditSkipped ''not attempted: this provider stopped at an earlier error'' (skip_one s), None)
          else if Degraded (in_Row i)
          then (audit env opts c AuditSkipped (''refused: '' @ pr_DegradedReason (in_Row i)) (skip_one s), None)
          else case recheck i c (as_World s) of (r, w) \<Rightarrow>
            let s = s\<lparr>as_World := w\<rparr> in
            (case r of
               Inl e \<Rightarrow> (fail_one env opts c e s, None)
             | Inr (fresh, class) \<Rightarrow>
                 if class \<noteq> ch_Class c
                 then (audit env opts c AuditRefused
                         (''classification moved from '' @ class_text (ch_Class c) @ '' to '' @ class_text class @
                          '' between plan and apply'')
                         (s\<lparr>as_Report := (as_Report s)\<lparr>ay_Moved := ay_Moved (as_Report s) + 1\<rparr>\<rparr>), None)
                 else if Quota_Equal (ac_Quota fresh) (ch_To c) then (s, None)
                 else if ao_DryRun opts then (applied_one s, None)
                 else write_one env opts i c s))"

fun apply_loop ::
  "'w Env \<Rightarrow> ApplyOptions \<Rightarrow> (RowID \<rightharpoonup> 'w Instance) \<Rightarrow> Change list \<Rightarrow> 'w ApplyState \<Rightarrow>
   'w ApplyState \<times> engine_error option" where
  "apply_loop env opts byProvider [] s = (s, None)"
| "apply_loop env opts byProvider (c # cs) s =
     (case apply_one env opts byProvider c s of
        (s, Some e) \<Rightarrow> (s, Some e)
      | (s, None) \<Rightarrow> apply_loop env opts byProvider cs s)"

section \<open>Refusals, notification, and the end of a run\<close>

definition refuse_one :: "'w Env \<Rightarrow> ApplyOptions \<Rightarrow> 'w ApplyState \<Rightarrow> Change \<Rightarrow> 'w ApplyState" where
  "refuse_one env opts s c =
     (case ch_Class c of
        ClassUnknownState \<Rightarrow>
          audit env opts c AuditRefused (ch_Detail c)
            (s\<lparr>as_Report := (as_Report s)\<lparr>ay_Unknown := ay_Unknown (as_Report s) + 1\<rparr>\<rparr>)
      | ClassShrinkBelowUsage \<Rightarrow>
          if ao_ConsentShrink opts then s
          else audit env opts c AuditRefused ''refused by the shrink guardrail: no consent was given''
            (s\<lparr>as_Report := (as_Report s)\<lparr>ay_Guarded := ay_Guarded (as_Report s) + 1\<rparr>\<rparr>)
      | ClassSafe \<Rightarrow> s)"

definition guarded :: "ApplyOptions \<Rightarrow> Change \<Rightarrow> bool" where
  "guarded opts c \<longleftrightarrow> ch_Class c \<noteq> ClassSafe \<and> \<not> (ch_Class c = ClassShrinkBelowUsage \<and> ao_ConsentShrink opts)"

definition guard_key :: "Change \<Rightarrow> string" where
  "guard_key c = ch_UserUID c @ ''/'' @ ch_Provider c @ ''/'' @ Quota_Encode (ch_From c) @ ''/'' @ Quota_Encode (ch_To c)"

definition guard_detail :: "Change \<Rightarrow> Detail" where
  "guard_detail c = \<lparr>dt_User = ch_UserUID c, dt_Provider = ch_Provider c, dt_From = Quota_String (ch_From c),
     dt_To = Quota_String (ch_To c), dt_Reason = class_text (ch_Class c) @ '': '' @ ch_Detail c\<rparr>"

fun track_guarded :: "Time \<Rightarrow> Change list \<Rightarrow> Database \<Rightarrow> Database \<times> Detail list" where
  "track_guarded now [] db = (db, [])"
| "track_guarded now (c # cs) db =
     (case SeenGuardedChange (guard_key c) now db of (db, first) \<Rightarrow>
        (case track_guarded now cs db of (db, fresh) \<Rightarrow> (db, if first then guard_detail c # fresh else fresh)))"

definition call_Notify :: "(Event \<Rightarrow> 'w \<Rightarrow> 'w) \<Rightarrow> Event \<Rightarrow> 'w World \<Rightarrow> 'w World" where
  "call_Notify send e w = does (CallNotify e) (send e (wd_State w)) w"

definition failed_event :: "'w Env \<Rightarrow> Time \<Rightarrow> ApplyReport \<Rightarrow> Event" where
  "failed_event env now r =
     \<lparr>ev_Kind = KindFailed, ev_At = now, ev_Summary = ''reconcile failed: '' @ ApplyReport_Summary r,
      ev_Details = map (\<lambda>e. \<lparr>dt_User = [], dt_Provider = [], dt_From = [], dt_To = [],
                              dt_Reason = env_Error env e\<rparr>) (ay_Errors r)\<rparr>"

definition guarded_event :: "Time \<Rightarrow> Detail list \<Rightarrow> Event" where
  "guarded_event now fresh =
     \<lparr>ev_Kind = KindGuarded, ev_At = now,
      ev_Summary = show_nat (length fresh) @ '' change(s) were refused by a guardrail and need a decision'',
      ev_Details = fresh\<rparr>"

definition notifyOutcome ::
  "'w Env \<Rightarrow> ApplyOptions \<Rightarrow> Plan \<Rightarrow> 'w ApplyState \<Rightarrow> 'w ApplyState" where
  "notifyOutcome env opts plan s =
     (case env_Notifier env of
        None \<Rightarrow> s
      | Some send \<Rightarrow>
          if ao_DryRun opts then s
          else
            let r = as_Report s;
                s = (if 0 < ay_Failed r \<or> ay_Errors r \<noteq> []
                     then s\<lparr>as_World := call_Notify send (failed_event env (clock env (as_World s)) r) (as_World s)\<rparr>
                     else s);
                changes = filter (guarded opts) (pl_Changes plan) in
            case track_guarded (clock env (as_World s)) changes (as_DB s) of (db, fresh) \<Rightarrow>
              let s = s\<lparr>as_DB := ForgetGuardedChanges (map guard_key changes) db\<rparr> in
              if fresh = [] then s
              else s\<lparr>as_World := call_Notify send (guarded_event (clock env (as_World s)) fresh) (as_World s)\<rparr>)"

definition run_status :: "ApplyReport \<Rightarrow> string" where
  "run_status r =
     (if ay_DryRun r then ''dry-run''
      else if 0 < ay_Failed r \<or> ay_Errors r \<noteq> [] then ''failed''
      else if ApplyReport_Incomplete r then ''incomplete'' else ''clean'')"

definition finish :: "'w Env \<Rightarrow> 'w ApplyState \<Rightarrow> 'w ApplyState" where
  "finish env s =
     s\<lparr>as_DB := FinishRun (ay_RunID (as_Report s)) (run_status (as_Report s))
          (ApplyReport_Summary (as_Report s)) (clock env (as_World s)) (as_DB s)\<rparr>"

section \<open>The run\<close>

definition start_state :: "ApplyOptions \<Rightarrow> 'w World \<Rightarrow> Database \<Rightarrow> 'w ApplyState" where
  "start_state opts w db =
     \<lparr>as_World = w, as_DB = db, as_Report = new_report (ao_DryRun opts), as_Pacers = Map.empty, as_Stopped = {}\<rparr>"

definition plan_window :: "ApplyOptions \<Rightarrow> Duration" where
  "plan_window opts = (if ao_PlanWindow opts \<le> 0 then DefaultPlanWindow else ao_PlanWindow opts)"

definition too_old :: "ApplyOptions \<Rightarrow> Time \<Rightarrow> bool" where
  "too_old opts now \<longleftrightarrow> ao_ComputedAt opts \<noteq> 0 \<and> plan_window opts < now - ao_ComputedAt opts"

definition start_run :: "'w Env \<Rightarrow> ApplyOptions \<Rightarrow> 'w ApplyState \<Rightarrow> 'w ApplyState" where
  "start_run env opts s =
     (case StartRun (if ao_DryRun opts then RunDryRun else RunApply) (ao_Actor opts) (ao_ConsentShrink opts)
             (clock env (as_World s)) (as_DB s) of
        (db, runID) \<Rightarrow> s\<lparr>as_DB := db, as_Report := (as_Report s)\<lparr>ay_RunID := runID\<rparr>\<rparr>)"

definition EngineApply ::
  "'w Env \<Rightarrow> 'w Instance list \<Rightarrow> Plan \<Rightarrow> ApplyOptions \<Rightarrow> 'w World \<Rightarrow> Database \<Rightarrow>
   'w ApplyState \<times> engine_error option" where
  "EngineApply env instances plan opts w db =
     (let s = start_state opts w db in
      if too_old opts (clock env w) then (s, Some (PlanTooOld (clock env w - ao_ComputedAt opts)))
      else
        let s = foldl (refuse_one env opts) (start_run env opts s) (pl_Changes plan) in
        case apply_loop env opts (by_provider instances) (Applicable plan (ao_ConsentShrink opts)) s of
          (s, Some e) \<Rightarrow> (finish env s, Some e)
        | (s, None) \<Rightarrow> (finish env (notifyOutcome env opts plan s), None))"

section \<open>What a run sends\<close>

lemma audit_simps [simp]:
  "as_World (audit env opts c res d s) = as_World s" "as_Report (audit env opts c res d s) = as_Report s"
  "as_Pacers (audit env opts c res d s) = as_Pacers s" "as_Stopped (audit env opts c res d s) = as_Stopped s"
  by (simp_all add: audit_def)

lemma step_simps [simp]:
  "as_World (skip_one s) = as_World s" "as_Pacers (skip_one s) = as_Pacers s" "as_Stopped (skip_one s) = as_Stopped s"
  "as_World (fail_one env opts c e s) = as_World s" "as_Pacers (fail_one env opts c e s) = as_Pacers s"
  "as_Stopped (fail_one env opts c e s) = insert (ch_ProviderID c) (as_Stopped s)"
  "as_World (throttle_one env opts c d s) = as_World s" "as_Pacers (throttle_one env opts c d s) = as_Pacers s"
  "as_Stopped (throttle_one env opts c d s) = insert (ch_ProviderID c) (as_Stopped s)"
  "as_World (applied_one s) = as_World s" "as_Pacers (applied_one s) = as_Pacers s"
  "as_Stopped (applied_one s) = as_Stopped s"
  by (simp_all add: skip_one_def fail_one_def throttle_one_def applied_one_def)

text \<open>What was agreed is still so: the account as it was just read.\<close>

definition agreed :: "Change \<Rightarrow> Account \<Rightarrow> bool" where
  "agreed c a \<longleftrightarrow> Account_Writable a \<and> fst (classify (recheck_account c a)) = ch_Class c \<and>
     \<not> Quota_Equal (ac_Quota a) (ch_To c)"

lemma recheck_agreed:
  assumes "recheck i c w = (Inr (a, ch_Class c), w')" "\<not> Quota_Equal (ac_Quota a) (ch_To c)"
  shows "agreed c a \<and> wd_Calls w' = wd_Calls w @ [CallGet (in_ID i) (ch_ExternalID c) (Inr a)]"
proof -
  have plan: "pl_Changes (BuildPlan [recheck_account c x]) =
      (if differs (recheck_account c x) then [change_of (recheck_account c x)] else [])" for x
    by (simp add: BuildPlan_eq recheck_account_def)
  have dif: "differs (recheck_account c a)"
    using assms(2) by (simp add: differs_def recheck_account_def Quota_Equal_sym)
  from assms(1) have "call_Get i (ch_ExternalID c) w = (Inr a, w')" "Account_Writable a"
    "fst (classify (recheck_account c a)) = ch_Class c"
    by (auto simp: recheck_def plan dif split: prod.splits sum.splits if_splits)
  then show ?thesis using assms(2) call_Get_calls by (simp add: agreed_def)
qed

lemma recheck_calls:
  "recheck i c w = (r, w') \<Longrightarrow> \<exists>x. wd_Calls w' = wd_Calls w @ [CallGet (in_ID i) (ch_ExternalID c) x]"
  by (auto simp: recheck_def dest: call_Get_calls split: prod.splits sum.splits if_splits list.splits)

text \<open>The calls one change may lead to.\<close>

inductive segment :: "bool \<Rightarrow> (RowID \<rightharpoonup> 'w Instance) \<Rightarrow> Change \<Rightarrow> Call list \<Rightarrow> bool"
  for dry :: bool and B :: "RowID \<rightharpoonup> 'w Instance" and c :: Change where
  none: "segment dry B c []"
| read: "B (ch_ProviderID c) = Some i \<Longrightarrow> \<not> Degraded (in_Row i) \<Longrightarrow>
     segment dry B c [CallGet (in_ID i) (ch_ExternalID c) r]"
| ended: "B (ch_ProviderID c) = Some i \<Longrightarrow> \<not> Degraded (in_Row i) \<Longrightarrow> agreed c a \<Longrightarrow> \<not> dry \<Longrightarrow>
     segment dry B c [CallGet (in_ID i) (ch_ExternalID c) (Inr a), CallSleep True]"
| refused: "B (ch_ProviderID c) = Some i \<Longrightarrow> \<not> Degraded (in_Row i) \<Longrightarrow> agreed c a \<Longrightarrow> \<not> dry \<Longrightarrow>
     segment dry B c [CallGet (in_ID i) (ch_ExternalID c) (Inr a), CallSleep False,
       CallSet (in_ID i) (ch_ExternalID c) (ch_To c) (Some e)]"
| written: "B (ch_ProviderID c) = Some i \<Longrightarrow> \<not> Degraded (in_Row i) \<Longrightarrow> agreed c a \<Longrightarrow> \<not> dry \<Longrightarrow>
     segment dry B c [CallGet (in_ID i) (ch_ExternalID c) (Inr a), CallSleep False,
       CallSet (in_ID i) (ch_ExternalID c) (ch_To c) None, CallGet (in_ID i) (ch_ExternalID c) r]"

inductive_cases segmentE: "segment dry B c T"

lemma refresh_calls:
  "refreshAfterWrite env i c w db = (w', db') \<Longrightarrow>
     \<exists>x. wd_Calls w' = wd_Calls w @ [CallGet (in_ID i) (ch_ExternalID c) x]"
  by (auto simp: refreshAfterWrite_def dest: call_Get_calls split: prod.splits sum.splits)

lemma call_Sleep_calls: "call_Sleep env w = (r, w') \<Longrightarrow> wd_Calls w' = wd_Calls w @ [CallSleep r]"
  by (auto simp: call_Sleep_def split: prod.splits)

definition pace_of :: "'w Instance \<Rightarrow> Change \<Rightarrow> 'w ApplyState \<Rightarrow> pacer" where
  "pace_of i c s = (case as_Pacers s (ch_ProviderID c) of None \<Rightarrow> newPacer (in_Provider i) | Some p \<Rightarrow> p)"

text \<open>The four ways a decided write ends.\<close>

lemma write_one_cases:
  assumes run: "write_one env opts i c s = (s', err)"
  obtains (limit) pace where "pacer_allow (pace_of i c s) = (False, pace)" "err = None"
      "wd_Calls (as_World s') = wd_Calls (as_World s)"
      "as_Pacers s' = (as_Pacers s)(ch_ProviderID c \<mapsto> pace)"
      "as_Stopped s' = insert (ch_ProviderID c) (as_Stopped s)" "ay_Applied (as_Report s') = ay_Applied (as_Report s)"
    | (ended) pace where "pacer_allow (pace_of i c s) = (True, pace)" "err = Some Cancelled"
      "wd_Calls (as_World s') = wd_Calls (as_World s) @ [CallSleep True]"
      "as_Pacers s' = (as_Pacers s)(ch_ProviderID c \<mapsto> pace)" "as_Stopped s' = as_Stopped s"
      "ay_Applied (as_Report s') = ay_Applied (as_Report s)"
    | (refused) pace e where "pacer_allow (pace_of i c s) = (True, pace)" "err = None"
      "wd_Calls (as_World s') = wd_Calls (as_World s) @
         [CallSleep False, CallSet (in_ID i) (ch_ExternalID c) (ch_To c) (Some e)]"
      "as_Pacers s' = (as_Pacers s)(ch_ProviderID c \<mapsto> pace)"
      "as_Stopped s' = insert (ch_ProviderID c) (as_Stopped s)" "ay_Applied (as_Report s') = ay_Applied (as_Report s)"
    | (written) pace r where "pacer_allow (pace_of i c s) = (True, pace)" "err = None"
      "wd_Calls (as_World s') = wd_Calls (as_World s) @
         [CallSleep False, CallSet (in_ID i) (ch_ExternalID c) (ch_To c) None, CallGet (in_ID i) (ch_ExternalID c) r]"
      "as_Pacers s' = (as_Pacers s)(ch_ProviderID c \<mapsto> pace)" "as_Stopped s' = as_Stopped s"
      "ay_Applied (as_Report s') = ay_Applied (as_Report s) + 1"
proof -
  obtain allowed pace where pace: "pacer_allow (pace_of i c s) = (allowed, pace)" by force
  note P = pace [unfolded pace_of_def]
  show thesis
  proof (cases allowed)
    case False
    with run have "err = None \<and> s' = throttle_one env opts c
        ''not attempted: this provider's write limit for the window was reached''
        (s\<lparr>as_Pacers := (as_Pacers s)(ch_ProviderID c \<mapsto> pace)\<rparr>)"
      by (auto simp: write_one_def P Let_def)
    then show thesis by (intro limit [of pace]) (use pace False in \<open>simp_all add: throttle_one_def\<close>)
  next
    case True
    obtain e w1 where sl: "call_Sleep env (as_World s) = (e, w1)" by force
    note sleep = call_Sleep_calls [OF sl]
    show thesis
    proof (cases e)
      case True
      with run \<open>allowed\<close> have "err = Some Cancelled \<and>
          s' = s\<lparr>as_Pacers := (as_Pacers s)(ch_ProviderID c \<mapsto> pace), as_World := w1\<rparr>"
        by (auto simp: write_one_def P sl Let_def)
      then show thesis by (intro ended [of pace]) (use pace \<open>allowed\<close> sleep True in simp_all)
    next
      case False
      obtain r w2 where st: "call_Set i (ch_ExternalID c) (ch_To c) w1 = (r, w2)" by force
      note set_it = call_Set_calls [OF st]
      show thesis
      proof (cases r)
        case (Some x)
        with run \<open>allowed\<close> False have "err = None \<and> as_World s' = w2 \<and>
            as_Pacers s' = (as_Pacers s)(ch_ProviderID c \<mapsto> pace) \<and>
            as_Stopped s' = insert (ch_ProviderID c) (as_Stopped s) \<and> ay_Applied (as_Report s') = ay_Applied (as_Report s)"
          by (auto simp: write_one_def P sl st Let_def throttle_one_def fail_one_def split: if_splits)
        then show thesis
          by (intro refused [of pace x]) (use pace \<open>allowed\<close> sleep set_it Some False in simp_all)
      next
        case None
        let ?s = "audit env opts c AuditApplied [] (applied_one (s\<lparr>as_Pacers := (as_Pacers s)(ch_ProviderID c \<mapsto> pace), as_World := w2\<rparr>))"
        obtain w3 db3 where rf: "refreshAfterWrite env i c (as_World ?s) (as_DB ?s) = (w3, db3)" by force
        from None run \<open>allowed\<close> False rf have s': "err = None \<and> s' = ?s\<lparr>as_World := w3, as_DB := db3\<rparr>"
          by (auto simp: write_one_def P sl st Let_def)
        from refresh_calls [OF rf] obtain y where
          "wd_Calls w3 = wd_Calls w2 @ [CallGet (in_ID i) (ch_ExternalID c) y]" by auto
        then show thesis
          by (intro written [of pace y])
             (use s' pace \<open>allowed\<close> sleep set_it None False in \<open>simp_all add: applied_one_def\<close>)
      qed
    qed
  qed
qed

lemma write_one_segment:
  assumes run: "write_one env opts i c s = (s', err)"
    and i: "B (ch_ProviderID c) = Some i" "\<not> Degraded (in_Row i)" "agreed c a" "\<not> dry"
    and T: "wd_Calls (as_World s) = T @ [CallGet (in_ID i) (ch_ExternalID c) (Inr a)]"
  shows "\<exists>x. wd_Calls (as_World s') = T @ x \<and> segment dry B c x"
  using run
proof (cases rule: write_one_cases)
  case limit
  with T i show ?thesis by (auto intro: segment.read)
next
  case ended
  with T i show ?thesis by (auto intro: segment.ended)
next
  case refused
  with T i show ?thesis by (auto intro: segment.refused)
next
  case written
  with T i show ?thesis by (auto intro: segment.written)
qed

lemma apply_one_segment:
  assumes "apply_one env opts B c s = (s', err)"
  shows "\<exists>x. wd_Calls (as_World s') = wd_Calls (as_World s) @ x \<and> segment (ao_DryRun opts) B c x"
proof (cases "\<exists>i. B (ch_ProviderID c) = Some i \<and> ch_ProviderID c \<notin> as_Stopped s \<and> \<not> Degraded (in_Row i)")
  case False
  with assms have "as_World s' = as_World s" by (auto simp: apply_one_def split: option.splits if_splits)
  then show ?thesis by (auto intro: segment.none)
next
  case True
  then obtain i where i: "B (ch_ProviderID c) = Some i" "ch_ProviderID c \<notin> as_Stopped s" "\<not> Degraded (in_Row i)" by blast
  obtain r w where re: "recheck i c (as_World s) = (r, w)" by force
  obtain x where calls: "wd_Calls w = wd_Calls (as_World s) @ [CallGet (in_ID i) (ch_ExternalID c) x]"
    using recheck_calls [OF re] by blast
  show ?thesis
  proof (cases "as_World s' = w")
    case True
    with calls i show ?thesis by (auto intro: segment.read)
  next
    case False
    with assms i obtain a where a: "r = Inr (a, ch_Class c)" "\<not> Quota_Equal (ac_Quota a) (ch_To c)" "\<not> ao_DryRun opts"
      "write_one env opts i c (s\<lparr>as_World := w\<rparr>) = (s', err)"
      by (auto simp: apply_one_def re Let_def split: sum.splits prod.splits if_splits)
    from recheck_agreed [OF re [unfolded a(1)] a(2)]
    have ag: "agreed c a" and T: "wd_Calls w = wd_Calls (as_World s) @ [CallGet (in_ID i) (ch_ExternalID c) (Inr a)]"
      by simp_all
    show ?thesis
      by (rule write_one_segment [where B = B and c = c and i = i and a = a, OF a(4) i(1,3) ag a(3)]) (simp add: T)
  qed
qed

text \<open>A run is segments of a prefix of the changes, one after the other.\<close>

inductive segments :: "bool \<Rightarrow> (RowID \<rightharpoonup> 'w Instance) \<Rightarrow> Change list \<Rightarrow> Call list \<Rightarrow> bool"
  for dry :: bool and B :: "RowID \<rightharpoonup> 'w Instance" where
  stop: "segments dry B cs []"
| more: "segment dry B c x \<Longrightarrow> segments dry B cs T \<Longrightarrow> segments dry B (c # cs) (x @ T)"

lemma apply_loop_segments:
  "apply_loop env opts B cs s = (s', err) \<Longrightarrow>
     \<exists>T. wd_Calls (as_World s') = wd_Calls (as_World s) @ T \<and> segments (ao_DryRun opts) B cs T"
proof (induction cs arbitrary: s)
  case Nil
  then show ?case by (auto intro: segments.stop)
next
  case (Cons c cs)
  obtain s1 e1 where one: "apply_one env opts B c s = (s1, e1)" by force
  from apply_one_segment [OF one] obtain x where
    x: "wd_Calls (as_World s1) = wd_Calls (as_World s) @ x" "segment (ao_DryRun opts) B c x" by blast
  show ?case
  proof (cases e1)
    case None
    with Cons.prems one have "apply_loop env opts B cs s1 = (s', err)" by simp
    from Cons.IH [OF this] obtain T where
      "wd_Calls (as_World s') = wd_Calls (as_World s1) @ T" "segments (ao_DryRun opts) B cs T" by blast
    with x show ?thesis by (auto intro: segments.more)
  next
    case (Some e)
    with Cons.prems one have "s' = s1" by simp
    with x show ?thesis using segments.more [OF x(2) segments.stop, of cs] by auto
  qed
qed

text \<open>Every write is of a change, right after the account was read and found as agreed.\<close>

definition write_of ::
  "bool \<Rightarrow> (RowID \<rightharpoonup> 'w Instance) \<Rightarrow> Change \<Rightarrow> Call list \<Rightarrow> RowID \<Rightarrow> string \<Rightarrow> Quota \<Rightarrow> bool" where
  "write_of dry B c xs p e q \<longleftrightarrow> (\<exists>i a zs. B (ch_ProviderID c) = Some i \<and> \<not> Degraded (in_Row i) \<and>
     agreed c a \<and> \<not> dry \<and> p = in_ID i \<and> e = ch_ExternalID c \<and> q = ch_To c \<and>
     xs = zs @ [CallGet p e (Inr a), CallSleep False])"

lemma write_of_prepend: "write_of dry B c xs p e q \<Longrightarrow> write_of dry B c (us @ xs) p e q"
  unfolding write_of_def by (metis append_assoc)

lemma segment_Set:
  assumes "segment dry B c (xs @ CallSet p e q r # ys)"
  shows "write_of dry B c xs p e q"
proof -
  have nth: "(xs @ CallSet p e q r # ys) ! length xs = CallSet p e q r" by simp
  have len: "length xs < length (xs @ CallSet p e q r # ys)" by simp
  from assms show ?thesis
  proof (cases rule: segment.cases)
    case (refused i a err)
    with nth len have "length xs = 2" by (auto simp: nth_Cons' split: if_splits)
    then obtain u v where xs: "xs = [u, v]" by (metis length_0_conv length_Suc_conv numeral_2_eq_2)
    with refused show ?thesis by (auto simp: write_of_def)
  next
    case (written i a r')
    with nth len have "length xs = 2" by (auto simp: nth_Cons' split: if_splits)
    then obtain u v where xs: "xs = [u, v]" by (metis length_0_conv length_Suc_conv numeral_2_eq_2)
    with written show ?thesis by (auto simp: write_of_def)
  qed (use nth len in \<open>auto simp: nth_Cons' split: if_splits\<close>)
qed

lemma append_mid:
  assumes "x @ T = xs @ y # ys"
  obtains (left) zs where "x = xs @ y # zs" "ys = zs @ T" | (right) us where "xs = x @ us" "T = us @ y # ys"
proof -
  from assms obtain us where "x = xs @ us \<and> us @ T = y # ys \<or> x @ us = xs \<and> T = us @ y # ys"
    by (auto simp: append_eq_append_conv2)
  then show thesis
  proof
    assume a: "x = xs @ us \<and> us @ T = y # ys"
    then show thesis
    proof (cases us)
      case Nil
      with a show thesis by (intro right [of "[]"]) simp_all
    next
      case (Cons u us')
      with a show thesis by (intro left [of us']) simp_all
    qed
  next
    assume "x @ us = xs \<and> T = us @ y # ys"
    then show thesis by (intro right [of us]) simp_all
  qed
qed

lemma segments_Set:
  "segments dry B cs T \<Longrightarrow> T = xs @ CallSet p e q r # ys \<Longrightarrow> \<exists>c \<in> set cs. write_of dry B c xs p e q"
proof (induction arbitrary: xs rule: segments.induct)
  case (more c x cs T)
  from more.prems show ?case
  proof (cases rule: append_mid)
    case (left zs)
    with more.hyps(1) segment_Set show ?thesis by fastforce
  next
    case (right us)
    from more.IH [OF right(2)] obtain d where "d \<in> set cs" "write_of dry B d us p e q" by blast
    with right(1) write_of_prepend [of dry B d us p e q x] show ?thesis by auto
  qed
qed simp

text \<open>What the rest of a run sends: notifications only.\<close>

lemma refuse_one_World [simp]: "as_World (refuse_one env opts s c) = as_World s"
  by (simp add: refuse_one_def split: ChangeClass.split)

lemma refuse_fold_World [simp]: "as_World (foldl (refuse_one env opts) s cs) = as_World s"
  by (induction cs arbitrary: s) simp_all

lemma start_run_World [simp]: "as_World (start_run env opts s) = as_World s"
  by (simp add: start_run_def split: prod.split)

lemma finish_simps [simp]:
  "as_World (finish env s) = as_World s" "as_Report (finish env s) = as_Report s"
  by (simp_all add: finish_def)

definition only_notifies :: "Call list \<Rightarrow> bool" where
  "only_notifies xs \<longleftrightarrow> (\<forall>x \<in> set xs. \<exists>e. x = CallNotify e)"

lemma notifyOutcome_calls:
  "\<exists>N. wd_Calls (as_World (notifyOutcome env opts plan s)) = wd_Calls (as_World s) @ N \<and> only_notifies N"
  by (auto simp: notifyOutcome_def call_Notify_def only_notifies_def Let_def split: option.splits prod.splits)

lemma EngineApply_calls:
  assumes "EngineApply env instances plan opts w db = (s', err)"
  shows "\<exists>T N. wd_Calls (as_World s') = wd_Calls w @ T @ N \<and> only_notifies N \<and>
     segments (ao_DryRun opts) (by_provider instances) (Applicable plan (ao_ConsentShrink opts)) T"
proof (cases "too_old opts (clock env w)")
  case True
  with assms show ?thesis
    by (auto simp: EngineApply_def start_state_def Let_def only_notifies_def intro: segments.stop)
next
  case False
  let ?s = "foldl (refuse_one env opts) (start_run env opts (start_state opts w db)) (pl_Changes plan)"
  obtain s1 e1 where loop: "apply_loop env opts (by_provider instances)
      (Applicable plan (ao_ConsentShrink opts)) ?s = (s1, e1)" by force
  from apply_loop_segments [OF loop] obtain T where
    T: "wd_Calls (as_World s1) = wd_Calls w @ T"
    "segments (ao_DryRun opts) (by_provider instances) (Applicable plan (ao_ConsentShrink opts)) T"
    by (auto simp: start_state_def)
  obtain N where "wd_Calls (as_World (notifyOutcome env opts plan s1)) = wd_Calls (as_World s1) @ N" "only_notifies N"
    using notifyOutcome_calls by blast
  note N = this
  show ?thesis
  proof (cases e1)
    case None
    with assms False loop have "as_World s' = as_World (notifyOutcome env opts plan s1)"
      by (auto simp: EngineApply_def Let_def)
    with T N show ?thesis by (intro exI [of _ T] exI [of _ N]) simp
  next
    case (Some e)
    with assms False loop have "as_World s' = as_World s1" by (auto simp: EngineApply_def Let_def)
    with T show ?thesis by (intro exI [of _ T] exI [of _ "[]"]) (simp add: only_notifies_def)
  qed
qed

text \<open>The guarantee of a run about each of its writes.\<close>

lemma EngineApply_write:
  assumes run: "EngineApply env instances plan opts w db = (s', err)"
    and tr: "wd_Calls (as_World s') = wd_Calls w @ xs @ CallSet p e q r # ys"
  shows "\<exists>c \<in> set (Applicable plan (ao_ConsentShrink opts)). write_of (ao_DryRun opts) (by_provider instances) c xs p e q"
proof -
  from EngineApply_calls [OF run] obtain T N where
    eq: "xs @ CallSet p e q r # ys = T @ N" and N: "only_notifies N"
    and T: "segments (ao_DryRun opts) (by_provider instances) (Applicable plan (ao_ConsentShrink opts)) T"
    using tr by auto
  have "CallSet p e q r \<notin> set N" using N by (auto simp: only_notifies_def)
  with eq [symmetric] obtain zs where "T = xs @ CallSet p e q r # zs"
    by (cases rule: append_mid) auto
  from segments_Set [OF T this] show ?thesis .
qed

section \<open>A provider stops, and is not overrun\<close>

definition touches :: "RowID \<Rightarrow> Call \<Rightarrow> bool" where
  "touches p x \<longleftrightarrow> (case x of CallGet q _ _ \<Rightarrow> q = p | CallSet q _ _ _ \<Rightarrow> q = p | _ \<Rightarrow> False)"

definition is_set :: "RowID \<Rightarrow> Call \<Rightarrow> bool" where
  "is_set p x \<longleftrightarrow> (case x of CallSet q _ _ _ \<Rightarrow> q = p | _ \<Rightarrow> False)"

definition sets :: "RowID \<Rightarrow> Call list \<Rightarrow> nat" where
  "sets p T = length (filter (is_set p) T)"

definition keyed :: "(RowID \<rightharpoonup> 'w Instance) \<Rightarrow> bool" where
  "keyed B \<longleftrightarrow> (\<forall>p i. B p = Some i \<longrightarrow> in_ID i = p)"

text \<open>The writes a provider with a published limit still allows in this run.\<close>

definition room :: "'w Instance \<Rightarrow> 'w ApplyState \<Rightarrow> int" where
  "room i s = (case as_Pacers s (in_ID i) of None \<Rightarrow> pc_Remaining (newPacer (in_Provider i)) | Some p \<Rightarrow> pc_Remaining p)"

definition limited :: "'w Instance \<Rightarrow> 'w ApplyState \<Rightarrow> bool" where
  "limited i s \<longleftrightarrow> 0 \<le> room i s \<and>
     \<not> pc_Unlimited (case as_Pacers s (in_ID i) of None \<Rightarrow> newPacer (in_Provider i) | Some p \<Rightarrow> p)"

lemma keyed_by_provider: "keyed (by_provider instances)"
  using by_provider_Some by (auto simp: keyed_def)

lemma touch_simps [simp]:
  "touches p (CallGet q e r) \<longleftrightarrow> q = p" "touches p (CallSet q e v t) \<longleftrightarrow> q = p" "\<not> touches p (CallSleep b)"
  "is_set p (CallSet q e v t) \<longleftrightarrow> q = p" "\<not> is_set p (CallGet q e r)" "\<not> is_set p (CallSleep b)"
  "\<not> touches p (CallNotify ev)" "\<not> is_set p (CallNotify ev)"
  by (simp_all add: touches_def is_set_def)

lemma sets_simps [simp]:
  "sets p [] = 0" "sets p (x # T) = (if is_set p x then 1 else 0) + sets p T" "sets p (T @ U) = sets p T + sets p U"
  by (simp_all add: sets_def)

text \<open>Everything one change does to the stops, the pacers and the trace.\<close>

definition effect :: "(RowID \<rightharpoonup> 'w Instance) \<Rightarrow> 'w ApplyState \<Rightarrow> 'w ApplyState \<Rightarrow> Call list \<Rightarrow> bool" where
  "effect B s s' T \<longleftrightarrow> wd_Calls (as_World s') = wd_Calls (as_World s) @ T \<and> as_Stopped s \<subseteq> as_Stopped s' \<and>
     (\<forall>p \<in> as_Stopped s. \<forall>y \<in> set T. \<not> touches p y) \<and>
     (\<forall>xs p e q r ys. T = xs @ CallSet p e q (Some r) # ys \<longrightarrow>
        p \<in> as_Stopped s' \<and> (\<forall>y \<in> set ys. \<not> touches p y)) \<and>
     (\<forall>p i. B p = Some i \<and> limited i s \<longrightarrow> limited i s' \<and> int (sets p T) + room i s' \<le> room i s)"

lemma effect_refl: "effect B s s []"
  by (simp add: effect_def)

lemma effect_trans:
  assumes a: "effect B s t T" and b: "effect B t u U"
  shows "effect B s u (T @ U)"
  unfolding effect_def
proof (intro conjI ballI allI impI)
  show "wd_Calls (as_World u) = wd_Calls (as_World s) @ T @ U" "as_Stopped s \<subseteq> as_Stopped u"
    using a b by (auto simp: effect_def)
  show "\<not> touches p y" if "p \<in> as_Stopped s" "y \<in> set (T @ U)" for p y
    using that a b unfolding effect_def by (metis Un_iff set_append subsetD)
next
  fix xs p e q r ys assume eq: "T @ U = xs @ CallSet p e q (Some r) # ys"
  then have "p \<in> as_Stopped u \<and> (\<forall>y \<in> set ys. \<not> touches p y)"
  proof (cases rule: append_mid)
    case (left zs)
    with a have "p \<in> as_Stopped t" "\<forall>y \<in> set zs. \<not> touches p y" unfolding effect_def by blast+
    with b left(2) show ?thesis unfolding effect_def by (metis Un_iff set_append subsetD)
  next
    case (right us)
    with b show ?thesis unfolding effect_def by blast
  qed
  then show "p \<in> as_Stopped u" "\<And>y. y \<in> set ys \<Longrightarrow> \<not> touches p y" by blast+
next
  fix p i assume "B p = Some i \<and> limited i s"
  with a have "limited i t" "int (sets p T) + room i t \<le> room i s" and i: "B p = Some i"
    unfolding effect_def by blast+
  moreover from this(1) i b have "limited i u" "int (sets p U) + room i u \<le> room i t"
    unfolding effect_def by blast+
  ultimately show "limited i u" "int (sets p (T @ U)) + room i u \<le> room i s" by simp_all
qed

lemma pacer_allow_room:
  assumes "pacer_allow (pace_of i c s) = (b, pace)" "as_Pacers s' = (as_Pacers s)(ch_ProviderID c \<mapsto> pace)"
    and "in_ID i = ch_ProviderID c" "limited i s"
  shows "limited i s' \<and> (if b then 1 else 0) + room i s' \<le> room i s"
  using assms by (auto simp: pacer_allow_def pace_of_def limited_def room_def split: if_splits option.splits)

lemma room_other:
  "as_Pacers s' = (as_Pacers s)(p \<mapsto> pace) \<Longrightarrow> in_ID i \<noteq> p \<Longrightarrow> room i s' = room i s \<and> limited i s' = limited i s"
  by (simp add: room_def limited_def)

lemma write_one_effect:
  assumes run: "write_one env opts i c s = (s', err)" and B: "keyed B" "B (ch_ProviderID c) = Some i"
    and free: "ch_ProviderID c \<notin> as_Stopped s"
  shows "\<exists>T. effect B s s' T"
proof -
  have id: "in_ID i = ch_ProviderID c" using B by (simp add: keyed_def)
  have rooms: "limited j s' \<and> (if b \<and> p = ch_ProviderID c then 1 else 0) + room j s' \<le> room j s"
    if "pacer_allow (pace_of i c s) = (b, pace)" "as_Pacers s' = (as_Pacers s)(ch_ProviderID c \<mapsto> pace)"
      "B p = Some j" "limited j s" for b pace p j
  proof (cases "p = ch_ProviderID c")
    case True
    with that(3) B(2) have "j = i" by simp
    with pacer_allow_room [OF that(1,2) id] that(4) True show ?thesis by auto
  next
    case False
    with that(3) B(1) have "in_ID j \<noteq> ch_ProviderID c" by (auto simp: keyed_def)
    with room_other [OF that(2) this] that(4) False show ?thesis by simp
  qed
  from run show ?thesis
  proof (cases rule: write_one_cases)
    case (limit pace)
    with rooms [OF limit(1,4)] show ?thesis by (intro exI [of _ "[]"]) (auto simp: effect_def split: if_splits)
  next
    case (ended pace)
    with rooms [OF ended(1,4)] show ?thesis
      by (intro exI [of _ "[CallSleep True]"]) (force simp: effect_def Cons_eq_append_conv split: if_splits)
  next
    case (refused pace e)
    with rooms [OF refused(1,4)] free id show ?thesis
      by (intro exI [of _ "[CallSleep False, CallSet (in_ID i) (ch_ExternalID c) (ch_To c) (Some e)]"])
         (force simp: effect_def Cons_eq_append_conv split: if_splits)
  next
    case (written pace r)
    with rooms [OF written(1,4)] free id show ?thesis
      by (intro exI [of _ "[CallSleep False, CallSet (in_ID i) (ch_ExternalID c) (ch_To c) None,
             CallGet (in_ID i) (ch_ExternalID c) r]"])
         (force simp: effect_def Cons_eq_append_conv split: if_splits)
  qed
qed

lemma effect_same:
  assumes "as_World s' = as_World s" "as_Stopped s' = as_Stopped s" "as_Pacers s' = as_Pacers s"
  shows "effect B s s' []"
  using assms by (simp add: effect_def limited_def room_def)

lemma effect_read:
  assumes "wd_Calls (as_World s') = wd_Calls (as_World s) @ [CallGet p e r]" "as_Stopped s \<subseteq> as_Stopped s'"
    "as_Pacers s' = as_Pacers s" "p \<notin> as_Stopped s"
  shows "effect B s s' [CallGet p e r]"
  using assms by (auto simp: effect_def limited_def room_def Cons_eq_append_conv)

lemma apply_one_effect:
  assumes run: "apply_one env opts B c s = (s', err)" and B: "keyed B"
  shows "\<exists>T. effect B s s' T"
proof (cases "\<exists>i. B (ch_ProviderID c) = Some i \<and> ch_ProviderID c \<notin> as_Stopped s \<and> \<not> Degraded (in_Row i)")
  case False
  with run have "as_World s' = as_World s" "as_Stopped s' = as_Stopped s" "as_Pacers s' = as_Pacers s"
    by (auto simp: apply_one_def split: option.splits if_splits)
  then show ?thesis using effect_same by blast
next
  case True
  then obtain i where i: "B (ch_ProviderID c) = Some i" "ch_ProviderID c \<notin> as_Stopped s" "\<not> Degraded (in_Row i)" by blast
  have id: "in_ID i = ch_ProviderID c" using B i(1) by (simp add: keyed_def)
  obtain r w where re: "recheck i c (as_World s) = (r, w)" by force
  obtain x where calls: "wd_Calls w = wd_Calls (as_World s) @ [CallGet (in_ID i) (ch_ExternalID c) x]"
    using recheck_calls [OF re] by blast
  let ?s = "s\<lparr>as_World := w\<rparr>"
  have read: "effect B s ?s [CallGet (in_ID i) (ch_ExternalID c) x]"
    by (rule effect_read) (use calls i(2) id in simp_all)
  show ?thesis
  proof (cases "write_one env opts i c ?s = (s', err)")
    case True
    have "\<exists>T. effect B ?s s' T" by (rule write_one_effect [OF True B i(1)]) (use i(2) in simp)
    then show ?thesis using effect_trans [OF read] by blast
  next
    case False
    with run i have "as_World s' = w \<and> as_Stopped s \<subseteq> as_Stopped s' \<and> as_Pacers s' = as_Pacers s"
      by (auto simp: apply_one_def re Let_def split: sum.splits prod.splits if_splits)
    then have "effect B s s' [CallGet (in_ID i) (ch_ExternalID c) x]"
      by (intro effect_read) (use calls i(2) id in auto)
    then show ?thesis by blast
  qed
qed

lemma apply_loop_effect:
  "apply_loop env opts B cs s = (s', err) \<Longrightarrow> keyed B \<Longrightarrow> \<exists>T. effect B s s' T"
proof (induction cs arbitrary: s)
  case Nil
  then show ?case using effect_refl by auto
next
  case (Cons c cs)
  obtain s1 e1 where one: "apply_one env opts B c s = (s1, e1)" by force
  obtain T where T: "effect B s s1 T" using apply_one_effect [OF one Cons.prems(2)] by blast
  show ?case
  proof (cases e1)
    case None
    with Cons.prems one have "apply_loop env opts B cs s1 = (s', err)" by simp
    from Cons.IH [OF this Cons.prems(2)] effect_trans [OF T] show ?thesis by blast
  next
    case (Some e)
    with Cons.prems one T show ?thesis by auto
  qed
qed

lemma refuse_one_frame [simp]:
  "as_Stopped (refuse_one env opts s c) = as_Stopped s" "as_Pacers (refuse_one env opts s c) = as_Pacers s"
  by (simp_all add: refuse_one_def split: ChangeClass.split)

lemma refuse_fold_frame [simp]:
  "as_Stopped (foldl (refuse_one env opts) s cs) = as_Stopped s"
  "as_Pacers (foldl (refuse_one env opts) s cs) = as_Pacers s"
  by (induction cs arbitrary: s) simp_all

lemma start_frame [simp]:
  "as_Stopped (start_run env opts s) = as_Stopped s" "as_Pacers (start_run env opts s) = as_Pacers s"
  by (simp_all add: start_run_def split: prod.split)

text \<open>The trace of a whole run, as one effect of the loop and some notifications.\<close>

lemma EngineApply_effect:
  assumes "EngineApply env instances plan opts w db = (s', err)"
  shows "\<exists>s0 s1 T N. effect (by_provider instances) s0 s1 T \<and> as_Pacers s0 = Map.empty \<and> as_Stopped s0 = {} \<and>
     wd_Calls (as_World s') = wd_Calls w @ T @ N \<and> only_notifies N"
proof (cases "too_old opts (clock env w)")
  case True
  with assms have "s' = start_state opts w db" by (simp add: EngineApply_def Let_def)
  then show ?thesis
    using effect_refl [of "by_provider instances" s']
    by (intro exI [of _ s'] exI [of _ "[]"]) (auto simp: start_state_def only_notifies_def)
next
  case False
  let ?s = "foldl (refuse_one env opts) (start_run env opts (start_state opts w db)) (pl_Changes plan)"
  obtain s1 e1 where loop: "apply_loop env opts (by_provider instances)
      (Applicable plan (ao_ConsentShrink opts)) ?s = (s1, e1)" by force
  obtain T where T: "effect (by_provider instances) ?s s1 T"
    using apply_loop_effect [OF loop keyed_by_provider] by blast
  have calls: "wd_Calls (as_World s1) = wd_Calls w @ T" using T by (simp add: effect_def start_state_def)
  have init: "as_Pacers ?s = Map.empty" "as_Stopped ?s = {}" by (simp_all add: start_state_def)
  have "\<exists>N. wd_Calls (as_World s') = wd_Calls w @ T @ N \<and> only_notifies N"
  proof (cases e1)
    case None
    with assms False loop have "as_World s' = as_World (notifyOutcome env opts plan s1)"
      by (auto simp: EngineApply_def Let_def)
    with notifyOutcome_calls [of env opts plan s1] calls show ?thesis by auto
  next
    case (Some e)
    with assms False loop have "as_World s' = as_World s1" by (auto simp: EngineApply_def Let_def)
    with calls show ?thesis by (intro exI [of _ "[]"]) (simp add: only_notifies_def)
  qed
  with T init show ?thesis by blast
qed

lemma EngineApply_stops:
  assumes run: "EngineApply env instances plan opts w db = (s', err)"
    and tr: "wd_Calls (as_World s') = wd_Calls w @ xs @ CallSet p e q (Some r) # ys"
  shows "\<forall>y \<in> set ys. \<not> touches p y"
proof -
  from EngineApply_effect [OF run] obtain s0 s1 T N where eff: "effect (by_provider instances) s0 s1 T"
    and eq: "T @ N = xs @ CallSet p e q (Some r) # ys" and N: "only_notifies N"
    using tr by auto
  from eq show ?thesis
  proof (cases rule: append_mid)
    case (left zs)
    with eff have "\<forall>y \<in> set zs. \<not> touches p y" unfolding effect_def by blast
    with left(2) N show ?thesis by (auto simp: only_notifies_def)
  next
    case (right us)
    with N show ?thesis by (auto simp: only_notifies_def)
  qed
qed

lemma newPacer_limited:
  assumes "ad_WriteLimit (in_Provider i) = Some n" "0 < n" "as_Pacers s = Map.empty"
  shows "limited i s" "room i s = n - n div 10"
  using assms by (simp_all add: limited_def room_def newPacer_def)

lemma EngineApply_paced:
  assumes run: "EngineApply env instances plan opts w db = (s', err)"
    and i: "by_provider instances p = Some i" "ad_WriteLimit (in_Provider i) = Some n" "0 < n"
    and tr: "wd_Calls (as_World s') = wd_Calls w @ T"
  shows "int (sets p T) \<le> n - n div 10"
proof -
  from EngineApply_effect [OF run] obtain s0 s1 U N where eff: "effect (by_provider instances) s0 s1 U"
    and eq: "T = U @ N" and N: "only_notifies N" and p0: "as_Pacers s0 = Map.empty"
    using tr by auto
  note lim = newPacer_limited [OF i(2,3) p0]
  have "limited i s1 \<and> int (sets p U) + room i s1 \<le> room i s0"
    using eff i(1) lim(1) unfolding effect_def by blast
  moreover have "sets p N = 0"
    using N by (induction N) (auto simp: only_notifies_def)
  ultimately show ?thesis using lim(2) by (simp add: eq limited_def)
qed

section \<open>The audit log tells what was written\<close>

definition applied_rows :: "RowID \<Rightarrow> Database \<Rightarrow> nat" where
  "applied_rows runID db =
     length (filter (\<lambda>r. au_RunID r = Some runID \<and> au_Result r = AuditApplied) (d_Audit db))"

definition is_written :: "Call \<Rightarrow> bool" where
  "is_written x \<longleftrightarrow> (case x of CallSet _ _ _ None \<Rightarrow> True | _ \<Rightarrow> False)"

definition writes :: "Call list \<Rightarrow> nat" where
  "writes T = length (filter is_written T)"

lemma writes_simps [simp]:
  "writes [] = 0" "writes (x # T) = (if is_written x then 1 else 0) + writes T" "writes (T @ U) = writes T + writes U"
  "is_written (CallSet p e q None)" "\<not> is_written (CallSet p e q (Some r))" "\<not> is_written (CallGet p e a)"
  "\<not> is_written (CallSleep b)" "\<not> is_written (CallNotify ev)"
  by (simp_all add: writes_def is_written_def)

text \<open>The run and the rows its audit entries refer to are in the store.\<close>

definition referenced :: "RowID \<Rightarrow> Change list \<Rightarrow> Database \<Rightarrow> bool" where
  "referenced runID cs db \<longleftrightarrow> has_run db runID \<and>
     (\<forall>c \<in> set cs. has_user db (ch_UserID c) \<and> has_provider db (ch_ProviderID c))"

definition books :: "Change list \<Rightarrow> 'w ApplyState \<Rightarrow> 'w ApplyState \<Rightarrow> nat \<Rightarrow> bool" where
  "books cs s s' k \<longleftrightarrow> ay_RunID (as_Report s') = ay_RunID (as_Report s) \<and>
     ay_Applied (as_Report s') = ay_Applied (as_Report s) + k \<and>
     (referenced (ay_RunID (as_Report s)) cs (as_DB s) \<longrightarrow>
        referenced (ay_RunID (as_Report s)) cs (as_DB s') \<and>
        applied_rows (ay_RunID (as_Report s)) (as_DB s') = applied_rows (ay_RunID (as_Report s)) (as_DB s) + k)"

lemma books_trans: "books cs s t j \<Longrightarrow> books cs t u k \<Longrightarrow> books cs s u (j + k)"
  by (simp add: books_def)

lemma books_trans0: "books cs s t 0 \<Longrightarrow> books cs t u k \<Longrightarrow> books cs s u k"
  by (simp add: books_def)

lemma books_same:
  assumes "as_DB s' = as_DB s" "ay_RunID (as_Report s') = ay_RunID (as_Report s)"
    "ay_Applied (as_Report s') = ay_Applied (as_Report s)"
  shows "books cs s s' 0"
  using assms by (simp add: books_def)

lemma audit_frame [simp]:
  "has_run (db\<lparr>d_Audit := x\<rparr>) = has_run db" "has_user (db\<lparr>d_Audit := x\<rparr>) = has_user db"
  "has_provider (db\<lparr>d_Audit := x\<rparr>) = has_provider db"
  by (simp_all add: has_run_def has_user_def has_provider_def fun_eq_iff)

lemma referenced_frame [simp]:
  "referenced i cs (db\<lparr>d_Audit := x\<rparr>) = referenced i cs db" "referenced i cs (db\<lparr>d_Accounts := y\<rparr>) = referenced i cs db"
  "applied_rows i (db\<lparr>d_Accounts := y\<rparr>) = applied_rows i db"
  by (simp_all add: referenced_def has_run_def has_user_def has_provider_def applied_rows_def)

lemma audit_books:
  assumes "res \<noteq> AuditApplied"
  shows "books cs s (audit env opts c res d s) 0"
  using assms
  by (auto simp: books_def audit_def record_change_def RecordChange_def applied_rows_def split: sum.splits if_splits)

lemma audit_applied_books:
  assumes "c \<in> set cs"
  shows "books cs s (audit env opts c AuditApplied d (applied_one s)) 1"
proof -
  let ?i = "ay_RunID (as_Report s)" and ?db = "as_DB s"
  have "has_run ?db ?i" "has_user ?db (ch_UserID c)" "has_provider ?db (ch_ProviderID c)" if "referenced ?i cs ?db"
    using that assms by (auto simp: referenced_def)
  then show ?thesis
    by (auto simp: books_def audit_def applied_one_def record_change_def RecordChange_def applied_rows_def
        split: sum.splits if_splits)
qed

lemma skip_books: "books cs s (skip_one s) 0"
  by (rule books_same) (simp_all add: skip_one_def)

lemma fail_books: "books cs s (fail_one env opts c e s) 0"
  unfolding fail_one_def by (rule books_trans0 [OF books_same audit_books]) simp_all

lemma throttle_books: "books cs s (throttle_one env opts c d s) 0"
  unfolding throttle_one_def by (rule books_trans0 [OF books_same audit_books]) simp_all

lemma refresh_books:
  assumes "refreshAfterWrite env i c w (as_DB s) = (w', db')"
  shows "books cs s (s\<lparr>as_World := w', as_DB := db'\<rparr>) 0"
proof -
  have "\<exists>rows. db' = (as_DB s)\<lparr>d_Accounts := rows\<rparr>"
  proof -
    have "UpdateObservedAccount p a t db = Inr db1 \<Longrightarrow> \<exists>rows. db1 = db\<lparr>d_Accounts := rows\<rparr>" for p a t db db1
      by (auto simp: UpdateObservedAccount_def split: if_splits option.splits)
    moreover have "\<exists>rows. db = db\<lparr>d_Accounts := rows\<rparr>" for db :: Database
      by (rule exI [of _ "d_Accounts db"]) simp
    ultimately show ?thesis
      using assms by (auto simp: refreshAfterWrite_def MarkAccountUnobserved_def split: prod.splits sum.splits)
  qed
  then show ?thesis by (auto simp: books_def)
qed

lemma write_one_books:
  assumes run: "write_one env opts i c s = (s', err)" and c: "c \<in> set cs"
  shows "\<exists>T. wd_Calls (as_World s') = wd_Calls (as_World s) @ T \<and> books cs s s' (writes T)"
proof -
  obtain allowed pace where pace: "pacer_allow (case as_Pacers s (ch_ProviderID c) of
      None \<Rightarrow> newPacer (in_Provider i) | Some p \<Rightarrow> p) = (allowed, pace)" by force
  let ?s = "s\<lparr>as_Pacers := (as_Pacers s)(ch_ProviderID c \<mapsto> pace)\<rparr>"
  have s1: "books cs s ?s 0" "\<And>w. books cs s (?s\<lparr>as_World := w\<rparr>) 0" by (rule books_same; simp)+
  obtain e w1 where sl: "call_Sleep env (as_World s) = (e, w1)" by force
  obtain r w2 where st: "call_Set i (ch_ExternalID c) (ch_To c) w1 = (r, w2)" by force
  let ?s2 = "?s\<lparr>as_World := w2\<rparr>"
  let ?s3 = "audit env opts c AuditApplied [] (applied_one ?s2)"
  obtain w3 db3 where rf: "refreshAfterWrite env i c (as_World ?s3) (as_DB ?s3) = (w3, db3)" by force
  note calls = call_Sleep_calls [OF sl] call_Set_calls [OF st]
  consider (limit) "s' = throttle_one env opts c ''not attempted: this provider's write limit for the window was reached'' ?s"
    | (ended) "s' = ?s\<lparr>as_World := w1\<rparr>" "e"
    | (throttled) x where "r = Some x" "\<not> e" "s' = throttle_one env opts c ''throttled by the provider'' ?s2"
    | (failed) x where "r = Some x" "\<not> e" "s' = fail_one env opts c (AdapterErr x) ?s2"
    | (written) "r = None" "\<not> e" "s' = ?s3\<lparr>as_World := w3, as_DB := db3\<rparr>"
  proof -
    have "s' = throttle_one env opts c ''not attempted: this provider's write limit for the window was reached'' ?s \<or>
        s' = ?s\<lparr>as_World := w1\<rparr> \<and> e \<or>
        (\<exists>x. r = Some x \<and> \<not> e \<and> (s' = throttle_one env opts c ''throttled by the provider'' ?s2 \<or>
           s' = fail_one env opts c (AdapterErr x) ?s2)) \<or>
        r = None \<and> \<not> e \<and> s' = ?s3\<lparr>as_World := w3, as_DB := db3\<rparr>"
      using run rf by (cases allowed; cases e; cases r) (auto simp: write_one_def pace sl st Let_def split: if_splits)
    then show thesis using that by blast
  qed
  then show ?thesis
  proof cases
    case limit
    show ?thesis unfolding limit
      by (rule exI [of _ "[]"]) (use books_trans0 [OF s1(1) throttle_books] in simp)
  next
    case ended
    show ?thesis unfolding ended(1)
      by (rule exI [of _ "[CallSleep e]"]) (use s1(2) calls in simp)
  next
    case throttled
    show ?thesis unfolding throttled(3)
      by (rule exI [of _ "[CallSleep e, CallSet (in_ID i) (ch_ExternalID c) (ch_To c) r]"])
         (use books_trans0 [OF s1(2) throttle_books] calls throttled(1) in simp)
  next
    case failed
    show ?thesis unfolding failed(3)
      by (rule exI [of _ "[CallSleep e, CallSet (in_ID i) (ch_ExternalID c) (ch_To c) r]"])
         (use books_trans0 [OF s1(2) fail_books] calls failed(1) in simp)
  next
    case written
    from refresh_calls [OF rf] obtain y where
      y: "wd_Calls w3 = wd_Calls w2 @ [CallGet (in_ID i) (ch_ExternalID c) y]" by (auto simp: applied_one_def)
    have "books cs s (?s3\<lparr>as_World := w3, as_DB := db3\<rparr>) (1 + 0)"
      by (rule books_trans [OF books_trans0 [OF s1(2) audit_applied_books [OF c]] refresh_books [OF rf]])
    then show ?thesis unfolding written(3)
      by (intro exI [of _ "[CallSleep e, CallSet (in_ID i) (ch_ExternalID c) (ch_To c) r, CallGet (in_ID i) (ch_ExternalID c) y]"])
         (use y calls written(1) in simp)
  qed
qed


lemma apply_one_books:
  assumes run: "apply_one env opts B c s = (s', err)" and c: "c \<in> set cs" and dry: "\<not> ao_DryRun opts"
  shows "\<exists>T. wd_Calls (as_World s') = wd_Calls (as_World s) @ T \<and> books cs s s' (writes T)"
proof (cases "\<exists>i. B (ch_ProviderID c) = Some i \<and> ch_ProviderID c \<notin> as_Stopped s \<and> \<not> Degraded (in_Row i)")
  case False
  have "books cs s (audit env opts c AuditSkipped d (skip_one s)) 0" for d
    by (rule books_trans0 [OF skip_books audit_books]) simp
  with False run show ?thesis
    by (intro exI [of _ "[]"]) (auto simp: apply_one_def skip_books split: option.splits if_splits)
next
  case True
  then obtain i where i: "B (ch_ProviderID c) = Some i" "ch_ProviderID c \<notin> as_Stopped s" "\<not> Degraded (in_Row i)" by blast
  obtain r w where re: "recheck i c (as_World s) = (r, w)" by force
  obtain x where calls: "wd_Calls w = wd_Calls (as_World s) @ [CallGet (in_ID i) (ch_ExternalID c) x]"
    using recheck_calls [OF re] by blast
  let ?s = "s\<lparr>as_World := w\<rparr>"
  have s0: "books cs s ?s 0" by (rule books_same) simp_all
  have moved: "books cs ?s (?s\<lparr>as_Report := (as_Report ?s)\<lparr>ay_Moved := n\<rparr>\<rparr>) 0" for n
    by (rule books_same) simp_all
  have "as_World s' = w \<and> books cs ?s s' 0 \<or> write_one env opts i c ?s = (s', err)"
    using run i dry books_trans0 [OF moved audit_books]
    by (auto simp: apply_one_def re Let_def fail_books books_same split: sum.splits prod.splits if_splits)
  then show ?thesis
  proof
    assume "as_World s' = w \<and> books cs ?s s' 0"
    with s0 calls show ?thesis
      by (intro exI [of _ "[CallGet (in_ID i) (ch_ExternalID c) x]"]) (auto intro: books_trans0)
  next
    assume "write_one env opts i c ?s = (s', err)"
    from write_one_books [OF this c] obtain T where
      "wd_Calls (as_World s') = wd_Calls w @ T" "books cs ?s s' (writes T)" by auto
    with s0 calls show ?thesis
      by (intro exI [of _ "CallGet (in_ID i) (ch_ExternalID c) x # T"]) (auto intro: books_trans0)
  qed
qed

lemma apply_loop_books:
  "apply_loop env opts B cs s = (s', err) \<Longrightarrow> set cs \<subseteq> set ds \<Longrightarrow> \<not> ao_DryRun opts \<Longrightarrow>
     \<exists>T. wd_Calls (as_World s') = wd_Calls (as_World s) @ T \<and> books ds s s' (writes T)"
proof (induction cs arbitrary: s)
  case Nil
  then show ?case by (auto intro: books_same)
next
  case (Cons c cs)
  obtain s1 e1 where one: "apply_one env opts B c s = (s1, e1)" by force
  from apply_one_books [OF one, of ds] Cons.prems obtain T where
    T: "wd_Calls (as_World s1) = wd_Calls (as_World s) @ T" "books ds s s1 (writes T)" by auto
  show ?case
  proof (cases e1)
    case None
    with Cons.prems one have "apply_loop env opts B cs s1 = (s', err)" by simp
    from Cons.IH [OF this] Cons.prems obtain U where
      "wd_Calls (as_World s') = wd_Calls (as_World s1) @ U" "books ds s1 s' (writes U)" by auto
    with T show ?thesis using books_trans [OF T(2)] by (intro exI [of _ "T @ U"]) auto
  next
    case (Some e)
    with Cons.prems one have "s' = s1" by simp
    with T show ?thesis by auto
  qed
qed

lemma refuse_books: "books ds s (refuse_one env opts s c) 0"
proof -
  have "books ds s (s\<lparr>as_Report := (as_Report s)\<lparr>ay_Unknown := n\<rparr>\<rparr>) 0"
    "books ds s (s\<lparr>as_Report := (as_Report s)\<lparr>ay_Guarded := n\<rparr>\<rparr>) 0" for n
    by (rule books_same; simp)+
  from books_trans0 [OF this(1) audit_books] books_trans0 [OF this(2) audit_books] show ?thesis
    by (cases "ch_Class c") (auto simp: refuse_one_def books_same)
qed

lemma refuse_fold_books: "books ds s (foldl (refuse_one env opts) s cs) 0"
  by (induction cs arbitrary: s) (auto intro: books_same books_trans0 [OF refuse_books])

text \<open>The audit entries of a store refer to its runs, so a run that starts finds none of its own.\<close>

definition audit_refs :: "Database \<Rightarrow> bool" where
  "audit_refs db \<longleftrightarrow> (\<forall>r \<in> set (d_Audit db). \<forall>i. au_RunID r = Some i \<longrightarrow> has_run db i)"

lemma start_run_books:
  assumes "audit_refs db" "\<forall>c \<in> set cs. has_user db (ch_UserID c) \<and> has_provider db (ch_ProviderID c)"
  shows "referenced (ay_RunID (as_Report (start_run env opts (start_state opts w db)))) cs
      (as_DB (start_run env opts (start_state opts w db)))"
    and "applied_rows (ay_RunID (as_Report (start_run env opts (start_state opts w db))))
      (as_DB (start_run env opts (start_state opts w db))) = 0"
    and "ay_Applied (as_Report (start_run env opts (start_state opts w db))) = 0"
proof -
  let ?i = "next_id rr_ID (d_Runs db)"
  have "\<not> has_run db ?i" using next_id_fresh [of _ "d_Runs db" rr_ID] by (force simp: has_run_def)
  with assms(1) have "filter (\<lambda>r. au_RunID r = Some ?i \<and> au_Result r = AuditApplied) (d_Audit db) = []"
    by (auto simp: audit_refs_def filter_empty_conv)
  then show "applied_rows (ay_RunID (as_Report (start_run env opts (start_state opts w db))))
      (as_DB (start_run env opts (start_state opts w db))) = 0"
    by (simp add: start_run_def StartRun_def start_state_def applied_rows_def Let_def)
  show "referenced (ay_RunID (as_Report (start_run env opts (start_state opts w db)))) cs
      (as_DB (start_run env opts (start_state opts w db)))"
    using assms(2)
    by (simp add: start_run_def StartRun_def start_state_def referenced_def Let_def has_run_def has_user_def has_provider_def)
  show "ay_Applied (as_Report (start_run env opts (start_state opts w db))) = 0"
    by (simp add: start_run_def StartRun_def start_state_def new_report_def Let_def)
qed

lemma track_guarded_audit: "track_guarded now cs db = (db', fresh) \<Longrightarrow> d_Audit db' = d_Audit db"
proof (induction cs arbitrary: db db' fresh)
  case (Cons c cs)
  obtain db1 b where one: "SeenGuardedChange (guard_key c) now db = (db1, b)" by force
  then have "d_Audit db1 = d_Audit db" by (auto simp: SeenGuardedChange_def Let_def)
  with one Cons show ?case by (auto split: prod.splits)
qed simp

lemma notify_audit:
  "d_Audit (as_DB (notifyOutcome env opts plan s)) = d_Audit (as_DB s)"
  "as_Report (notifyOutcome env opts plan s) = as_Report s"
  "as_DB (finish env s) = (as_DB s)\<lparr>d_Runs := d_Runs (as_DB (finish env s))\<rparr>"
  by (auto simp: notifyOutcome_def finish_def FinishRun_def ForgetGuardedChanges_def Let_def
      split: option.splits prod.splits dest: track_guarded_audit)

text \<open>A run's report and its audit log agree, and both with what the adapters were asked.\<close>

lemma EngineApply_books:
  assumes run: "EngineApply env instances plan opts w db = (s', err)" and dry: "\<not> ao_DryRun opts"
    and new: "\<not> too_old opts (clock env w)" and refs: "audit_refs db"
    and known: "\<forall>c \<in> set (pl_Changes plan). has_user db (ch_UserID c) \<and> has_provider db (ch_ProviderID c)"
  shows "\<exists>T. wd_Calls (as_World s') = wd_Calls w @ T \<and> ay_Applied (as_Report s') = writes T \<and>
     applied_rows (ay_RunID (as_Report s')) (as_DB s') = writes T"
proof -
  let ?ds = "pl_Changes plan" and ?start = "start_run env opts (start_state opts w db)"
  let ?s = "foldl (refuse_one env opts) ?start ?ds"
  obtain s1 e1 where loop: "apply_loop env opts (by_provider instances)
      (Applicable plan (ao_ConsentShrink opts)) ?s = (s1, e1)" by force
  have "set (Applicable plan (ao_ConsentShrink opts)) \<subseteq> set ?ds" by (auto simp: Applicable_filter)
  from apply_loop_books [OF loop this dry] obtain T where
    T: "wd_Calls (as_World s1) = wd_Calls w @ T" "books ?ds ?s s1 (writes T)"
    by (auto simp: start_state_def)
  have "books ?ds ?start s1 (writes T)" using T(2) books_trans0 [OF refuse_fold_books] by blast
  with start_run_books [OF refs known, of env opts w]
  have s1: "ay_Applied (as_Report s1) = writes T" "applied_rows (ay_RunID (as_Report s1)) (as_DB s1) = writes T"
    by (auto simp: books_def)
  obtain N where N: "wd_Calls (as_World (notifyOutcome env opts plan s1)) = wd_Calls (as_World s1) @ N" "only_notifies N"
    using notifyOutcome_calls by blast
  have none: "writes N = 0"
    using N(2) by (induction N) (auto simp: only_notifies_def)
  have fin: "applied_rows i (as_DB (finish env s)) = applied_rows i (as_DB s)" for i s
    by (subst notify_audit(3)) (simp add: applied_rows_def)
  have told: "applied_rows i (as_DB (notifyOutcome env opts plan s)) = applied_rows i (as_DB s)" for i s
    by (simp add: applied_rows_def notify_audit(1))
  show ?thesis
  proof (cases e1)
    case None
    with run new loop have "s' = finish env (notifyOutcome env opts plan s1)"
      by (auto simp: EngineApply_def Let_def)
    with T(1) N(1) none s1 show ?thesis
      by (intro exI [of _ "T @ N"]) (simp add: fin told notify_audit(1,2))
  next
    case (Some e)
    with run new loop have "s' = finish env s1" by (auto simp: EngineApply_def Let_def)
    with T(1) s1 show ?thesis by (intro exI [of _ T]) (simp add: fin)
  qed
qed

end
