(* ===== verification/Observe.thy ===== *)
theory Observe
  imports Link
begin

text \<open>
  \<open>internal/reconcile/observe.go\<close>: reading every provider, storing what was found, and linking
  once over all of them. Log lines are not kept.
\<close>

section \<open>One provider\<close>

definition observe_text :: "'w Env \<Rightarrow> observe_error \<Rightarrow> string" where
  "observe_text env e =
     (case e of ListFailed es \<Rightarrow> env_Error env (AdapterErrs es)
      | StoreFailed s \<Rightarrow> ''store accounts: '' @ env_Error env (StoreErr s))"

definition health_text :: "'w Env \<Rightarrow> HealthResult \<Rightarrow> string" where
  "health_text env h = (case he_Err h of None \<Rightarrow> [] | Some e \<Rightarrow> env_Error env (AdapterErr e))"

definition new_result :: "'w Instance \<Rightarrow> ProviderResult" where
  "new_result i = \<lparr>rs_Name = in_Name i, rs_Type = pi_Type (pr_Inst (in_Row i)), rs_Observed = 0, rs_Skipped = 0,
     rs_Linked = 0, rs_Issues = 0, rs_Err = None\<rparr>"

definition count_accounts :: "Account list \<Rightarrow> ProviderResult \<Rightarrow> ProviderResult" where
  "count_accounts accounts r =
     r\<lparr>rs_Observed := length accounts, rs_Skipped := length (filter (\<lambda>a. \<not> Account_Writable a) accounts)\<rparr>"

definition observeOne ::
  "'w Env \<Rightarrow> 'w Instance \<Rightarrow> 'w World \<Rightarrow> Database \<Rightarrow> ProviderResult \<times> 'w World \<times> Database" where
  "observeOne env i w db =
     (case call_Health i w of (health, w) \<Rightarrow>
        let db = SaveHealth (in_ID i) health (health_text env health) db;
            result = new_result i in
        if \<not> cap_CanReadUsers (ad_Capabilities (in_Provider i)) then (result, w, db)
        else case call_List i w of
          (Inl es, w) \<Rightarrow>
            let e = ListFailed es in
            (result\<lparr>rs_Err := Some e\<rparr>, w,
             SaveObserveResult (in_ID i) (clock env w) False (observe_text env e) db)
        | (Inr accounts, w) \<Rightarrow>
            let observedAt = clock env w;
                result = count_accounts accounts result in
            (case ReplaceExternalAccounts (in_ID i) accounts observedAt db of
               Inl s \<Rightarrow>
                 let e = StoreFailed s in
                 (result\<lparr>rs_Err := Some e\<rparr>, w,
                  SaveObserveResult (in_ID i) observedAt False (observe_text env e) db)
             | Inr db \<Rightarrow> (result, w, SaveObserveResult (in_ID i) observedAt True [] db)))"

section \<open>A cycle\<close>

fun observe_all ::
  "'w Env \<Rightarrow> 'w Instance list \<Rightarrow> 'w World \<Rightarrow> Database \<Rightarrow> ProviderResult list \<times> 'w World \<times> Database" where
  "observe_all env [] w db = ([], w, db)"
| "observe_all env (i # is) w db =
     (case observeOne env i w db of (r, w, db) \<Rightarrow>
        (case observe_all env is w db of (rs, w, db) \<Rightarrow> (r # rs, w, db)))"

definition Observe ::
  "'w Env \<Rightarrow> MapOrder \<Rightarrow> 'w Instance list \<Rightarrow> 'w World \<Rightarrow> Database \<Rightarrow>
   (Report \<times> store_error option) \<times> 'w World \<times> Database" where
  "Observe env ord instances w db =
     (let started = clock env w in
      case observe_all env instances w db of (results, w, db) \<Rightarrow>
        (case link ord (clock env w) instances results db of ((db, results), err) \<Rightarrow>
           ((\<lparr>rp_StartedAt = started, rp_FinishedAt = clock env w, rp_Providers = results\<rparr>, err), w, db)))"

section \<open>Observing sends no write\<close>

definition reads_only :: "Call list \<Rightarrow> bool" where
  "reads_only T \<longleftrightarrow> (\<forall>x \<in> set T. (\<exists>p. x = CallHealth p) \<or> (\<exists>p. x = CallList p))"

lemma observeOne_calls:
  assumes "observeOne env i w db = (r, w', db')"
  shows "\<exists>T. wd_Calls w' = wd_Calls w @ T \<and> reads_only T"
proof -
  obtain h w1 where h: "call_Health i w = (h, w1)" by force
  obtain a w2 where a: "call_List i w1 = (a, w2)" by force
  from assms h a have "w' = w1 \<or> w' = w2"
    by (auto simp: observeOne_def Let_def split: if_splits sum.splits prod.splits)
  with call_Health_calls [OF h] call_List_calls [OF a] show ?thesis
    by (auto simp: reads_only_def)
qed

lemma observe_all_calls:
  "observe_all env is w db = (rs, w', db') \<Longrightarrow> \<exists>T. wd_Calls w' = wd_Calls w @ T \<and> reads_only T"
proof (induction "is" arbitrary: w db rs)
  case Nil
  then show ?case by (auto simp: reads_only_def)
next
  case (Cons i "is")
  obtain r w1 db1 where one: "observeOne env i w db = (r, w1, db1)" by (metis prod_cases3)
  with Cons.prems obtain rs' where "observe_all env is w1 db1 = (rs', w', db')"
    by (auto split: prod.splits)
  from Cons.IH [OF this] observeOne_calls [OF one] show ?case
    by (fastforce simp: reads_only_def)
qed

lemma Observe_calls:
  assumes "Observe env ord instances w db = (res, w', db')"
  shows "\<exists>T. wd_Calls w' = wd_Calls w @ T \<and> reads_only T"
proof -
  obtain rs w1 db1 where all: "observe_all env instances w db = (rs, w1, db1)" by (metis prod_cases3)
  with assms have "w' = w1" by (auto simp: Observe_def Let_def split: prod.splits)
  with observe_all_calls [OF all] show ?thesis by simp
qed

section \<open>What is stored\<close>

text \<open>Provider rows keep their identity and configuration; every other table keeps its contents.\<close>

lemma update_provider_frame [simp]:
  "d_Accounts (update_provider i f db) = d_Accounts db" "d_Links (update_provider i f db) = d_Links db"
  "d_Issues (update_provider i f db) = d_Issues db" "d_Users (update_provider i f db) = d_Users db"
  by (simp_all add: update_provider_def)

lemma health_frame [simp]:
  "d_Accounts (SaveHealth i h m db) = d_Accounts db" "d_Links (SaveHealth i h m db) = d_Links db"
  "d_Issues (SaveHealth i h m db) = d_Issues db" "d_Users (SaveHealth i h m db) = d_Users db"
  "d_Accounts (SaveObserveResult i t ok m db) = d_Accounts db" "d_Links (SaveObserveResult i t ok m db) = d_Links db"
  "d_Issues (SaveObserveResult i t ok m db) = d_Issues db" "d_Users (SaveObserveResult i t ok m db) = d_Users db"
  by (simp_all add: SaveHealth_def SaveObserveResult_def)

lemma list_frame: "d_Accounts db' = d_Accounts db \<Longrightarrow> ListExternalAccounts p db' = ListExternalAccounts p db"
  by (simp add: ListExternalAccounts_def)

text \<open>A provider that answered: the stored accounts are the reported ones. One that did not: nothing moves.\<close>

lemma observeOne_failed:
  assumes "observeOne env i w db = (r, w', db')" "\<not> ProviderResult_OK r"
  shows "d_Accounts db' = d_Accounts db" "d_Links db' = d_Links db" "d_Issues db' = d_Issues db"
  using assms
  by (auto simp: observeOne_def Let_def ProviderResult_OK_def new_result_def count_accounts_def
      split: if_splits sum.splits prod.splits)

lemma observeOne_stored:
  assumes run: "observeOne env i w db = (r, w', db')" "ProviderResult_OK r"
    and reads: "cap_CanReadUsers (ad_Capabilities (in_Provider i))" and ok: "tbl_ok account_key (d_Accounts db)"
  shows "\<exists>accounts w1 xs. fst (ad_ListAccounts (in_Provider i) w1) = Inr accounts \<and>
     rs_Observed r = length accounts \<and> ListExternalAccounts (in_ID i) db' = Inr xs \<and>
     map xa_ExternalID xs = sorted_list_of_set (ac_ExternalID ` set accounts) \<and>
     (\<forall>x \<in> set xs. \<exists>a \<in> set accounts. reports a x)"
proof -
  obtain h w1 where h: "call_Health i w = (h, w1)" by force
  obtain a w2 where a: "call_List i w1 = (a, w2)" by force
  let ?db = "SaveHealth (in_ID i) h (health_text env h) db"
  note eqs = run(1) [unfolded observeOne_def h prod.case Let_def] run(2) reads a
  obtain accounts where acc: "a = Inr accounts"
    using eqs by (cases a) (auto simp: ProviderResult_OK_def)
  obtain db1 where rep: "ReplaceExternalAccounts (in_ID i) accounts (clock env w2) ?db = Inr db1"
    using eqs acc by (cases "ReplaceExternalAccounts (in_ID i) accounts (clock env w2) ?db") (auto simp: ProviderResult_OK_def)
  have r: "r = count_accounts accounts (new_result i)"
    and db': "db' = SaveObserveResult (in_ID i) (clock env w2) True [] db1"
    using run(1) [symmetric] by (simp_all add: observeOne_def h a acc rep reads Let_def)
  have "tbl_ok account_key (d_Accounts ?db)" using ok by simp
  from ReplaceExternalAccounts_list [OF rep this] obtain xs where
    xs: "ListExternalAccounts (in_ID i) db1 = Inr xs"
      "map xa_ExternalID xs = sorted_list_of_set (ac_ExternalID ` set accounts)"
      "\<forall>x \<in> set xs. \<exists>a \<in> set accounts. reports a x" by blast
  have "ListExternalAccounts (in_ID i) db' = Inr xs" using xs(1) list_frame [of db' db1] by (simp add: db')
  moreover have "fst (ad_ListAccounts (in_Provider i) (wd_State w1)) = Inr accounts"
    using a acc by (auto simp: call_List_def split: prod.splits)
  moreover have "rs_Observed r = length accounts" by (simp add: r count_accounts_def)
  ultimately show ?thesis using xs(2,3) by blast
qed

section \<open>Providers do not disturb each other\<close>

text \<open>What the store holds of one provider: its accounts, its links and its open issues.\<close>

definition same_at :: "RowID \<Rightarrow> Database \<Rightarrow> Database \<Rightarrow> bool" where
  "same_at p db db' \<longleftrightarrow>
     filter (\<lambda>r. ar_ProviderID r = p) (d_Accounts db') = filter (\<lambda>r. ar_ProviderID r = p) (d_Accounts db) \<and>
     filter (\<lambda>l. lk_ProviderID l = p) (d_Links db') = filter (\<lambda>l. lk_ProviderID l = p) (d_Links db) \<and>
     filter (\<lambda>i. li_ProviderID i = p) (d_Issues db') = filter (\<lambda>i. li_ProviderID i = p) (d_Issues db)"

lemma same_at_refl [simp]: "same_at p db db"
  by (simp add: same_at_def)

lemma same_at_trans: "same_at p a b \<Longrightarrow> same_at p b c \<Longrightarrow> same_at p a c"
  by (simp add: same_at_def)

lemma filter_tbl_put: "\<not> P row \<Longrightarrow> (\<And>r. key r = key row \<Longrightarrow> \<not> P r) \<Longrightarrow>
    filter P (tbl_put key row rows) = filter P rows"
  by (induction rows) auto

lemma filter_tbl_del: "(\<And>r. key r = k \<Longrightarrow> \<not> P r) \<Longrightarrow> filter P (tbl_del key k rows) = filter P rows"
  by (induction rows) (auto simp: tbl_del_def)

lemma filter_tbl_update: "(\<And>r. Q r \<Longrightarrow> \<not> P r) \<Longrightarrow> (\<And>r. Q r \<Longrightarrow> \<not> P (f r)) \<Longrightarrow>
    filter P (tbl_update Q f rows) = filter P rows"
  by (induction rows) (auto simp: tbl_update_def)

lemma store_accounts_same:
  "store_accounts q t accounts db = Inr db' \<Longrightarrow> p \<noteq> q \<Longrightarrow> same_at p db db'"
proof (induction accounts arbitrary: db)
  case (Cons a accounts)
  let ?db = "db\<lparr>d_Accounts := put_account (account_row q t a) (d_Accounts db)\<rparr>"
  from Cons.prems have "store_accounts q t accounts ?db = Inr db'"
    by (auto split: if_splits option.splits)
  from Cons.IH [OF this Cons.prems(2)] have "same_at p ?db db'" .
  moreover have "same_at p db ?db"
    using Cons.prems(2)
    by (auto simp: same_at_def put_account_def account_row_def account_key_def intro!: filter_tbl_put)
  ultimately show ?case by (rule same_at_trans [rotated])
qed simp

lemma fold_del_same:
  "p \<noteq> q \<Longrightarrow> filter (\<lambda>r. ar_ProviderID r = p) (foldl (\<lambda>rows i. tbl_del account_key (q, i) rows) rows is) =
     filter (\<lambda>r. ar_ProviderID r = p) rows"
proof (induction "is" arbitrary: rows)
  case (Cons i "is")
  have "filter (\<lambda>r. ar_ProviderID r = p) (tbl_del account_key (q, i) rows) = filter (\<lambda>r. ar_ProviderID r = p) rows"
    by (rule filter_tbl_del) (use Cons.prems in \<open>auto simp: account_key_def\<close>)
  with Cons show ?case by simp
qed simp

lemma ReplaceExternalAccounts_same:
  assumes "ReplaceExternalAccounts q accounts t db = Inr db'" "p \<noteq> q"
  shows "same_at p db db'"
proof -
  from assms(1) obtain db1 is' where one: "store_accounts q t accounts db = Inr db1"
    and db': "db' = db1\<lparr>d_Accounts := foldl (\<lambda>rows i. tbl_del account_key (q, i) rows) (d_Accounts db1) is'\<rparr>"
    by (auto simp: ReplaceExternalAccounts_def bind_result_eq_Inr Let_def)
  have "same_at p db1 db'" using assms(2) by (simp add: db' same_at_def fold_del_same)
  with store_accounts_same [OF one assms(2)] show ?thesis by (rule same_at_trans)
qed

lemma provider_rows_same [simp]:
  "same_at p db (SaveHealth i h m db)" "same_at p db (SaveObserveResult i t ok m db)"
  "same_at p a (SaveObserveResult i t ok m db) = same_at p a db" "same_at p (SaveHealth i h m db) b = same_at p db b"
  by (simp_all add: same_at_def)

lemma observeOne_same:
  assumes "observeOne env i w db = (r, w', db')" "p \<noteq> in_ID i \<or> \<not> ProviderResult_OK r"
  shows "same_at p db db'"
proof (cases "ProviderResult_OK r")
  case False
  from observeOne_failed [OF assms(1) this] show ?thesis by (simp add: same_at_def)
next
  case True
  then have p: "p \<noteq> in_ID i" using assms(2) by simp
  obtain h w1 where h: "call_Health i w = (h, w1)" by force
  obtain a w2 where a: "call_List i w1 = (a, w2)" by force
  note run = assms(1) [unfolded observeOne_def h prod.case Let_def a]
  show ?thesis
  proof (cases "cap_CanReadUsers (ad_Capabilities (in_Provider i)) \<and> is_ok a")
    case False
    with run show ?thesis by (cases a) (auto split: if_splits)
  next
    case True
    then obtain accounts where acc: "a = Inr accounts" by (cases a) auto
    show ?thesis
    proof (cases "ReplaceExternalAccounts (in_ID i) accounts (clock env w2) (SaveHealth (in_ID i) h (health_text env h) db)")
      case (Inl e)
      with run acc True show ?thesis by auto
    next
      case (Inr db1)
      from ReplaceExternalAccounts_same [OF this p] have "same_at p db db1" by simp
      with run acc True Inr show ?thesis by auto
    qed
  qed
qed

lemma observe_all_same:
  "observe_all env is w db = (rs, w', db') \<Longrightarrow>
     (\<And>i r. (i, r) \<in> set (zip is rs) \<Longrightarrow> in_ID i = p \<Longrightarrow> \<not> ProviderResult_OK r) \<Longrightarrow>
     same_at p db db'"
proof (induction "is" arbitrary: w db rs)
  case (Cons i "is")
  obtain r w1 db1 where one: "observeOne env i w db = (r, w1, db1)" by (metis prod_cases3)
  with Cons.prems(1) obtain rs' where rest: "observe_all env is w1 db1 = (rs', w', db')" and rs: "rs = r # rs'"
    by (auto split: prod.splits)
  have "same_at p db db1"
    by (rule observeOne_same [OF one]) (use Cons.prems(2) rs in auto)
  moreover have "same_at p db1 db'"
    by (rule Cons.IH [OF rest]) (use Cons.prems(2) rs in auto)
  ultimately show ?case by (rule same_at_trans)
qed simp

lemma observe_all_names:
  "observe_all env is w db = (rs, w', db') \<Longrightarrow> map rs_Name rs = map in_Name is"
proof (induction "is" arbitrary: w db rs)
  case (Cons i "is")
  obtain r w1 db1 where one: "observeOne env i w db = (r, w1, db1)" by (metis prod_cases3)
  with Cons.prems(1) obtain rs' where rest: "observe_all env is w1 db1 = (rs', w', db')" and rs: "rs = r # rs'"
    by (auto split: prod.splits)
  have "rs_Name r = in_Name i"
    using one by (auto simp: observeOne_def Let_def new_result_def count_accounts_def
        split: if_splits sum.splits prod.splits)
  with Cons.IH [OF rest] rs show ?case by simp
qed simp

lemma each_same:
  assumes "\<And>x db db'. x \<in> set xs \<Longrightarrow> f x db = Inr db' \<Longrightarrow> same_at p db db'"
  shows "same_at p db (fst (each f xs db))"
  using assms
proof (induction xs arbitrary: db)
  case (Cons x xs)
  show ?case
  proof (cases "f x db")
    case (Inr db1)
    have "same_at p db db1" using Cons.prems [of x db db1] Inr by simp
    moreover have "same_at p db1 (fst (each f xs db1))"
      by (rule Cons.IH) (use Cons.prems in \<open>meson list.set_intros(2)\<close>)
    ultimately show ?thesis using Inr by (auto intro: same_at_trans)
  qed simp
qed simp

lemma UpsertLink_same:
  assumes "UpsertLink now l db = Inr db'" "lk_ProviderID l \<noteq> p"
  shows "same_at p db db'"
proof -
  have keys: "lk_ProviderID r = lk_ProviderID l" if "link_key r = link_key l" for r
    using that by (simp add: link_key_def)
  show ?thesis
    using assms unfolding UpsertLink_def same_at_def
    by (auto simp: Let_def link_key_def intro!: filter_tbl_put split: if_splits)
qed

lemma SetAccountOwner_same:
  assumes "SetAccountOwner q e u db = Inr db'" "q \<noteq> p"
  shows "same_at p db db'"
  using assms unfolding SetAccountOwner_def same_at_def
  by (auto simp: account_key_def intro!: filter_tbl_update split: if_splits)

lemma ReplaceLinkIssues_same:
  assumes "ReplaceLinkIssues q issues db = Inr db'" "q \<noteq> p"
  shows "same_at p db db'"
proof -
  have "db' = db\<lparr>d_Issues := filter (\<lambda>i. li_ProviderID i \<noteq> q) (d_Issues db) @ map (li_ProviderID_update (\<lambda>_. q)) issues\<rparr>"
    using assms(1) by (auto simp: ReplaceLinkIssues_def Let_def split: if_splits)
  moreover have "filter (\<lambda>i. li_ProviderID i = p) (map (li_ProviderID_update (\<lambda>_. q)) issues) = []"
    using assms(2) by (auto simp: filter_empty_conv)
  moreover have "filter (\<lambda>i. li_ProviderID i = p) (filter (\<lambda>i. li_ProviderID i \<noteq> q) is) =
      filter (\<lambda>i. li_ProviderID i = p) is" for "is" :: "LinkIssue list"
    using assms(2) by (induction "is") auto
  ultimately show ?thesis by (simp add: same_at_def)
qed

lemma persist_same:
  assumes "ls_ID s \<noteq> p" "\<forall>l \<in> set (ls_NewLinks s). lk_ProviderID l = ls_ID s"
  shows "same_at p db (fst (persist now s db))"
proof -
  let ?own = "\<lambda>a. SetAccountOwner (ls_ID s) (xa_ExternalID a) (map_of (ls_Owner s) (xa_ExternalID a))"
  obtain db1 e1 where one: "each (UpsertLink now) (ls_NewLinks s) db = (db1, e1)" by force
  obtain db2 e2 where two: "each ?own (ls_Accounts s) db1 = (db2, e2)" by force
  have "same_at p db (fst (each (UpsertLink now) (ls_NewLinks s) db))"
    by (rule each_same) (metis UpsertLink_same assms)
  then have s1: "same_at p db db1" by (simp add: one)
  have "same_at p db1 (fst (each ?own (ls_Accounts s) db1))"
    by (rule each_same) (metis SetAccountOwner_same assms(1))
  then have s2: "same_at p db db2" using s1 by (auto simp: two intro: same_at_trans)
  have "same_at p db2 db3" if "ReplaceLinkIssues (ls_ID s) (ls_Issues s) db2 = Inr db3" for db3
    using ReplaceLinkIssues_same [OF that] assms(1) by simp
  then have s3: "same_at p db db3" if "ReplaceLinkIssues (ls_ID s) (ls_Issues s) db2 = Inr db3" for db3
    using that s2 by (auto intro: same_at_trans)
  show ?thesis
    using s1 s2 s3 unfolding persist_def by (auto simp: one two split: option.splits sum.splits)
qed

lemma collectIssues_simps [simp]:
  "ls_Row (collectIssues users s) = ls_Row s" "ls_NewLinks (collectIssues users s) = ls_NewLinks s"
proof -
  have u: "ls_Row (foldl collect_user s us) = ls_Row s \<and> ls_NewLinks (foldl collect_user s us) = ls_NewLinks s" for s us
    by (induction us arbitrary: s) (auto simp: collect_user_def)
  have a: "ls_Row (foldl collect_account s as) = ls_Row s \<and> ls_NewLinks (foldl collect_account s as) = ls_NewLinks s" for s as
    by (induction as arbitrary: s) (auto simp: collect_account_def)
  show "ls_Row (collectIssues users s) = ls_Row s" "ls_NewLinks (collectIssues users s) = ls_NewLinks s"
    by (simp_all add: collectIssues_def u a)
qed

lemma persist_all_same:
  "\<forall>s \<in> set ss. ls_ID s \<noteq> p \<and> (\<forall>l \<in> set (ls_NewLinks s). lk_ProviderID l = ls_ID s) \<Longrightarrow>
     same_at p db (fst (fst (persist_all now users ss results db)))"
proof (induction ss arbitrary: results db)
  case (Cons s ss)
  let ?s = "collectIssues users s"
  have id: "ls_ID ?s = ls_ID s" by (simp add: ls_ID_def)
  obtain db1 e where one: "persist now ?s db = (db1, e)" by force
  have "same_at p db (fst (persist now ?s db))"
    using Cons.prems by (intro persist_same) (simp_all add: id)
  then have s1: "same_at p db db1" by (simp add: one)
  have "same_at p db1 (fst (fst (persist_all now users ss (count_result ?s results) db1)))"
    using Cons.prems by (intro Cons.IH) simp
  with s1 have "same_at p db (fst (fst (persist_all now users ss (count_result ?s results) db1)))"
    by (rule same_at_trans)
  with s1 show ?case by (simp add: one Let_def split: option.split)
qed simp

lemma loadStates_healthy:
  "loadStates is results existing db = Inr states \<Longrightarrow> s \<in> set states \<Longrightarrow>
     \<exists>i \<in> set is. \<exists>k. ls_ID s = in_ID i \<and> result_of results (in_Name i) = Some k \<and> ProviderResult_OK (results ! k)"
proof (induction "is" arbitrary: states)
  case (Cons i "is")
  from Cons.prems(1) consider (skip) "loadStates is results existing db = Inr states"
    | (more) k accounts rest where "loadStates is results existing db = Inr rest"
        "states = new_state (in_Row i) k accounts existing # rest"
        "result_of results (in_Name i) = Some k" "ProviderResult_OK (results ! k)"
    by (auto simp: bind_result_def split: option.splits if_splits sum.splits)
  then show ?case
  proof cases
    case skip
    from Cons.IH [OF this Cons.prems(2)] show ?thesis by auto
  next
    case more
    have "ls_ID (new_state (in_Row i) k accounts existing) = in_ID i"
      by (simp add: new_state_def ls_ID_def in_ID_def)
    with more Cons.IH [OF more(1)] Cons.prems(2) show ?thesis by auto
  qed
qed simp

lemma link_same:
  assumes ok: "accounts_ok db" "distinct (map u_ID (d_Users db))" and ord: "order_ok ord"
    and run: "link ord now instances results db = ((db', results'), err)"
    and p: "\<And>i k. i \<in> set instances \<Longrightarrow> in_ID i = p \<Longrightarrow> result_of results (in_Name i) = Some k \<Longrightarrow>
      \<not> ProviderResult_OK (results ! k)"
  shows "same_at p db db'"
proof (cases "loadStates instances results (ListLinks db) db")
  case (Inl e)
  with run show ?thesis by (simp add: link_def)
next
  case (Inr states)
  let ?users = "active_users db"
  have st: "\<forall>s \<in> set states. pass_ok (ls_Linked s) s \<and> ls_NewLinks s = []"
    using loadStates_ok(1) [OF Inr ok(1)] by blast
  obtain final where final: "match_all ord now ?users states = map final states"
    and fin: "\<forall>s \<in> set states. pass_ok (ls_Linked s) (final s) \<and> keeps s (final s)"
    using match_all_ok [OF st active_users_distinct [OF ok(2)] ord, of now] by blast
  have "ls_ID (final s) \<noteq> p" if "s \<in> set states" for s
  proof -
    have "ls_ID (final s) = ls_ID s" using fin that keeps_ID by blast
    moreover have "ls_ID s \<noteq> p" using loadStates_healthy [OF Inr that] p by metis
    ultimately show ?thesis by simp
  qed
  moreover have "\<forall>l \<in> set (ls_NewLinks (final s)). lk_ProviderID l = ls_ID (final s)" if "s \<in> set states" for s
    using fin that unfolding pass_ok_def new_ok_def by blast
  ultimately have "same_at p db (fst (fst (persist_all now ?users (map final states) results db)))"
    by (intro persist_all_same) simp
  moreover have "db' = fst (fst (persist_all now ?users (map final states) results db))"
    using run by (simp add: link_def Inr final)
  ultimately show ?thesis by simp
qed

text \<open>The counts of a result are filled in by the linker, its error never.\<close>

lemma persist_all_errors:
  "map rs_Err (snd (fst (persist_all now users ss results db))) = map rs_Err results"
proof (induction ss arbitrary: results db)
  case (Cons s ss)
  have "map rs_Err (count_result s' results) = map rs_Err results" for s'
    by (cases "ls_Result s' < length results") (simp_all add: count_result_def map_update list_update_same_conv list_update_beyond)
  with Cons show ?case by (simp add: Let_def split: prod.split option.split)
qed simp

lemma link_errors:
  assumes "link ord now instances results db = ((db', results'), err)"
  shows "map rs_Err results' = map rs_Err results"
  using assms persist_all_errors [of now "active_users db" _ results db]
  by (auto simp: link_def split: sum.splits) (metis fst_conv snd_conv)+

lemma filter_upt_eq: "k < n \<Longrightarrow> filter (\<lambda>j. j = k) [0..<n] = [k]"
  by (induction n) (auto simp: filter_empty_conv less_Suc_eq)

lemma result_of_index:
  assumes "map rs_Name results = names" "distinct names" "k < length names"
  shows "result_of results (names ! k) = Some k"
proof -
  have "filter (\<lambda>j. rs_Name (results ! j) = names ! k) [0..<length results] = [k]"
  proof -
    have "rs_Name (results ! j) = names ! k \<longleftrightarrow> j = k" if "j < length results" for j
      using assms that by (metis length_map nth_eq_iff_index_eq nth_map)
    then have "filter (\<lambda>j. rs_Name (results ! j) = names ! k) [0..<length results] = filter (\<lambda>j. j = k) [0..<length results]"
      by (intro filter_cong) auto
    also have "\<dots> = [k]" using assms by (intro filter_upt_eq) (metis length_map)
    finally show ?thesis .
  qed
  then show ?thesis by (simp add: result_of_def)
qed

lemma observeOne_ok:
  assumes run: "observeOne env i w db = (r, w', db')" and ok: "accounts_ok db"
  shows "accounts_ok db' \<and> d_Users db' = d_Users db"
proof -
  have upd: "accounts_ok (update_provider p f a) = accounts_ok a" if "\<And>r. pr_Inst (f r) = pr_Inst r" for p f a
  proof -
    have "provider_id ` set (d_Providers (update_provider p f a)) = provider_id ` set (d_Providers a)"
    proof -
      have "provider_id (f r) = provider_id r" for r using that by (simp add: provider_id_def)
      then have "map provider_id (tbl_update P f rows) = map provider_id rows" for P rows
        by (rule tbl_update_keys)
      then have "provider_id ` set (tbl_update P f rows) = provider_id ` set rows" for P rows
        by (metis set_map)
      then show ?thesis by (simp add: update_provider_def)
    qed
    then show ?thesis by (simp add: accounts_ok_def has_provider_def has_user_def)
  qed
  have same: "accounts_ok (SaveHealth p h m a) = accounts_ok a" "accounts_ok (SaveObserveResult p t b m a) = accounts_ok a"
    for p h m t b a by (simp_all add: SaveHealth_def SaveObserveResult_def upd)
  have users: "d_Users b = d_Users a" if "ReplaceExternalAccounts p as t a = Inr b" for p as t a b
    using that store_accounts_frame by (fastforce simp: ReplaceExternalAccounts_def bind_result_eq_Inr Let_def)
  show ?thesis
    using run ok ReplaceExternalAccounts_ok users
    by (auto simp: observeOne_def Let_def same split: if_splits sum.splits prod.splits)
qed

lemma observe_all_ok:
  "observe_all env is w db = (rs, w', db') \<Longrightarrow> accounts_ok db \<Longrightarrow> accounts_ok db' \<and> d_Users db' = d_Users db"
proof (induction "is" arbitrary: w db rs)
  case (Cons i "is")
  obtain r w1 db1 where one: "observeOne env i w db = (r, w1, db1)" by (metis prod_cases3)
  with Cons.prems(1) obtain rs' where "observe_all env is w1 db1 = (rs', w', db')"
    by (auto split: prod.splits)
  with Cons.IH observeOne_ok [OF one Cons.prems(2)] show ?case by metis
qed simp

text \<open>
  A provider that could not be observed keeps everything the store holds of it through the
  whole cycle, whatever the other providers answer and whatever is linked on them.
\<close>

lemma Observe_isolated:
  assumes run: "Observe env ord instances w db = ((report, err), w', db')"
    and ok: "accounts_ok db" "distinct (map u_ID (d_Users db))" and ord: "order_ok ord"
    and inst: "distinct (map in_ID instances)" "distinct (map in_Name instances)"
    and k: "k < length instances" and failed: "\<not> ProviderResult_OK (rp_Providers report ! k)"
  shows "same_at (in_ID (instances ! k)) db db'"
proof -
  let ?p = "in_ID (instances ! k)"
  obtain rs w1 db1 where all: "observe_all env instances w db = (rs, w1, db1)" by (metis prod_cases3)
  obtain results' where lk: "link ord (clock env w1) instances rs db1 = ((db', results'), err)"
    and rep: "rp_Providers report = results'"
    using run all by (auto simp: Observe_def Let_def split: prod.splits)
  note names = observe_all_names [OF all]
  then have len: "length rs = length instances" by (metis length_map)
  have errs: "map rs_Err results' = map rs_Err rs" by (rule link_errors [OF lk])
  then have "rs_Err (results' ! k) = rs_Err (rs ! k)" using k len by (metis length_map nth_map)
  then have bad: "\<not> ProviderResult_OK (rs ! k)" using failed rep by (simp add: ProviderResult_OK_def)
  have index: "j = k" if "j < length instances" "in_ID (instances ! j) = ?p" for j
    using that k inst(1) by (metis distinct_conv_nth length_map nth_map)
  have s1: "same_at ?p db db1"
  proof (rule observe_all_same [OF all])
    fix i r assume ir: "(i, r) \<in> set (zip instances rs)" "in_ID i = ?p"
    then obtain j where "j < length instances" "i = instances ! j" "r = rs ! j"
      using len by (auto simp: in_set_zip)
    with ir(2) index bad show "\<not> ProviderResult_OK r" by auto
  qed
  have s2: "same_at ?p db1 db'"
  proof (rule link_same [OF _ _ ord lk])
    show "accounts_ok db1" "distinct (map u_ID (d_Users db1))"
      using observe_all_ok [OF all ok(1)] ok(2) by simp_all
    fix i m assume i: "i \<in> set instances" "in_ID i = ?p" "result_of rs (in_Name i) = Some m"
    then obtain j where "j < length instances" "i = instances ! j" by (auto simp: in_set_conv_nth)
    with i index have "i = instances ! k" by auto
    moreover have "result_of rs (map in_Name instances ! k) = Some k"
      by (rule result_of_index [OF names inst(2)]) (use k in simp)
    ultimately show "\<not> ProviderResult_OK (rs ! m)" using i(3) bad k by auto
  qed
  from s1 s2 show ?thesis by (rule same_at_trans)
qed

end
