(* ===== verification/Probe.thy ===== *)
theory Probe
  imports Link
begin

text \<open>
  \<open>internal/reconcile/probe.go\<close>: proving whether a credential can write, by writing a value back
  unchanged, and looking for competing writers.
\<close>

section \<open>The write probe\<close>

record ProbeResult =
  pr_Provider :: string
  pr_Access :: WriteAccess
  pr_Account :: string
  pr_Detail :: string
  pr_Err :: "engine_error option"

definition probe_usable :: "'w Instance \<Rightarrow> ExternalAccount \<Rightarrow> bool" where
  "probe_usable i a \<longleftrightarrow> Quota_IsKnown (xa_Quota a) \<and>
     Quota_Equal (ad_NormalizeQuota (in_Provider i) (xa_Quota a)) (xa_Quota a)"

text \<open>
  The loop: the linked accounts seen, those whose value the provider would rewrite, and the
  first account that can be probed.
\<close>

fun probe_loop ::
  "'w Instance \<Rightarrow> ExternalAccount list \<Rightarrow> nat \<Rightarrow> nat \<Rightarrow> (nat \<times> nat) \<times> ExternalAccount option" where
  "probe_loop i [] linked unnormalized = ((linked, unnormalized), None)"
| "probe_loop i (a # as) linked unnormalized =
     (if xa_UserID a = None \<or> \<not> ExternalAccount_Writable a then probe_loop i as linked unnormalized
      else if \<not> Quota_IsKnown (xa_Quota a) then probe_loop i as (linked + 1) unnormalized
      else if \<not> Quota_Equal (ad_NormalizeQuota (in_Provider i) (xa_Quota a)) (xa_Quota a)
      then probe_loop i as (linked + 1) (unnormalized + 1)
      else ((linked + 1, unnormalized), Some a))"

definition no_target_text :: "string \<Rightarrow> nat \<Rightarrow> nat \<Rightarrow> string" where
  "no_target_text name linked unnormalized =
     (if linked = 0 then
        ''no linked account to probe against: run `nuno observe`, or link one with `nuno link <uid> '' @
        name @ '' <external-id>`''
      else if unnormalized = linked then
        ''all '' @ show_nat linked @ '' linked accounts hold a quota this provider would rewrite, so probing one would change it: adopt the values first''
      else ''none of the '' @ show_nat linked @ '' linked accounts has a readable quota to write back'')"

definition probeTarget ::
  "'w Instance \<Rightarrow> Database \<Rightarrow> engine_error + ExternalAccount option \<times> string" where
  "probeTarget i db =
     (if in_ID i = 0 then Inl NotRegistered
      else case ListExternalAccounts (in_ID i) db of
        Inl e \<Rightarrow> Inl (StoreErr e)
      | Inr accounts \<Rightarrow>
          (case probe_loop i accounts 0 0 of
             (_, Some a) \<Rightarrow> Inr (Some a, [])
           | ((linked, unnormalized), None) \<Rightarrow>
               Inr (None, no_target_text (in_Name i) linked unnormalized)))"

definition persistProbe :: "'w Env \<Rightarrow> 'w Instance \<Rightarrow> WriteAccess \<Rightarrow> 'w World \<Rightarrow> Database \<Rightarrow> Database" where
  "persistProbe env i access w db = SaveWriteAccess (in_ID i) access (clock env w) db"

definition ProbeWrite ::
  "'w Env \<Rightarrow> 'w Instance \<Rightarrow> 'w World \<Rightarrow> Database \<Rightarrow> ProbeResult \<times> 'w World \<times> Database" where
  "ProbeWrite env i w db =
     (let result = \<lparr>pr_Provider = in_Name i, pr_Access = WriteUnproven, pr_Account = [], pr_Detail = [],
                    pr_Err = None\<rparr> in
      if \<not> cap_CanSetUserQuota (ad_Capabilities (in_Provider i))
      then (result\<lparr>pr_Detail := ''this provider cannot set a user quota at all''\<rparr>, w, db)
      else case probeTarget i db of
        Inl e \<Rightarrow> (result\<lparr>pr_Err := Some e\<rparr>, w, db)
      | Inr (None, detail) \<Rightarrow> (result\<lparr>pr_Detail := detail\<rparr>, w, db)
      | Inr (Some candidate, _) \<Rightarrow>
          let result = result\<lparr>pr_Account := xa_ExternalID candidate\<rparr>;
              before = xa_Quota candidate in
          (case call_Set i (xa_ExternalID candidate) before w of
             (Some e, w) \<Rightarrow>
               if IsAuth e then
                 (result\<lparr>pr_Access := WriteNo, pr_Detail := env_Error env (AdapterErr e)\<rparr>, w,
                  persistProbe env i WriteNo w db)
               else if Throttled e \<noteq> None then
                 (result\<lparr>pr_Detail := ''throttled before the probe could finish, which is not a failure: it resumes next cycle'',
                         pr_Err := Some (AdapterErr e)\<rparr>, w, db)
               else (result\<lparr>pr_Err := Some (AdapterErr e)\<rparr>, w, db)
           | (None, w) \<Rightarrow>
               (case call_Get i (xa_ExternalID candidate) w of
                  (Inl e, w) \<Rightarrow> (result\<lparr>pr_Err := Some (ReadBackFailed e)\<rparr>, w, db)
                | (Inr after, w) \<Rightarrow>
                    if \<not> Quota_Equal (ac_Quota after) before then
                      (result\<lparr>pr_Access := WriteNo,
                              pr_Detail := ''wrote '' @ Quota_String before @ '' and read back '' @
                                Quota_String (ac_Quota after) @
                                '': the instance rewrites what it is given beyond what NormalizeQuota accounts for''\<rparr>, w,
                       persistProbe env i WriteNo w db)
                    else
                      (result\<lparr>pr_Access := WriteYes,
                              pr_Detail := ''wrote '' @ Quota_String before @ '' back to '' @
                                xa_ExternalID candidate @ '' unchanged''\<rparr>, w,
                       persistProbe env i WriteYes w db))))"

fun ProbeAll ::
  "'w Env \<Rightarrow> 'w Instance list \<Rightarrow> 'w World \<Rightarrow> Database \<Rightarrow> ProbeResult list \<times> 'w World \<times> Database" where
  "ProbeAll env [] w db = ([], w, db)"
| "ProbeAll env (i # is) w db =
     (case ProbeWrite env i w db of (r, w, db) \<Rightarrow>
        (case ProbeAll env is w db of (rs, w, db) \<Rightarrow> (r # rs, w, db)))"

section \<open>Competing writers\<close>

definition call_Detect ::
  "('w \<Rightarrow> (CompetingWriter list \<times> AdapterError option) \<times> 'w) \<Rightarrow> 'w Instance \<Rightarrow> 'w World \<Rightarrow>
   (CompetingWriter list \<times> AdapterError option) \<times> 'w World" where
  "call_Detect detect i w = (case detect (wd_State w) of (r, s) \<Rightarrow> (r, does (CallDetect (in_ID i)) s w))"

definition degraded_reason :: "CompetingWriter list \<Rightarrow> string" where
  "degraded_reason found = (case found of [] \<Rightarrow> [] | c # _ \<Rightarrow> cw_Setting c @ '' is set: '' @ cw_Detail c)"

definition CheckCompetingWriters ::
  "'w Instance \<Rightarrow> 'w World \<Rightarrow> Database \<Rightarrow>
   (CompetingWriter list \<times> CompetingWriter list \<times> AdapterError option) \<times> 'w World \<times> Database" where
  "CheckCompetingWriters i w db =
     (case ad_Detector (in_Provider i) of
        None \<Rightarrow> (([], [], None), w, db)
      | Some detect \<Rightarrow>
          (case call_Detect detect i w of
             ((_, Some e), w) \<Rightarrow> (([], ad_Undetectable (in_Provider i), Some e), w, db)
           | ((found, None), w) \<Rightarrow>
               let reason = degraded_reason found;
                   db = (if in_ID i \<noteq> 0 \<and> pr_DegradedReason (in_Row i) \<noteq> reason
                         then SetDegraded (in_ID i) reason db else db) in
               ((found, ad_Undetectable (in_Provider i), None), w, db)))"

section \<open>The probe changes no quota\<close>

lemma probe_loop_Some:
  "probe_loop i as l n = (m, Some a) \<Longrightarrow>
     a \<in> set as \<and> xa_UserID a \<noteq> None \<and> ExternalAccount_Writable a \<and> probe_usable i a"
proof (induction as arbitrary: l n)
  case (Cons x as)
  show ?case
  proof (cases "xa_UserID x \<noteq> None \<and> ExternalAccount_Writable x \<and> probe_usable i x")
    case True
    with Cons.prems show ?thesis by (simp add: probe_usable_def)
  next
    case False
    with Cons.prems obtain l' n' where "probe_loop i as l' n' = (m, Some a)"
      by (auto simp: probe_usable_def split: if_splits)
    from Cons.IH [OF this] show ?thesis by simp
  qed
qed simp

lemma probeTarget_Some:
  assumes "probeTarget i db = Inr (Some a, d)"
  shows "\<exists>accounts. ListExternalAccounts (in_ID i) db = Inr accounts \<and> a \<in> set accounts \<and>
     xa_UserID a \<noteq> None \<and> ExternalAccount_Writable a \<and> probe_usable i a"
proof (cases "ListExternalAccounts (in_ID i) db")
  case (Inl e)
  with assms show ?thesis by (simp add: probeTarget_def split: if_splits)
next
  case (Inr accounts)
  obtain m x where loop: "probe_loop i accounts 0 0 = (m, x)" by (meson surj_pair)
  with Inr assms have "x = Some a"
    by (cases m; cases x) (auto simp: probeTarget_def split: if_splits)
  with loop probe_loop_Some [of i accounts 0 0 m a] Inr show ?thesis by blast
qed

text \<open>
  Whatever a probe sends, it is one write of the value the account already holds, a value the
  provider stores as it is, to an account that is linked and writable; it says \<open>WriteYes\<close>
  only when that value was read back.
\<close>

lemma ProbeWrite_calls:
  assumes "ProbeWrite env i w db = (r, w', db')"
  obtains (silent) "w' = w" "db' = db" "pr_Access r = WriteUnproven"
  | (probed) a accounts e T where "ListExternalAccounts (in_ID i) db = Inr accounts" "a \<in> set accounts"
      "xa_UserID a \<noteq> None" "ExternalAccount_Writable a" "probe_usable i a"
      "wd_Calls w' = wd_Calls w @ CallSet (in_ID i) (xa_ExternalID a) (xa_Quota a) e # T"
      "T = [] \<and> e \<noteq> None \<or> e = None \<and> (\<exists>x. T = [CallGet (in_ID i) (xa_ExternalID a) x])"
      "pr_Access r = WriteYes \<Longrightarrow> e = None \<and> (\<exists>x. T = [CallGet (in_ID i) (xa_ExternalID a) (Inr x)] \<and>
         Quota_Equal (ac_Quota x) (xa_Quota a))"
      "pr_Account r = xa_ExternalID a"
proof (cases "cap_CanSetUserQuota (ad_Capabilities (in_Provider i)) \<and> (\<exists>a d. probeTarget i db = Inr (Some a, d))")
  case False
  with assms show ?thesis
    by (intro silent) (auto simp: ProbeWrite_def Let_def split: if_splits sum.splits prod.splits option.splits)
next
  case True
  then obtain a d where cap: "cap_CanSetUserQuota (ad_Capabilities (in_Provider i))"
    and a: "probeTarget i db = Inr (Some a, d)" by blast
  obtain accounts where acc: "ListExternalAccounts (in_ID i) db = Inr accounts" "a \<in> set accounts"
    "xa_UserID a \<noteq> None" "ExternalAccount_Writable a" "probe_usable i a"
    using probeTarget_Some [OF a] by blast
  obtain e w1 where set: "call_Set i (xa_ExternalID a) (xa_Quota a) w = (e, w1)" by force
  note calls = call_Set_calls [OF set]
  show ?thesis
  proof (cases e)
    case (Some x)
    with assms have "w' = w1 \<and> pr_Access r \<noteq> WriteYes \<and> pr_Account r = xa_ExternalID a"
      by (auto simp: ProbeWrite_def Let_def cap a set split: if_splits)
    then show ?thesis
      using calls Some by (intro probed [OF acc, of e "[]"]) simp_all
  next
    case None
    obtain x w2 where get: "call_Get i (xa_ExternalID a) w1 = (x, w2)" by force
    have "w' = w2 \<and> pr_Account r = xa_ExternalID a \<and>
        (pr_Access r = WriteYes \<longrightarrow> (\<exists>y. x = Inr y \<and> Quota_Equal (ac_Quota y) (xa_Quota a)))"
      using assms None by (cases x) (auto simp: ProbeWrite_def Let_def cap a set get split: if_splits)
    then show ?thesis
      using calls call_Get_calls [OF get] None
      by (intro probed [OF acc, of None "[CallGet (in_ID i) (xa_ExternalID a) x]"]) auto
  qed
qed

lemma CheckCompetingWriters_degrades:
  assumes "CheckCompetingWriters i w db = ((found, u, None), w', db')" "found \<noteq> []" "in_ID i \<noteq> 0"
    and "tbl_find provider_id (in_ID i) (d_Providers db) = Some (in_Row i)"
  shows "\<exists>r. tbl_find provider_id (in_ID i) (d_Providers db') = Some r \<and> Degraded r \<and>
     pr_DegradedReason r = degraded_reason found"
proof -
  have nonempty: "degraded_reason found \<noteq> []" using assms(2) by (cases found) (simp_all add: degraded_reason_def)
  have db': "db' = (if pr_DegradedReason (in_Row i) \<noteq> degraded_reason found
      then SetDegraded (in_ID i) (degraded_reason found) db else db)"
    using assms(1,2,3) by (auto simp: CheckCompetingWriters_def Let_def split: option.splits prod.splits)
  have "tbl_find provider_id (in_ID i) (tbl_update (\<lambda>r. provider_id r = in_ID i)
        (pr_DegradedReason_update (\<lambda>_. degraded_reason found)) (d_Providers db)) =
      Some ((in_Row i)\<lparr>pr_DegradedReason := degraded_reason found\<rparr>)"
  proof -
    have "provider_id (in_Row i) = in_ID i" by (simp add: in_ID_def)
    moreover have "provider_id (pr_DegradedReason_update (\<lambda>_. degraded_reason found) r) = provider_id r" for r
      by (simp add: provider_id_def)
    ultimately show ?thesis by (subst tbl_find_update) (simp_all only: assms(4) option.map if_True simp_thms)
  qed
  then show ?thesis
    using assms(4) nonempty by (simp add: db' SetDegraded_def update_provider_def Degraded_def)
qed

end
