(* ===== verification/Examples.thy ===== *)
theory Examples
  imports NcQuota Nextcloud Immich PlanEngine Apply Observe Probe
begin

text \<open>
  Small concrete configurations, used to show that the properties of the development apply:
  a person, a few tiers, a policy, an observed account, and a database holding them.
\<close>

definition bytes :: "int \<Rightarrow> Quota" where
  "bytes n = \<lparr>q_Kind = KindBytes, q_Bytes = word_of_int n\<rparr>"

definition ex_alloc :: "RowID \<Rightarrow> AllocationMode \<Rightarrow> int \<Rightarrow> Allocation" where
  "ex_alloc p m v = \<lparr>al_ProviderID = p, al_Mode = m, al_Value = word_of_int v\<rparr>"

text \<open>A tier of 1000 bytes: 400 for provider 1 and half of the rest for provider 2.\<close>

definition ex_tier :: Tier where
  "ex_tier = \<lparr>t_ID = 1, t_Name = ''family'', t_Budget = bytes 1000, t_IsDefault = True,
     t_Allocations = [ex_alloc 1 ModeAbsolute 400, ex_alloc 2 ModePercent 50]\<rparr>"

definition ex_large :: Tier where
  "ex_large = \<lparr>t_ID = 2, t_Name = ''large'', t_Budget = bytes 5000, t_IsDefault = False,
     t_Allocations = [ex_alloc 1 ModeAbsolute 900]\<rparr>"

definition ex_policy :: Policy where
  "ex_policy = \<lparr>p_Tiers = [1 \<mapsto> ex_tier, 2 \<mapsto> ex_large],
     p_GroupTiers = [''g1'' \<mapsto> 1, ''g2'' \<mapsto> 2], p_DefaultTierID = Some 1\<rparr>"

definition ex_overrides :: UserPolicy where
  "ex_overrides = \<lparr>up_ProviderOverrides = Map.empty, up_TierOverride = None\<rparr>"

definition ex_user :: "string list \<Rightarrow> User" where
  "ex_user gs = \<lparr>u_ID = 7, u_Source = SourceLDAP, u_SourceUUID = ''uuid-7'', u_UID = ''ann'',
     u_Email = ''ann@example.org'', u_DisplayName = ''Ann'', u_Status = UserActive, u_GroupUUIDs = gs\<rparr>"

definition ex_account :: "Quota \<Rightarrow> Quota \<Rightarrow> Quota \<Rightarrow> PlanAccount" where
  "ex_account desired observed used =
     \<lparr>pa_User = ex_user [''g1''], pa_ProviderID = 1, pa_Provider = ''cloud'', pa_ExternalID = ''ann'',
      pa_Desired = desired, pa_Present = True, pa_Observed = observed, pa_Used = used,
      pa_NeverUsed = False, pa_ObserveOK = True, pa_Rule = RuleGroupTier, pa_TierName = ''family''\<rparr>"

text \<open>
  A service with one account, whose quota is the state of the outside world; it stores what it
  is given, or refuses every write.
\<close>

definition ex_remote :: "Quota \<Rightarrow> Account" where
  "ex_remote q = \<lparr>ac_ExternalID = ''ann'', ac_Subject = [], ac_Username = ''ann'', ac_Email = ''ann@example.org'',
     ac_Enabled = True, ac_Deleted = False, ac_Quota = q, ac_Used = bytes 100, ac_ObservedAt = 0,
     ac_NeverUsed = False\<rparr>"

definition ex_adapter :: "AdapterError option \<Rightarrow> int option \<Rightarrow> Quota Adapter" where
  "ex_adapter refusal limit =
     \<lparr>ad_Capabilities = \<lparr>cap_CanReadUsers = True, cap_CanReadUsage = True, cap_CanSetUserQuota = True,
        cap_CanSetDefaultQuota = False, cap_HasGroups = False, cap_MatchKeys = [MatchEmail]\<rparr>,
      ad_Health = (\<lambda>s. (\<lparr>he_Reachable = True, he_Version = ''1'', he_InSupported = True, he_Err = None\<rparr>, s)),
      ad_ListAccounts = (\<lambda>s. (Inr [ex_remote s], s)),
      ad_GetAccount = (\<lambda>e s. if e = ''ann'' then (Inr (ex_remote s), s) else (Inl (PlainError ''not found''), s)),
      ad_SetQuota = (\<lambda>e q s. case refusal of None \<Rightarrow> (None, q) | Some err \<Rightarrow> (Some err, s)),
      ad_NormalizeQuota = (\<lambda>q. q), ad_WriteLimit = limit, ad_Detector = None, ad_Undetectable = []\<rparr>"

definition ex_row :: ProviderRow where
  "ex_row = new_provider 1 \<lparr>pi_ID = 1, pi_Type = ''nextcloud'', pi_Name = ''cloud'', pi_MatchKey = MatchEmail,
     pi_ConfigRef = ''CLOUD''\<rparr>"

definition ex_instance :: "AdapterError option \<Rightarrow> int option \<Rightarrow> Quota Instance" where
  "ex_instance refusal limit = \<lparr>in_Row = ex_row, in_Provider = ex_adapter refusal limit\<rparr>"

definition ex_env :: "Quota Env" where
  "ex_env = \<lparr>env_Now = (\<lambda>_. 1000), env_Sleep = (\<lambda>s. (False, s)), env_Error = (\<lambda>_. ''error''), env_Notifier = None\<rparr>"

definition ex_world :: "Quota \<Rightarrow> Quota World" where
  "ex_world q = \<lparr>wd_State = q, wd_Calls = []\<rparr>"

text \<open>The store: the person, the provider, the account as it was observed, the tier of the group.\<close>

definition ex_link :: AccountLink where
  "ex_link = \<lparr>lk_UserID = 7, lk_ProviderID = 1, lk_ExternalID = ''ann'', lk_Origin = LinkMatched, lk_LinkedAt = 5\<rparr>"

definition ex_db :: "AccountLink list \<Rightarrow> Quota \<Rightarrow> Database" where
  "ex_db ls q = \<lparr>d_Providers = [ex_row], d_Users = [(ex_user [])], d_Groups =
       [\<lparr>g_ID = 3, g_Source = SourceLDAP, g_SourceUUID = ''g1'', g_Name = ''g1'', g_DisplayName = ''g1''\<rparr>],
     d_UserGroups = [(7, 3)], d_Accounts = [(account_row 1 5 (ex_remote q))\<lparr>ar_UserID := map_option lk_UserID (find (\<lambda>_. True) ls)\<rparr>],
     d_Links = ls, d_Issues = [],
     d_Tiers = [\<lparr>tr_ID = 1, tr_Name = ''family'', tr_Budget = Quota_Encode (bytes 1000), tr_IsDefault = True\<rparr>],
     d_Allocations = [(1, ex_alloc 1 ModeAbsolute 400)], d_GroupTiers = [(3, 1)], d_UserTiers = [], d_Overrides = [],
     d_Runs = [], d_Audit = [], d_Notified = [], d_Keys = [], d_Settings = [], d_Plans = []\<rparr>"

definition ex_change :: "Quota \<Rightarrow> Quota \<Rightarrow> Change" where
  "ex_change from to = change_of (ex_account to from (bytes 100))"

definition ex_plan :: "Quota \<Rightarrow> Quota \<Rightarrow> Plan" where
  "ex_plan from to = \<lparr>pl_Changes = [ex_change from to], pl_Unallocated = 0\<rparr>"

definition ex_opts :: "bool \<Rightarrow> ApplyOptions" where
  "ex_opts dry = \<lparr>ao_ConsentShrink = False, ao_DryRun = dry, ao_Actor = ''cli'', ao_PlanWindow = 0, ao_ComputedAt = 0\<rparr>"

text \<open>Go maps ranged over in the order the entries were made.\<close>

definition ex_order :: MapOrder where
  "ex_order = \<lparr>mo_Linked = (\<lambda>_ xs. xs), mo_Keys = (\<lambda>_ xs. xs), mo_Owned = (\<lambda>_ xs. xs)\<rparr>"

lemma ex_order_ok: "order_ok ex_order"
  by (simp add: order_ok_def ex_order_def)

lemmas ex_simps = bytes_def ex_alloc_def ex_tier_def ex_large_def ex_policy_def ex_overrides_def
  ex_user_def ex_account_def

section \<open>The example configuration, evaluated\<close>

lemma ex_valid: "Quota_Valid (bytes 1000) = None" "Quota_Valid (bytes 300) = None" "Quota_Valid (bytes 100) = None"  "Quota_ValidAsUsage (bytes 100) = None"
  by code_simp+

lemma ex_decode_account:
  assumes "Quota_Valid q = None"
  shows "decode_account ((account_row 1 5 (ex_remote q))\<lparr>ar_UserID := u\<rparr>) =
    Inr (external_of ((account_row 1 5 (ex_remote q))\<lparr>ar_UserID := u\<rparr>) q (bytes 100))"
proof -
  have "ac_Quota (ex_remote q) = q" "ac_Used (ex_remote q) = bytes 100" by (simp_all add: ex_remote_def)
  with decode_account_row [of "ex_remote q", where p = 1 and t = 5 and u = u] ex_valid(4) assms show ?thesis by simp
qed

lemma ex_accounts:
  assumes "Quota_Valid q = None"
  shows "ListExternalAccounts 1 (ex_db ls q) = Inr [external_of ((account_row 1 5 (ex_remote q))\<lparr>ar_UserID :=
     map_option lk_UserID (find (\<lambda>_. True) ls)\<rparr>) q (bytes 100)]"
  using ex_decode_account [OF assms] by (simp add: ListExternalAccounts_def ex_db_def account_row_def)

definition ex_stored :: Policy where
  "ex_stored = \<lparr>p_Tiers = [1 \<mapsto> \<lparr>t_ID = 1, t_Name = ''family'', t_Budget = bytes 1000, t_IsDefault = True,
       t_Allocations = [ex_alloc 1 ModeAbsolute 400]\<rparr>], p_GroupTiers = [''g1'' \<mapsto> 1], p_DefaultTierID = Some 1\<rparr>"

lemma ex_load: "LoadPolicy (ex_db ls q) = Inr ex_stored"
  using ex_valid(1)
  by (simp add: LoadPolicy_def ex_db_def load_tier_def DecodeQuota_Encode_valid load_group_tiers_def ex_stored_def)

lemma ex_users: "ListUsers (ex_db ls q) = [ex_user [''g1'']]"
  by (simp add: ListUsers_def ex_db_def ex_user_def user_groups_def)

lemma ex_userpolicy: "UserPolicy_of u (ex_db ls q) = Inr ex_overrides"
  by (simp add: UserPolicy_of_def ex_db_def ex_overrides_def)


lemma ex_resolve: "r_Present (Resolve (ex_user [''g1'']) 1 ex_stored ex_overrides)"
  "r_Ceiling (Resolve (ex_user [''g1'']) 1 ex_stored ex_overrides) = bytes 400"
  by code_simp+

lemma ex_fields: "lk_ProviderID ex_link = 1" "lk_UserID ex_link = 7" "lk_ExternalID ex_link = ''ann''"
  "u_UID (ex_user gs) = ''ann''" "u_ID (ex_user gs) = 7"
  by (simp_all add: ex_link_def ex_user_def)

definition ex_all :: PlanFilter where "ex_all = \<lparr>pf_UID = [], pf_Provider = []\<rparr>"

text \<open>What a plan of the example finds, on any live adapter of the provider.\<close>

definition ex_seen :: "Quota \<Rightarrow> ExternalAccount" where
  "ex_seen q = external_of ((account_row 1 5 (ex_remote q))\<lparr>ar_UserID := Some 7\<rparr>) q (bytes 100)"

definition ex_pa :: "'w Instance \<Rightarrow> Quota \<Rightarrow> PlanAccount" where
  "ex_pa i q = plan_account i (ex_user [''g1'']) ex_link (ex_seen q) (Resolve (ex_user [''g1'']) 1 ex_stored ex_overrides)"

lemma ex_EnginePlan_at:
  assumes "Quota_Valid q = None" "in_ID i = 1" "in_Name i = ''cloud''" "\<not> Degraded (in_Row i)"
  shows "EnginePlan [i] ex_all (ex_db [ex_link] q) = Inr \<lparr>px_Plan = BuildPlan [ex_pa i q], px_Considered = 1,
    px_Degraded = [], px_Resolutions = [resolution_key ''ann'' ''cloud'' \<mapsto> Resolve (ex_user [''g1'']) 1 ex_stored ex_overrides]\<rparr>"
proof -
  let ?db = "ex_db [ex_link] q" and ?x = "ex_seen q"
  have L: "ListExternalAccounts 1 ?db = Inr [?x]"
    using ex_accounts [OF assms(1), of "[ex_link]"] by (simp add: ex_link_def ex_seen_def)
  have acc: "load_accounts [i] ?db Map.empty = Inr [1 \<mapsto> [''ann'' \<mapsto> ?x]]"
    using L assms(2) by (simp add: ex_seen_def external_of_def account_row_def ex_remote_def)
  have B: "by_provider [i] 1 = Some i" using assms(2) by (simp add: by_provider_def)
  have U: "users_by_id [ex_user [''g1'']] 7 = Some (ex_user [''g1''])" "u_Status (ex_user [''g1'']) = UserActive" "u_ID (ex_user [''g1'']) = 7"
    by (simp_all add: users_by_id_def ex_user_def)
  have links: "ListLinks ?db = [ex_link]" by (simp add: ListLinks_def ex_db_def)
  have pair: "plan_pair (by_provider [i]) (users_by_id [ex_user [''g1'']]) ex_all [1 \<mapsto> [''ann'' \<mapsto> ?x]] ex_link =
      Some (i, ex_user [''g1''], ?x)"
    using B U by (simp add: plan_pair_def ex_link_def ex_all_def admits_def filter_empty_def)
  show ?thesis
    using assms(2-4) B U pair ex_fields
    by (simp add: EnginePlan_def ex_load acc ex_users links ex_userpolicy Let_def ex_pa_def del: load_accounts.simps)
qed

lemma ex_EnginePlan:
  assumes "Quota_Valid q = None"
  shows "\<exists>d. EnginePlan [ex_instance None None] ex_all (ex_db [ex_link] q) = Inr d \<and>
    map ch_To (pl_Changes (px_Plan d)) = (if Quota_Equal (bytes 400) q \<and> Quota_IsKnown q then [] else [bytes 400])"
proof -
  let ?i = "ex_instance None None" and ?a = "ex_pa (ex_instance None None) q"
  have "in_ID ?i = 1" "in_Name ?i = ''cloud''" "\<not> Degraded (in_Row ?i)"
    by (simp_all add: ex_instance_def in_ID_def in_Name_def ex_row_def new_provider_def provider_id_def Degraded_def)
  note plan = ex_EnginePlan_at [OF assms this]
  have a: "pa_Present ?a" "pa_Desired ?a = bytes 400" "pa_Observed ?a = q" "trusted ?a = Quota_IsKnown q"
    "ch_To (change_of ?a) = bytes 400"
    using ex_resolve by (simp_all add: ex_pa_def ex_seen_def plan_account_def ex_instance_def ex_adapter_def external_of_def
        account_row_def trusted_def Quota_IsKnown_def bytes_def)
  have "pl_Changes (BuildPlan [?a]) = (if differs ?a then [change_of ?a] else [])"
    using a(1) by (simp add: BuildPlan_eq)
  with plan a show ?thesis by (simp add: differs_def)
qed

end
