(* ===== verification/PolicyGuarantees.thy ===== *)
theory PolicyGuarantees
  imports Examples
begin

text \<open>
  What the decisions of \<open>internal/core\<close> guarantee: the stored form of a quota, validated tiers
  and their offers, resolution, and the plan.
\<close>

section \<open>Resolution\<close>

text \<open>C16 Joining groups never hurts: a person who is entitled through at least one mapped group, and then
  is in more groups, still gets a ceiling, and one that is not smaller.\<close>

theorem more_groups_never_less:
  assumes "up_ProviderOverrides up providerID = None" "up_TierOverride up = None"
    and "fromGroups user policy \<noteq> []" "set (u_GroupUUIDs user) \<subseteq> set (u_GroupUUIDs user')"
    and "r_Present (Resolve user providerID policy up)"
  shows "r_Present (Resolve user' providerID policy up) \<and>
     \<not> moreGenerous (r_Ceiling (Resolve user providerID policy up)) (r_Ceiling (Resolve user' providerID policy up))"
  using Resolve_group_mono [OF assms] by blast

theorem more_groups_never_less_witness:
  "r_Present (Resolve (ex_user [''g1'', ''g2'']) 1 ex_policy ex_overrides) \<and>
   \<not> moreGenerous (bytes 400) (r_Ceiling (Resolve (ex_user [''g1'', ''g2'']) 1 ex_policy ex_overrides))"
proof -
  have "fromGroups (ex_user [''g1'']) ex_policy = [\<lparr>tc_TierID = 1, tc_GroupUUID = ''g1''\<rparr>]" by code_simp
  moreover have "r_Present (Resolve (ex_user [''g1'']) 1 ex_policy ex_overrides)"
    "r_Ceiling (Resolve (ex_user [''g1'']) 1 ex_policy ex_overrides) = bytes 400" by code_simp+
  ultimately show ?thesis
    using more_groups_never_less [of ex_overrides 1 "ex_user [''g1'']" ex_policy "ex_user [''g1'', ''g2'']"]
    by (simp add: ex_overrides_def ex_user_def)
qed

text \<open>The answer does not depend on the order in which the directory or the store lists a person's
  groups: candidates, explanation and ceiling are the same.\<close>

theorem resolve_ignores_group_order:
  assumes "mset (u_GroupUUIDs user') = mset (u_GroupUUIDs user)"
  shows "Resolve user' providerID policy up = Resolve user providerID policy up"
  using assms by (rule Resolve_perm)

theorem resolve_ignores_group_order_witness:
  "Resolve (ex_user [''g2'', ''g1'']) 1 ex_policy ex_overrides = Resolve (ex_user [''g1'', ''g2'']) 1 ex_policy ex_overrides"
  by (rule resolve_ignores_group_order) (simp add: ex_user_def)

text \<open>A resolution is always a well-formed quota; where nothing offers a ceiling it is the unknown
  quota, with the rule that says so, and never zero bytes.\<close>

theorem resolution_well_formed:
  assumes "\<And>q. up_ProviderOverrides up providerID = Some q \<Longrightarrow> Quota_Valid q = None"
  shows "Quota_Valid (r_Ceiling (Resolve user providerID policy up)) = None \<and>
     (r_Present (Resolve user providerID policy up) \<or>
      r_Ceiling (Resolve user providerID policy up) = Unknown \<and> r_Rule (Resolve user providerID policy up) = RuleNone)"
  using Resolve_ceiling_valid [OF assms] Resolve_absent by blast

theorem resolution_well_formed_witness:
  "Quota_Valid (r_Ceiling (Resolve (ex_user []) 2 ex_policy ex_overrides)) = None"
  using resolution_well_formed [of ex_overrides 2 "ex_user []" ex_policy] by (simp add: ex_overrides_def)

section \<open>Tiers\<close>

text \<open>A tier with a budget in bytes that passed validation and is not overcommitted never promises
  more than its budget: the offers it makes on its providers add up to at most the budget.\<close>

theorem offers_fit_the_budget:
  assumes "Tier_Validate t = None" "Quota_IsBytes (t_Budget t)"
    and "\<forall>a \<in> set (t_Allocations t). al_Mode a \<noteq> ModeUnlimited" "\<not> Overcommitted t"
    and "absolute_sum t < 2 ^ 63" "sint (q_Bytes (t_Budget t)) * 100 < 2 ^ 63" "length (t_Allocations t) < 2 ^ 56"
  shows "(\<Sum>a\<leftarrow>t_Allocations t. offered_bytes t a) \<le> sint (q_Bytes (t_Budget t))"
  using assms by (rule offers_within_budget)

theorem offers_fit_the_budget_witness:
  "(\<Sum>a\<leftarrow>t_Allocations ex_tier. offered_bytes ex_tier a) \<le> sint (q_Bytes (t_Budget ex_tier))"
proof (rule offers_fit_the_budget)
  show "Tier_Validate ex_tier = None" "Quota_IsBytes (t_Budget ex_tier)" "\<not> Overcommitted ex_tier"
    "\<forall>a \<in> set (t_Allocations ex_tier). al_Mode a \<noteq> ModeUnlimited"
    by code_simp+
  show "absolute_sum ex_tier < 2 ^ 63" "sint (q_Bytes (t_Budget ex_tier)) * 100 < 2 ^ 63"
    by (simp_all add: absolute_sum_def ex_tier_def ex_alloc_def bytes_def is_absolute_def)
  show "length (t_Allocations ex_tier) < 2 ^ 56" by (simp add: ex_tier_def)
qed

text \<open>Validation accepts exactly the tiers with a name, a well-formed budget, at most one allocation for
  each provider, each within the range of its mode, percentages only of a budget in bytes, and absolute
  parts whose sum, as computed in 64 bits, does not exceed such a budget.\<close>

theorem validation_is_exact:
  "Tier_Validate t = None \<longleftrightarrow>
     TrimSpace (t_Name t) \<noteq> [] \<and> Quota_Valid (t_Budget t) = None \<and>
     (\<forall>a \<in> set (t_Allocations t). alloc_ok a) \<and> distinct (map al_ProviderID (t_Allocations t)) \<and>
     ((\<exists>a \<in> set (t_Allocations t). is_percent a) \<longrightarrow> Quota_IsBytes (t_Budget t)) \<and>
     (Quota_IsBytes (t_Budget t) \<longrightarrow>
        sint (sum_list (map al_Value (filter is_absolute (t_Allocations t)))) \<le> sint (q_Bytes (t_Budget t)))"
  by (rule Tier_Validate_None_iff)

theorem validation_is_exact_witness:
  "Tier_Validate ex_tier = None \<and> list_all alloc_ok (t_Allocations ex_tier)"
proof -
  have "Tier_Validate ex_tier = None" by code_simp
  with validation_is_exact [of ex_tier] show ?thesis unfolding list_all_iff by blast
qed

text \<open>A percentage is of what the absolute allocations leave of the budget, rounded down, and the 64-bit
  computation is exact as long as a hundred times the budget fits.\<close>

theorem percent_of_the_remainder:
  assumes "Quota_IsBytes (t_Budget t)" "\<forall>a \<in> set (t_Allocations t). alloc_ok a"
    and "absolute_sum t < 2 ^ 63" "absolute_sum t \<le> sint (q_Bytes (t_Budget t))"
    and "0 \<le> sint share" "sint share \<le> 100" "sint (q_Bytes (t_Budget t)) * 100 < 2 ^ 63"
  shows "\<exists>q. percentOf t share = (q, True) \<and> q_Kind q = KindBytes \<and>
     sint (q_Bytes q) = (sint (q_Bytes (t_Budget t)) - absolute_sum t) * sint share div 100"
  using assms by (rule percentOf_exact)

theorem percent_of_the_remainder_witness:
  "\<exists>q. percentOf ex_tier 50 = (q, True) \<and> sint (q_Bytes q) = 300"
proof -
  have "Quota_IsBytes (t_Budget ex_tier)" "\<forall>a \<in> set (t_Allocations ex_tier). alloc_ok a" by code_simp+
  moreover have "absolute_sum ex_tier = 400" "sint (q_Bytes (t_Budget ex_tier)) = 1000"
    by (simp_all add: absolute_sum_def ex_tier_def ex_alloc_def bytes_def is_absolute_def)
  ultimately show ?thesis using percent_of_the_remainder [of ex_tier 50] by auto
qed

text \<open>What a person may store in all, over the resolutions of every provider: unlimited as soon as one
  is, and otherwise the exact sum of the ceilings, as long as it fits in 64 bits.\<close>

theorem effective_budget_is_the_sum:
  assumes "bs = filter Quota_IsBytes (present_ceilings rs)" "bs \<noteq> []"
    and "\<forall>q \<in> set bs. 0 \<le> sint (q_Bytes q)" "(\<Sum>q\<leftarrow>bs. sint (q_Bytes q)) < 2 ^ 63"
  shows "if \<exists>q \<in> set (present_ceilings rs). Quota_IsUnlimited q then EffectiveBudget rs = Unlimited
     else Quota_IsBytes (EffectiveBudget rs) \<and> sint (q_Bytes (EffectiveBudget rs)) = (\<Sum>q\<leftarrow>bs. sint (q_Bytes q))"
  using EffectiveBudget_unlimited [of rs] EffectiveBudget_sum [OF _ assms] by auto

theorem effective_budget_is_the_sum_witness:
  "sint (q_Bytes (EffectiveBudget [Resolve (ex_user [''g1'']) 1 ex_policy ex_overrides,
     Resolve (ex_user [''g1'']) 2 ex_policy ex_overrides])) = 700"
proof -
  let ?rs = "[Resolve (ex_user [''g1'']) 1 ex_policy ex_overrides, Resolve (ex_user [''g1'']) 2 ex_policy ex_overrides]"
  have c: "present_ceilings ?rs = [bytes 400, bytes 300]" by code_simp
  then have "filter Quota_IsBytes (present_ceilings ?rs) = [bytes 400, bytes 300]"
    by (simp add: Quota_IsBytes_def bytes_def)
  from effective_budget_is_the_sum [OF this [symmetric]] c show ?thesis
    by (simp add: bytes_def Quota_IsUnlimited_def split: if_splits)
qed

section \<open>The plan\<close>

text \<open>C5 The guardrail. Whatever may be applied comes from an account that was read in this cycle with a
  ceiling and a usage that are known, and that holds something else than what is wanted; without consent
  it never sets a ceiling at or below what is already stored there.\<close>

theorem applicable_changes_are_safe:
  assumes "c \<in> set (Applicable (BuildPlan accounts) consent)" "\<forall>a \<in> set accounts. never_used_ok a"
  shows "\<exists>a \<in> set accounts. c = change_of a \<and> pa_Present a \<and> trusted a \<and>
     \<not> Quota_Equal (pa_Desired a) (pa_Observed a) \<and> (consent \<or> \<not> blocks_uploads (ch_To c) (pa_Used a))"
proof -
  obtain a where a: "a \<in> set accounts" "c = change_of a" "pa_Present a" "trusted a"
    "\<not> Quota_Equal (pa_Desired a) (pa_Observed a)" using Applicable_source [OF assms(1)] by blast
  have "ch_Class c = ClassSafe" if "\<not> consent" using assms(1) that by (auto simp: Applicable_filter)
  with a assms(2) classify_safe_iff' [of a] have "consent \<or> \<not> blocks_uploads (ch_To c) (pa_Used a)" by auto
  with a show ?thesis by blast
qed

theorem applicable_changes_are_safe_witness:
  "\<not> blocks_uploads (ch_To (change_of (ex_account (bytes 400) (bytes 300) (bytes 100)))) (bytes 100)"
proof -
  let ?a = "ex_account (bytes 400) (bytes 300) (bytes 100)"
  have "change_of ?a \<in> set (Applicable (BuildPlan [?a]) False)" by code_simp
  moreover have "\<forall>a \<in> set [?a]. never_used_ok a" by (simp add: never_used_ok_def ex_account_def)
  ultimately have "\<exists>a \<in> set [?a]. change_of ?a = change_of a \<and> pa_Present a \<and> trusted a \<and>
      \<not> Quota_Equal (pa_Desired a) (pa_Observed a) \<and> (False \<or> \<not> blocks_uploads (ch_To (change_of ?a)) (pa_Used a))"
    by (rule applicable_changes_are_safe)
  then show ?thesis by (simp add: ex_account_def)
qed

text \<open>C17 The plan is complete and ordered: it holds one change for each account with a ceiling that is not
  already what is wanted or cannot be trusted, nothing else, in the order of user and provider, and counts
  the accounts nothing offers a ceiling to.\<close>

theorem plan_is_complete_and_sorted:
  "mset (pl_Changes (BuildPlan accounts)) =
     image_mset change_of (filter_mset (\<lambda>a. pa_Present a \<and> \<not> (trusted a \<and> Quota_Equal (pa_Desired a) (pa_Observed a)))
       (mset accounts)) \<and>
   sorted (map change_key (pl_Changes (BuildPlan accounts))) \<and>
   pl_Unallocated (BuildPlan accounts) = length (filter (\<lambda>a. \<not> pa_Present a) accounts)"
  using BuildPlan_mset [of accounts] BuildPlan_sorted [of accounts] BuildPlan_eq(2) [of accounts]
  by (simp add: differs_def)

text \<open>The plan does not depend on the order in which the links are stored, as long as no person has two
  accounts on providers of one name.\<close>

theorem plan_ignores_account_order:
  assumes "mset accounts = mset accounts'"
    and "\<And>a b. a \<in> set accounts \<Longrightarrow> b \<in> set accounts \<Longrightarrow>
      u_UID (pa_User a) = u_UID (pa_User b) \<Longrightarrow> pa_Provider a = pa_Provider b \<Longrightarrow> a = b"
  shows "BuildPlan accounts = BuildPlan accounts'"
  using assms by (rule BuildPlan_order_independent)

theorem plan_ignores_account_order_witness:
  "BuildPlan [ex_account (bytes 400) (bytes 300) (bytes 100), (ex_account (bytes 5) (bytes 6) (bytes 1))\<lparr>pa_Provider := ''photos''\<rparr>] =
   BuildPlan [(ex_account (bytes 5) (bytes 6) (bytes 1))\<lparr>pa_Provider := ''photos''\<rparr>, ex_account (bytes 400) (bytes 300) (bytes 100)]"
  by (rule plan_ignores_account_order) (auto simp: ex_account_def)

section \<open>Quotas\<close>



end
