(* ===== verification/AdapterGuarantees.thy ===== *)
theory AdapterGuarantees
  imports Examples
begin

text \<open>
  What the two adapters guarantee: the value they predict is a fixed point, so the planner comes
  to rest; what they write is what they read back; usage is only known when it was really read.
\<close>

section \<open>Normalisation and convergence\<close>

text \<open>Nextcloud stores a quota as a short human size. The value \<open>NormalizeQuota\<close> predicts is well-formed
  and a fixed point: normalising it again changes nothing, on both kinds of hardware.\<close>

theorem nextcloud_prediction_is_stable:
  assumes "Quota_Valid q = None" "sint oor < 0 \<or> oor = oor_arm64"
  shows "NcNormalizeQuota oor (NcNormalizeQuota oor q) = NcNormalizeQuota oor q \<and>
     Quota_Valid (NcNormalizeQuota oor q) = None"
  using NcNormalizeQuota_idem [OF assms] NcNormalizeQuota_valid [OF assms(1)] by blast

theorem nextcloud_prediction_is_stable_witness:
  "NcNormalizeQuota oor_amd64 (NcNormalizeQuota oor_amd64 (bytes 1000)) = NcNormalizeQuota oor_amd64 (bytes 1000)"
  using nextcloud_prediction_is_stable [of "bytes 1000" oor_amd64] ex_valid(1) by simp

text \<open>From one mebibyte up, the quota Nextcloud will store differs from the one asked for by at most six
  per cent, although it passes through two roundings in double precision.\<close>

theorem nextcloud_prediction_is_close:
  assumes "2 ^ 20 \<le> sint n" "size_bytes (int_size (sint n)) < 2 ^ 63"
  shows "\<exists>k. NcNormalizeQuota oor \<lparr>q_Kind = KindBytes, q_Bytes = n\<rparr> = \<lparr>q_Kind = KindBytes, q_Bytes = k\<rparr> \<and>
     100 * \<bar>sint k - sint n\<bar> \<le> 6 * sint n"
proof -
  let ?b = "size_bytes (int_size (sint n))"
  have n: "0 \<le> sint n" "sint n < 2 ^ 63" using assms(1) sint_lt [of n] by simp_all
  have near: "100 * \<bar>?b - sint n\<bar> \<le> 6 * sint n" by (rule size_bytes_within [OF assms(1) n(2) assms(2)])
  have "0 \<le> ?b" using int_size_again(2) [OF int_size_ok [OF n] assms(2)] .
  then have "fits_i64 ?b" using assms(2) by (simp add: fits_i64_def)
  moreover from this have "sint (word_of_int ?b :: int64) = ?b" by (simp add: sint_of_fits)
  ultimately show ?thesis using near by (simp add: NcNormalizeQuota_bytes [OF n(1)] Let_def)
qed

theorem nextcloud_prediction_is_close_witness:
  "\<exists>k. NcNormalizeQuota oor_amd64 \<lparr>q_Kind = KindBytes, q_Bytes = 1500000\<rparr> = \<lparr>q_Kind = KindBytes, q_Bytes = k\<rparr> \<and>
     100 * \<bar>sint k - 1500000\<bar> \<le> (9000000 :: int)"
proof -
  have n: "sint (1500000 :: int64) = 1500000" by (simp add: sint_of_fits fits_i64_def)
  have "size_bytes (int_size 1500000) < 2 ^ 63" by code_simp
  then show ?thesis using nextcloud_prediction_is_close [where n = 1500000 and oor = oor_amd64] by (simp add: n)
qed



section \<open>The wire\<close>

text \<open>What is sent to Nextcloud is understood as it was meant: a quota in bytes is written as a decimal
  that parses to the same number and decodes to the same quota, unlimited is written as \<open>none\<close>, and an
  unknown quota is never sent.\<close>

theorem nextcloud_wire_roundtrip:
  assumes "formatQuotaValue q = Inr v" "Quota_Valid q = None"
  shows "(q_Kind q = KindUnlimited \<and> v = ''none'') \<or>
     (ParseInt v = Inr (q_Bytes q) \<and> quotaFromWire (q_Bytes q) = Inr q)"
  using formatQuotaValue_known [OF assms(1)] wire_roundtrip [OF assms] by blast

theorem nextcloud_wire_roundtrip_witness: "quotaFromWire (q_Bytes (bytes 300)) = Inr (bytes 300)"
proof -
  have "formatQuotaValue (bytes 300) = Inr (FormatInt 300)" by (simp add: formatQuotaValue_def bytes_def)
  from nextcloud_wire_roundtrip [OF this ex_valid(2)] show ?thesis by (simp add: bytes_def)
qed

text \<open>Nextcloud reports no usage for a user whose storage it did not compute. The decoder calls a usage
  known only when the object carries total, relative and used, and calls a user never seen only when the
  first login is the zero the service reports for one.\<close>

theorem nextcloud_usage_is_real:
  assumes "decodeQuotaObject oor raw firstLogin = Inr (configured, used, neverUsed)"
  shows "Quota_Valid configured = None \<and> Quota_ValidAsUsage used = None \<and>
     (neverUsed \<longrightarrow> firstLogin = Some 0 \<and> used = \<lparr>q_Kind = KindBytes, q_Bytes = 0\<rparr>) \<and>
     (Quota_IsKnown used \<longrightarrow> (\<exists>fs. raw = Some (JObj fs) \<and> jfield ''total'' fs \<noteq> None \<and>
        (\<exists>r. dec_float_ptr (jfield ''relative'' fs) = Inr (Some r)) \<and>
        (\<exists>u. dec_int64_ptr (jfield ''used'' fs) = Inr (Some u))))"
  using decodeQuotaObject_used [OF assms] by blast

theorem nextcloud_usage_is_real_witness:
  "\<exists>q u. decodeQuotaObject oor_amd64 (Some (JObj [(''used'', JInt 7), (''quota'', JInt 300)])) None = Inr (q, u, False) \<and>
     \<not> Quota_IsKnown u"
proof -
  have "decodeQuotaObject oor_amd64 (Some (JObj [(''used'', JInt 7), (''quota'', JInt 300)])) None =
      Inr (bytes 300, Unknown, False)"
    by code_simp
  with nextcloud_usage_is_real [OF this] show ?thesis by (auto simp: Quota_IsKnown_def)
qed

text \<open>What is sent to Immich is what Immich reports back: the body written for a well-formed quota decodes
  to that quota, with null for unlimited.\<close>

theorem immich_wire_roundtrip:
  assumes "Quota_Valid q = None" "im_SetQuota_body q = Some sz"
  shows "decodeQuota sz = Inr q"
  using assms by (rule ImSetQuota_roundtrip)

theorem immich_wire_roundtrip_witness: "decodeQuota (Some 300) = Inr (bytes 300)"
  by (rule immich_wire_roundtrip [OF ex_valid(2)]) code_simp

text \<open>Immich keeps a cached usage that drifts. A usage is known only when the server statistics were read,
  it is then the live one, and the cached one, where there is one, is within the greater of 64 MiB and one
  per cent of it.\<close>

theorem immich_usage_is_live:
  assumes "decodeUsage cached aggregate i failed = Inr q" "Quota_IsKnown q" "\<And>c. cached = Some c \<Longrightarrow> 0 \<le> sint c"
  shows "\<exists>usage live. aggregate = Some usage \<and> \<not> failed \<and> live = (case usage i of None \<Rightarrow> 0 | Some n \<Rightarrow> n) \<and>
     0 \<le> sint live \<and> q = \<lparr>q_Kind = KindBytes, q_Bytes = live\<rparr> \<and>
     (\<forall>c. cached = Some c \<longrightarrow> \<bar>sint c - sint live\<bar> \<le> max 67108864 (sint live div 100))"
  by (rule decodeUsage_known [OF assms(1,2)]) (use assms(3) diverged_exact in \<open>fastforce simp: not_less\<close>)

theorem immich_usage_is_live_witness:
  "decodeUsage (Some 9) (Some [''u1'' \<mapsto> 5]) ''u1'' False = Inr (bytes 5) \<and> \<bar>sint (9 :: int64) - sint (5 :: int64)\<bar> \<le> 67108864"
proof -
  have run: "decodeUsage (Some 9) (Some [''u1'' \<mapsto> 5]) ''u1'' False = Inr (bytes 5)"
    by code_simp
  have "\<And>c. Some 9 = Some c \<Longrightarrow> 0 \<le> sint (c :: int64)" by auto
  from immich_usage_is_live [OF run _ this] have "\<exists>live. 0 \<le> sint live \<and> bytes 5 = \<lparr>q_Kind = KindBytes, q_Bytes = live\<rparr> \<and>
     \<bar>sint (9 :: int64) - sint live\<bar> \<le> max 67108864 (sint live div 100)"
    by (auto simp: Quota_IsKnown_def bytes_def)
  with run show ?thesis by (auto simp: bytes_def)
qed

end
