(* ===== verification/Format.thy ===== *)
theory Format
  imports Wire StoreAudit StorePolicy
begin

text \<open>
  What the standard library does to print a value, as far as commands and pages use it: joined
  strings, durations, dates; and the text of the enumerations. A line of output is a text, or the
  cells of a row of a table, before a \<open>tabwriter\<close> aligns them.
\<close>

section \<open>Strings\<close>

text \<open>\<open>strings.Join\<close>.\<close>

fun Join :: "string \<Rightarrow> string list \<Rightarrow> string" where
  "Join sep [] = []"
| "Join sep [s] = s"
| "Join sep (s # t # ss) = s @ sep @ Join sep (t # ss)"

text \<open>\<open>%-20s\<close> and \<open>%02d\<close>.\<close>

definition pad_right :: "nat \<Rightarrow> string \<Rightarrow> string" where
  "pad_right n s = s @ replicate (n - length s) CHR '' ''"

definition zero_padded :: "nat \<Rightarrow> int \<Rightarrow> string" where
  "zero_padded n k = (let s = show_int k in replicate (n - length s) CHR ''0'' @ s)"

section \<open>Durations\<close>

text \<open>\<open>Duration.Seconds\<close>.\<close>

definition Seconds :: "Duration \<Rightarrow> rat" where
  "Seconds d = fl (f64_of_int (d sdiv second) + fdiv (f64_of_int (d smod second)) (f64_of_int second))"

definition Duration_Round :: "Duration \<Rightarrow> Duration \<Rightarrow> Duration" where
  "Duration_Round d m =
     (if m \<le> 0 then d
      else let r = \<bar>d\<bar> mod m; t = \<bar>d\<bar> - r; t = (if r + r < m then t else t + m)
           in if d < 0 then - t else t)"

text \<open>The fraction of \<open>v\<close> in units of \<open>10 ^ prec\<close>, without trailing zeros.\<close>

fun low_digits :: "nat \<Rightarrow> int \<Rightarrow> string" where
  "low_digits 0 v = []"
| "low_digits (Suc n) v = low_digits n (v div 10) @ [digit_char (nat (v mod 10))]"

definition fraction_text :: "int \<Rightarrow> nat \<Rightarrow> string" where
  "fraction_text v prec =
     (let t = rev (dropWhile (\<lambda>c. c = CHR ''0'') (rev (low_digits prec v)))
      in if t = [] then [] else CHR ''.'' # t)"

text \<open>The micro sign is two bytes in UTF-8.\<close>

definition Duration_String :: "Duration \<Rightarrow> string" where
  "Duration_String d =
     (let u = \<bar>d\<bar>; s = u div 10 ^ 9;
          number = (\<lambda>prec. show_int (u div 10 ^ prec) @ fraction_text u prec) in
      (if d < 0 then ''-'' else []) @
      (if u = 0 then ''0s''
       else if u < 10 ^ 3 then number 0 @ ''ns''
       else if u < 10 ^ 6 then number 3 @ [CHR 0xC2, CHR 0xB5, CHR ''s'']
       else if u < 10 ^ 9 then number 6 @ ''ms''
       else (if 3600 \<le> s then show_int (s div 3600) @ ''h'' else []) @
            (if 60 \<le> s then show_int (s div 60 mod 60) @ ''m'' else []) @
            show_int (s mod 60) @ fraction_text u 9 @ ''s''))"

section \<open>Dates\<close>

text \<open>The civil date of a number of days since 1 January of year 1, years starting in March.\<close>

definition civil_date :: "int \<Rightarrow> int \<times> int \<times> int" where
  "civil_date days =
     (let z = days + 306; era = z div 146097; doe = z mod 146097;
          yoe = (doe - doe div 1460 + doe div 36524 - doe div 146096) div 365;
          doy = doe - (365 * yoe + yoe div 4 - yoe div 100);
          mp = (5 * doy + 2) div 153;
          month = (if mp < 10 then mp + 3 else mp - 9)
      in (yoe + era * 400 + (if month \<le> 2 then 1 else 0), month, doy - (153 * mp + 2) div 5 + 1))"

record Clock =
  ck_Year :: int
  ck_Month :: int
  ck_Day :: int
  ck_Hour :: int
  ck_Minute :: int

definition clock_of :: "Time \<Rightarrow> Clock" where
  "clock_of t =
     (let s = t div 10 ^ 9 in
      case civil_date (s div 86400) of (y, m, d) \<Rightarrow>
        \<lparr>ck_Year = y, ck_Month = m, ck_Day = d, ck_Hour = s mod 86400 div 3600, ck_Minute = s mod 3600 div 60\<rparr>)"

definition hour_minute :: "Time \<Rightarrow> string" where
  "hour_minute t = (let c = clock_of t in zero_padded 2 (ck_Hour c) @ '':'' @ zero_padded 2 (ck_Minute c))"

text \<open>The layouts \<open>01-02 15:04\<close> and \<open>2006-01-02 15:04\<close>.\<close>

definition FormatDay :: "Time \<Rightarrow> string" where
  "FormatDay t = (let c = clock_of t in
     zero_padded 2 (ck_Month c) @ ''-'' @ zero_padded 2 (ck_Day c) @ '' '' @ hour_minute t)"

definition FormatDate :: "Time \<Rightarrow> string" where
  "FormatDate t = zero_padded 4 (ck_Year (clock_of t)) @ ''-'' @ FormatDay t"

section \<open>Enumerations\<close>

definition source_text :: "IdentitySource \<Rightarrow> string" where
  "source_text s = (case s of SourceLDAP \<Rightarrow> ''lldap'' | SourceManual \<Rightarrow> ''manual'')"

definition status_text :: "UserStatus \<Rightarrow> string" where
  "status_text s = (case s of UserActive \<Rightarrow> ''active'' | UserOrphaned \<Rightarrow> ''orphaned'')"

definition link_origin_text :: "LinkOrigin \<Rightarrow> string" where
  "link_origin_text o' = (case o' of LinkMatched \<Rightarrow> ''matched'' | LinkManual \<Rightarrow> ''manual'')"

definition override_origin_text :: "OverrideOrigin \<Rightarrow> string" where
  "override_origin_text o' = (case o' of OverrideManual \<Rightarrow> ''manual'' | OverrideAdopted \<Rightarrow> ''adopted'')"

definition rule_text :: "ResolutionRule \<Rightarrow> string" where
  "rule_text r =
     (case r of RuleProviderOverride \<Rightarrow> ''provider-override'' | RuleUserTier \<Rightarrow> ''user-tier''
      | RuleGroupTier \<Rightarrow> ''group-tier'' | RuleDefaultTier \<Rightarrow> ''default-tier'' | RuleNone \<Rightarrow> ''none'')"

definition mode_text :: "RunMode \<Rightarrow> string" where
  "mode_text m = (case m of RunPlan \<Rightarrow> ''plan'' | RunDryRun \<Rightarrow> ''dry-run'' | RunApply \<Rightarrow> ''apply'')"

definition audit_text :: "AuditResult \<Rightarrow> string" where
  "audit_text r =
     (case r of AuditApplied \<Rightarrow> ''applied'' | AuditFailed \<Rightarrow> ''failed'' | AuditRefused \<Rightarrow> ''refused''
      | AuditSkipped \<Rightarrow> ''skipped'')"

section \<open>Output\<close>

datatype Line = Print string | Row "string list"

end
