(* ===== verification/Cycle.thy ===== *)
theory Cycle
  imports Observe PlanEngine Apply Format
begin

text \<open>
  The cycles of a running server (\<open>cmd/nuno/serve.go\<close>) and what an administrator can ask of it
  (\<open>cmd/nuno/actor.go\<close>). One lock, the gate, is held during every cycle; a cycle of a timer waits
  for it, a click is refused while it is held. The cycles are functions from the services and
  the store to the services and the store; log lines are not kept.
\<close>

section \<open>The server\<close>

text \<open>
  \<open>srv_Tiers\<close> is the order in which the map of tiers is iterated, which the language leaves open.
  \<open>srv_Hash\<close> is the hash of an admin key.
\<close>

record 'w Server =
  srv_Env :: "'w Env"
  srv_Order :: MapOrder
  srv_Tiers :: "(RowID \<rightharpoonup> Tier) \<Rightarrow> Tier list"
  srv_Instances :: "'w Instance list"
  srv_Directory :: "('w \<Rightarrow> (string + IdentityRead) \<times> 'w) option"
  srv_Hash :: "string \<Rightarrow> string"

definition tier_order_ok :: "((RowID \<rightharpoonup> Tier) \<Rightarrow> Tier list) \<Rightarrow> bool" where
  "tier_order_ok ord \<longleftrightarrow> (\<forall>m. finite (dom m) \<longrightarrow> set (ord m) = ran m)"

definition call_SyncIdentity ::
  "'w Server \<Rightarrow> 'w World \<Rightarrow> Database \<Rightarrow> engine_error option \<times> 'w World \<times> Database" where
  "call_SyncIdentity srv w db =
     (case srv_Directory srv of
        None \<Rightarrow> (None, w, db)
      | Some sync \<Rightarrow>
          (case sync (wd_State w) of (answer, state) \<Rightarrow>
             (case SyncIdentity (Some answer) db of
                (Inl e, db) \<Rightarrow> (Some e, w\<lparr>wd_State := state\<rparr>, db)
              | (Inr _, db) \<Rightarrow> (None, w\<lparr>wd_State := state\<rparr>, db))))"

definition srv_Observe ::
  "'w Server \<Rightarrow> 'w World \<Rightarrow> Database \<Rightarrow> (Report \<times> store_error option) \<times> 'w World \<times> Database" where
  "srv_Observe srv = Observe (srv_Env srv) (srv_Order srv) (srv_Instances srv)"

definition every_account :: PlanFilter where
  "every_account = \<lparr>pf_UID = [], pf_Provider = []\<rparr>"

section \<open>The timers\<close>

definition startupBackoffMin :: Duration where
  "startupBackoffMin = 2 * second"

definition startupBackoffMax :: Duration where
  "startupBackoffMax = 60 * second"

definition refreshOnce :: "'w Server \<Rightarrow> 'w World \<Rightarrow> Database \<Rightarrow> bool \<times> 'w World \<times> Database" where
  "refreshOnce srv w db =
     (case call_SyncIdentity srv w db of (synced, w, db) \<Rightarrow>
        (case srv_Observe srv w db of
           ((report, Some _), w, db) \<Rightarrow> (False, w, db)
         | ((report, None), w, db) \<Rightarrow> (synced = None \<and> Report_OK report, w, db)))"

text \<open>The delay after a cycle and the next backoff.\<close>

definition next_delay :: "Duration \<Rightarrow> bool \<Rightarrow> Duration \<Rightarrow> Duration \<times> Duration" where
  "next_delay interval ok backoff =
     (let backoff = (if ok then startupBackoffMin else backoff) in
      if ok then (interval, backoff) else (backoff, min (backoff * 2) startupBackoffMax))"

text \<open>The delays of a timer whose cycles end as told, from a backoff on.\<close>

fun loop_delays :: "Duration \<Rightarrow> Duration \<Rightarrow> bool list \<Rightarrow> Duration list" where
  "loop_delays interval backoff [] = []"
| "loop_delays interval backoff (ok # oks) =
     (case next_delay interval ok backoff of (delay, backoff) \<Rightarrow> delay # loop_delays interval backoff oks)"

definition refresh_interval :: "Duration \<Rightarrow> Duration" where
  "refresh_interval configured = (if configured \<le> 0 then 900 * second else configured)"

definition schedule_options :: "Time \<Rightarrow> ApplyOptions" where
  "schedule_options computedAt =
     \<lparr>ao_ConsentShrink = False, ao_DryRun = False, ao_Actor = ''schedule'', ao_PlanWindow = 0,
      ao_ComputedAt = computedAt\<rparr>"

definition runScheduledReconcile ::
  "'w Server \<Rightarrow> 'w World \<Rightarrow> Database \<Rightarrow> bool \<times> 'w World \<times> Database" where
  "runScheduledReconcile srv w db =
     (case call_SyncIdentity srv w db of (synced, w, db) \<Rightarrow>
        (case srv_Observe srv w db of
           ((observation, Some _), w, db) \<Rightarrow> (False, w, db)
         | ((observation, None), w, db) \<Rightarrow>
             let clean = (synced = None \<and> Report_OK observation);
                 computedAt = clock (srv_Env srv) w in
             (case EnginePlan (srv_Instances srv) every_account db of
                Inl _ \<Rightarrow> (False, w, db)
              | Inr result \<Rightarrow>
                  if Plan_Empty (px_Plan result) then (clean, w, db)
                  else case EngineApply (srv_Env srv) (srv_Instances srv) (px_Plan result)
                              (schedule_options computedAt) w db of
                    (s, Some _) \<Rightarrow> (False, as_World s, as_DB s)
                  | (s, None) \<Rightarrow>
                      (clean \<and> \<not> (0 < ay_Failed (as_Report s) \<or> ay_Errors (as_Report s) \<noteq> []),
                       as_World s, as_DB s))))"

text \<open>The timer that writes starts only with an interval and with somebody to tell.\<close>

definition reconcile_enabled :: "'w Server \<Rightarrow> Duration \<Rightarrow> bool" where
  "reconcile_enabled srv interval \<longleftrightarrow> 0 < interval \<and> env_Notifier (srv_Env srv) \<noteq> None"

section \<open>Clicks that run a cycle\<close>

datatype actor_error =
    ActorStore store_error
  | ActorEngine engine_error
  | RunInProgress
  | NothingPlannedFor nat
  | ReadFailedFor string
  | NoOverrideToClear string string
  | NoLinkToRemove string string
  | AccountNotWritable string string
  | AccountNotObserved string string
  | GroupNotMapped
  | NoTierNamed string
  | NoUserNamed string
  | NoProviderNamed string

definition ui_options :: "bool \<Rightarrow> Time \<Rightarrow> ApplyOptions" where
  "ui_options consent computedAt =
     \<lparr>ao_ConsentShrink = consent, ao_DryRun = False, ao_Actor = ''ui'', ao_PlanWindow = 0,
      ao_ComputedAt = computedAt\<rparr>"

definition no_report :: ApplyReport where
  "no_report = new_report False"

text \<open>\<open>held\<close>: whether another cycle holds the gate.\<close>

definition actor_Reconcile ::
  "'w Server \<Rightarrow> bool \<Rightarrow> bool \<Rightarrow> PlanFilter \<Rightarrow> 'w World \<Rightarrow> Database \<Rightarrow>
   (ApplyReport \<times> actor_error option) \<times> 'w World \<times> Database" where
  "actor_Reconcile srv held consent f w db =
     (if held then ((no_report, Some RunInProgress), w, db)
      else case call_SyncIdentity srv w db of (_, w, db) \<Rightarrow>
        (case srv_Observe srv w db of
           ((observation, Some e), w, db) \<Rightarrow> ((no_report, Some (ActorStore e)), w, db)
         | ((observation, None), w, db) \<Rightarrow>
             let computedAt = clock (srv_Env srv) w in
             (case EnginePlan (srv_Instances srv) f db of
                Inl e \<Rightarrow> ((no_report, Some (ActorStore e)), w, db)
              | Inr result \<Rightarrow>
                  if Plan_Empty (px_Plan result)
                  then (if \<not> Report_OK observation
                        then let n = length (Report_Failed observation) in
                          ((no_report\<lparr>ay_Skipped := n\<rparr>, Some (NothingPlannedFor n)), w, db)
                        else ((no_report, None), w, db))
                  else case EngineApply (srv_Env srv) (srv_Instances srv) (px_Plan result)
                              (ui_options consent computedAt) w db of
                    (s, err) \<Rightarrow> ((as_Report s, map_option ActorEngine err), as_World s, as_DB s))))"

definition actor_Observe ::
  "'w Server \<Rightarrow> bool \<Rightarrow> 'w World \<Rightarrow> Database \<Rightarrow> actor_error option \<times> 'w World \<times> Database" where
  "actor_Observe srv held w db =
     (if held then (Some RunInProgress, w, db)
      else case call_SyncIdentity srv w db of (_, w, db) \<Rightarrow>
        (case srv_Observe srv w db of
           ((report, Some e), w, db) \<Rightarrow> (Some (ActorStore e), w, db)
         | ((report, None), w, db) \<Rightarrow>
             (if \<not> Report_OK report
              then Some (ReadFailedFor (Join '', '' (map rs_Name (Report_Failed report))))
              else None, w, db)))"

section \<open>Clicks that edit the store\<close>

definition actor_SaveTier :: "Tier \<Rightarrow> Database \<Rightarrow> actor_error + Database" where
  "actor_SaveTier tier db = (case SaveTier tier db of Inl e \<Rightarrow> Inl (ActorStore e) | Inr (db, _) \<Rightarrow> Inr db)"

text \<open>The last person whose name matches, in any case.\<close>

definition find_user :: "string \<Rightarrow> Database \<Rightarrow> User option" where
  "find_user uid db = find (\<lambda>u. EqualFold (u_UID u) uid) (rev (ListUsers db))"

definition actor_resolve :: "string \<Rightarrow> string \<Rightarrow> Database \<Rightarrow> actor_error + User \<times> ProviderRow" where
  "actor_resolve uid provider db =
     (case find_user uid db of
        None \<Rightarrow> Inl (NoUserNamed uid)
      | Some user \<Rightarrow>
          (case GetProviderByName provider db of
             Inl _ \<Rightarrow> Inl (NoProviderNamed provider)
           | Inr row \<Rightarrow> Inr (user, row)))"

definition lift_store :: "store_error + 'a \<Rightarrow> actor_error + 'a" where
  "lift_store r = (case r of Inl e \<Rightarrow> Inl (ActorStore e) | Inr a \<Rightarrow> Inr a)"

definition actor_SetOverride ::
  "string \<Rightarrow> string \<Rightarrow> Quota \<Rightarrow> bool \<Rightarrow> Database \<Rightarrow> actor_error + Database" where
  "actor_SetOverride uid provider quota clear db =
     bind_result (actor_resolve uid provider db) (\<lambda>(user, row).
       if clear
       then case ClearProviderOverride (u_ID user) (provider_id row) db of
           (db, cleared) \<Rightarrow> if \<not> cleared then Inl (NoOverrideToClear uid provider) else Inr db
       else lift_store (SetProviderOverride (u_ID user) (provider_id row) quota OverrideManual db))"

definition manual_link :: "User \<Rightarrow> ProviderRow \<Rightarrow> string \<Rightarrow> AccountLink" where
  "manual_link user row externalID =
     \<lparr>lk_UserID = u_ID user, lk_ProviderID = provider_id row, lk_ExternalID = externalID,
      lk_Origin = LinkManual, lk_LinkedAt = 0\<rparr>"

text \<open>The link and the owner of the account are two statements: the first stands when the second fails.\<close>

definition actor_link_to ::
  "Time \<Rightarrow> User \<Rightarrow> ProviderRow \<Rightarrow> string \<Rightarrow> Database \<Rightarrow> actor_error option \<times> Database" where
  "actor_link_to now user row externalID db =
     (case UpsertLink now (manual_link user row externalID) db of
        Inl e \<Rightarrow> (Some (ActorStore e), db)
      | Inr db \<Rightarrow>
          (case SetAccountOwner (provider_id row) externalID (Some (u_ID user)) db of
             Inl e \<Rightarrow> (Some (ActorStore e), db) | Inr db \<Rightarrow> (None, db)))"

definition actor_Link ::
  "Time \<Rightarrow> string \<Rightarrow> string \<Rightarrow> string \<Rightarrow> bool \<Rightarrow> Database \<Rightarrow> actor_error option \<times> Database" where
  "actor_Link now uid provider externalID unlink db =
     (case actor_resolve uid provider db of
        Inl e \<Rightarrow> (Some e, db)
      | Inr (user, row) \<Rightarrow>
          if unlink
          then case DeleteLink (u_ID user) (provider_id row) db of
              (db, removed) \<Rightarrow> (if \<not> removed then Some (NoLinkToRemove uid provider) else None, db)
          else case ListExternalAccounts (provider_id row) db of
              Inl e \<Rightarrow> (Some (ActorStore e), db)
            | Inr accounts \<Rightarrow>
                (case find (\<lambda>a. xa_ExternalID a = externalID) accounts of
                   None \<Rightarrow> (Some (AccountNotObserved provider externalID), db)
                 | Some account \<Rightarrow>
                     if \<not> ExternalAccount_Writable account
                     then (Some (AccountNotWritable externalID provider), db)
                     else actor_link_to now user row externalID db))"

definition find_tier :: "((RowID \<rightharpoonup> Tier) \<Rightarrow> Tier list) \<Rightarrow> string \<Rightarrow> Policy \<Rightarrow> Tier option" where
  "find_tier ord name policy = find (\<lambda>t. EqualFold (t_Name t) name) (ord (p_Tiers policy))"

definition actor_MapGroup ::
  "((RowID \<rightharpoonup> Tier) \<Rightarrow> Tier list) \<Rightarrow> string \<Rightarrow> string \<Rightarrow> bool \<Rightarrow> Database \<Rightarrow> actor_error + Database" where
  "actor_MapGroup ord groupUUID tier unmap db =
     (if unmap
      then case UnmapGroup groupUUID db of
          (db, removed) \<Rightarrow> if \<not> removed then Inl GroupNotMapped else Inr db
      else bind_result (lift_store (LoadPolicy db)) (\<lambda>policy.
        case find_tier ord tier policy of
          None \<Rightarrow> Inl (NoTierNamed tier)
        | Some candidate \<Rightarrow> lift_store (MapGroupToTier groupUUID (t_ID candidate) db)))"

definition actor_IssueKey ::
  "(string \<Rightarrow> string) \<Rightarrow> string \<Rightarrow> string \<Rightarrow> Time \<Rightarrow> Database \<Rightarrow> actor_error + Database \<times> string" where
  "actor_IssueKey hash v label now db = lift_store (IssueAdminKey hash v label now db)"

definition actor_RevokeKey :: "RowID \<Rightarrow> Time \<Rightarrow> Database \<Rightarrow> actor_error + Database" where
  "actor_RevokeKey i now db = lift_store (RevokeAdminKey i now db)"

section \<open>Start-up\<close>

definition bootstrapAdminKey ::
  "(string \<Rightarrow> string) \<Rightarrow> string \<Rightarrow> Time \<Rightarrow> Database \<Rightarrow> store_error + Database" where
  "bootstrapAdminKey hash key now db =
     bind_result (if key = [] then Inr db else EnsureAdminKey hash key ''NUNO_ADMIN_KEY'' now db) (\<lambda>db.
       Inr (fst (RevokeEnvKeysExcept hash key now db)))"

end
