(* ===== verification/Usage.thy ===== *)
theory Usage
  imports Resolve
begin

text \<open>
  \<open>internal/core/usage.go\<close>: the response a dashboard reads, per person, flattened, and per
  service. It is a pure function of what was observed and of the policy. A \<open>*int64\<close> is an
  option; a percentage is the double the code computes; \<open>oor\<close> is what the conversion of a
  double beyond the range of \<open>int64\<close> yields.
\<close>

section \<open>Data\<close>

definition StatusOK :: string where "StatusOK = ''ok''"
definition StatusStale :: string where "StatusStale = ''stale''"
definition StatusUnavailable :: string where "StatusUnavailable = ''unavailable''"
definition StatusUnknown :: string where "StatusUnknown = ''unknown''"

definition UsageSchema :: nat where "UsageSchema = 1"

record UsageProvider =
  vp_Type :: string
  vp_Name :: string
  vp_QuotaBytes :: "int64 option"
  vp_UsedBytes :: "int64 option"
  vp_UsedPercent :: "rat option"
  vp_Managed :: bool
  vp_Status :: string
  vp_ObservedAt :: Time
  vp_Summary :: string

record UsageUser =
  vu_User :: string
  vu_UserUUID :: string
  vu_BudgetBytes :: "int64 option"
  vu_UsedBytes :: "int64 option"
  vu_UsedPercent :: "rat option"
  vu_Complete :: bool
  vu_Summary :: string
  vu_Providers :: "UsageProvider list"

record UsageResponse =
  ur_Schema :: nat
  ur_Users :: "UsageUser list"

record UsageRow =
  uw_Name :: string
  uw_Summary :: string
  uw_Status :: string

record UsageDetailResponse =
  ud_Schema :: nat
  ud_Rows :: "UsageRow list"

record ObservedProvider =
  ob_ID :: RowID
  ob_Type :: string
  ob_Name :: string
  ob_HasObserved :: bool
  ob_LastObserveOK :: bool

record UsageInput =
  ui_Now :: Time
  ui_RefreshInterval :: Duration
  ui_Users :: "User list"
  ui_Providers :: "ObservedProvider list"
  ui_Accounts :: "ExternalAccount list"
  ui_Policy :: Policy
  ui_UserPolicies :: "RowID \<rightharpoonup> UserPolicy"

section \<open>One account\<close>

definition statusFor :: "UsageInput \<Rightarrow> ObservedProvider \<Rightarrow> ExternalAccount \<Rightarrow> string" where
  "statusFor inp provider account =
     (if \<not> ob_HasObserved provider \<or> \<not> ob_LastObserveOK provider \<or> \<not> xa_ObserveOK account then StatusUnavailable
      else if \<not> Quota_IsKnown (xa_Quota account) \<or> \<not> Quota_IsKnown (xa_Used account) then StatusUnknown
      else if 0 < ui_RefreshInterval inp \<and> 2 * ui_RefreshInterval inp < ui_Now inp - xa_ObservedAt account
      then StatusStale else StatusOK)"

text \<open>\<open>float64(used) / float64(ceiling) * 100\<close>.\<close>

definition share_of :: "int64 \<Rightarrow> int64 \<Rightarrow> rat" where
  "share_of used cap = fmul (fdiv (f64_of_int (sint used)) (f64_of_int (sint cap))) 100"

definition percent :: "int64 \<Rightarrow> int64 option \<Rightarrow> int64 option \<Rightarrow> rat option" where
  "percent oor used cap =
     (case (used, cap) of
        (Some u, Some c) \<Rightarrow>
          if sint c \<le> 0 then None
          else Some (fdiv (f64_of_int (sint (i64_of_f64 oor (fl (fmul (share_of u c) 10 + 1 / 2))))) 10)
      | _ \<Rightarrow> None)"

definition with_share :: "int64 \<Rightarrow> int64 \<Rightarrow> string" where
  "with_share used cap =
     FormatIEC used @ '' / '' @ FormatIEC cap @ '' ('' @ FormatFixed 1 (share_of used cap) @ ''%)''"

definition summarize :: "int64 option \<Rightarrow> int64 option \<Rightarrow> string" where
  "summarize used cap =
     (case used of
        None \<Rightarrow> ''unknown''
      | Some u \<Rightarrow>
          (case cap of
             None \<Rightarrow> FormatIEC u @ '' (unlimited)''
           | Some c \<Rightarrow> if sint c \<le> 0 then FormatIEC u else with_share u c))"

definition bytes_of :: "Quota \<Rightarrow> int64 option" where
  "bytes_of q = (if Quota_IsBytes q then Some (q_Bytes q) else None)"

definition readable_status :: "string \<Rightarrow> bool" where
  "readable_status s \<longleftrightarrow> s = StatusOK \<or> s = StatusStale"

definition usageFor ::
  "int64 \<Rightarrow> UsageInput \<Rightarrow> ObservedProvider \<Rightarrow> ExternalAccount \<Rightarrow> bool \<Rightarrow> UsageProvider" where
  "usageFor oor inp provider account managed =
     (let status = statusFor inp provider account;
          view = \<lparr>vp_Type = ob_Type provider, vp_Name = ob_Name provider, vp_QuotaBytes = None, vp_UsedBytes = None,
                  vp_UsedPercent = None, vp_Managed = managed, vp_Status = status,
                  vp_ObservedAt = xa_ObservedAt account, vp_Summary = []\<rparr> in
      if \<not> readable_status status then view\<lparr>vp_Summary := status\<rparr>
      else
        let quota = bytes_of (xa_Quota account); used = bytes_of (xa_Used account) in
        view\<lparr>vp_QuotaBytes := quota, vp_UsedBytes := used, vp_UsedPercent := percent oor used quota,
             vp_Summary := summarize used quota\<rparr>)"

section \<open>One person\<close>

record UsageState =
  us_Providers :: "UsageProvider list"
  us_Complete :: bool
  us_Budget :: int64
  us_Used :: int64
  us_AnyUnlimited :: bool

definition usage_step ::
  "int64 \<Rightarrow> UsageInput \<Rightarrow> bool \<Rightarrow> (RowID \<Rightarrow> bool) \<Rightarrow> UsageState \<Rightarrow> ExternalAccount \<Rightarrow> UsageState" where
  "usage_step oor inp hasPolicy managed s account =
     (case find (\<lambda>p. ob_ID p = xa_ProviderID account) (rev (ui_Providers inp)) of
        None \<Rightarrow> s
      | Some provider \<Rightarrow>
          let view = usageFor oor inp provider account (managed (xa_ProviderID account));
              s = s\<lparr>us_Providers := us_Providers s @ [view]\<rparr>;
              s = (if \<not> readable_status (vp_Status view) \<or>
                      vp_QuotaBytes view = None \<and> \<not> Quota_IsUnlimited (xa_Quota account)
                   then s\<lparr>us_Complete := False\<rparr> else s);
              s = (if hasPolicy then s
                   else s\<lparr>us_AnyUnlimited := us_AnyUnlimited s \<or>
                            Quota_IsUnlimited (xa_Quota account) \<and> readable_status (vp_Status view),
                          us_Budget := us_Budget s + (case vp_QuotaBytes view of None \<Rightarrow> 0 | Some n \<Rightarrow> n)\<rparr>)
          in (case vp_UsedBytes view of
                Some n \<Rightarrow> s\<lparr>us_Used := us_Used s + n\<rparr>
              | None \<Rightarrow> s\<lparr>us_Complete := False\<rparr>))"

definition no_policy :: UserPolicy where
  "no_policy = \<lparr>up_ProviderOverrides = Map.empty, up_TierOverride = None\<rparr>"

definition has_policy :: "UsageInput \<Rightarrow> bool" where
  "has_policy inp \<longleftrightarrow> p_Tiers (ui_Policy inp) \<noteq> Map.empty"

definition user_policy :: "UsageInput \<Rightarrow> User \<Rightarrow> UserPolicy" where
  "user_policy inp user = (case ui_UserPolicies inp (u_ID user) of None \<Rightarrow> no_policy | Some up \<Rightarrow> up)"

definition resolutions :: "UsageInput \<Rightarrow> User \<Rightarrow> Resolution list" where
  "resolutions inp user =
     (if has_policy inp
      then map (\<lambda>p. Resolve user (ob_ID p) (ui_Policy inp) (user_policy inp user)) (ui_Providers inp) else [])"

text \<open>Whether the policy allocates a provider: false when the provider was not resolved.\<close>

definition managed :: "UsageInput \<Rightarrow> User \<Rightarrow> RowID \<Rightarrow> bool" where
  "managed inp user i \<longleftrightarrow> has_policy inp \<and> i \<in> ob_ID ` set (ui_Providers inp) \<and>
     r_Present (Resolve user i (ui_Policy inp) (user_policy inp user))"

definition usage_entry :: "int64 \<Rightarrow> UsageInput \<Rightarrow> User \<Rightarrow> UsageUser" where
  "usage_entry oor inp user =
     (let s = foldl (usage_step oor inp (has_policy inp) (managed inp user))
            \<lparr>us_Providers = [], us_Complete = True, us_Budget = 0, us_Used = 0, us_AnyUnlimited = False\<rparr>
            (filter (\<lambda>a. xa_UserID a = Some (u_ID user)) (ui_Accounts inp));
          s = (if \<not> has_policy inp then s
               else let effective = EffectiveBudget (resolutions inp user) in
                 if Quota_IsUnlimited effective then s\<lparr>us_AnyUnlimited := True\<rparr>
                 else if Quota_IsBytes effective then s\<lparr>us_Budget := q_Bytes effective\<rparr>
                 else s\<lparr>us_Complete := False\<rparr>);
          budget = (if us_AnyUnlimited s then None else Some (us_Budget s));
          used = Some (us_Used s) in
      \<lparr>vu_User = u_UID user, vu_UserUUID = u_SourceUUID user, vu_BudgetBytes = budget, vu_UsedBytes = used,
       vu_UsedPercent = percent oor used budget, vu_Complete = us_Complete s,
       vu_Summary = summarize used budget @ (if us_Complete s then [] else '' (partial)''),
       vu_Providers = sort_key vp_Name (us_Providers s)\<rparr>)"

definition BuildUsage :: "int64 \<Rightarrow> UsageInput \<Rightarrow> UsageResponse" where
  "BuildUsage oor inp =
     \<lparr>ur_Schema = UsageSchema, ur_Users = sort_key vu_UserUUID (map (usage_entry oor inp) (ui_Users inp))\<rparr>"

section \<open>The flat views\<close>

definition TitleCase :: "string \<Rightarrow> string" where
  "TitleCase s = (case s of [] \<Rightarrow> [] | c # cs \<Rightarrow> upper_char c # cs)"

text \<open>The separator is a middle dot, two bytes in UTF-8.\<close>

definition row_name :: "string \<Rightarrow> string \<Rightarrow> string" where
  "row_name user typ = user @ [CHR '' '', CHR 0xC2, CHR 0xB7, CHR '' ''] @ TitleCase typ"

definition user_rows :: "UsageUser \<Rightarrow> UsageRow list" where
  "user_rows user =
     \<lparr>uw_Name = vu_User user, uw_Summary = vu_Summary user,
      uw_Status = (if vu_Complete user then StatusOK else ''partial'')\<rparr> #
     map (\<lambda>p. \<lparr>uw_Name = row_name (vu_User user) (vp_Type p), uw_Summary = vp_Summary p, uw_Status = vp_Status p\<rparr>)
       (vu_Providers user)"

definition BuildUsageDetail :: "UsageResponse \<Rightarrow> UsageDetailResponse" where
  "BuildUsageDetail response =
     \<lparr>ud_Schema = ur_Schema response, ud_Rows = concat (map user_rows (ur_Users response))\<rparr>"

record ServiceTotal =
  sv_Used :: int64
  sv_Quota :: int64
  sv_Unlimited :: bool
  sv_Known :: bool
  sv_Partial :: bool

definition no_total :: ServiceTotal where
  "no_total = \<lparr>sv_Used = 0, sv_Quota = 0, sv_Unlimited = False, sv_Known = False, sv_Partial = False\<rparr>"

definition add_to_total :: "ServiceTotal \<Rightarrow> UsageProvider \<Rightarrow> ServiceTotal" where
  "add_to_total t p =
     (if \<not> readable_status (vp_Status p) then t\<lparr>sv_Partial := True\<rparr>
      else
        let t = t\<lparr>sv_Known := True\<rparr>;
            t = (case vp_UsedBytes p of None \<Rightarrow> t | Some n \<Rightarrow> t\<lparr>sv_Used := sv_Used t + n\<rparr>) in
        (case vp_QuotaBytes p of None \<Rightarrow> t\<lparr>sv_Unlimited := True\<rparr> | Some n \<Rightarrow> t\<lparr>sv_Quota := sv_Quota t + n\<rparr>))"

definition summarizeTotal :: "ServiceTotal \<Rightarrow> string" where
  "summarizeTotal t =
     (if \<not> sv_Known t then ''unknown''
      else if sv_Unlimited t then FormatIEC (sv_Used t) @ '' (unlimited)''
      else if sint (sv_Quota t) \<le> 0 then FormatIEC (sv_Used t)
      else with_share (sv_Used t) (sv_Quota t))"

definition service_step ::
  "(string \<rightharpoonup> ServiceTotal) \<times> string list \<Rightarrow> UsageProvider \<Rightarrow> (string \<rightharpoonup> ServiceTotal) \<times> string list" where
  "service_step s p =
     (case s of (byType, order) \<Rightarrow>
        (case byType (vp_Type p) of
           None \<Rightarrow> (byType(vp_Type p \<mapsto> add_to_total no_total p), order @ [vp_Type p])
         | Some t \<Rightarrow> (byType(vp_Type p \<mapsto> add_to_total t p), order)))"

definition service_row :: "string \<Rightarrow> ServiceTotal \<Rightarrow> UsageRow" where
  "service_row typ t =
     \<lparr>uw_Name = TitleCase typ, uw_Summary = summarizeTotal t,
      uw_Status = (if sv_Partial t then ''partial'' else StatusOK)\<rparr>"

definition BuildUsageByService :: "UsageResponse \<Rightarrow> UsageDetailResponse" where
  "BuildUsageByService response =
     (case foldl service_step (Map.empty, []) (concat (map vu_Providers (ur_Users response))) of
        (byType, order) \<Rightarrow>
          \<lparr>ud_Schema = ur_Schema response,
           ud_Rows = map (\<lambda>typ. service_row typ (the (byType typ))) (sort order)\<rparr>)"

section \<open>Lemmas\<close>

text \<open>A number is reported only from a value that was read, is recent enough, and is known.\<close>

definition honest :: "ExternalAccount \<Rightarrow> UsageProvider \<Rightarrow> bool" where
  "honest a v \<longleftrightarrow>
     (\<forall>n. vp_QuotaBytes v = Some n \<longrightarrow> xa_ObserveOK a \<and> Quota_IsBytes (xa_Quota a) \<and> q_Bytes (xa_Quota a) = n) \<and>
     (\<forall>n. vp_UsedBytes v = Some n \<longrightarrow> xa_ObserveOK a \<and> Quota_IsBytes (xa_Used a) \<and> q_Bytes (xa_Used a) = n) \<and>
     (readable_status (vp_Status v) \<longrightarrow> Quota_IsKnown (xa_Quota a) \<and> Quota_IsKnown (xa_Used a) \<and>
        (vp_QuotaBytes v = None \<longrightarrow> \<not> Quota_IsBytes (xa_Quota a))) \<and>
     (\<not> readable_status (vp_Status v) \<longrightarrow> vp_QuotaBytes v = None \<and> vp_UsedBytes v = None \<and> vp_UsedPercent v = None)"

lemma status_distinct [simp]:
  "readable_status StatusOK" "readable_status StatusStale" "\<not> readable_status StatusUnavailable"
  "\<not> readable_status StatusUnknown"
  by (simp_all add: readable_status_def StatusOK_def StatusStale_def StatusUnavailable_def StatusUnknown_def)

lemma usageFor_honest: "honest account (usageFor oor inp provider account m)"
proof -
  have "readable_status (statusFor inp provider account) \<Longrightarrow>
      xa_ObserveOK account \<and> Quota_IsKnown (xa_Quota account) \<and> Quota_IsKnown (xa_Used account)"
    by (auto simp: statusFor_def split: if_splits)
  then show ?thesis
    by (auto simp: honest_def usageFor_def Let_def bytes_of_def split: if_splits)
qed

lemma usage_step_providers:
  "us_Providers (usage_step oor inp h m s a) =
     us_Providers s @ (case find (\<lambda>p. ob_ID p = xa_ProviderID a) (rev (ui_Providers inp)) of None \<Rightarrow> []
       | Some p \<Rightarrow> [usageFor oor inp p a (m (xa_ProviderID a))])"
  by (simp add: usage_step_def Let_def split: option.split)

lemma usage_fold_providers:
  "us_Providers (foldl (usage_step oor inp h m) s as) =
     us_Providers s @ concat (map (\<lambda>a. case find (\<lambda>p. ob_ID p = xa_ProviderID a) (rev (ui_Providers inp)) of
        None \<Rightarrow> [] | Some p \<Rightarrow> [usageFor oor inp p a (m (xa_ProviderID a))]) as)"
  by (induction as arbitrary: s) (simp_all add: usage_step_providers)

lemma usage_entry_providers:
  "vu_Providers (usage_entry oor inp user) = sort_key vp_Name (concat (map (\<lambda>a.
     case find (\<lambda>p. ob_ID p = xa_ProviderID a) (rev (ui_Providers inp)) of
        None \<Rightarrow> [] | Some p \<Rightarrow> [usageFor oor inp p a (managed inp user (xa_ProviderID a))])
     (filter (\<lambda>a. xa_UserID a = Some (u_ID user)) (ui_Accounts inp))))"
  by (simp add: usage_entry_def Let_def usage_fold_providers)

lemma usage_entry_who [simp]:
  "vu_User (usage_entry oor inp user) = u_UID user" "vu_UserUUID (usage_entry oor inp user) = u_SourceUUID user"
  by (simp_all add: usage_entry_def Let_def)

text \<open>The aggregation by service is one fold per service.\<close>

definition total_of :: "string \<Rightarrow> UsageProvider list \<Rightarrow> ServiceTotal" where
  "total_of typ ps = foldl add_to_total no_total (filter (\<lambda>p. vp_Type p = typ) ps)"

lemma service_fold:
  assumes "foldl service_step (Map.empty, []) ps = (byType, order)"
  shows "distinct order \<and> set order = vp_Type ` set ps \<and>
     (\<forall>typ. byType typ = (if typ \<in> vp_Type ` set ps then Some (total_of typ ps) else None))"
  using assms
proof (induction ps arbitrary: byType order rule: rev_induct)
  case (snoc p ps)
  obtain m os where m: "foldl service_step (Map.empty, []) ps = (m, os)" by (meson surj_pair)
  note IH = snoc.IH [OF m]
  have step: "(byType, order) = service_step (m, os) p" using snoc.prems m by simp
  have total: "total_of ty (ps @ [p]) = (if vp_Type p = ty then add_to_total (total_of ty ps) p else total_of ty ps)" for ty
    by (simp add: total_of_def)
  show ?case
  proof (cases "vp_Type p \<in> vp_Type ` set ps")
    case True
    with IH have "m (vp_Type p) = Some (total_of (vp_Type p) ps)" by simp
    with step have "byType = m(vp_Type p \<mapsto> add_to_total (total_of (vp_Type p) ps) p)" "order = os"
      by (simp_all add: service_step_def)
    with IH True show ?thesis by (auto simp: total)
  next
    case False
    with IH have none: "m (vp_Type p) = None" by simp
    have "filter (\<lambda>q. vp_Type q = vp_Type p) ps = []" using False by (auto simp: filter_empty_conv image_iff)
    then have "total_of (vp_Type p) ps = no_total" by (simp add: total_of_def)
    with step none have "byType = m(vp_Type p \<mapsto> add_to_total (total_of (vp_Type p) ps) p)" "order = os @ [vp_Type p]"
      by (simp_all add: service_step_def)
    with IH False show ?thesis by (auto simp: total)
  qed
qed simp

lemma BuildUsageByService_eq:
  "ud_Rows (BuildUsageByService response) =
     (let ps = concat (map vu_Providers (ur_Users response)) in
      map (\<lambda>typ. service_row typ (total_of typ ps)) (sorted_list_of_set (vp_Type ` set ps)))"
proof -
  let ?ps = "concat (map vu_Providers (ur_Users response))"
  obtain byType order where f: "foldl service_step (Map.empty, []) ?ps = (byType, order)" by (meson surj_pair)
  note s = service_fold [OF f]
  then have "sort order = sorted_list_of_set (vp_Type ` set ?ps)"
    by (metis sorted_list_of_set_sort_remdups distinct_remdups_id)
  moreover have "map (\<lambda>typ. service_row typ (the (byType typ))) (sort order) = map (\<lambda>typ. service_row typ (total_of typ ?ps)) (sort order)"
    by (rule map_cong [OF refl]) (use s in auto)
  ultimately show ?thesis unfolding BuildUsageByService_def f by (simp add: Let_def)
qed

end
