(* ===== verification/Console.thy ===== *)
theory Console
  imports Cycle Usage
begin

text \<open>
  The commands of \<open>cmd/nuno/cli.go\<close>: reading once, listing, linking, people entered by hand, and
  the usage table. A command yields its exit code and what it prints on standard output; what
  goes to standard error and to the log is not kept.
\<close>

section \<open>Exit codes\<close>

definition ExitClean :: nat where "ExitClean = 0"
definition ExitError :: nat where "ExitError = 1"
definition ExitIncomplete :: nat where "ExitIncomplete = 2"
definition ExitConfig :: nat where "ExitConfig = 3"

lemma exit_codes [simp]:
  "ExitClean \<noteq> ExitError" "ExitClean \<noteq> ExitIncomplete" "ExitClean \<noteq> ExitConfig"
  "ExitError \<noteq> ExitClean" "ExitError \<noteq> ExitIncomplete" "ExitError \<noteq> ExitConfig"
  "ExitIncomplete \<noteq> ExitClean" "ExitIncomplete \<noteq> ExitError" "ExitIncomplete \<noteq> ExitConfig"
  "ExitConfig \<noteq> ExitClean" "ExitConfig \<noteq> ExitError" "ExitConfig \<noteq> ExitIncomplete"
  by (simp_all add: ExitClean_def ExitError_def ExitIncomplete_def ExitConfig_def)

type_synonym Answer = "nat \<times> Line list"

section \<open>Reading once\<close>

definition observe_row :: "'w Env \<Rightarrow> ProviderResult \<Rightarrow> Line" where
  "observe_row env p = Row [rs_Name p, show_nat (rs_Observed p), show_nat (rs_Skipped p), show_nat (rs_Linked p),
     show_nat (rs_Issues p), (case rs_Err p of None \<Rightarrow> [] | Some e \<Rightarrow> observe_text env e)]"

definition observe_lines :: "'w Env \<Rightarrow> Report \<Rightarrow> Line list" where
  "observe_lines env report =
     (case Report_Totals report of (observed, linked, issues) \<Rightarrow>
        Row [''PROVIDER'', ''OBSERVED'', ''SKIPPED'', ''LINKED'', ''ISSUES'', ''DETAIL''] #
        map (observe_row env) (rp_Providers report) @
        [Print [], Print (show_nat observed @ '' accounts observed, '' @ show_nat linked @ '' linked, '' @
           show_nat issues @ '' issues, in '' @
           Duration_String (Duration_Round (rp_FinishedAt report - rp_StartedAt report) (10 ^ 6)))])"

definition observeOnce :: "'w Server \<Rightarrow> 'w World \<Rightarrow> Database \<Rightarrow> Answer \<times> 'w World \<times> Database" where
  "observeOnce srv w db =
     (case call_SyncIdentity srv w db of (_, w, db) \<Rightarrow>
        (case srv_Observe srv w db of
           ((report, Some _), w, db) \<Rightarrow> ((ExitError, []), w, db)
         | ((report, None), w, db) \<Rightarrow>
             ((if Report_OK report then ExitClean else ExitIncomplete, observe_lines (srv_Env srv) report), w, db)))"

section \<open>Listing accounts\<close>

text \<open>An entry of a map by id, which a later row of the list replaces; a missing one has no name.\<close>

definition provider_label :: "ProviderRow list \<Rightarrow> RowID \<Rightarrow> string" where
  "provider_label rows i =
     (case find (\<lambda>r. provider_id r = i) (rev rows) of None \<Rightarrow> [] | Some r \<Rightarrow> pi_Name (pr_Inst r))"

definition person_label :: "string \<Rightarrow> User list \<Rightarrow> RowID option \<Rightarrow> string" where
  "person_label nobody users i =
     (case i of None \<Rightarrow> nobody
      | Some k \<Rightarrow> (case users_by_id users k of None \<Rightarrow> nobody | Some u \<Rightarrow> u_UID u))"

definition account_state :: "ExternalAccount \<Rightarrow> string" where
  "account_state a =
     (if xa_Deleted a then ''deleted'' else if \<not> xa_Enabled a then ''disabled''
      else if xa_NeverUsed a then ''never used'' else ''ok'')"

definition account_line :: "ProviderRow list \<Rightarrow> User list \<Rightarrow> ExternalAccount \<Rightarrow> Line" where
  "account_line rows users a =
     Row [provider_label rows (xa_ProviderID a), xa_ExternalID a, person_label ''unmanaged'' users (xa_UserID a),
          account_state a, Quota_String (xa_Quota a), Quota_String (xa_Used a)]"

text \<open>The free text of an issue, the last column, is not in the model.\<close>

definition issue_line :: "ProviderRow list \<Rightarrow> User list \<Rightarrow> LinkIssue \<Rightarrow> Line" where
  "issue_line rows users i =
     Row [provider_label rows (li_ProviderID i), issue_kind_text (li_Kind i), person_label [] users (li_UserID i),
          li_ExternalID i]"

definition listAccounts :: "Database \<Rightarrow> Answer" where
  "listAccounts db =
     (let rows = ListProviders db; users = ListUsers db; issues = ListLinkIssues db in
      case ListAllExternalAccounts db of
        Inl _ \<Rightarrow> (ExitError, [])
      | Inr accounts \<Rightarrow>
          (ExitClean,
           Row [''PROVIDER'', ''ACCOUNT'', ''PERSON'', ''STATE'', ''QUOTA'', ''USED''] #
           map (account_line rows users) accounts @
           (if issues = [] then []
            else [Print [], Print (show_nat (length issues) @ '' issue(s) need a decision:''), Print [],
                  Row [''PROVIDER'', ''KIND'', ''PERSON'', ''ACCOUNT'', ''DETAIL'']] @
                 map (issue_line rows users) issues)))"

section \<open>Links\<close>

definition resolveTarget :: "string \<Rightarrow> string \<Rightarrow> Database \<Rightarrow> (User \<times> ProviderRow) option" where
  "resolveTarget uid providerName db =
     (case find_user uid db of
        None \<Rightarrow> None
      | Some user \<Rightarrow>
          (case GetProviderByName providerName db of Inl _ \<Rightarrow> None | Inr provider \<Rightarrow> Some (user, provider)))"

definition linkAccount :: "Time \<Rightarrow> string list \<Rightarrow> Database \<Rightarrow> Answer \<times> Database" where
  "linkAccount now args db =
     (case args of
        [uid, providerName, externalID] \<Rightarrow>
          (case resolveTarget uid providerName db of
             None \<Rightarrow> ((ExitConfig, []), db)
           | Some (user, provider) \<Rightarrow>
               (case ListExternalAccounts (provider_id provider) db of
                  Inl _ \<Rightarrow> ((ExitError, []), db)
                | Inr accounts \<Rightarrow>
                    (case find (\<lambda>a. xa_ExternalID a = externalID) (rev accounts) of
                       None \<Rightarrow> ((ExitConfig, []), db)
                     | Some target \<Rightarrow>
                         if \<not> ExternalAccount_Writable target then ((ExitConfig, []), db)
                         else (case actor_link_to now user provider externalID db of
                             (Some _, db) \<Rightarrow> ((ExitError, []), db)
                           | (None, db) \<Rightarrow>
                               ((ExitClean, [Print (''linked '' @ uid @ '' to '' @ externalID @ '' on '' @ providerName)]), db)))))
      | _ \<Rightarrow> ((ExitConfig, []), db))"

definition unlinkAccount :: "string list \<Rightarrow> Database \<Rightarrow> Answer \<times> Database" where
  "unlinkAccount args db =
     (case args of
        [uid, providerName] \<Rightarrow>
          (case resolveTarget uid providerName db of
             None \<Rightarrow> ((ExitConfig, []), db)
           | Some (user, provider) \<Rightarrow>
               (case DeleteLink (u_ID user) (provider_id provider) db of
                  (db, False) \<Rightarrow> ((ExitConfig, []), db)
                | (db, True) \<Rightarrow> ((ExitClean, [Print (''unlinked '' @ uid @ '' from '' @ providerName)]), db)))
      | _ \<Rightarrow> ((ExitConfig, []), db))"

section \<open>People\<close>

definition user_line :: "User \<Rightarrow> Line" where
  "user_line u = Row [u_UID u, source_text (u_Source u), status_text (u_Status u), u_Email u,
     show_nat (length (u_GroupUUIDs u))]"

definition listUsers :: "Database \<Rightarrow> Answer" where
  "listUsers db =
     (if ListUsers db = []
      then (ExitClean, [Print ''No users. Configure NUNO_LDAP_URL, or add one with `nuno users add <uid> [email]`.''])
      else (ExitClean, Row [''UID'', ''SOURCE'', ''STATUS'', ''EMAIL'', ''GROUPS''] # map user_line (ListUsers db)))"

definition new_user :: "string \<Rightarrow> string \<Rightarrow> User" where
  "new_user uid email =
     \<lparr>u_ID = 0, u_Source = SourceManual, u_SourceUUID = [], u_UID = uid, u_Email = email, u_DisplayName = [],
      u_Status = UserActive, u_GroupUUIDs = []\<rparr>"

definition addUser :: "string \<Rightarrow> string \<Rightarrow> string \<Rightarrow> Database \<Rightarrow> Answer \<times> Database" where
  "addUser uuid uid email db =
     (case AddManualUser uuid (new_user uid email) db of
        Inl _ \<Rightarrow> ((ExitConfig, []), db)
      | Inr (db, user) \<Rightarrow>
          ((ExitClean, [Print (''added manual user '' @ u_UID user @ '' ('' @ u_SourceUUID user @ '')''),
             Print ''run `nuno observe` to link them to an account'']), db))"

text \<open>\<open>uuid\<close> is the fresh identifier of a person entered by hand.\<close>

definition manageUsers :: "string \<Rightarrow> string list \<Rightarrow> Database \<Rightarrow> Answer \<times> Database" where
  "manageUsers uuid args db =
     (case args of
        [] \<Rightarrow> ((ExitConfig, []), db)
      | cmd # rest \<Rightarrow>
          if cmd = ''list'' then (listUsers db, db)
          else if cmd = ''add''
          then (case rest of
              [] \<Rightarrow> ((ExitConfig, []), db)
            | [uid] \<Rightarrow> addUser uuid uid [] db
            | uid # email # _ \<Rightarrow> addUser uuid uid email db)
          else if cmd = ''remove''
          then (case rest of
              [uid] \<Rightarrow>
                (case find (\<lambda>u. EqualFold (u_UID u) uid) (ListUsers db) of
                   None \<Rightarrow> ((ExitConfig, []), db)
                 | Some u \<Rightarrow>
                     ((ExitClean, [Print (''removed '' @ u_UID u @
                        '': their accounts are unmanaged now, and their data is untouched'')]),
                      fst (DeleteUser (u_ID u) db)))
            | _ \<Rightarrow> ((ExitConfig, []), db))
          else ((ExitConfig, []), db))"

section \<open>Usage\<close>

definition sharePercent :: "rat option \<Rightarrow> string" where
  "sharePercent p = (case p of None \<Rightarrow> ''-'' | Some v \<Rightarrow> FormatFixed 1 v @ ''%'')"

definition usage_provider_line :: "UsageProvider \<Rightarrow> Line" where
  "usage_provider_line p =
     Row [[], vp_Name p, (case vp_UsedBytes p of None \<Rightarrow> ''-'' | Some n \<Rightarrow> FormatIEC n),
          (if vp_Status p = StatusUnknown \<or> vp_Status p = StatusUnavailable then vp_Status p
           else case vp_QuotaBytes p of None \<Rightarrow> ''unlimited'' | Some n \<Rightarrow> FormatIEC n),
          sharePercent (vp_UsedPercent p), vp_Status p]"

definition usage_user_lines :: "UsageUser \<Rightarrow> Line list" where
  "usage_user_lines u =
     Row [vu_User u, ''(total)'', (case vu_UsedBytes u of None \<Rightarrow> ''unknown'' | Some n \<Rightarrow> FormatIEC n),
          (case vu_BudgetBytes u of None \<Rightarrow> ''unlimited'' | Some n \<Rightarrow> FormatIEC n),
          sharePercent (vu_UsedPercent u), (if vu_Complete u then [] else ''partial'')] #
     map usage_provider_line (vu_Providers u)"

text \<open>What \<open>BuildUsage\<close> is given, by the command and by the page and the endpoint alike.\<close>

definition observed_provider :: "ProviderRow \<Rightarrow> ObservedProvider" where
  "observed_provider p =
     \<lparr>ob_ID = provider_id p, ob_Type = pi_Type (pr_Inst p), ob_Name = pi_Name (pr_Inst p),
      ob_HasObserved = (pr_LastObserveAt p \<noteq> None), ob_LastObserveOK = pr_LastObserveOK p\<rparr>"

fun load_user_policies :: "User list \<Rightarrow> Database \<Rightarrow> (RowID \<rightharpoonup> UserPolicy) \<Rightarrow> store_error + (RowID \<rightharpoonup> UserPolicy)" where
  "load_user_policies [] db m = Inr m"
| "load_user_policies (u # us) db m =
     (case UserPolicy_of (u_ID u) db of
        Inl e \<Rightarrow> Inl e | Inr up \<Rightarrow> load_user_policies us db (m(u_ID u \<mapsto> up)))"

definition usage_input :: "Time \<Rightarrow> Duration \<Rightarrow> Database \<Rightarrow> store_error + UsageInput" where
  "usage_input now interval db =
     bind_result (ListAllExternalAccounts db) (\<lambda>accounts.
     bind_result (LoadPolicy db) (\<lambda>policy.
     bind_result (load_user_policies (active_users db) db Map.empty) (\<lambda>userPolicies.
       Inr \<lparr>ui_Now = now, ui_RefreshInterval = interval, ui_Users = active_users db,
            ui_Providers = map observed_provider (ListProviders db), ui_Accounts = accounts, ui_Policy = policy,
            ui_UserPolicies = userPolicies\<rparr>)))"

definition showUsage :: "int64 \<Rightarrow> Time \<Rightarrow> Duration \<Rightarrow> Database \<Rightarrow> Answer" where
  "showUsage oor now interval db =
     (case usage_input now interval db of
        Inl _ \<Rightarrow> (ExitError, [])
      | Inr inp \<Rightarrow>
          let response = BuildUsage oor inp in
          if ur_Users response = []
          then (ExitClean, [Print (''Nobody to report on. Add someone with `nuno users add <uid> [email]`, '' @
                 ''then run `nuno observe`.'')])
          else (ExitClean, Row [''PERSON'', ''SERVICE'', ''USED'', ''CEILING'', ''SHARE'', ''STATUS''] #
                 concat (map usage_user_lines (ur_Users response))))"

end
