(* ===== verification/Size.thy ===== *)
theory Size
  imports Strconv Policy
begin

text \<open>
  \<open>internal/core/parse.go\<close>: the sizes and allocations a person types, and how they are shown
  back in a form. \<open>oor\<close> is what the conversion of a double to \<open>int64\<close> yields where the
  language leaves it to the implementation (NaN, an infinity, or beyond the range).
\<close>

section \<open>Sizes\<close>

text \<open>\<open>sizeUnits\<close>, each suffix with its factor, in the order the two loops try them.\<close>

definition sizeUnits :: "(string \<times> int) list" where
  "sizeUnits =
     [(''pib'', 2 ^ 50), (''pb'', 2 ^ 50), (''p'', 2 ^ 50), (''tib'', 2 ^ 40), (''tb'', 2 ^ 40), (''t'', 2 ^ 40),
      (''gib'', 2 ^ 30), (''gb'', 2 ^ 30), (''g'', 2 ^ 30), (''mib'', 2 ^ 20), (''mb'', 2 ^ 20), (''m'', 2 ^ 20),
      (''kib'', 2 ^ 10), (''kb'', 2 ^ 10), (''k'', 2 ^ 10), (''b'', 1)]"

datatype parse_error =
    SizeRequired
  | UnknownAsked
  | NotASize string
  | NegativeSize string
  | SizeQuota quota_error
  | NotAPercentage string
  | PercentNotInRange string
  | NotAnAllocation string

text \<open>\<open>amount * float64(factor)\<close> and \<open>amount < 0\<close> on a double; a factor is a power of two.\<close>

definition float_times :: "f64 \<Rightarrow> int \<Rightarrow> f64" where
  "float_times f k = (case f of Finite v \<Rightarrow> Finite (fmul v (f64_of_int k)) | _ \<Rightarrow> f)"

definition float_negative :: "f64 \<Rightarrow> bool" where
  "float_negative f = (case f of Finite v \<Rightarrow> v < 0 | Infinite neg \<Rightarrow> neg | NotANumber \<Rightarrow> False)"

fun ParseSize_loop ::
  "(f64 \<Rightarrow> int64) \<Rightarrow> string \<Rightarrow> string \<Rightarrow> (string \<times> int) list \<Rightarrow> (parse_error + Quota) option" where
  "ParseSize_loop oor text v [] = None"
| "ParseSize_loop oor text v ((suffix, factor) # us) =
     (case CutSuffix v suffix of
        None \<Rightarrow> ParseSize_loop oor text v us
      | Some number \<Rightarrow>
          Some (case ParseFloat (TrimSpace number) of
            None \<Rightarrow> Inl (NotASize text)
          | Some amount \<Rightarrow>
              if float_negative amount then Inl (NegativeSize text)
              else case BytesQuota (i64_of_float oor (float_times amount factor)) of
                Inl e \<Rightarrow> Inl (SizeQuota e) | Inr q \<Rightarrow> Inr q))"

definition ParseSize :: "(f64 \<Rightarrow> int64) \<Rightarrow> string \<Rightarrow> parse_error + Quota" where
  "ParseSize oor text =
     (let v = ToLower (TrimSpace text) in
      if v = [] then Inl SizeRequired
      else if v = ''unlimited'' \<or> v = ''none'' then Inr Unlimited
      else if v = ''unknown'' then Inl UnknownAsked
      else case ParseSize_loop oor text v sizeUnits of
        Some r \<Rightarrow> r
      | None \<Rightarrow>
          (case ParseInt v of
             Inl _ \<Rightarrow> Inl (NotASize text)
           | Inr amount \<Rightarrow> (case BytesQuota amount of Inl e \<Rightarrow> Inl (SizeQuota e) | Inr q \<Rightarrow> Inr q)))"

definition ParseSizeInGiB :: "(f64 \<Rightarrow> int64) \<Rightarrow> string \<Rightarrow> parse_error + Quota" where
  "ParseSizeInGiB oor text =
     (let trimmed = TrimSpace text in
      if trimmed \<noteq> [] \<and> ParseFloat trimmed \<noteq> None then ParseSize oor (trimmed @ ''GiB'')
      else ParseSize oor trimmed)"

section \<open>Allocations\<close>

definition ParseAllocation :: "(f64 \<Rightarrow> int64) \<Rightarrow> string \<Rightarrow> parse_error + Allocation" where
  "ParseAllocation oor text =
     (let v = TrimSpace text in
      case CutSuffix v ''%'' of
        Some percent \<Rightarrow>
          (case ParseInt (TrimSpace percent) of
             Inl _ \<Rightarrow> Inl (NotAPercentage text)
           | Inr share \<Rightarrow>
               if sint share < 0 \<or> 100 < sint share then Inl (PercentNotInRange text)
               else Inr \<lparr>al_ProviderID = 0, al_Mode = ModePercent, al_Value = share\<rparr>)
      | None \<Rightarrow>
          (case ParseSize oor v of
             Inl e \<Rightarrow> Inl e
           | Inr quota \<Rightarrow>
               (case q_Kind quota of
                  KindUnlimited \<Rightarrow> Inr \<lparr>al_ProviderID = 0, al_Mode = ModeUnlimited, al_Value = 0\<rparr>
                | KindBytes \<Rightarrow> Inr \<lparr>al_ProviderID = 0, al_Mode = ModeAbsolute, al_Value = q_Bytes quota\<rparr>
                | _ \<Rightarrow> Inl (NotAnAllocation text))))"

definition ParseAllocationInGiB :: "(f64 \<Rightarrow> int64) \<Rightarrow> string \<Rightarrow> parse_error + Allocation" where
  "ParseAllocationInGiB oor text =
     (let trimmed = TrimSpace text in
      if trimmed \<noteq> [] \<and> ParseFloat trimmed \<noteq> None then ParseAllocation oor (trimmed @ ''GiB'')
      else ParseAllocation oor trimmed)"

section \<open>Display\<close>

definition FormatGiBNumber :: "int64 \<Rightarrow> string" where
  "FormatGiBNumber n =
     (let v = fdiv (f64_of_int (sint n)) (f64_of_int (2 ^ 30)) in
      if v = f64_of_int (trunc_rat v) then show_int (trunc_rat v) else FormatFixed 2 v)"

definition Allocation_Describe :: "Allocation \<Rightarrow> string" where
  "Allocation_Describe a =
     (case al_Mode a of
        ModeUnlimited \<Rightarrow> ''unlimited''
      | ModePercent \<Rightarrow> FormatInt (al_Value a) @ ''%''
      | ModeAbsolute \<Rightarrow> FormatIEC (al_Value a)
      | ModeOther m \<Rightarrow> m)"

definition Allocation_DescribeGiB :: "Allocation \<Rightarrow> string" where
  "Allocation_DescribeGiB a =
     (if al_Mode a = ModeAbsolute then FormatGiBNumber (al_Value a) else Allocation_Describe a)"

section \<open>Lemmas\<close>

text \<open>A size that was accepted is a value one can ask for.\<close>

lemma ParseSize_loop_known:
  "ParseSize_loop oor text v us = Some (Inr q) \<Longrightarrow> \<exists>n. 0 \<le> sint n \<and> q = \<lparr>q_Kind = KindBytes, q_Bytes = n\<rparr>"
proof (induction us)
  case (Cons u us)
  then show ?case
    by (cases u) (auto simp: BytesQuota_eq_Inr split: option.splits sum.splits if_splits)
qed simp

lemma ParseSize_cases:
  assumes "ParseSize oor text = Inr q"
  shows "q = Unlimited \<or> (\<exists>n. 0 \<le> sint n \<and> q = \<lparr>q_Kind = KindBytes, q_Bytes = n\<rparr>)"
  using assms ParseSize_loop_known [where us = sizeUnits]
  by (auto simp: ParseSize_def Let_def BytesQuota_eq_Inr split: option.splits sum.splits if_splits)

lemma ParseSize_known:
  "ParseSize oor text = Inr q \<Longrightarrow> Quota_Valid q = None \<and> Quota_IsKnown q"
  by (drule ParseSize_cases) (auto simp: Quota_Valid_None_iff Quota_IsKnown_def)

lemma ParseSizeInGiB_known:
  "ParseSizeInGiB oor text = Inr q \<Longrightarrow> Quota_Valid q = None \<and> Quota_IsKnown q"
  using ParseSize_known by (auto simp: ParseSizeInGiB_def Let_def split: if_splits)

text \<open>An allocation that was accepted is one that validation accepts.\<close>

lemma ParseAllocation_ok:
  assumes "ParseAllocation oor text = Inr a"
  shows "alloc_ok a"
proof (cases "CutSuffix (TrimSpace text) ''%''")
  case (Some p)
  with assms show ?thesis by (auto simp: ParseAllocation_def Let_def alloc_ok_def split: sum.splits if_splits)
next
  case None
  with assms obtain q where q: "ParseSize oor (TrimSpace text) = Inr q"
    by (auto simp: ParseAllocation_def Let_def split: sum.splits)
  from ParseSize_cases [OF q] assms None q show ?thesis
    by (auto simp: ParseAllocation_def Let_def alloc_ok_def)
qed

lemma ParseAllocationInGiB_ok: "ParseAllocationInGiB oor text = Inr a \<Longrightarrow> alloc_ok a"
  using ParseAllocation_ok by (auto simp: ParseAllocationInGiB_def Let_def split: if_splits)

section \<open>The editor's field\<close>

text \<open>A whole number of GiB is shown as a decimal number without a unit, and read back exactly.\<close>

lemma digit_char_props:
  assumes "d < 10"
  shows "\<not> is_space (digit_char d)" "lower_char (digit_char d) = digit_char d" "digit_char d \<noteq> CHR ''_''"
    "digit_char d \<noteq> CHR ''i''" "digit_char d \<noteq> CHR ''n''" "digit_char d \<noteq> CHR ''u''" "digit_char d \<noteq> CHR ''x''"
proof -
  have "list_all (\<lambda>c. \<not> is_space c \<and> lower_char c = c \<and> c \<notin> set ''_inux'') (map digit_char [0..<10])"
    by code_simp
  moreover have "digit_char d \<in> set (map digit_char [0..<10])" using assms by simp
  ultimately have "\<not> is_space (digit_char d) \<and> lower_char (digit_char d) = digit_char d \<and> digit_char d \<notin> set ''_inux''"
    unfolding list_all_iff by blast
  then show "\<not> is_space (digit_char d)" "lower_char (digit_char d) = digit_char d" "digit_char d \<noteq> CHR ''_''"
    "digit_char d \<noteq> CHR ''i''" "digit_char d \<noteq> CHR ''n''" "digit_char d \<noteq> CHR ''u''" "digit_char d \<noteq> CHR ''x''"
    by auto
qed

lemma show_nat_digits: "c \<in> set (show_nat n) \<Longrightarrow> \<exists>d < 10. c = digit_char d"
proof (induction n rule: show_nat.induct)
  case (1 n)
  show ?case
  proof (cases "n < 10")
    case True
    with 1(2) show ?thesis by (auto simp: show_nat.simps [of n])
  next
    case False
    then have "n mod 10 < 10" by simp
    with False 1 show ?thesis by (auto simp: show_nat.simps [of n] simp del: mod_less_divisor)
  qed
qed

lemma digits_loop_show_nat:
  "digits_loop False 0 0 (show_nat n @ cs) = digits_loop False n (length (show_nat n)) cs"
proof (induction n arbitrary: cs rule: show_nat.induct)
  case (1 n)
  show ?case
  proof (cases "n < 10")
    case True
    then show ?thesis using digit_char_props [of n] by (simp add: show_nat.simps [of n])
  next
    case False
    then show ?thesis using 1 [of "digit_char (n mod 10) # cs"] digit_char_props [of "n mod 10"]
      by (simp add: show_nat.simps [of n] mult.commute)
  qed
qed

lemma TrimSpace_id:
  assumes "s \<noteq> []" "\<not> is_space (hd s)" "\<not> is_space (last s)"
  shows "TrimSpace s = s"
proof -
  have "dropWhile is_space s = s" using assms(1,2) by (cases s) auto
  moreover have "dropWhile is_space (rev s) = rev s" using assms(1,3) by (cases s rule: rev_cases) auto
  ultimately show ?thesis by (simp add: TrimSpace_def)
qed

lemma show_nat_text:
  "ToLower (show_nat n) = show_nat n" "show_nat n \<noteq> []" "\<not> is_space (hd (show_nat n))" "\<not> is_space (last (show_nat n))"
proof -
  have c: "\<not> is_space c \<and> lower_char c = c" if "c \<in> set (show_nat n)" for c
    using show_nat_digits [OF that] digit_char_props by auto
  show n: "show_nat n \<noteq> []" using show_nat_Cons [of n] by auto
  show "ToLower (show_nat n) = show_nat n" unfolding ToLower_def by (rule map_idI) (use c in blast)
  show "\<not> is_space (hd (show_nat n))" "\<not> is_space (last (show_nat n))" using c n by simp_all
qed

lemma ParseFloat_show_nat:
  assumes "n < 2 ^ 53"
  shows "ParseFloat (show_nat n) = Some (Finite (of_nat n))"
proof -
  obtain d cs where d: "show_nat n = digit_char d # cs" "d < 10" using show_nat_Cons by blast
  have sign: "parse_sign (show_nat n) = (False, show_nat n)"
    using d digit_char_not_sign [of d] by (simp add: parse_sign_def)
  have fold: "\<not> EqualFold (show_nat n) (c # s)" if "c \<in> {CHR ''i'', CHR ''n''}" "lower_char c = c" for c s
    using that d digit_char_props [of d] unfolding EqualFold_def show_nat_text(1) by (auto simp: ToLower_def)
  have low: "lower_char CHR ''i'' = CHR ''i''" "lower_char CHR ''n'' = CHR ''n''" by code_simp+
  have "\<not> hex_prefix (show_nat n)"
  proof (cases cs)
    case (Cons c cs')
    then obtain e where "c = digit_char e" "e < 10" using show_nat_digits [of c n] d by auto
    then show ?thesis using d Cons digit_char_props [of e] by (cases cs') (auto simp: hex_prefix_def)
  qed (use d in \<open>simp add: hex_prefix_def\<close>)
  moreover have "CHR ''_'' \<notin> set (show_nat n)" using show_nat_digits digit_char_props(3) by metis
  moreover have "length (show_nat n) \<noteq> 0" using show_nat_text(2) by simp
  ultimately have lit: "read_literal (show_nat n) = Some (of_nat n)"
    using digits_loop_show_nat [of n "[]"] by (simp add: read_literal_def parse_exponent_def Let_def)
  have "fl (of_nat n) = of_nat n" using fl_int [of "int n"] assms by simp
  moreover have "(of_nat n :: rat) < 2 ^ 1024"
  proof -
    have "n < 2 ^ 1024" using assms by (rule order.strict_trans) simp
    then have "of_nat n < (of_nat (2 ^ 1024) :: rat)" by (simp only: of_nat_less_iff)
    then show ?thesis by simp
  qed
  ultimately show ?thesis
    using fold low by (simp add: ParseFloat_def sign lit not_le)
qed

lemma ParseSizeInGiB_number:
  assumes "k < 2 ^ 33"
  shows "ParseSizeInGiB oor (show_nat k) = Inr \<lparr>q_Kind = KindBytes, q_Bytes = word_of_int (int k * 2 ^ 30)\<rparr>"
proof -
  let ?s = "show_nat k" and ?n = "int k * 2 ^ 30"
  have k: "k < 2 ^ 53" using assms by (rule order.strict_trans) simp
  note t = show_nat_text [of k]
  note float = ParseFloat_show_nat [OF k]
  have trim: "TrimSpace ?s = ?s" by (rule TrimSpace_id) (use t in simp_all)
  have trim': "TrimSpace (?s @ ''GiB'') = ?s @ ''GiB''"
    by (rule TrimSpace_id) (use t in \<open>simp_all add: is_space_def\<close>)
  have low: "ToLower (?s @ ''GiB'') = ?s @ ''gib''"
  proof -
    have "ToLower ''GiB'' = ''gib''" by code_simp
    then show ?thesis using t(1) by (simp add: ToLower_def)
  qed
  have no: "?s @ ''gib'' \<noteq> ''unlimited''" "?s @ ''gib'' \<noteq> ''none''" "?s @ ''gib'' \<noteq> ''unknown''"
    by (auto dest!: arg_cong [where f = rev])
  have suffix: "CutSuffix (?s @ ''gib'') x = None" if "x \<in> {''pib'', ''pb'', ''p'', ''tib'', ''tb'', ''t''}" for x
    using that by (auto simp: CutSuffix_def HasSuffix_def)
  have hit: "CutSuffix (?s @ ''gib'') ''gib'' = Some ?s" by simp
  have "int k < 2 ^ 33" using assms by (simp add: zless_nat_eq_int_zless)
  then have fits: "fits_i64 ?n" by (simp add: fits_i64_def)
  have "fmul (of_nat k) (f64_of_int (2 ^ 30)) = of_int ?n"
  proof -
    have "f64_of_int (2 ^ 30) = 2 powi 30" using fl_exact [of 1 30] by (simp add: f64_of_int_def)
    moreover have "fl (of_int (int k) * 2 powi 30) = of_int (int k) * 2 powi 30" using k by (intro fl_exact) simp
    ultimately show ?thesis by (simp add: fmul_def)
  qed
  then have "i64_of_float oor (float_times (Finite (of_nat k)) (2 ^ 30)) = word_of_int ?n"
    using fits by (simp add: i64_of_float_def float_times_def i64_of_f64_def del: of_int_mult)
  moreover have "BytesQuota (word_of_int ?n) = Inr \<lparr>q_Kind = KindBytes, q_Bytes = word_of_int ?n\<rparr>"
    unfolding BytesQuota_eq_Inr sint_of_fits [OF fits] by simp
  moreover have "\<not> float_negative (Finite (of_nat k))" by (simp add: float_negative_def)
  ultimately have "ParseSize_loop oor (?s @ ''GiB'') (?s @ ''gib'') sizeUnits =
      Some (Inr \<lparr>q_Kind = KindBytes, q_Bytes = word_of_int ?n\<rparr>)"
    using suffix hit trim float by (simp add: sizeUnits_def)
  then show ?thesis
    using t no by (simp add: ParseSizeInGiB_def ParseSize_def Let_def trim trim' low float)
qed

lemma FormatGiBNumber_whole:
  assumes "0 \<le> k" "k < 2 ^ 33"
  shows "FormatGiBNumber (word_of_int (k * 2 ^ 30)) = show_nat (nat k)"
proof -
  have "fits_i64 (k * 2 ^ 30)" using assms by (simp add: fits_i64_def)
  then have n: "sint (word_of_int (k * 2 ^ 30) :: int64) = k * 2 ^ 30" by (rule sint_of_fits)
  have k: "\<bar>k\<bar> < 2 ^ 53" using assms by simp
  have "f64_of_int (k * 2 ^ 30) = of_int k * 2 powi 30" using fl_exact [OF k, of 30] by (simp add: f64_of_int_def)
  moreover have "f64_of_int (2 ^ 30) = 2 powi 30" using fl_exact [of 1 30] by (simp add: f64_of_int_def)
  ultimately have "fdiv (f64_of_int (k * 2 ^ 30)) (f64_of_int (2 ^ 30)) = of_int k"
    using fl_int [OF k] by (simp add: fdiv_def)
  moreover have "f64_of_int (trunc_rat (of_int k)) = of_int k" using fl_int [OF k] by (simp add: f64_of_int_def)
  ultimately show ?thesis
    using assms(1) unfolding FormatGiBNumber_def Let_def n by (simp only: trunc_rat_of_int show_int_def) simp
qed

end
