(* ===== verification/PolicyConsole.thy ===== *)
theory PolicyConsole
  imports Console Size
begin

text \<open>
  The commands of \<open>cmd/nuno/policy.go\<close>: tiers and group mappings, overrides, the plan, adoption,
  the run, and the history. \<open>oor\<close> is the conversion of a double that no 64-bit integer holds.
\<close>

section \<open>Looking up by name\<close>

definition findTier :: "((RowID \<rightharpoonup> Tier) \<Rightarrow> Tier list) \<Rightarrow> string \<Rightarrow> Database \<Rightarrow> nat + Tier" where
  "findTier ord name db =
     (case LoadPolicy db of
        Inl _ \<Rightarrow> Inl ExitError
      | Inr policy \<Rightarrow> (case find_tier ord name policy of None \<Rightarrow> Inl ExitConfig | Some tier \<Rightarrow> Inr tier))"

definition findGroupUUID :: "string \<Rightarrow> Database \<Rightarrow> nat + string" where
  "findGroupUUID name db =
     (case find (\<lambda>g. EqualFold (g_Name g) name) (ListGroups db) of
        None \<Rightarrow> Inl ExitConfig | Some g \<Rightarrow> Inr (g_SourceUUID g))"

section \<open>Listing tiers\<close>

text \<open>The exchange sort of the code, over the order in which the map was iterated.\<close>

definition exchange :: "Tier list \<Rightarrow> nat \<Rightarrow> nat \<Rightarrow> Tier list" where
  "exchange ts i j =
     (if t_Name (ts ! j) < t_Name (ts ! i) then ts[i := ts ! j, j := ts ! i] else ts)"

definition select_least :: "Tier list \<Rightarrow> nat \<Rightarrow> Tier list" where
  "select_least ts i = foldl (\<lambda>ts j. exchange ts i j) ts [Suc i..<length ts]"

definition sortedTiers :: "((RowID \<rightharpoonup> Tier) \<Rightarrow> Tier list) \<Rightarrow> Policy \<Rightarrow> Tier list" where
  "sortedTiers ord policy = (let ts = ord (p_Tiers policy) in foldl select_least ts [0..<length ts])"

definition allocation_text :: "ProviderRow list \<Rightarrow> Allocation \<Rightarrow> string" where
  "allocation_text rows a =
     (let name = provider_label rows (al_ProviderID a);
          name = (if name = [] then ''provider '' @ show_int (al_ProviderID a) else name)
      in name @ ''='' @ Allocation_Describe a)"

definition tier_line :: "ProviderRow list \<Rightarrow> Tier \<Rightarrow> Line" where
  "tier_line rows t =
     (let allocations = map (allocation_text rows) (t_Allocations t);
          allocations = (if allocations = [] then [''none, so this tier touches nothing''] else allocations)
      in Row [t_Name t, Quota_String (t_Budget t), (if t_IsDefault t then ''yes'' else []), Join '' '' allocations,
              (if Overcommitted t then ''over-commits storage deliberately'' else [])])"

text \<open>\<open>groups\<close> is the order in which the map of the groups is iterated.\<close>

definition listTiers ::
  "((RowID \<rightharpoonup> Tier) \<Rightarrow> Tier list) \<Rightarrow> ((string \<rightharpoonup> string) \<Rightarrow> (string \<times> string) list) \<Rightarrow> Database \<Rightarrow> Answer" where
  "listTiers ord groups db =
     (case LoadPolicy db of
        Inl _ \<Rightarrow> (ExitError, [])
      | Inr policy \<Rightarrow>
          if ord (p_Tiers policy) = []
          then (ExitClean, [Print ''No tiers. Create one with `nuno tiers set standard --budget=100GiB cloud=25% photos=75%`.''])
          else (ExitClean,
            Row [''TIER'', ''BUDGET'', ''DEFAULT'', ''ALLOCATIONS'', ''NOTE''] #
            map (tier_line (ListProviders db)) (sortedTiers ord policy) @
            (if groups (GroupsWithTiers db) = [] then []
             else [Print [], Print ''Groups:'', Row [''GROUP'', ''TIER'']] @
                  map (\<lambda>(g, t). Row [g, t]) (groups (GroupsWithTiers db))) @
            [Print [], Print ''The most generous ceiling wins, per provider. Adding somebody to a stricter'',
             Print ''tier does not restrict them: demoting means removing the generous group.'']))"

section \<open>Editing tiers\<close>

fun tier_args ::
  "(f64 \<Rightarrow> int64) \<Rightarrow> ProviderRow list \<Rightarrow> string list \<Rightarrow> Tier \<Rightarrow> bool \<Rightarrow> (Tier \<times> bool) option" where
  "tier_args oor rows [] tier gave = Some (tier, gave)"
| "tier_args oor rows (arg # args) tier gave =
     (if arg = ''--default'' then tier_args oor rows args (tier\<lparr>t_IsDefault := True\<rparr>) gave
      else case CutPrefix arg ''--budget='' of
        Some v \<Rightarrow>
          (case ParseSize oor v of
             Inl _ \<Rightarrow> None
           | Inr budget \<Rightarrow> tier_args oor rows args (tier\<lparr>t_Budget := budget\<rparr>) gave)
      | None \<Rightarrow>
          if HasPrefix arg ''--'' then None
          else case Cut arg ''='' of
            None \<Rightarrow> None
          | Some (name, spec) \<Rightarrow>
              (case find (\<lambda>r. pi_Name (pr_Inst r) = name) (rev rows) of
                 None \<Rightarrow> None
               | Some row \<Rightarrow>
                   (case ParseAllocation oor spec of
                      Inl _ \<Rightarrow> None
                    | Inr a \<Rightarrow>
                        tier_args oor rows args
                          (tier\<lparr>t_Allocations := t_Allocations tier @ [a\<lparr>al_ProviderID := provider_id row\<rparr>]\<rparr>) True)))"

definition new_tier :: "string \<Rightarrow> Tier" where
  "new_tier name = \<lparr>t_ID = 0, t_Name = name, t_Budget = Unknown, t_IsDefault = False, t_Allocations = []\<rparr>"

definition setTier ::
  "(f64 \<Rightarrow> int64) \<Rightarrow> ((RowID \<rightharpoonup> Tier) \<Rightarrow> Tier list) \<Rightarrow> string list \<Rightarrow> Database \<Rightarrow> Answer \<times> Database" where
  "setTier oor ord args db =
     (case args of
        [] \<Rightarrow> ((ExitConfig, []), db)
      | name # args \<Rightarrow>
          (case LoadPolicy db of
             Inl _ \<Rightarrow> ((ExitError, []), db)
           | Inr policy \<Rightarrow>
               let tier = (case find_tier ord name policy of
                     None \<Rightarrow> new_tier name | Some existing \<Rightarrow> existing\<lparr>t_Allocations := []\<rparr>) in
               (case tier_args oor (ListProviders db) args tier False of
                  None \<Rightarrow> ((ExitConfig, []), db)
                | Some (tier, gave) \<Rightarrow>
                    (case SaveTier tier db of
                       Inl _ \<Rightarrow> ((ExitConfig, []), db)
                     | Inr (db, _) \<Rightarrow>
                         ((ExitClean,
                           [Print (''saved tier '' @ t_Name tier)] @
                           (if \<not> gave \<and> t_Allocations tier = []
                            then [Print ''it allocates nothing, so it touches no provider at all''] else []) @
                           (if Overcommitted tier
                            then [Print ''note: its percentages add up to more than 100, which over-commits storage deliberately'']
                            else []) @
                           [Print ''run `nuno plan` to see what this would change'']), db)))))"

definition mapGroup ::
  "((RowID \<rightharpoonup> Tier) \<Rightarrow> Tier list) \<Rightarrow> string \<Rightarrow> string \<Rightarrow> Database \<Rightarrow> Answer \<times> Database" where
  "mapGroup ord groupName tierName db =
     (case findTier ord tierName db of
        Inl code \<Rightarrow> ((code, []), db)
      | Inr tier \<Rightarrow>
          (case findGroupUUID groupName db of
             Inl code \<Rightarrow> ((code, []), db)
           | Inr uuid \<Rightarrow>
               (case MapGroupToTier uuid (t_ID tier) db of
                  Inl _ \<Rightarrow> ((ExitConfig, []), db)
                | Inr db \<Rightarrow>
                    ((ExitClean, [Print (''members of '' @ groupName @ '' are now entitled to '' @ t_Name tier)]), db))))"

definition deleteTier :: "string \<Rightarrow> Database \<Rightarrow> Answer \<times> Database" where
  "deleteTier name db =
     (case DeleteTier name db of
        (db, False) \<Rightarrow> ((ExitConfig, []), db)
      | (db, True) \<Rightarrow>
          ((ExitClean, [Print (''deleted tier '' @ name @
             ''. Nothing on any provider changed: run `nuno plan` to see what that means.'')]), db))"

definition defaultTier :: "((RowID \<rightharpoonup> Tier) \<Rightarrow> Tier list) \<Rightarrow> string \<Rightarrow> Database \<Rightarrow> Answer \<times> Database" where
  "defaultTier ord name db =
     (case findTier ord name db of
        Inl code \<Rightarrow> ((code, []), db)
      | Inr tier \<Rightarrow>
          (case SetDefaultTier (t_ID tier) db of
             Inl _ \<Rightarrow> ((ExitError, []), db)
           | Inr db \<Rightarrow>
               ((ExitClean, [Print (t_Name tier @ '' is now the default tier for anyone no group assigns'')]), db)))"

definition unmapGroup :: "string \<Rightarrow> Database \<Rightarrow> Answer \<times> Database" where
  "unmapGroup name db =
     (case findGroupUUID name db of
        Inl code \<Rightarrow> ((code, []), db)
      | Inr uuid \<Rightarrow>
          (case UnmapGroup uuid db of
             (db, False) \<Rightarrow> ((ExitConfig, []), db)
           | (db, True) \<Rightarrow> ((ExitClean, [Print (''unmapped '' @ name)]), db)))"

definition manageTiers ::
  "(f64 \<Rightarrow> int64) \<Rightarrow> ((RowID \<rightharpoonup> Tier) \<Rightarrow> Tier list) \<Rightarrow> ((string \<rightharpoonup> string) \<Rightarrow> (string \<times> string) list) \<Rightarrow>
   string list \<Rightarrow> Database \<Rightarrow> Answer \<times> Database" where
  "manageTiers oor ord groups args db =
     (case args of
        [] \<Rightarrow> ((ExitConfig, []), db)
      | cmd # rest \<Rightarrow>
          if cmd = ''list'' then (listTiers ord groups db, db)
          else if cmd = ''set'' then setTier oor ord rest db
          else if cmd = ''delete''
          then (case rest of [name] \<Rightarrow> deleteTier name db | _ \<Rightarrow> ((ExitConfig, []), db))
          else if cmd = ''default''
          then (case rest of [name] \<Rightarrow> defaultTier ord name db | _ \<Rightarrow> ((ExitConfig, []), db))
          else if cmd = ''map''
          then (case rest of [g, tier] \<Rightarrow> mapGroup ord g tier db | _ \<Rightarrow> ((ExitConfig, []), db))
          else if cmd = ''unmap''
          then (case rest of [g] \<Rightarrow> unmapGroup g db | _ \<Rightarrow> ((ExitConfig, []), db))
          else ((ExitConfig, []), db))"

section \<open>Overrides\<close>

definition setOverride :: "(f64 \<Rightarrow> int64) \<Rightarrow> string list \<Rightarrow> Database \<Rightarrow> Answer \<times> Database" where
  "setOverride oor args db =
     (case args of
        uid # providerName # rest \<Rightarrow>
          (case resolveTarget uid providerName db of
             None \<Rightarrow> ((ExitConfig, []), db)
           | Some (user, provider) \<Rightarrow>
               (case rest of
                  [v] \<Rightarrow>
                    if v = ''clear''
                    then (case ClearProviderOverride (u_ID user) (provider_id provider) db of
                        (db, False) \<Rightarrow> ((ExitConfig, []), db)
                      | (db, True) \<Rightarrow>
                          ((ExitClean, [Print (''cleared the override for '' @ uid @ '' on '' @ providerName @
                             '': their tier decides again'')]), db))
                    else (case ParseSize oor v of
                        Inl _ \<Rightarrow> ((ExitConfig, []), db)
                      | Inr quota \<Rightarrow>
                          (case SetProviderOverride (u_ID user) (provider_id provider) quota OverrideManual db of
                             Inl _ \<Rightarrow> ((ExitError, []), db)
                           | Inr db \<Rightarrow>
                               ((ExitClean, [Print (uid @ '' now has '' @ Quota_String quota @ '' on '' @ providerName @
                                  '', above any tier''), Print ''run `nuno plan` to see what this would change'']), db)))
                | _ \<Rightarrow> ((ExitConfig, []), db)))
      | _ \<Rightarrow> ((ExitConfig, []), db))"

section \<open>The plan\<close>

fun parseFilter :: "string list \<Rightarrow> PlanFilter \<Rightarrow> PlanFilter option" where
  "parseFilter [] f = Some f"
| "parseFilter (arg # args) f =
     (case CutPrefix arg ''--user='' of
        Some v \<Rightarrow> parseFilter args (f\<lparr>pf_UID := v\<rparr>)
      | None \<Rightarrow>
          (case CutPrefix arg ''--provider='' of
             Some v \<Rightarrow> parseFilter args (f\<lparr>pf_Provider := v\<rparr>)
           | None \<Rightarrow> None))"

definition change_line :: "Change \<Rightarrow> Line" where
  "change_line c =
     Row [ch_UserUID c, ch_Provider c, Quota_String (ch_From c), Quota_String (ch_To c), class_text (ch_Class c),
          rule_text (ch_Rule c) @ (if ch_TierName c = [] then [] else '' ('' @ ch_TierName c @ '')'')]"

definition writePlan :: "PlanResult \<Rightarrow> Line list" where
  "writePlan result =
     (let plan = px_Plan result; count = class_count plan in
      if Plan_Empty plan
      then Print (''Nothing to change across '' @ show_nat (px_Considered result) @ '' linked accounts.'') #
           (if 0 < pl_Unallocated plan
            then [Print (show_nat (pl_Unallocated plan) @
                    '' of them are on providers no tier allocates, which are left alone.'')]
            else [])
      else
        [Row [''PERSON'', ''SERVICE'', ''FROM'', ''TO'', ''CLASS'', ''WHY'']] @ map change_line (pl_Changes plan) @
        [Print [], Print (show_nat (length (pl_Changes plan)) @ '' change(s): '' @ show_nat (count ClassSafe) @
           '' safe, '' @ show_nat (count ClassShrinkBelowUsage) @ '' guarded, '' @
           show_nat (count ClassUnknownState) @ '' against unknown state'')] @
        map (\<lambda>c. Print (''  '' @ ch_UserUID c @ '' on '' @ ch_Provider c @ '': '' @ ch_Detail c))
          (filter (\<lambda>c. ch_Detail c \<noteq> []) (pl_Changes plan)) @
        (if 0 < count ClassShrinkBelowUsage
         then [Print [], Print ''A guarded change is applied only with explicit consent, and never by the timer.''] else []) @
        (if 0 < count ClassUnknownState
         then [Print ''A change against unknown state is never applied, and there is no flag for it.''] else []) @
        (if px_Degraded result \<noteq> []
         then [Print [], Print (''Degraded, so nothing will be applied there: '' @ Join '', '' (px_Degraded result) @
                 ''. Run `nuno doctor`.'')] else []))"

text \<open>A plan that cannot be saved is still shown.\<close>

definition showPlan :: "'w Server \<Rightarrow> Time \<Rightarrow> string \<Rightarrow> string list \<Rightarrow> Database \<Rightarrow> Answer \<times> Database" where
  "showPlan srv now body args db =
     (case parseFilter args every_account of
        None \<Rightarrow> ((ExitConfig, []), db)
      | Some f \<Rightarrow>
          (case EnginePlan (srv_Instances srv) f db of
             Inl _ \<Rightarrow> ((ExitError, []), db)
           | Inr result \<Rightarrow>
               (case SavePlan now RunPlan ''cli'' False result body db of
                  (db, _, _) \<Rightarrow>
                    ((if Plan_Empty (px_Plan result) then ExitClean else ExitIncomplete, writePlan result), db))))"

definition adoptQuotas :: "'w Server \<Rightarrow> string list \<Rightarrow> Database \<Rightarrow> Answer \<times> Database" where
  "adoptQuotas srv args db =
     (case parseFilter args every_account of
        None \<Rightarrow> ((ExitConfig, []), db)
      | Some f \<Rightarrow>
          (case Adopt (srv_Instances srv) f db of
             ((_, _, Some _), db) \<Rightarrow> ((ExitError, []), db)
           | ((adopted, skipped, None), db) \<Rightarrow>
               ((if skipped \<noteq> [] then ExitIncomplete else ExitClean,
                 [Print (''adopted '' @ show_nat adopted @ '' ceiling(s) as per-user overrides'')] @
                 map (\<lambda>line. Print (''  skipped '' @ line)) skipped @
                 (if 0 < adopted
                  then [Print ''`nuno plan` should now be empty. Anything it still proposes is a real difference.'']
                  else [])), db)))"

section \<open>The run\<close>

record RunOptions =
  ro_DryRun :: bool
  ro_Consent :: bool
  ro_Filter :: PlanFilter

definition no_options :: RunOptions where
  "no_options = \<lparr>ro_DryRun = False, ro_Consent = False, ro_Filter = every_account\<rparr>"

fun run_args :: "string list \<Rightarrow> RunOptions \<Rightarrow> RunOptions option" where
  "run_args [] opts = Some opts"
| "run_args (arg # args) opts =
     (if arg = ''--dry-run'' then run_args args (opts\<lparr>ro_DryRun := True\<rparr>)
      else if arg = ''--allow-shrink'' then run_args args (opts\<lparr>ro_Consent := True\<rparr>)
      else case parseFilter [arg] (ro_Filter opts) of
        None \<Rightarrow> None
      | Some f \<Rightarrow> run_args args (opts\<lparr>ro_Filter := f\<rparr>))"

definition cli_options :: "RunOptions \<Rightarrow> Time \<Rightarrow> ApplyOptions" where
  "cli_options opts computedAt =
     \<lparr>ao_ConsentShrink = ro_Consent opts, ao_DryRun = ro_DryRun opts, ao_Actor = ''cli'', ao_PlanWindow = 0,
      ao_ComputedAt = computedAt\<rparr>"

definition report_lines :: "'w Env \<Rightarrow> RunOptions \<Rightarrow> ApplyReport \<Rightarrow> Line list" where
  "report_lines env opts r =
     [Print [],
      Print (if ro_DryRun opts
             then ''dry run: '' @ show_nat (ay_Applied r) @ '' change(s) would be applied. Nothing was written.''
             else ApplyReport_Summary r)] @
     map (\<lambda>e. Print (''  error: '' @ env_Error env e)) (ay_Errors r) @
     (if 0 < ay_Guarded r \<and> \<not> ro_Consent opts
      then [Print ''Re-run with --allow-shrink to apply the guarded changes, once you mean it.''] else []) @
     (if ay_Throttled r
      then [Print ''The provider's write limit was reached. The rest resumes on the next run.''] else [])"

definition run_code :: "RunOptions \<Rightarrow> bool \<Rightarrow> ApplyReport \<Rightarrow> nat" where
  "run_code opts observed r =
     (if 0 < ay_Failed r \<or> ay_Errors r \<noteq> [] then ExitError
      else if ro_DryRun opts then ExitIncomplete
      else if ApplyReport_Incomplete r \<or> \<not> observed then ExitIncomplete
      else ExitClean)"

definition run_cycle :: "'w Server \<Rightarrow> RunOptions \<Rightarrow> 'w World \<Rightarrow> Database \<Rightarrow> Answer \<times> 'w World \<times> Database" where
  "run_cycle srv opts w db =
     (case call_SyncIdentity srv w db of (_, w, db) \<Rightarrow>
        (case srv_Observe srv w db of
           ((observation, Some _), w, db) \<Rightarrow> ((ExitError, []), w, db)
         | ((observation, None), w, db) \<Rightarrow>
             let computedAt = clock (srv_Env srv) w in
             (case EnginePlan (srv_Instances srv) (ro_Filter opts) db of
                Inl _ \<Rightarrow> ((ExitError, []), w, db)
              | Inr result \<Rightarrow>
                  if Plan_Empty (px_Plan result)
                  then (if \<not> Report_OK observation
                        then ((ExitIncomplete, writePlan result @ [Print [],
                                Print (show_nat (length (Report_Failed observation)) @
                                  '' provider(s) could not be read, so this is not a clean run.'')]), w, db)
                        else ((ExitClean, writePlan result), w, db))
                  else case EngineApply (srv_Env srv) (srv_Instances srv) (px_Plan result)
                              (cli_options opts computedAt) w db of
                    (s, Some _) \<Rightarrow> ((ExitError, writePlan result), as_World s, as_DB s)
                  | (s, None) \<Rightarrow>
                      ((run_code opts (Report_OK observation) (as_Report s),
                        writePlan result @ report_lines (srv_Env srv) opts (as_Report s)), as_World s, as_DB s))))"

definition runReconcile ::
  "'w Server \<Rightarrow> string list \<Rightarrow> 'w World \<Rightarrow> Database \<Rightarrow> Answer \<times> 'w World \<times> Database" where
  "runReconcile srv args w db =
     (case run_args args no_options of
        None \<Rightarrow> ((ExitConfig, []), w, db)
      | Some opts \<Rightarrow> run_cycle srv opts w db)"

section \<open>The history\<close>

definition run_line :: "RunRow \<Rightarrow> Line" where
  "run_line r =
     Row [show_int (rr_ID r), FormatDate (rr_StartedAt r), mode_text (rr_Mode r), rr_Actor r,
          (if rr_Consent r then ''shrink'' else []), rr_Status r, rr_Summary r]"

definition audit_line :: "AuditView \<Rightarrow> Line" where
  "audit_line a =
     Row [FormatDay (av_At a), av_User a, av_Provider a, Quota_String (av_From a), Quota_String (av_To a),
          audit_text (av_Result a), av_Detail a]"

definition showRuns :: "Database \<Rightarrow> Answer" where
  "showRuns db =
     (if LastRuns 10 db = []
      then (ExitClean, [Print ''No runs yet. `nuno plan` records one without changing anything.''])
      else (ExitClean,
        Row [''RUN'', ''WHEN'', ''MODE'', ''ACTOR'', ''CONSENT'', ''STATUS'', ''SUMMARY''] #
        map run_line (LastRuns 10 db) @
        (case RecentChanges 15 db of
           Inl _ \<Rightarrow> []
         | Inr changes \<Rightarrow>
             if changes = [] then []
             else [Print [], Print ''Recent changes'',
                   Row [''WHEN'', ''PERSON'', ''SERVICE'', ''FROM'', ''TO'', ''RESULT'', ''DETAIL'']] @
                  map audit_line changes)))"

end
