(* ===== verification/StoreInvariant.thy ===== *)
theory StoreInvariant
  imports StoreIdentity StoreAudit StorePolicy
begin

text \<open>
  The store as a state machine: every operation of \<open>internal/store\<close> that changes the file is a
  step, and the declared constraints, the references between the tables and the readability of
  every stored quota are an invariant of the databases that can be reached from an empty file.
  A statement that fails leaves the file as it was (the transaction is rolled back), so only the
  operations that succeed are steps.
\<close>

section \<open>The invariant\<close>

definition overrides_ok :: "Database \<Rightarrow> bool" where
  "overrides_ok db \<longleftrightarrow> tbl_ok override_key (d_Overrides db) \<and>
     (\<forall>r \<in> set (d_Overrides db). has_user db (or_UserID r) \<and> has_provider db (or_ProviderID r))"

definition assignments_ok :: "Database \<Rightarrow> bool" where
  "assignments_ok db \<longleftrightarrow> tbl_ok fst (d_UserTiers db) \<and> tbl_ok fst (d_GroupTiers db) \<and>
     (\<forall>m \<in> set (d_UserTiers db). has_user db (fst m) \<and> has_tier db (snd m)) \<and>
     (\<forall>m \<in> set (d_GroupTiers db). has_tier db (snd m))"

definition audit_ok :: "Database \<Rightarrow> bool" where
  "audit_ok db \<longleftrightarrow> tbl_ok rr_ID (d_Runs db) \<and>
     (\<forall>r \<in> set (d_Audit db). \<forall>i. au_RunID r = Some i \<longrightarrow> has_run db i) \<and>
     (\<forall>r \<in> set (d_Plans db). has_run db (pb_RunID r))"

text \<open>Every quota the file holds can be read back.\<close>

definition readable :: "Database \<Rightarrow> bool" where
  "readable db \<longleftrightarrow> (\<forall>r \<in> set (d_Accounts db). is_ok (DecodeQuota (ar_Quota r)) \<and> is_ok (DecodeQuota (ar_Used r))) \<and>
     (\<forall>r \<in> set (d_Tiers db). is_ok (DecodeQuota (tr_Budget r))) \<and>
     (\<forall>r \<in> set (d_Overrides db). is_ok (DecodeQuota (or_Quota r)))"

definition store_ok :: "Database \<Rightarrow> bool" where
  "store_ok db \<longleftrightarrow> accounts_ok db \<and> links_ok db \<and> issues_ok db \<and> providers_ok db \<and> users_ok db \<and>
     tiers_ok db \<and> overrides_ok db \<and> assignments_ok db \<and> audit_ok db \<and> keys_ok db \<and> readable db"

lemmas ok_defs = accounts_ok_def links_ok_def issues_ok_def providers_ok_def users_ok_def tiers_ok_def
  overrides_ok_def assignments_ok_def audit_ok_def keys_ok_def readable_def

lemmas has_defs = has_user_def has_provider_def has_tier_def has_run_def

section \<open>The steps\<close>

definition empty_db :: Database where
  "empty_db = \<lparr>d_Providers = [], d_Users = [], d_Groups = [], d_UserGroups = [], d_Accounts = [], d_Links = [],
     d_Issues = [], d_Tiers = [], d_Allocations = [], d_GroupTiers = [], d_UserTiers = [], d_Overrides = [],
     d_Runs = [], d_Audit = [], d_Notified = [], d_Keys = [], d_Settings = [], d_Plans = []\<rparr>"

inductive account_step :: "Database \<Rightarrow> Database \<Rightarrow> bool" where
  "ReplaceExternalAccounts p as t db = Inr db' \<Longrightarrow> account_step db db'"
| "SetAccountOwner p e u db = Inr db' \<Longrightarrow> account_step db db'"
| "UpdateObservedAccount p a t db = Inr db' \<Longrightarrow> account_step db db'"
| "account_step db (MarkAccountUnobserved p e db)"
| "UpsertLink t l db = Inr db' \<Longrightarrow> account_step db db'"
| "account_step db (fst (DeleteLink u p db))"
| "ReplaceLinkIssues p is db = Inr db' \<Longrightarrow> account_step db db'"

inductive provider_step :: "Database \<Rightarrow> Database \<Rightarrow> bool" where
  "UpsertProvider inst db = Inr (db', i) \<Longrightarrow> provider_step db db'"
| "provider_step db (SaveHealth i h m db)"
| "provider_step db (SaveWriteAccess i w t db)"
| "provider_step db (SaveObserveResult i t b m db)"
| "provider_step db (SetDegraded i m db)"

inductive identity_step :: "Database \<Rightarrow> Database \<Rightarrow> bool" where
  "ReplaceIdentity snap db = Inr (db', r) \<Longrightarrow> identity_step db db'"
| "AddManualUser uuid u db = Inr (db', v) \<Longrightarrow> identity_step db db'"
| "identity_step db (fst (DeleteUser i db))"

inductive policy_step :: "Database \<Rightarrow> Database \<Rightarrow> bool" where
  "SaveTier t db = Inr (db', i) \<Longrightarrow> policy_step db db'"
| "SetDefaultTier i db = Inr db' \<Longrightarrow> policy_step db db'"
| "policy_step db (fst (DeleteTier n db))"
| "MapGroupToTier g i db = Inr db' \<Longrightarrow> policy_step db db'"
| "policy_step db (fst (UnmapGroup g db))"
| "SetUserTierOverride u t db = Inr db' \<Longrightarrow> policy_step db db'"
| "SetProviderOverride u p q og db = Inr db' \<Longrightarrow> policy_step db db'"
| "policy_step db (fst (ClearProviderOverride u p db))"

inductive record_step :: "Database \<Rightarrow> Database \<Rightarrow> bool" where
  "record_step db (fst (StartRun m a c t db))"
| "record_step db (FinishRun i s m t db)"
| "SavePlanBody i b t db = Inr db' \<Longrightarrow> record_step db db'"
| "RecordChange i a c r d t db = Inr db' \<Longrightarrow> record_step db db'"
| "record_step db (fst (SeenGuardedChange k t db))"
| "record_step db (ForgetGuardedChanges ks db)"
| "EnsureAdminKey hash v l t db = Inr db' \<Longrightarrow> record_step db db'"
| "record_step db (fst (RevokeEnvKeysExcept hash v t db))"
| "record_step db (fst (CheckAdminKey hash v t db))"
| "IssueAdminKey hash v l t db = Inr (db', w) \<Longrightarrow> record_step db db'"
| "RevokeAdminKey i t db = Inr db' \<Longrightarrow> record_step db db'"
| "record_step db (SetSetting k v db)"

inductive reachable :: "Database \<Rightarrow> bool" where
  start: "reachable empty_db"
| accounts: "reachable db \<Longrightarrow> account_step db db' \<Longrightarrow> reachable db'"
| providers: "reachable db \<Longrightarrow> provider_step db db' \<Longrightarrow> reachable db'"
| identity: "reachable db \<Longrightarrow> identity_step db db' \<Longrightarrow> reachable db'"
| policy: "reachable db \<Longrightarrow> policy_step db db' \<Longrightarrow> reachable db'"
| records: "reachable db \<Longrightarrow> record_step db db' \<Longrightarrow> reachable db'"

section \<open>Every step keeps it\<close>

lemma store_ok_empty: "store_ok empty_db"
  by (simp add: store_ok_def ok_defs has_defs empty_db_def tbl_ok_def)

text \<open>Runs, the audit log, keys and settings: nothing else refers to them but their own constraints.\<close>

lemma tbl_ok_snoc: "tbl_ok key rows \<Longrightarrow> key r \<notin> key ` set rows \<Longrightarrow> tbl_ok key (rows @ [r])"
  by (simp add: tbl_ok_def)

lemma next_id_new: "next_id key rows \<notin> key ` set rows"
  using next_id_fresh [of _ rows key] by force

lemma next_id_neq: "r \<in> set rows \<Longrightarrow> next_id key rows \<noteq> key r"
  using next_id_fresh [of r rows key] by simp

lemma update_ids: "(\<And>r. key (f r) = key r) \<Longrightarrow> key ` set (tbl_update P f rows) = key ` set rows"
  using tbl_update_keys [of key f P rows] by (metis set_map)

lemma store_ok_runs:
  assumes "store_ok db" "tbl_ok rr_ID rows" "rr_ID ` set (d_Runs db) \<subseteq> rr_ID ` set rows"
  shows "store_ok (db\<lparr>d_Runs := rows\<rparr>)"
proof -
  have "audit_ok (db\<lparr>d_Runs := rows\<rparr>)"
    using assms unfolding store_ok_def audit_ok_def has_run_def by auto
  with assms(1) show ?thesis by (simp add: store_ok_def ok_defs has_defs)
qed

lemma store_ok_keys:
  assumes "store_ok db" "tbl_ok kr_ID rows" "tbl_ok kr_Hash rows"
  shows "store_ok (db\<lparr>d_Keys := rows\<rparr>)"
  using assms by (simp add: store_ok_def ok_defs has_defs)

lemma store_ok_log:
  "store_ok db \<Longrightarrow> \<forall>r \<in> set rows. has_run db (pb_RunID r) \<Longrightarrow> store_ok (db\<lparr>d_Plans := rows\<rparr>)"
  "store_ok db \<Longrightarrow> \<forall>r \<in> set entries. \<forall>i. au_RunID r = Some i \<longrightarrow> has_run db i \<Longrightarrow> store_ok (db\<lparr>d_Audit := entries\<rparr>)"
  by (simp_all add: store_ok_def ok_defs has_defs)

lemma store_ok_logD:
  "store_ok db \<Longrightarrow> \<forall>r \<in> set (d_Plans db). has_run db (pb_RunID r)"
  "store_ok db \<Longrightarrow> \<forall>r \<in> set (d_Audit db). \<forall>i. au_RunID r = Some i \<longrightarrow> has_run db i"
  by (simp_all add: store_ok_def audit_ok_def)

lemma store_ok_free [simp]:
  "store_ok (db\<lparr>d_Notified := a\<rparr>) = store_ok db" "store_ok (db\<lparr>d_Settings := b\<rparr>) = store_ok db"
  by (simp_all add: store_ok_def ok_defs has_defs)

lemma store_ok_keysD: "store_ok db \<Longrightarrow> tbl_ok kr_ID (d_Keys db) \<and> tbl_ok kr_Hash (d_Keys db)"
  by (simp add: store_ok_def keys_ok_def)

lemma store_ok_runsD: "store_ok db \<Longrightarrow> tbl_ok rr_ID (d_Runs db)"
  by (simp add: store_ok_def audit_ok_def)

lemma record_step_ok:
  assumes "record_step db db'" "store_ok db"
  shows "store_ok db'"
  using assms
proof (induction rule: record_step.induct)
  case (1 db m a c t)
  then show ?case
    by (auto simp: StartRun_def Let_def dest: store_ok_runsD next_id_neq intro!: store_ok_runs tbl_ok_snoc)
next
  case (2 db i s m t)
  let ?f = "\<lambda>r. r\<lparr>rr_FinishedAt := Some t, rr_Status := s, rr_Summary := m\<rparr>"
  let ?rows = "tbl_update (\<lambda>r. rr_ID r = i) ?f (d_Runs db)"
  have ids: "map rr_ID ?rows = map rr_ID (d_Runs db)" by (rule tbl_update_keys) simp
  then have "tbl_ok rr_ID ?rows" using store_ok_runsD [OF 2] by (simp only: tbl_ok_def)
  moreover have "rr_ID ` set ?rows = rr_ID ` set (d_Runs db)" using ids by (metis set_map)
  ultimately show ?case unfolding FinishRun_def using store_ok_runs [OF 2] by blast
next
  case (3 i b t db db')
  then show ?case
    using store_ok_logD(1) by (auto simp: SavePlanBody_def has_run_def split: if_splits intro!: store_ok_log(1))
next
  case (4 i a c r d t db db')
  then show ?case
    using store_ok_logD(2) by (auto simp: RecordChange_def split: if_splits intro!: store_ok_log(2))
next
  case (5 db k t)
  then show ?case by (simp add: SeenGuardedChange_def Let_def)
next
  case (6 db ks)
  then show ?case by (simp add: ForgetGuardedChanges_def)
next
  case (7 hash v l t db db')
  then show ?case
    by (auto simp: EnsureAdminKey_def tbl_find_None split: if_splits option.splits
        dest: store_ok_keysD next_id_neq intro!: store_ok_keys tbl_ok_snoc tbl_ok_update)
next
  case (8 db hash v t)
  then show ?case
    by (auto simp: RevokeEnvKeysExcept_def dest: store_ok_keysD intro!: store_ok_keys tbl_ok_update)
next
  case (9 db hash v t)
  then show ?case
    by (auto simp: CheckAdminKey_def split: option.splits dest: store_ok_keysD intro!: store_ok_keys tbl_ok_update)
next
  case (10 hash v l t db db' w)
  then show ?case
    by (auto simp: IssueAdminKey_def tbl_find_None split: if_splits
        dest: store_ok_keysD next_id_neq intro!: store_ok_keys tbl_ok_snoc)
next
  case (11 i t db db')
  then show ?case
    by (auto simp: RevokeAdminKey_def split: if_splits option.splits AdminKeySource.splits
        dest: store_ok_keysD intro!: store_ok_keys tbl_ok_update)
next
  case (12 db k v)
  then show ?case by (simp add: SetSetting_def)
qed

text \<open>Observed accounts, links and issues.\<close>

definition row_readable :: "AccountRow \<Rightarrow> bool" where
  "row_readable r \<longleftrightarrow> is_ok (DecodeQuota (ar_Quota r)) \<and> is_ok (DecodeQuota (ar_Used r))"

lemma store_ok_accounts:
  assumes "store_ok db" "accounts_ok (db\<lparr>d_Accounts := rows\<rparr>)" "\<forall>r \<in> set rows. row_readable r"
  shows "store_ok (db\<lparr>d_Accounts := rows\<rparr>)"
  using assms by (simp add: store_ok_def ok_defs has_defs row_readable_def)

lemma store_ok_links:
  assumes "store_ok db" "links_ok (db\<lparr>d_Links := rows\<rparr>)"
  shows "store_ok (db\<lparr>d_Links := rows\<rparr>)"
  using assms by (simp add: store_ok_def ok_defs has_defs)

lemma store_ok_issues:
  assumes "store_ok db" "issues_ok (db\<lparr>d_Issues := rows\<rparr>)"
  shows "store_ok (db\<lparr>d_Issues := rows\<rparr>)"
  using assms by (simp add: store_ok_def ok_defs has_defs)

lemma store_okD:
  assumes "store_ok db"
  shows "accounts_ok db" "links_ok db" "issues_ok db" "providers_ok db" "users_ok db" "tiers_ok db"
    "overrides_ok db" "assignments_ok db" "audit_ok db" "keys_ok db" "readable db"
    "\<forall>r \<in> set (d_Accounts db). row_readable r"
  using assms by (simp_all add: store_ok_def readable_def row_readable_def)

lemma ValidAsUsage_Valid: "Quota_ValidAsUsage q = None \<Longrightarrow> Quota_Valid q = None"
  by (auto simp: Quota_ValidAsUsage_None_iff Quota_Valid_None_iff)

lemma row_readable_new:
  assumes "Quota_Valid (ac_Quota a) = None" "Quota_ValidAsUsage (ac_Used a) = None"
  shows "row_readable (account_row p t a)"
    "row_readable ((account_row p t a)\<lparr>ar_ProviderID := q, ar_ExternalID := e, ar_UserID := u\<rparr>)"
  using assms ValidAsUsage_Valid
  by (simp_all add: row_readable_def account_row_def DecodeQuota_Encode_valid)

lemma row_readable_updates [simp]:
  "row_readable (r\<lparr>ar_UserID := u\<rparr>) = row_readable r" "row_readable (r\<lparr>ar_ObserveOK := b\<rparr>) = row_readable r"
  "row_readable (ar_UserID_update f r) = row_readable r" "row_readable (ar_ObserveOK_update g r) = row_readable r"
  by (simp_all add: row_readable_def)

lemma put_set: "set (tbl_put key r rows) \<subseteq> insert r (set rows)"
  by (induction rows) auto

lemma store_accounts_readable:
  "store_accounts p t as db = Inr db' \<Longrightarrow> \<forall>r \<in> set (d_Accounts db). row_readable r \<Longrightarrow>
     \<forall>r \<in> set (d_Accounts db'). row_readable r"
proof (induction as arbitrary: db)
  case (Cons a as)
  let ?db = "db\<lparr>d_Accounts := put_account (account_row p t a) (d_Accounts db)\<rparr>"
  from Cons.prems(1) have rest: "store_accounts p t as ?db = Inr db'"
    and valid: "Quota_Valid (ac_Quota a) = None" "Quota_ValidAsUsage (ac_Used a) = None"
    by (auto split: if_splits option.splits)
  have "\<forall>r \<in> set (d_Accounts ?db). row_readable r"
    using Cons.prems(2) row_readable_new(1) [OF valid, of p t] put_set by (fastforce simp: put_account_def)
  from Cons.IH [OF rest this] show ?case .
qed simp

lemma fold_del_subset: "set (foldl (\<lambda>rows i. tbl_del key (f i) rows) rows is) \<subseteq> set rows"
proof (induction "is" arbitrary: rows)
  case (Cons i "is")
  from Cons [of "tbl_del key (f i) rows"] show ?case by (auto simp: tbl_del_def)
qed simp

lemma account_step_ok:
  assumes "account_step db db'" "store_ok db"
  shows "store_ok db'"
  using assms
proof (induction rule: account_step.induct)
  case (1 p as t db db')
  note d = store_okD [OF 1(2)]
  from 1(1) obtain db1 is' where one: "store_accounts p t as db = Inr db1"
    and db': "db' = db1\<lparr>d_Accounts := foldl (\<lambda>rows i. tbl_del account_key (p, i) rows) (d_Accounts db1) is'\<rparr>"
    by (auto simp: ReplaceExternalAccounts_def bind_result_eq_Inr Let_def)
  have "\<forall>r \<in> set (d_Accounts db'). row_readable r"
    using store_accounts_readable [OF one d(12)] fold_del_subset by (fastforce simp: db')
  moreover have "db' = db\<lparr>d_Accounts := d_Accounts db'\<rparr>"
    using ReplaceExternalAccounts_find(3) [OF 1(1)] d(1) by (simp add: accounts_ok_def)
  moreover have "accounts_ok db'" by (rule ReplaceExternalAccounts_ok [OF 1(1) d(1)])
  ultimately show ?case using store_ok_accounts [OF 1(2), of "d_Accounts db'"] by simp
next
  case (2 p e u db db')
  note d = store_okD [OF 2(2)]
  have "accounts_ok db'" by (rule SetAccountOwner_ok [OF 2(1) d(1)])
  moreover have "db' = db\<lparr>d_Accounts := tbl_update (\<lambda>r. account_key r = (p, e)) (ar_UserID_update (\<lambda>_. u)) (d_Accounts db)\<rparr>"
    using 2(1) by (auto simp: SetAccountOwner_def split: if_splits)
  moreover have "\<forall>r \<in> set (tbl_update (\<lambda>r. account_key r = (p, e)) (ar_UserID_update (\<lambda>_. u)) (d_Accounts db)). row_readable r"
    using d(12) by (auto simp: tbl_update_def)
  ultimately show ?case using store_ok_accounts [OF 2(2)] by metis
next
  case (3 p a t db db')
  note d = store_okD [OF 3(2)]
  have ok: "accounts_ok db'" by (rule UpdateObservedAccount_ok [OF 3(1) d(1)])
  from 3(1) have valid: "Quota_Valid (ac_Quota a) = None" "Quota_ValidAsUsage (ac_Used a) = None"
    by (auto simp: UpdateObservedAccount_def split: if_splits option.splits)
  let ?f = "\<lambda>r. (account_row p t a)\<lparr>ar_ProviderID := ar_ProviderID r, ar_ExternalID := ar_ExternalID r, ar_UserID := ar_UserID r\<rparr>"
  let ?rows = "tbl_update (\<lambda>r. account_key r = (p, ac_ExternalID a)) ?f (d_Accounts db)"
  have db': "db' = db\<lparr>d_Accounts := ?rows\<rparr>"
    using 3(1) valid by (auto simp: UpdateObservedAccount_def split: if_splits)
  have "\<forall>r \<in> set ?rows. row_readable r"
    using d(12) row_readable_new(2) [OF valid] by (auto simp: tbl_update_def)
  with 3(2) ok [unfolded db'] show ?case unfolding db' by (rule store_ok_accounts)
next
  case (4 db p e)
  note d = store_okD [OF 4]
  have "\<forall>r \<in> set (d_Accounts (MarkAccountUnobserved p e db)). row_readable r"
    using d(12) by (auto simp: MarkAccountUnobserved_def tbl_update_def)
  with MarkAccountUnobserved_ok [OF d(1), of p e] show ?case
    using store_ok_accounts [OF 4] by (simp add: MarkAccountUnobserved_def)
next
  case (5 t l db db')
  have "links_ok db'" by (rule UpsertLink_ok [OF 5(1) store_okD(2) [OF 5(2)]])
  moreover obtain rows where "db' = db\<lparr>d_Links := rows\<rparr>"
    using 5(1) by (auto simp: UpsertLink_def Let_def split: if_splits)
  ultimately show ?case using store_ok_links [OF 5(2)] by simp
next
  case (6 db u p)
  from DeleteLink_ok [OF store_okD(2) [OF 6], of u p] show ?case
    using store_ok_links [OF 6] by (simp add: DeleteLink_def)
next
  case (7 p "is" db db')
  have "issues_ok db'" by (rule ReplaceLinkIssues_ok [OF 7(1) store_okD(3) [OF 7(2)]])
  moreover obtain rows where "db' = db\<lparr>d_Issues := rows\<rparr>"
    using 7(1) by (auto simp: ReplaceLinkIssues_def Let_def split: if_splits)
  ultimately show ?case using store_ok_issues [OF 7(2)] by simp
qed

text \<open>Providers: rows are added, never removed, and keep their identity.\<close>

lemma store_ok_providers:
  assumes "store_ok db" "providers_ok (db\<lparr>d_Providers := rows\<rparr>)"
    and "provider_id ` set (d_Providers db) \<subseteq> provider_id ` set rows"
  shows "store_ok (db\<lparr>d_Providers := rows\<rparr>)"
proof -
  note d = store_okD [OF assms(1)]
  have more: "has_provider db i \<Longrightarrow> has_provider (db\<lparr>d_Providers := rows\<rparr>) i" for i
    using assms(3) by (auto simp: has_provider_def)
  have same: "has_user (db\<lparr>d_Providers := rows\<rparr>) = has_user db" "has_tier (db\<lparr>d_Providers := rows\<rparr>) = has_tier db"
    "has_run (db\<lparr>d_Providers := rows\<rparr>) = has_run db"
    by (simp_all add: has_defs fun_eq_iff)
  have "accounts_ok (db\<lparr>d_Providers := rows\<rparr>)" using d(1) more by (simp add: accounts_ok_def same)
  moreover have "links_ok (db\<lparr>d_Providers := rows\<rparr>)" using d(2) more by (simp add: links_ok_def same)
  moreover have "issues_ok (db\<lparr>d_Providers := rows\<rparr>)" using d(3) more by (simp add: issues_ok_def same)
  moreover have "overrides_ok (db\<lparr>d_Providers := rows\<rparr>)" using d(7) more by (simp add: overrides_ok_def same)
  ultimately show ?thesis
    using assms(2) d by (simp add: store_ok_def users_ok_def tiers_ok_def assignments_ok_def audit_ok_def
        keys_ok_def readable_def same)
qed

lemma update_provider_ok:
  assumes "store_ok db" "\<And>r. provider_id (f r) = provider_id r"
    and "\<And>r. pi_Name (pr_Inst (f r)) = pi_Name (pr_Inst r)"
    and "\<And>r. MatchKey_Valid (pi_MatchKey (pr_Inst r)) \<Longrightarrow> MatchKey_Valid (pi_MatchKey (pr_Inst (f r)))"
  shows "store_ok (update_provider i f db)"
  unfolding update_provider_def
proof (rule store_ok_providers [OF assms(1)])
  let ?rows = "tbl_update (\<lambda>r. provider_id r = i) f (d_Providers db)"
  have ids: "map provider_id ?rows = map provider_id (d_Providers db)" by (rule tbl_update_keys) (rule assms(2))
  then show "provider_id ` set (d_Providers db) \<subseteq> provider_id ` set ?rows" by (metis set_map subset_refl)
  have names: "map (\<lambda>r. pi_Name (pr_Inst r)) ?rows = map (\<lambda>r. pi_Name (pr_Inst r)) (d_Providers db)"
    by (rule tbl_update_keys) (rule assms(3))
  have "MatchKey_Valid (pi_MatchKey (pr_Inst r)) \<and> pi_Name (pr_Inst r) \<noteq> []" if "r \<in> set ?rows" for r
    using that store_okD(4) [OF assms(1)] assms(3,4) by (auto simp: providers_ok_def tbl_update_def split: if_splits)
  with ids names show "providers_ok (db\<lparr>d_Providers := ?rows\<rparr>)"
    using store_okD(4) [OF assms(1)] by (simp add: providers_ok_def tbl_ok_def)
qed

lemma provider_step_ok:
  assumes "provider_step db db'" "store_ok db"
  shows "store_ok db'"
  using assms
proof (induction rule: provider_step.induct)
  case (1 inst db db' i)
  have p: "providers_ok db" by (rule store_okD(4) [OF 1(2)])
  show ?case
  proof (cases "find (\<lambda>r. pi_Name (pr_Inst r) = pi_Name inst) (d_Providers db)")
    case None
    let ?r = "new_provider (next_id provider_id (d_Providers db)) inst"
    have db': "db' = db\<lparr>d_Providers := d_Providers db @ [?r]\<rparr>"
      and valid: "MatchKey_Valid (pi_MatchKey inst)" "pi_Name inst \<noteq> []"
      using 1(1) None by (auto simp: UpsertProvider_def Let_def split: if_splits)
    have "providers_ok (db\<lparr>d_Providers := d_Providers db @ [?r]\<rparr>)"
      using p valid None unfolding providers_ok_def
      by (auto simp: new_provider_def provider_id_def find_None_iff dest: next_id_neq intro!: tbl_ok_snoc)
        (metis next_id_neq provider_id_def)
    then show ?thesis unfolding db' by (rule store_ok_providers [OF 1(2)]) auto
  next
    case (Some r)
    then show ?thesis
      using 1(1) unfolding UpsertProvider_def
      by (auto simp: provider_id_def split: if_splits intro!: update_provider_ok [OF 1(2)])
  qed
qed (auto simp: SaveHealth_def SaveWriteAccess_def SaveObserveResult_def SetDegraded_def provider_id_def
     intro!: update_provider_ok)

text \<open>People: rows keep their id; deleting one takes or clears every reference.\<close>

lemma store_ok_users:
  assumes "store_ok db" "users_ok (db\<lparr>d_Users := us\<rparr>)" "u_ID ` set (d_Users db) \<subseteq> u_ID ` set us"
  shows "store_ok (db\<lparr>d_Users := us, d_Groups := gs, d_UserGroups := ms\<rparr>)"
proof -
  note d = store_okD [OF assms(1)]
  let ?db = "db\<lparr>d_Users := us, d_Groups := gs, d_UserGroups := ms\<rparr>"
  have more: "has_user db i \<Longrightarrow> has_user ?db i" for i
    using assms(3) by (auto simp: has_user_def)
  have same: "has_provider ?db = has_provider db" "has_tier ?db = has_tier db" "has_run ?db = has_run db"
    by (simp_all add: has_defs fun_eq_iff)
  have "accounts_ok ?db" using d(1) more by (simp add: accounts_ok_def same)
  moreover have "links_ok ?db" using d(2) more by (simp add: links_ok_def same)
  moreover have "issues_ok ?db" using d(3) more by (simp add: issues_ok_def same)
  moreover have "overrides_ok ?db" using d(7) more by (simp add: overrides_ok_def same)
  moreover have "assignments_ok ?db" using d(8) more by (simp add: assignments_ok_def same)
  ultimately show ?thesis
    using assms(2) d by (simp add: store_ok_def users_ok_def tiers_ok_def audit_ok_def providers_ok_def
        keys_ok_def readable_def same)
qed

lemma ids_kept:
  assumes "users_ok db" "\<And>k j. id_of db k = Some j \<Longrightarrow> id_of db' k = Some j"
  shows "u_ID ` set (d_Users db) \<subseteq> u_ID ` set (d_Users db')"
proof
  fix i assume "i \<in> u_ID ` set (d_Users db)"
  then obtain r where r: "r \<in> set (d_Users db)" "i = u_ID r" by auto
  then have "tbl_find user_identity (user_identity r) (d_Users db) = Some r"
    using assms(1) tbl_find_mem by (auto simp: users_ok_def)
  then have "id_of db (user_identity r) = Some i" using r(2) by (simp add: id_of_def tbl_find_def)
  from assms(2) [OF this] show "i \<in> u_ID ` set (d_Users db')"
    by (auto simp: id_of_def dest: find_user_mem)
qed

definition people_only :: "Database \<Rightarrow> Database \<Rightarrow> bool" where
  "people_only db db' \<longleftrightarrow> (\<exists>us gs ms. db' = db\<lparr>d_Users := us, d_Groups := gs, d_UserGroups := ms\<rparr>)"

lemma people_onlyI: "db' = db\<lparr>d_Users := us, d_Groups := gs, d_UserGroups := ms\<rparr> \<Longrightarrow> people_only db db'"
  unfolding people_only_def by blast

lemma people_only_trans: "people_only a b \<Longrightarrow> people_only b c \<Longrightarrow> people_only a c"
  unfolding people_only_def by fastforce

lemma people_only_updates [simp]:
  "people_only db (db\<lparr>d_Users := a\<rparr>)" "people_only db (db\<lparr>d_Groups := b\<rparr>)" "people_only db (db\<lparr>d_UserGroups := c\<rparr>)"
  "people_only db db"
  by (rule people_onlyI [where us = a and gs = "d_Groups db" and ms = "d_UserGroups db"], simp)
    (rule people_onlyI [where us = "d_Users db" and gs = b and ms = "d_UserGroups db"], simp,
     rule people_onlyI [where us = "d_Users db" and gs = "d_Groups db" and ms = c], simp,
     rule people_onlyI [where us = "d_Users db" and gs = "d_Groups db" and ms = "d_UserGroups db"], simp)

lemma replace_groups_people:
  "replace_groups src gs m db = Inr (db', m') \<Longrightarrow> people_only db db'"
proof (induction gs arbitrary: m db)
  case (Cons g gs)
  obtain db1 i where up: "upsertGroup src g db = (db1, i)" by force
  then have "people_only db db1" by (auto simp: upsertGroup_def Let_def split: option.splits)
  moreover from Cons.prems up have "replace_groups src gs (m(g_SourceUUID g \<mapsto> i)) db1 = Inr (db', m')"
    by (simp split: if_splits)
  ultimately show ?case using Cons.IH people_only_trans by blast
qed simp

lemma insert_memberships_people:
  "insert_memberships i m us db = Inr db' \<Longrightarrow> people_only db db'"
proof (induction us arbitrary: db)
  case (Cons u us)
  let ?db = "\<lambda>g. if (i, g) \<in> set (d_UserGroups db) then db else db\<lparr>d_UserGroups := d_UserGroups db @ [(i, g)]\<rparr>"
  from Cons.prems obtain g where "insert_memberships i m us (?db g) = Inr db'" by (auto split: option.splits)
  from Cons.IH [OF this] have "people_only (?db g) db'" .
  moreover have "people_only db (?db g)" by simp
  ultimately show ?case by (rule people_only_trans [rotated])
qed simp

lemma upsertUser_people: "upsertUser src u db = (db', i, b) \<Longrightarrow> people_only db db'"
  by (auto simp: upsertUser_def Let_def split: option.splits)

lemma replace_users_people:
  "replace_users src m us n db = Inr (db', n') \<Longrightarrow> people_only db db'"
proof (induction us arbitrary: n db)
  case (Cons u us)
  obtain db1 i b where up: "upsertUser src u db = (db1, i, b)" by (metis prod_cases3)
  from Cons.prems up obtain db2 where set: "setUserGroups i (u_GroupUUIDs u) m db1 = Inr db2"
    and rest: "replace_users src m us (if b then n + 1 else n) db2 = Inr (db', n')"
    by (auto simp: bind_result_eq_Inr split: if_splits)
  have "people_only db1 db2"
    using insert_memberships_people [OF set [unfolded setUserGroups_def]] people_only_updates(3) people_only_trans by blast
  with upsertUser_people [OF up] Cons.IH [OF rest] show ?case by (blast intro: people_only_trans)
qed simp

lemma people_step_ok:
  assumes "store_ok db" "people_only db db'" "users_ok db'" "\<And>k j. id_of db k = Some j \<Longrightarrow> id_of db' k = Some j"
  shows "store_ok db'"
proof -
  from assms(2) obtain us gs ms where db': "db' = db\<lparr>d_Users := us, d_Groups := gs, d_UserGroups := ms\<rparr>"
    unfolding people_only_def by blast
  have "users_ok (db\<lparr>d_Users := us\<rparr>)" using assms(3) by (simp add: users_ok_def db')
  moreover have "u_ID ` set (d_Users db) \<subseteq> u_ID ` set us"
    using ids_kept [OF store_okD(5) [OF assms(1)] assms(4)] by (simp add: db')
  ultimately show ?thesis unfolding db' by (rule store_ok_users [OF assms(1)])
qed

lemma identity_step_ok:
  assumes "identity_step db db'" "store_ok db"
  shows "store_ok db'"
  using assms
proof (induction rule: identity_step.induct)
  case (1 snap db db' r)
  note u = store_okD(5) [OF 1(2)]
  have "people_only db db'"
    using 1(1) replace_groups_people replace_users_people people_only_updates(1)
    by (fastforce simp: ReplaceIdentity_def bind_result_eq_Inr markOrphaned_def intro: people_only_trans)
  then show ?case
    using ReplaceIdentity_props(1,2) [OF 1(1) u] by (intro people_step_ok [OF 1(2)]) blast+
next
  case (2 uuid u db db' v)
  then obtain u' i b where up: "upsertUser SourceManual u' db = (db', i, b)"
    by (auto simp: AddManualUser_def Let_def split: if_splits prod.splits)
  note props = upsertUser_props [OF up store_okD(5) [OF 2(2)]]
  show ?case by (rule people_step_ok [OF 2(2) upsertUser_people [OF up] props(1)]) (rule props(3))
next
  case (3 db i)
  note d = store_okD [OF 3]
  let ?db = "fst (DeleteUser i db)"
  show ?case
  proof (cases "has_user db i")
    case False
    with 3 show ?thesis by (simp add: DeleteUser_def)
  next
    case True
    have users: "has_user ?db j \<longleftrightarrow> has_user db j \<and> j \<noteq> i" for j
      by (auto simp: DeleteUser_def True has_user_def tbl_del_def)
    have same: "has_provider ?db = has_provider db" "has_tier ?db = has_tier db" "has_run ?db = has_run db"
      by (simp_all add: DeleteUser_def True has_defs fun_eq_iff)
    have "accounts_ok ?db"
    proof -
      have "tbl_ok account_key (d_Accounts ?db)"
        using d(1) by (simp add: DeleteUser_def True accounts_ok_def tbl_ok_update)
      then show ?thesis using d(1) unfolding accounts_ok_def users same
        by (auto simp: DeleteUser_def True tbl_update_def)
    qed
    moreover have "links_ok ?db"
      using d(2) unfolding links_ok_def users same by (auto simp: DeleteUser_def True tbl_ok_filter)
    moreover have "issues_ok ?db"
      using d(3) unfolding issues_ok_def users same by (auto simp: DeleteUser_def True)
    moreover have "overrides_ok ?db"
      using d(7) unfolding overrides_ok_def users same by (auto simp: DeleteUser_def True tbl_ok_filter)
    moreover have "assignments_ok ?db"
      using d(8) unfolding assignments_ok_def users same by (auto simp: DeleteUser_def True tbl_ok_filter)
    moreover have "audit_ok ?db"
      using d(9) unfolding audit_ok_def users same by (auto simp: DeleteUser_def True tbl_update_def split: if_splits)
    moreover have "readable ?db"
      using d(11) unfolding readable_def by (auto simp: DeleteUser_def True tbl_update_def split: if_splits)
    moreover have "users_ok ?db" using d(5) by (simp add: DeleteUser_def True users_ok_def tbl_del_def tbl_ok_filter)
    moreover have "providers_ok ?db" "tiers_ok ?db" "keys_ok ?db"
      using d(4,6,10) by (simp_all add: DeleteUser_def True providers_ok_def tiers_ok_def keys_ok_def)
    ultimately show ?thesis by (simp add: store_ok_def)
  qed
qed

text \<open>Tiers, assignments and overrides.\<close>

lemma store_ok_tiers:
  assumes ok: "store_ok db" and t: "tiers_ok (db\<lparr>d_Tiers := ts, d_Allocations := as\<rparr>)"
    and read: "\<forall>r \<in> set ts. is_ok (DecodeQuota (tr_Budget r))" and ids: "tr_ID ` set (d_Tiers db) \<subseteq> tr_ID ` set ts"
  shows "store_ok (db\<lparr>d_Tiers := ts, d_Allocations := as\<rparr>)"
proof -
  note d = store_okD [OF ok]
  let ?db = "db\<lparr>d_Tiers := ts, d_Allocations := as\<rparr>"
  have more: "has_tier db i \<Longrightarrow> has_tier ?db i" for i using ids by (auto simp: has_tier_def)
  have same: "has_user ?db = has_user db" "has_provider ?db = has_provider db" "has_run ?db = has_run db"
    by (simp_all add: has_defs fun_eq_iff)
  have "assignments_ok ?db" using d(8) more by (simp add: assignments_ok_def same)
  with t read d show ?thesis
    by (simp add: store_ok_def accounts_ok_def links_ok_def issues_ok_def providers_ok_def users_ok_def
        overrides_ok_def audit_ok_def keys_ok_def readable_def same)
qed

lemma store_ok_assignments:
  assumes "store_ok db" "assignments_ok (db\<lparr>d_UserTiers := us, d_GroupTiers := gs\<rparr>)"
  shows "store_ok (db\<lparr>d_UserTiers := us, d_GroupTiers := gs\<rparr>)"
  using assms by (simp add: store_ok_def ok_defs has_defs)

lemma store_ok_overrides:
  assumes "store_ok db" "overrides_ok (db\<lparr>d_Overrides := rows\<rparr>)" "\<forall>r \<in> set rows. is_ok (DecodeQuota (or_Quota r))"
  shows "store_ok (db\<lparr>d_Overrides := rows\<rparr>)"
  using assms by (simp add: store_ok_def ok_defs has_defs)

lemma put_tier_rows:
  assumes "put_tier tier db = Inr (db', i)" "Quota_Valid (t_Budget tier) = None"
    and "\<forall>r \<in> set (d_Tiers db). is_ok (DecodeQuota (tr_Budget r))"
  shows "db' = db\<lparr>d_Tiers := d_Tiers db'\<rparr> \<and> tr_ID ` set (d_Tiers db) \<subseteq> tr_ID ` set (d_Tiers db') \<and>
     (\<forall>r \<in> set (d_Tiers db'). is_ok (DecodeQuota (tr_Budget r)))"
proof -
  let ?f = "\<lambda>s. s\<lparr>tr_Budget := Quota_Encode (t_Budget tier), tr_IsDefault := t_IsDefault tier\<rparr>"
  have new: "is_ok (DecodeQuota (Quota_Encode (t_Budget tier)))"
    using assms(2) by (simp add: DecodeQuota_Encode_valid)
  have "map tr_ID (tbl_update P ?f rows) = map tr_ID rows" for P rows by (rule tbl_update_keys) simp
  then have ids: "tr_ID ` set (tbl_update P ?f rows) = tr_ID ` set rows" for P rows by (metis set_map)
  have upd: "\<forall>r \<in> set (tbl_update P ?f (d_Tiers db)). is_ok (DecodeQuota (tr_Budget r))" for P
    using assms(3) new by (auto simp: tbl_update_def)
  show ?thesis
  proof (cases "find (\<lambda>r. tr_Name r = t_Name tier) (d_Tiers db)")
    case None
    then obtain j where "db' = db\<lparr>d_Tiers := d_Tiers db @ [\<lparr>tr_ID = j, tr_Name = t_Name tier,
        tr_Budget = Quota_Encode (t_Budget tier), tr_IsDefault = t_IsDefault tier\<rparr>]\<rparr>"
      using assms(1) unfolding put_tier_def Let_def None option.case if_distrib [of "\<lambda>r. r = Inr (db', i)"]
      by (metis Inl_Inr_False Inr_inject prod.inject)
    then show ?thesis using assms(3) new by auto
  next
    case (Some r)
    then have "db' = db\<lparr>d_Tiers := tbl_update (\<lambda>s. tr_ID s = tr_ID r) ?f (d_Tiers db)\<rparr>"
      using assms(1) unfolding put_tier_def Let_def Some option.case
      by (metis Inl_Inr_False Inr_inject prod.inject)
    moreover have "d_Tiers (db\<lparr>d_Tiers := ts\<rparr>) = ts" "db\<lparr>d_Tiers := ts\<rparr> = db\<lparr>d_Tiers := d_Tiers (db\<lparr>d_Tiers := ts\<rparr>)\<rparr>" for ts by simp_all
    ultimately show ?thesis using ids upd by (metis subset_refl)
  qed
qed

lemma SaveTier_ok:
  assumes save: "SaveTier t db = Inr (db', i)" and ok: "store_ok db"
  shows "store_ok db'"
proof -
  note d = store_okD [OF ok]
  from save have valid: "Tier_Validate t = None"
    by (auto simp: SaveTier_def split: option.splits)
  from save valid obtain db1 where put: "put_tier t db = Inr (db1, i)"
    and ins: "insert_allocations i (t_Allocations t)
        (db1\<lparr>d_Allocations := filter (\<lambda>r. fst r \<noteq> i) (d_Allocations db1)\<rparr>) = Inr db'"
    by (auto simp: SaveTier_def bind_result_eq_Inr)
  have b: "Quota_Valid (t_Budget t) = None" using valid by (simp add: Tier_Validate_None_iff)
  have rows: "\<forall>r \<in> set (d_Tiers db). is_ok (DecodeQuota (tr_Budget r))" using d(11) by (simp add: readable_def)
  note p = put_tier_rows [OF put b rows]
  from insert_allocations_eq [OF ins] obtain as where "db' = db1\<lparr>d_Allocations := as\<rparr>" by auto
  with p have db': "db' = db\<lparr>d_Tiers := d_Tiers db1, d_Allocations := as\<rparr>" by (metis Database.fold_congs(9))
  have "tiers_ok db'" using SaveTier_props [OF save d(6)] by blast
  then show ?thesis using p unfolding db' by (intro store_ok_tiers [OF ok]) simp_all
qed

lemma SetDefaultTier_ok:
  assumes set: "SetDefaultTier i db = Inr db'" and ok: "store_ok db"
  shows "store_ok db'"
proof -
  note d = store_okD [OF ok]
  let ?c = "tbl_update tr_IsDefault (tr_IsDefault_update (\<lambda>_. False)) (d_Tiers db)"
  let ?rows = "tbl_update (\<lambda>r. tr_ID r = i) (tr_IsDefault_update (\<lambda>_. True)) ?c"
  have db': "db' = db\<lparr>d_Tiers := ?rows\<rparr>" using set by (auto simp: SetDefaultTier_def Let_def split: if_splits)
  have keys: "map tr_ID ?rows = map tr_ID (d_Tiers db)" "map tr_Name ?rows = map tr_Name (d_Tiers db)"
    "map tr_Budget ?rows = map tr_Budget (d_Tiers db)"
    by (simp_all add: tbl_update_def)
  have off: "\<not> tr_IsDefault s" if "s \<in> set ?c" for s
    using that by (auto simp: tbl_update_def)
  have def: "tr_IsDefault r \<longleftrightarrow> tr_ID r = i" if "r \<in> set ?rows" for r
  proof -
    from that obtain s where s: "s \<in> set ?c" "r = (if tr_ID s = i then tr_IsDefault_update (\<lambda>_. True) s else s)"
      unfolding tbl_update_def [of "\<lambda>r. tr_ID r = i"] set_map by (elim imageE)
    show ?thesis using off [OF s(1)] by (simp add: s(2))
  qed
  have dist: "distinct (map tr_ID ?rows)" using d(6) keys(1) by (simp add: tiers_ok_def tbl_ok_def)
  have "r = s" if "r \<in> set ?rows" "s \<in> set ?rows" "tr_IsDefault r" "tr_IsDefault s" for r s
  proof -
    have "tr_ID r = tr_ID s" using def that by blast
    then show ?thesis using dist that(1,2) by (auto simp only: distinct_map dest: inj_onD)
  qed
  then have "tiers_ok (db\<lparr>d_Tiers := ?rows, d_Allocations := d_Allocations db\<rparr>)"
    using d(6) dist keys by (auto simp: tiers_ok_def tbl_ok_def)
  moreover have "\<forall>r \<in> set ?rows. is_ok (DecodeQuota (tr_Budget r))"
  proof -
    have "tr_Budget ` set ?rows = tr_Budget ` set (d_Tiers db)" using keys(3) by (metis set_map)
    then have "tr_Budget r \<in> tr_Budget ` set (d_Tiers db)" if "r \<in> set ?rows" for r using that by blast
    then show ?thesis using d(11) unfolding readable_def by force
  qed
  moreover have "tr_ID ` set (d_Tiers db) \<subseteq> tr_ID ` set ?rows" using keys(1) by (metis set_map subset_refl)
  ultimately have "store_ok (db\<lparr>d_Tiers := ?rows, d_Allocations := d_Allocations db\<rparr>)"
    by (rule store_ok_tiers [OF ok])
  then show ?thesis by (simp add: db')
qed

lemma DeleteTier_ok:
  assumes ok: "store_ok db"
  shows "store_ok (fst (DeleteTier n db))"
proof -
  note d = store_okD [OF ok]
  let ?db = "fst (DeleteTier n db)"
  let ?gone = "tr_ID ` {r \<in> set (d_Tiers db). tr_Name r = n}"
  have has: "has_tier ?db i" if "has_tier db i" "i \<notin> ?gone" for i
    using that by (auto simp: DeleteTier_def has_tier_def)
  have same: "has_user ?db = has_user db" "has_provider ?db = has_provider db" "has_run ?db = has_run db"
    by (simp_all add: DeleteTier_def has_defs fun_eq_iff)
  have "tiers_ok ?db" using d(6) by (auto simp: DeleteTier_def tiers_ok_def tbl_ok_filter)
  moreover have "assignments_ok ?db"
    using d(8) has unfolding assignments_ok_def same by (auto simp: DeleteTier_def tbl_ok_filter)
  moreover have "readable ?db" using d(11) by (auto simp: DeleteTier_def readable_def)
  moreover have "accounts_ok ?db" "links_ok ?db" "issues_ok ?db" "providers_ok ?db" "users_ok ?db" "overrides_ok ?db"
    "audit_ok ?db" "keys_ok ?db"
    using d by (simp_all only: ok_defs same) (simp_all add: DeleteTier_def)
  ultimately show ?thesis by (simp add: store_ok_def)
qed

lemma policy_step_ok:
  assumes "policy_step db db'" "store_ok db"
  shows "store_ok db'"
  using assms
proof (induction rule: policy_step.induct)
  case (1 t db db' i)
  then show ?case by (rule SaveTier_ok)
next
  case (2 i db db')
  then show ?case by (rule SetDefaultTier_ok)
next
  case (3 db n)
  then show ?case by (rule DeleteTier_ok)
next
  case (4 g i db db')
  then obtain k where db': "db' = db\<lparr>d_GroupTiers := tbl_put fst (k, i) (d_GroupTiers db)\<rparr>" and "has_tier db i"
    by (auto simp: MapGroupToTier_def split: option.splits if_splits)
  then have "assignments_ok (db\<lparr>d_UserTiers := d_UserTiers db, d_GroupTiers := tbl_put fst (k, i) (d_GroupTiers db)\<rparr>)"
    using store_okD(8) [OF 4(2)] put_set [of fst "(k, i)" "d_GroupTiers db"]
    by (fastforce simp: assignments_ok_def has_defs tbl_ok_put)
  from store_ok_assignments [OF 4(2) this] show ?case by (simp add: db')
next
  case (5 db g)
  have "assignments_ok (db\<lparr>d_UserTiers := d_UserTiers db, d_GroupTiers := tbl_del fst k (d_GroupTiers db)\<rparr>)" for k
    using store_okD(8) [OF 5] by (auto simp: assignments_ok_def has_defs tbl_del_def tbl_ok_filter)
  from store_ok_assignments [OF 5 this] show ?case
    using 5 by (simp add: UnmapGroup_def split: option.split)
next
  case (6 u t db db')
  have rows: "store_ok (db\<lparr>d_UserTiers := us\<rparr>)" if "assignments_ok (db\<lparr>d_UserTiers := us\<rparr>)" for us
    using store_ok_assignments [OF 6(2), where us = us and gs = "d_GroupTiers db"] that by simp
  have "assignments_ok (db\<lparr>d_UserTiers := tbl_del fst u (d_UserTiers db)\<rparr>)"
    using store_okD(8) [OF 6(2)] by (auto simp: assignments_ok_def has_defs tbl_del_def tbl_ok_filter)
  moreover have "assignments_ok (db\<lparr>d_UserTiers := tbl_put fst (u, i) (d_UserTiers db)\<rparr>)"
    if "has_user db u" "has_tier db i" for i
    using store_okD(8) [OF 6(2)] that put_set [of fst "(u, i)" "d_UserTiers db"]
    by (fastforce simp: assignments_ok_def has_defs tbl_ok_put)
  ultimately show ?case
    using 6(1) rows by (cases t) (auto simp: SetUserTierOverride_def split: if_splits)
next
  case (7 u p q og db db')
  let ?r = "\<lparr>or_UserID = u, or_ProviderID = p, or_Quota = Quota_Encode q, or_Origin = og\<rparr>"
  have db': "db' = db\<lparr>d_Overrides := tbl_put override_key ?r (d_Overrides db)\<rparr>"
    and new: "Quota_Valid q = None" "has_user db u" "has_provider db p"
    using 7(1) by (auto simp: SetProviderOverride_def split: option.splits if_splits)
  have "overrides_ok db'"
    using store_okD(7) [OF 7(2)] new put_set [of override_key ?r "d_Overrides db"]
    unfolding db' by (fastforce simp: overrides_ok_def has_defs tbl_ok_put)
  moreover have "\<forall>r \<in> set (tbl_put override_key ?r (d_Overrides db)). is_ok (DecodeQuota (or_Quota r))"
    using store_okD(11) [OF 7(2)] put_set [of override_key ?r "d_Overrides db"] new(1)
    by (fastforce simp: readable_def DecodeQuota_Encode_valid)
  ultimately show ?case unfolding db' by (rule store_ok_overrides [OF 7(2)])
next
  case (8 db u p)
  have "overrides_ok (db\<lparr>d_Overrides := tbl_del override_key (u, p) (d_Overrides db)\<rparr>)"
    using store_okD(7) [OF 8] by (auto simp: overrides_ok_def has_defs tbl_del_def tbl_ok_filter)
  moreover have "\<forall>r \<in> set (tbl_del override_key (u, p) (d_Overrides db)). is_ok (DecodeQuota (or_Quota r))"
    using store_okD(11) [OF 8] by (auto simp: readable_def tbl_del_def)
  ultimately show ?case unfolding ClearProviderOverride_def fst_conv by (rule store_ok_overrides [OF 8])
qed

section \<open>Every reachable store\<close>

lemma reachable_ok: "reachable db \<Longrightarrow> store_ok db"
proof (induction rule: reachable.induct)
  case start
  show ?case by (rule store_ok_empty)
qed (blast intro: account_step_ok provider_step_ok identity_step_ok policy_step_ok record_step_ok)+

end
