(* ===== verification/ServerInvariant.thy ===== *)
theory ServerInvariant
  imports Cycle StoreInvariant
begin

text \<open>
  Every cycle is a sequence of the operations of the store, whatever the services answer: a store
  reached before a cycle or a click is a store reached after it.
\<close>

named_theorems reach \<comment> \<open>an operation that always succeeds keeps a store reachable\<close>
named_theorems reached \<comment> \<open>so does an operation that may fail, when it did not\<close>

section \<open>The operations of the store\<close>

lemma reach_store [reach]:
  assumes "reachable db"
  shows "reachable (SaveHealth i h m db)" "reachable (SaveObserveResult i t b m db)"
    "reachable (SaveWriteAccess i a t db)" "reachable (SetDegraded i m db)"
    "reachable (MarkAccountUnobserved p e db)" "reachable (FinishRun i st m t db)"
    "reachable (ForgetGuardedChanges ks db)"
  using assms by (blast intro: providers accounts records provider_step.intros account_step.intros record_step.intros)+

lemma reached_accounts [reached]:
  "ReplaceExternalAccounts p as t db = Inr db' \<Longrightarrow> reachable db \<Longrightarrow> reachable db'"
  "UpsertLink t l db = Inr db' \<Longrightarrow> reachable db \<Longrightarrow> reachable db'"
  "SetAccountOwner p e u db = Inr db' \<Longrightarrow> reachable db \<Longrightarrow> reachable db'"
  "ReplaceLinkIssues p is db = Inr db' \<Longrightarrow> reachable db \<Longrightarrow> reachable db'"
  "UpdateObservedAccount p a t db = Inr db' \<Longrightarrow> reachable db \<Longrightarrow> reachable db'"
  "DeleteLink user p db = (db', removed) \<Longrightarrow> reachable db \<Longrightarrow> reachable db'"
  by (metis accounts account_step.intros fst_conv)+

lemma reached_records [reached]:
  "StartRun mode a consent t db = (db', i) \<Longrightarrow> reachable db \<Longrightarrow> reachable db'"
  "RecordChange run a c r d t db = Inr db' \<Longrightarrow> reachable db \<Longrightarrow> reachable db'"
  "SavePlanBody run b t db = Inr db' \<Longrightarrow> reachable db \<Longrightarrow> reachable db'"
  "SeenGuardedChange k t db = (db', first) \<Longrightarrow> reachable db \<Longrightarrow> reachable db'"
  "EnsureAdminKey hash v l t db = Inr db' \<Longrightarrow> reachable db \<Longrightarrow> reachable db'"
  "IssueAdminKey hash v l t db = Inr (db', w) \<Longrightarrow> reachable db \<Longrightarrow> reachable db'"
  "RevokeAdminKey k' t db = Inr db' \<Longrightarrow> reachable db \<Longrightarrow> reachable db'"
  "CheckAdminKey hash v t db = (db', ok) \<Longrightarrow> reachable db \<Longrightarrow> reachable db'"
  by (metis records record_step.intros fst_conv)+

lemma reached_policy [reached]:
  "SaveTier tier db = Inr (db', row) \<Longrightarrow> reachable db \<Longrightarrow> reachable db'"
  "SetDefaultTier i db = Inr db' \<Longrightarrow> reachable db \<Longrightarrow> reachable db'"
  "DeleteTier n db = (db', b) \<Longrightarrow> reachable db \<Longrightarrow> reachable db'"
  "MapGroupToTier g i db = Inr db' \<Longrightarrow> reachable db \<Longrightarrow> reachable db'"
  "UnmapGroup g db = (db', b) \<Longrightarrow> reachable db \<Longrightarrow> reachable db'"
  "SetProviderOverride u p q og db = Inr db' \<Longrightarrow> reachable db \<Longrightarrow> reachable db'"
  "ClearProviderOverride u p db = (db', b) \<Longrightarrow> reachable db \<Longrightarrow> reachable db'"
  by (metis policy policy_step.intros fst_conv)+

lemma reached_identity [reached]:
  "AddManualUser uuid u db = Inr (db', v) \<Longrightarrow> reachable db \<Longrightarrow> reachable db'"
  "DeleteUser i db = (db', b) \<Longrightarrow> reachable db \<Longrightarrow> reachable db'"
  "UpsertProvider inst db = Inr (db', k) \<Longrightarrow> reachable db \<Longrightarrow> reachable db'"
  by (metis identity providers identity_step.intros provider_step.intros fst_conv)+

lemma reached_SyncIdentity [reached]:
  "SyncIdentity answer db = (r, db') \<Longrightarrow> reachable db \<Longrightarrow> reachable db'"
  by (auto simp: SyncIdentity_def Let_def split: option.splits sum.splits if_splits
      intro: identity identity_step.intros)

section \<open>Observing\<close>

lemma reached_each:
  assumes "\<And>x db db'. f x db = Inr db' \<Longrightarrow> reachable db \<Longrightarrow> reachable db'"
  shows "each f xs db = (db', err) \<Longrightarrow> reachable db \<Longrightarrow> reachable db'"
  by (induction xs arbitrary: db) (auto split: sum.splits dest: assms)

lemma reached_rows [reached]:
  "each (UpsertLink now) links db = (db', err) \<Longrightarrow> reachable db \<Longrightarrow> reachable db'"
  "each (\<lambda>a. SetAccountOwner p (key a) (owner a)) rows db = (db', err) \<Longrightarrow> reachable db \<Longrightarrow> reachable db'"
  by (rule reached_each; use reached_accounts in blast)+

lemma reached_persist [reached]: "persist now s db = (db', err) \<Longrightarrow> reachable db \<Longrightarrow> reachable db'"
  by (auto simp: persist_def split: prod.splits option.splits sum.splits dest!: reached)

lemma reached_persist_all [reached]:
  "persist_all now users ss results db = ((db', results'), err) \<Longrightarrow> reachable db \<Longrightarrow> reachable db'"
  by (induction ss arbitrary: results db) (auto simp: Let_def split: prod.splits option.splits dest: reached)

lemma reached_link [reached]:
  "link ord now instances results db = ((db', results'), err) \<Longrightarrow> reachable db \<Longrightarrow> reachable db'"
  by (auto simp: link_def split: sum.splits dest: reached)

lemma reached_observeOne [reached]:
  "observeOne env i w db = (r, w', db') \<Longrightarrow> reachable db \<Longrightarrow> reachable db'"
  by (auto simp: observeOne_def Let_def split: prod.splits sum.splits if_splits intro!: reach dest!: reached)

lemma reached_observe_all [reached]:
  "observe_all env is w db = (rs, w', db') \<Longrightarrow> reachable db \<Longrightarrow> reachable db'"
  by (induction "is" arbitrary: w db rs) (auto split: prod.splits dest: reached)

lemma reached_Observe [reached]:
  "Observe env ord instances w db = (r, w', db') \<Longrightarrow> reachable db \<Longrightarrow> reachable db'"
  by (auto simp: Observe_def Let_def split: prod.splits dest!: reached)

section \<open>Applying\<close>

lemma reach_audit [reach]: "reachable (as_DB s) \<Longrightarrow> reachable (as_DB (audit env opts c r d s))"
  by (auto simp: audit_def record_change_def split: sum.splits dest: reached)

lemma reach_counters [reach]:
  assumes "reachable (as_DB s)"
  shows "reachable (as_DB (skip_one s))" "reachable (as_DB (applied_one s))"
    "reachable (as_DB (fail_one env opts c e s))" "reachable (as_DB (throttle_one env opts c m s))"
  using assms by (auto simp: skip_one_def applied_one_def fail_one_def throttle_one_def Let_def intro!: reach_audit)

lemma reached_refresh [reached]:
  "refreshAfterWrite env i c w db = (w', db') \<Longrightarrow> reachable db \<Longrightarrow> reachable db'"
  by (auto simp: refreshAfterWrite_def split: prod.splits sum.splits intro: reach dest: reached)

lemma reached_write_one [reached]:
  "write_one env opts i c s = (s', err) \<Longrightarrow> reachable (as_DB s) \<Longrightarrow> reachable (as_DB s')"
  by (auto simp: write_one_def Let_def split: prod.splits if_splits option.splits
      intro!: reach elim!: reached_refresh)

lemma reached_apply_one [reached]:
  "apply_one env opts byProvider c s = (s', err) \<Longrightarrow> reachable (as_DB s) \<Longrightarrow> reachable (as_DB s')"
  by (auto simp: apply_one_def Let_def split: option.splits if_splits prod.splits sum.splits
      intro!: reach elim!: reached_write_one)

lemma reached_apply_loop [reached]:
  "apply_loop env opts byProvider cs s = (s', err) \<Longrightarrow> reachable (as_DB s) \<Longrightarrow> reachable (as_DB s')"
  by (induction cs arbitrary: s) (auto split: prod.splits option.splits dest: reached_apply_one)

lemma reach_refuse_one [reach]: "reachable (as_DB s) \<Longrightarrow> reachable (as_DB (refuse_one env opts s c))"
  by (auto simp: refuse_one_def split: ChangeClass.splits intro!: reach_audit)

lemma reach_refuse_all [reach]: "reachable (as_DB s) \<Longrightarrow> reachable (as_DB (foldl (refuse_one env opts) s cs))"
  by (induction cs arbitrary: s) (auto intro: reach)

lemma reached_track_guarded [reached]:
  "track_guarded now cs db = (db', fresh) \<Longrightarrow> reachable db \<Longrightarrow> reachable db'"
  by (induction cs arbitrary: db fresh) (auto split: prod.splits dest: reached)

lemma reach_notifyOutcome [reach]:
  "reachable (as_DB s) \<Longrightarrow> reachable (as_DB (notifyOutcome env opts plan s))"
  by (auto simp: notifyOutcome_def Let_def split: option.splits prod.splits if_splits intro!: reach(7)
      dest: reached_track_guarded)

lemma reach_start_run [reach]: "reachable (as_DB s) \<Longrightarrow> reachable (as_DB (start_run env opts s))"
  by (auto simp: start_run_def split: prod.splits dest: reached)

lemma reach_finish [reach]: "reachable (as_DB s) \<Longrightarrow> reachable (as_DB (finish env s))"
  by (simp add: finish_def reach)

lemma reached_EngineApply [reached]:
  assumes "EngineApply env instances plan opts w db = (s', err)" "reachable db"
  shows "reachable (as_DB s')"
proof -
  have "reachable (as_DB (start_state opts w db))" using assms(2) by (simp add: start_state_def)
  with assms(1) show ?thesis
    by (auto simp: EngineApply_def Let_def split: prod.splits option.splits if_splits
        intro!: reach dest!: reached_apply_loop)
qed

end
