(* ===== verification/StoreGuarantees.thy ===== *)
theory StoreGuarantees
  imports StoreInvariant Examples
begin

text \<open>
  What the store guarantees to the rest of the program: its constraints hold of every file that can
  be reached, such a file can always be read, and what was saved is what takes effect.
\<close>

section \<open>A reachable store can be read\<close>

lemma decode_account_ok:
  "is_ok (decode_account r) \<longleftrightarrow> is_ok (DecodeQuota (ar_Quota r)) \<and> is_ok (DecodeQuota (ar_Used r))"
  by (simp add: decode_account_def is_ok_def split: sum.split)

lemma load_tier_ok: "is_ok (load_tier as r) \<longleftrightarrow> is_ok (DecodeQuota (tr_Budget r))"
  by (simp add: load_tier_def is_ok_def split: sum.split)

lemma decode_rows_ok: "is_ok (decode_rows f rs) \<longleftrightarrow> (\<forall>r \<in> set rs. is_ok (f r))"
  by (induction rs) (auto simp: is_ok_def split: sum.splits)

lemma load_overrides_ok: "is_ok (load_overrides rs m) \<longleftrightarrow> (\<forall>r \<in> set rs. is_ok (DecodeQuota (or_Quota r)))"
  by (induction rs arbitrary: m) (auto split: sum.splits)

lemma is_okE: "is_ok r \<Longrightarrow> (\<And>x. r = Inr x \<Longrightarrow> thesis) \<Longrightarrow> thesis"
  by (cases r) simp_all

lemma is_ok_bind: "is_ok (bind_result r (\<lambda>x. Inr (g x))) \<longleftrightarrow> is_ok r"
  by (cases r) simp_all

lemma readable_accounts: "readable db \<Longrightarrow> is_ok (ListExternalAccounts p db)"
  unfolding ListExternalAccounts_def decode_rows_ok decode_account_ok by (auto simp: readable_def)

lemma readable_policy: "readable db \<Longrightarrow> is_ok (LoadPolicy db)"
  unfolding LoadPolicy_def Let_def is_ok_bind decode_rows_ok load_tier_ok by (auto simp: readable_def)

lemma readable_user: "readable db \<Longrightarrow> is_ok (UserPolicy_of u db)"
  unfolding UserPolicy_of_def is_ok_bind load_overrides_ok by (auto simp: readable_def)

lemma load_accounts_ok: "readable db \<Longrightarrow> is_ok (load_accounts is db m)"
proof (induction "is" arbitrary: m)
  case (Cons i "is")
  from readable_accounts [OF Cons.prems] obtain xs where "ListExternalAccounts (in_ID i) db = Inr xs"
    by (rule is_okE)
  with Cons show ?case by simp
qed simp

lemma plan_loop_ok: "readable db \<Longrightarrow> is_ok (plan_loop pair policy db ls s)"
proof (induction ls arbitrary: s)
  case (Cons l ls)
  show ?case
  proof (cases "pair l")
    case None
    with Cons show ?thesis by simp
  next
    case (Some t)
    then obtain i user account where t: "pair l = Some (i, user, account)" by (cases t) simp
    from readable_user [OF Cons.prems] obtain up where up: "UserPolicy_of (u_ID user) db = Inr up" by (rule is_okE)
    then show ?thesis using Cons by (cases "ps_Policies s (u_ID user)") (simp_all add: t Let_def)
  qed
qed simp

lemma EnginePlan_ok:
  assumes "readable db"
  shows "is_ok (EnginePlan instances f db)"
proof -
  from readable_policy [OF assms] obtain policy where p: "LoadPolicy db = Inr policy" by (rule is_okE)
  from load_accounts_ok [OF assms] obtain accounts where a: "load_accounts instances db Map.empty = Inr accounts"
    by (rule is_okE)
  show ?thesis unfolding EnginePlan_def p a bind_result_simps is_ok_bind by (rule plan_loop_ok [OF assms])
qed

section \<open>The invariant\<close>

text \<open>A file that was used: a service and a tier were added to it.\<close>

definition ex_file :: Database where
  "ex_file = empty_db\<lparr>d_Providers := [ex_row],
     d_Tiers := [\<lparr>tr_ID = 1, tr_Name = ''large'', tr_Budget = Quota_Encode (bytes 5000), tr_IsDefault = False\<rparr>],
     d_Allocations := [(1, ex_alloc 1 ModeAbsolute 900)]\<rparr>"

lemma ex_provider_reachable: "reachable (empty_db\<lparr>d_Providers := [ex_row]\<rparr>)"
proof -
  have "UpsertProvider (pr_Inst ex_row) empty_db = Inr (empty_db\<lparr>d_Providers := [ex_row]\<rparr>, 1)"
    by code_simp
  then show ?thesis
    by (intro reachable.providers [OF reachable.start] provider_step.intros(1))
qed

lemma ex_save: "SaveTier ex_large (empty_db\<lparr>d_Providers := [ex_row]\<rparr>) = Inr (ex_file, 1)"
proof -
  have "Tier_Validate ex_large = None" by code_simp
  then show ?thesis
    by (simp add: SaveTier_def put_tier_def ex_file_def empty_db_def next_id_def ex_large_def ex_alloc_def
        ex_row_def new_provider_def has_provider_def provider_id_def allocation_key_def
        AllocationMode_Valid_def)
qed

lemma ex_file_reachable: "reachable ex_file"
  using ex_save by (intro reachable.policy [OF ex_provider_reachable] policy_step.intros(1))



text \<open>C6 Planning never fails on a file that the program wrote: whatever the instances and the filter, the
  policy, the observed accounts and the overrides can all be decoded, so \<open>Engine.Plan\<close> returns a plan.\<close>

theorem planning_never_fails:
  assumes "reachable db"
  shows "\<exists>result. EnginePlan instances f db = Inr result"
proof -
  from reachable_ok [OF assms] have "readable db" by (simp add: store_ok_def)
  from EnginePlan_ok [OF this] show ?thesis by (rule is_okE) blast
qed

theorem planning_never_fails_witness: "\<exists>result. EnginePlan [ex_instance None None] ex_all ex_file = Inr result"
  by (rule planning_never_fails [OF ex_file_reachable])

section \<open>Observed accounts\<close>

text \<open>The same file with a person, entered by hand.\<close>

definition ex_person :: User where
  "ex_person = \<lparr>u_ID = 1, u_Source = SourceManual, u_SourceUUID = ''uuid-7'', u_UID = ''ann'',
     u_Email = ''ann@example.org'', u_DisplayName = ''Ann'', u_Status = UserActive, u_GroupUUIDs = []\<rparr>"

definition ex_people :: Database where
  "ex_people = ex_file\<lparr>d_Users := [ex_person]\<rparr>"

lemma ex_people_reachable: "reachable ex_people"
proof -
  have "TrimSpace ''ann'' \<noteq> []" by code_simp
  then have "AddManualUser [] ex_person ex_file = Inr (ex_people, ex_person)"
    by (simp add: AddManualUser_def ex_person_def ex_file_def empty_db_def upsertUser_def next_id_def ex_people_def Let_def)
  then show ?thesis by (intro reachable.identity [OF ex_file_reachable] identity_step.intros(2))
qed

text \<open>C15 Storing an observation makes the table a copy of what the provider reported: afterwards the accounts of
  that provider are exactly the reported identifiers, in order, each with the reported quota, usage and
  attributes.\<close>

theorem observation_is_stored:
  assumes "ReplaceExternalAccounts p accounts t db = Inr db'" "reachable db"
  shows "\<exists>xs. ListExternalAccounts p db' = Inr xs \<and>
     map xa_ExternalID xs = sorted_list_of_set (ac_ExternalID ` set accounts) \<and>
     (\<forall>x \<in> set xs. \<exists>a \<in> set accounts. reports a x)"
  using ReplaceExternalAccounts_list [OF assms(1)] reachable_ok [OF assms(2)]
  by (simp add: store_ok_def accounts_ok_def)

theorem observation_is_stored_witness:
  "\<exists>db xs. ReplaceExternalAccounts 1 [ex_remote (bytes 300)] 9 ex_file = Inr db \<and>
     ListExternalAccounts 1 db = Inr xs \<and> map xa_ExternalID xs = [''ann'']"
proof -
  have "Quota_Valid (ac_Quota (ex_remote (bytes 300))) = None" "Quota_ValidAsUsage (ac_Used (ex_remote (bytes 300))) = None"
    using ex_valid by (simp_all add: ex_remote_def)
  moreover have "has_provider ex_file 1" "ac_ExternalID (ex_remote (bytes 300)) = ''ann''"
    by (simp_all add: ex_file_def has_provider_def provider_id_def ex_row_def new_provider_def ex_remote_def)
  ultimately obtain db where db: "ReplaceExternalAccounts 1 [ex_remote (bytes 300)] 9 ex_file = Inr db"
    by (simp add: ReplaceExternalAccounts_def)
  from observation_is_stored [OF db ex_file_reachable] db show ?thesis
    by (auto simp: ex_remote_def)
qed

section \<open>The policy in force\<close>

text \<open>Saving a tier makes it the policy: the next load of the policy succeeds and holds the tier under the
  identifier that was returned, with its name, its budget and, for every provider, its allocation.\<close>

theorem saved_tier_takes_effect:
  assumes "reachable db" "SaveTier tier db = Inr (db', i)"
  shows "\<exists>policy t. LoadPolicy db' = Inr policy \<and> p_Tiers policy i = Some t \<and> t_Name t = t_Name tier \<and>
     t_Budget t = t_Budget tier \<and> (\<forall>p. AllocationFor t p = AllocationFor tier p)"
proof -
  from assms have "reachable db'" by (blast intro: reachable.policy policy_step.intros(1))
  then have "readable db'" using reachable_ok by (simp add: store_ok_def)
  from readable_policy [OF this] obtain policy where load: "LoadPolicy db' = Inr policy" by (rule is_okE)
  have "tiers_ok db" using reachable_ok [OF assms(1)] by (simp add: store_ok_def)
  from SaveTier_offers [OF assms(2) this load] load show ?thesis by blast
qed

theorem saved_tier_takes_effect_witness:
  "\<exists>db policy t. SaveTier ex_large (empty_db\<lparr>d_Providers := [ex_row]\<rparr>) = Inr (db, 1) \<and>
     LoadPolicy db = Inr policy \<and> p_Tiers policy 1 = Some t \<and> t_Budget t = bytes 5000"
  using saved_tier_takes_effect [OF ex_provider_reachable ex_save] ex_save by (auto simp: ex_large_def)

text \<open>An exception for one person beats every tier: once stored, that person's ceiling on that provider is the
  exception's, whatever tiers, groups and defaults the policy has.\<close>

theorem override_beats_every_tier:
  assumes "reachable db" "SetProviderOverride (u_ID user) p q origin db = Inr db'"
  shows "\<exists>up. UserPolicy_of (u_ID user) db' = Inr up \<and>
     (\<forall>policy. r_Present (Resolve user p policy up) \<and> r_Ceiling (Resolve user p policy up) = q \<and>
        r_Rule (Resolve user p policy up) = RuleProviderOverride)"
proof -
  from assms have "reachable db'" by (blast intro: reachable.policy policy_step.intros(7))
  then have "readable db'" using reachable_ok by (simp add: store_ok_def)
  from readable_user [OF this] obtain up where up: "UserPolicy_of (u_ID user) db' = Inr up" by (rule is_okE)
  have "tbl_ok override_key (d_Overrides db)"
    using reachable_ok [OF assms(1)] by (simp add: store_ok_def overrides_ok_def)
  note r = SetProviderOverride_Resolve [OF assms(2) this up]
  show ?thesis using up by (intro exI [of _ up]) (simp add: r)
qed

theorem override_beats_every_tier_witness:
  "\<exists>db up. SetProviderOverride 1 1 (bytes 300) OverrideManual ex_people = Inr db \<and> UserPolicy_of 1 db = Inr up \<and>
     r_Ceiling (Resolve ex_person 1 ex_policy up) = bytes 300"
proof -
  have "Quota_Valid (bytes 300) = None" "Quota_IsKnown (bytes 300)" by code_simp+
  then obtain db where db: "SetProviderOverride (u_ID ex_person) 1 (bytes 300) OverrideManual ex_people = Inr db"
    by (simp add: SetProviderOverride_def has_user_def has_provider_def provider_id_def ex_people_def ex_file_def
        ex_person_def ex_row_def new_provider_def)
  from override_beats_every_tier [OF ex_people_reachable db] db show ?thesis by (auto simp: ex_person_def)
qed

section \<open>People\<close>

text \<open>A directory snapshot replaces what is known about its source and nothing else: everyone keeps the row
  they had, whoever is in the snapshot is active afterwards, whoever of that source is missing is orphaned but
  kept, and people of other sources are as they were.\<close>

theorem snapshot_keeps_identities:
  assumes "reachable db" "SyncIdentity (Some (Inr read)) db = (Inr result, db')"
  defines "source \<equiv> sn_Source (ir_Snapshot read)" and "seen \<equiv> u_SourceUUID ` set (sn_Users (ir_Snapshot read))"
  shows "(\<forall>k i. id_of db k = Some i \<longrightarrow> id_of db' k = Some i) \<and>
     (\<forall>x \<in> seen. status_of db' (source, x) = Some UserActive) \<and>
     (\<forall>x. x \<notin> seen \<longrightarrow> status_of db' (source, x) = map_option (\<lambda>_. UserOrphaned) (status_of db (source, x))) \<and>
     (\<forall>s x. s \<noteq> source \<longrightarrow> status_of db' (s, x) = status_of db (s, x))"
proof -
  from SyncIdentity_stored [OF assms(2)] have rep: "ReplaceIdentity (ir_Snapshot read) db = Inr (db', result)" by blast
  have "users_ok db" using reachable_ok [OF assms(1)] by (simp add: store_ok_def)
  note p = ReplaceIdentity_props [OF rep this]
  show ?thesis unfolding source_def seen_def using p(2,3,4,5) by blast
qed

definition ex_read :: "User list \<Rightarrow> IdentityRead" where
  "ex_read us = \<lparr>ir_Snapshot = \<lparr>sn_Source = SourceLDAP, sn_Users = us, sn_Groups = []\<rparr>, ir_SkippedEntries = [],
     ir_UnresolvedMemberships = []\<rparr>"

theorem snapshot_keeps_identities_witness:
  "\<exists>db result. SyncIdentity (Some (Inr (ex_read [ex_user []]))) ex_people = (Inr result, db) \<and>
     id_of db (SourceManual, ''uuid-7'') = Some 1 \<and> status_of db (SourceLDAP, ''uuid-7'') = Some UserActive \<and>
     status_of db (SourceManual, ''uuid-7'') = Some UserActive"
proof -
  have "\<exists>result db. SyncIdentity (Some (Inr (ex_read [ex_user []]))) ex_people = (Inr result, db)"
    by (simp add: SyncIdentity_def ex_read_def ex_user_def ReplaceIdentity_def setUserGroups_def markOrphaned_def
        upsertUser_def ex_people_def ex_person_def ex_file_def empty_db_def user_identity_def Let_def)
  then obtain result db where r: "SyncIdentity (Some (Inr (ex_read [ex_user []]))) ex_people = (Inr result, db)" by blast
  have "id_of ex_people (SourceManual, ''uuid-7'') = Some 1" "status_of ex_people (SourceManual, ''uuid-7'') = Some UserActive"
    by (simp_all add: id_of_def status_of_def ex_people_def ex_person_def user_identity_def)
  with snapshot_keeps_identities [OF ex_people_reachable r] r show ?thesis
    by (auto simp: ex_read_def ex_user_def)
qed

lemma countActiveUsers_pos: "0 < countActiveUsers db \<longleftrightarrow> (\<exists>r \<in> set (d_Users db). u_Status r = UserActive)"
  by (auto simp: countActiveUsers_def ListUsers_def filter_empty_conv)

text \<open>C14 No synchronisation empties the program: a directory that fails, or that suddenly reports nobody, never
  leaves a file in which nobody is active when somebody was.\<close>

theorem sync_never_orphans_everyone:
  assumes "reachable db" "0 < countActiveUsers db"
  shows "0 < countActiveUsers (snd (SyncIdentity directory db))"
proof (cases "fst (SyncIdentity directory db)")
  case (Inl e)
  then have "snd (SyncIdentity directory db) = db" by (metis SyncIdentity_error prod.collapse)
  with assms(2) show ?thesis by simp
next
  case (Inr result)
  show ?thesis
  proof (cases "\<exists>read. directory = Some (Inr read)")
    case True
    then obtain read where d: "directory = Some (Inr read)" by blast
    with Inr have run: "SyncIdentity (Some (Inr read)) db = (Inr result, snd (SyncIdentity directory db))"
      by (metis prod.collapse)
    from SyncIdentity_stored [OF run] assms(2) obtain u where u: "u \<in> set (sn_Users (ir_Snapshot read))"
      and rep: "ReplaceIdentity (ir_Snapshot read) db = Inr (snd (SyncIdentity directory db), result)"
      by (cases "sn_Users (ir_Snapshot read)") auto
    have "users_ok db" using reachable_ok [OF assms(1)] by (simp add: store_ok_def)
    from ReplaceIdentity_props(3) [OF rep this u] show ?thesis
      unfolding countActiveUsers_pos status_of_def by (auto dest!: find_SomeD)
  next
    case False
    with assms(2) Inr show ?thesis by (auto simp: SyncIdentity_def split: option.splits sum.splits)
  qed
qed

theorem sync_never_orphans_everyone_witness: "0 < countActiveUsers (snd (SyncIdentity (Some (Inr (ex_read []))) ex_people))"
  using sync_never_orphans_everyone [OF ex_people_reachable]
  by (simp add: countActiveUsers_pos ex_people_def ex_person_def)

section \<open>Keys and notifications\<close>



text \<open>A guarded change is announced once: the first cycle that sees it reports it as new, a later one does not,
  and once it was absent from a cycle it is new again.\<close>

theorem guarded_change_announced_once:
  assumes "tbl_find nr_Key key (d_Notified db) = None" "now \<noteq> later" "key \<notin> set keep"
  defines "once \<equiv> fst (SeenGuardedChange key now db)"
  shows "snd (SeenGuardedChange key now db) \<and> \<not> snd (SeenGuardedChange key later once) \<and>
     snd (SeenGuardedChange key later (ForgetGuardedChanges keep once))"
proof -
  have "tbl_find nr_Key key (d_Notified once) = Some \<lparr>nr_Key = key, nr_FirstSeen = now, nr_LastSeen = now\<rparr>"
    by (simp add: once_def SeenGuardedChange_def assms(1) Let_def tbl_find_put)
  moreover have "tbl_find nr_Key key (d_Notified (ForgetGuardedChanges keep once)) = None"
    using assms(3) by (simp add: ForgetGuardedChanges_find)
  ultimately show ?thesis using assms(1,2) by (simp add: SeenGuardedChange_def Let_def)
qed

theorem guarded_change_announced_once_witness:
  "snd (SeenGuardedChange ''k'' 1 empty_db) \<and> \<not> snd (SeenGuardedChange ''k'' 2 (fst (SeenGuardedChange ''k'' 1 empty_db)))"
proof -
  have "tbl_find nr_Key ''k'' (d_Notified empty_db) = None" by (simp add: empty_db_def tbl_find_def)
  from guarded_change_announced_once [OF this, of 1 2 "[]"] show ?thesis by simp
qed

end
