(* ===== verification/CycleGuarantees.thy ===== *)
theory CycleGuarantees
  imports StoreGuarantees
begin

text \<open>
  What a cycle guarantees: which calls observing, planning, probing and applying send to the
  providers, when they write, and what the store holds afterwards.
\<close>

section \<open>Writing\<close>

lemma Applicable_class:
  "c \<in> set (Applicable plan consent) \<Longrightarrow>
     ch_Class c = ClassSafe \<or> consent \<and> ch_Class c = ClassShrinkBelowUsage"
  by (auto simp: Applicable_filter)

text \<open>What the account held when it was read again, right before the write.\<close>

definition safe_to_write :: "bool \<Rightarrow> Quota \<Rightarrow> Account \<Rightarrow> bool" where
  "safe_to_write consent q a \<longleftrightarrow> Account_Writable a \<and> Quota_IsKnown (ac_Quota a) \<and> Quota_IsKnown (ac_Used a) \<and>
     Quota_IsKnown q \<and> \<not> Quota_Equal (ac_Quota a) q \<and>
     (consent \<or> \<not> blocks_uploads q (ac_Used a) \<or> ac_NeverUsed a \<and> 0 < sint (q_Bytes q))"

lemma agreed_safe:
  assumes "agreed c a" "c \<in> set (Applicable plan consent)"
  shows "safe_to_write consent (ch_To c) a"
proof -
  let ?r = "recheck_account c a"
  from assms have cls: "fst (classify ?r) = ClassSafe \<or> consent \<and> fst (classify ?r) = ClassShrinkBelowUsage"
    using Applicable_class [OF assms(2)] by (simp add: agreed_def)
  then have "trusted ?r" using classify_unknown_iff [of ?r] by auto
  moreover have "consent \<or> \<not> blocks_uploads (ch_To c) (ac_Used a) \<or> ac_NeverUsed a \<and> 0 < sint (q_Bytes (ch_To c))"
    using cls classify_safe_iff [of ?r] by (auto simp: recheck_account_def)
  ultimately show ?thesis
    using assms(1) by (simp add: safe_to_write_def agreed_def trusted_def recheck_account_def)
qed

text \<open>C1 The guardrail at the moment of writing. Every write of a run is of an applicable change of the plan, to
  the account and with the value that were planned, on a provider that is not degraded, outside a dry run, and
  right after the account was read again and found writable, known and different; without consent the value is
  above what the account was then storing, unless the account was never used.\<close>

theorem every_write_is_permitted:
  assumes "wd_Calls (as_World (fst (EngineApply env instances plan opts w db))) = wd_Calls w @ xs @ CallSet p e q r # ys"
  shows "\<exists>c \<in> set (Applicable plan (ao_ConsentShrink opts)). \<exists>i a zs.
     by_provider instances (ch_ProviderID c) = Some i \<and> \<not> Degraded (in_Row i) \<and> \<not> ao_DryRun opts \<and>
     p = in_ID i \<and> e = ch_ExternalID c \<and> q = ch_To c \<and>
     xs = zs @ [CallGet p e (Inr a), CallSleep False] \<and> safe_to_write (ao_ConsentShrink opts) q a"
proof -
  obtain s' err where run: "EngineApply env instances plan opts w db = (s', err)" by (meson surj_pair)
  with assms have "wd_Calls (as_World s') = wd_Calls w @ xs @ CallSet p e q r # ys" by simp
  from EngineApply_write [OF run this] agreed_safe show ?thesis
    unfolding write_of_def by (metis (no_types, lifting))
qed

abbreviation ex_run :: "AdapterError option \<Rightarrow> bool \<Rightarrow> Quota ApplyState \<times> engine_error option" where
  "ex_run refusal dry \<equiv> EngineApply ex_env [ex_instance refusal None] (ex_plan (bytes 300) (bytes 400)) (ex_opts dry)
     (ex_world (bytes 300)) (ex_db [ex_link] (bytes 300))"

lemma ex_run_calls:
  "wd_Calls (as_World (fst (ex_run None False))) =
     [CallGet 1 ''ann'' (Inr (ex_remote (bytes 300))), CallSleep False, CallSet 1 ''ann'' (bytes 400) None,
      CallGet 1 ''ann'' (Inr (ex_remote (bytes 400)))]"
  by code_simp

theorem every_write_is_permitted_witness:
  "safe_to_write False (bytes 400) (ex_remote (bytes 300))"
  using every_write_is_permitted [where instances = "[ex_instance None None]" and p = 1 and e = "''ann''" and
      q = "bytes 400" and r = None and ys = "[CallGet 1 ''ann'' (Inr (ex_remote (bytes 400)))]" and
      xs = "[CallGet 1 ''ann'' (Inr (ex_remote (bytes 300))), CallSleep False]" and opts = "ex_opts False" and
      env = ex_env and plan = "ex_plan (bytes 300) (bytes 400)" and w = "ex_world (bytes 300)" and
      db = "ex_db [ex_link] (bytes 300)"] ex_run_calls
  by (auto simp: ex_world_def ex_opts_def)



text \<open>C11 A provider stops at its first error: after a write it refused, nothing more is sent to it in the run.\<close>

theorem provider_stops_at_its_first_error:
  assumes "wd_Calls (as_World (fst (EngineApply env instances plan opts w db))) =
     wd_Calls w @ xs @ CallSet p e q (Some refusal) # ys"
  shows "\<forall>y \<in> set ys. \<not> touches p y"
proof -
  obtain s' err where run: "EngineApply env instances plan opts w db = (s', err)" by (meson surj_pair)
  with assms have "wd_Calls (as_World s') = wd_Calls w @ xs @ CallSet p e q (Some refusal) # ys" by simp
  from EngineApply_stops [OF run this] show ?thesis .
qed

abbreviation ex_twice :: Plan where
  "ex_twice \<equiv> \<lparr>pl_Changes = [ex_change (bytes 300) (bytes 400), ex_change (bytes 300) (bytes 500)], pl_Unallocated = 0\<rparr>"

theorem provider_stops_at_its_first_error_witness:
  "filter (touches 1) (drop 3 (wd_Calls (as_World (fst (EngineApply ex_env [ex_instance (Some (PlainError ''no'')) None]
     ex_twice (ex_opts False) (ex_world (bytes 300)) (ex_db [ex_link] (bytes 300))))))) = []"
proof -
  let ?run = "fst (EngineApply ex_env [ex_instance (Some (PlainError ''no'')) None] ex_twice
     (ex_opts False) (ex_world (bytes 300)) (ex_db [ex_link] (bytes 300)))"
  have "wd_Calls (as_World ?run) = [CallGet 1 ''ann'' (Inr (ex_remote (bytes 300))), CallSleep False,
      CallSet 1 ''ann'' (bytes 400) (Some (PlainError ''no''))]"
    by code_simp
  then have "wd_Calls (as_World ?run) = wd_Calls (ex_world (bytes 300)) @
      [CallGet 1 ''ann'' (Inr (ex_remote (bytes 300))), CallSleep False] @
      CallSet 1 ''ann'' (bytes 400) (Some (PlainError ''no'')) # drop 3 (wd_Calls (as_World ?run))"
    by (simp add: ex_world_def)
  from provider_stops_at_its_first_error [OF this] show ?thesis by (simp only: filter_empty_conv)
qed



section \<open>Planning\<close>

text \<open>C7 Every change of a plan is about a stored link of an active person to an account that was observed, and
  sets what the policy resolves for that person on that provider, in the form the provider will store it.\<close>

theorem every_change_is_explained:
  assumes "EnginePlan instances f db = Inr result" "c \<in> set (pl_Changes (px_Plan result))"
  shows "\<exists>l \<in> set (d_Links db). \<exists>i \<in> set instances. \<exists>user \<in> set (ListUsers db). \<exists>policy up stored account.
     in_ID i = lk_ProviderID l \<and> u_ID user = lk_UserID l \<and> u_Status user = UserActive \<and>
     ListExternalAccounts (lk_ProviderID l) db = Inr stored \<and> account \<in> set stored \<and>
     xa_ExternalID account = lk_ExternalID l \<and> LoadPolicy db = Inr policy \<and> UserPolicy_of (u_ID user) db = Inr up \<and>
     r_Present (Resolve user (lk_ProviderID l) policy up) \<and>
     ch_To c = ad_NormalizeQuota (in_Provider i) (r_Ceiling (Resolve user (lk_ProviderID l) policy up)) \<and>
     ch_From c = xa_Quota account \<and> ch_UserID c = u_ID user \<and> ch_ExternalID c = xa_ExternalID account"
proof -
  from EnginePlan_source [OF assms] obtain l i user stored account policy up where
    src: "l \<in> set (d_Links db)" "i \<in> set instances" "user \<in> set (ListUsers db)"
      "in_ID i = lk_ProviderID l" "u_ID user = lk_UserID l" "u_Status user = UserActive"
      "ListExternalAccounts (lk_ProviderID l) db = Inr stored" "last_account (lk_ExternalID l) stored = Some account"
      "LoadPolicy db = Inr policy" "UserPolicy_of (u_ID user) db = Inr up"
      "r_Present (Resolve user (lk_ProviderID l) policy up)"
    and c: "c = change_of (plan_account i user l account (Resolve user (lk_ProviderID l) policy up))" by blast
  from src(8) have "account \<in> set stored \<and> xa_ExternalID account = lk_ExternalID l"
    unfolding last_account_def by (auto dest: find_SomeD)
  moreover have "ch_To c = ad_NormalizeQuota (in_Provider i) (r_Ceiling (Resolve user (lk_ProviderID l) policy up))"
    "ch_From c = xa_Quota account" "ch_UserID c = u_ID user" "ch_ExternalID c = lk_ExternalID l"
    unfolding c using src(11) by (simp_all add: change_of_def plan_account_def split: prod.splits)
  ultimately show ?thesis using src by metis
qed

theorem every_change_is_explained_witness:
  "\<exists>result c l. EnginePlan [ex_instance None None] ex_all (ex_db [ex_link] (bytes 300)) = Inr result \<and>
     c \<in> set (pl_Changes (px_Plan result)) \<and> l \<in> set [ex_link] \<and> ch_ExternalID c = lk_ExternalID l"
proof -
  have "\<not> Quota_Equal (bytes 400) (bytes 300)" by code_simp
  with ex_EnginePlan [OF ex_valid(2)] obtain d where d: "EnginePlan [ex_instance None None] ex_all
      (ex_db [ex_link] (bytes 300)) = Inr d" "map ch_To (pl_Changes (px_Plan d)) = [bytes 400]" by auto
  then obtain c where c: "c \<in> set (pl_Changes (px_Plan d))" by auto
  from every_change_is_explained [OF d(1) c] obtain l where "l \<in> set (d_Links (ex_db [ex_link] (bytes 300)))"
    "ch_ExternalID c = lk_ExternalID l" by metis
  with d(1) c show ?thesis by (auto simp: ex_db_def)
qed



lemma ex_db_ok: "store_ok (ex_db [ex_link] (bytes 300))"
proof -
  have "DecodeQuota (Quota_Encode (bytes 300)) = Inr (bytes 300)" "DecodeQuota (Quota_Encode (bytes 1000)) = Inr (bytes 1000)"
    "DecodeQuota (Quota_Encode (bytes 100)) = Inr (bytes 100)"
    using ex_valid by (simp_all add: DecodeQuota_Encode_valid)
  moreover have "MatchKey_Valid MatchEmail" by code_simp
  ultimately show ?thesis
    by (simp add: store_ok_def ok_defs has_defs ex_db_def tbl_ok_def ex_link_def ex_user_def ex_row_def
        new_provider_def provider_id_def account_row_def ex_remote_def account_key_def link_key_def link_target_def
        user_identity_def ex_alloc_def allocation_key_def)
qed


section \<open>Observing and linking\<close>

text \<open>C9 Observing never writes to a provider and providers do not disturb each other: a cycle only asks for health
  and for lists of accounts, and a provider that failed keeps its accounts, links and open issues exactly as they
  were, whatever the others reported.\<close>

theorem observing_is_isolated:
  assumes "store_ok db" "order_ok ord" "distinct (map in_ID instances)" "distinct (map in_Name instances)"
    and "Observe env ord instances w db = ((report, err), w', db')"
  shows "(\<exists>T. wd_Calls w' = wd_Calls w @ T \<and> reads_only T) \<and>
     (\<forall>k < length instances. \<not> ProviderResult_OK (rp_Providers report ! k) \<longrightarrow> same_at (in_ID (instances ! k)) db db')"
proof -
  have ok: "accounts_ok db" "distinct (map u_ID (d_Users db))"
    using assms(1) by (simp_all add: store_ok_def users_ok_def tbl_ok_def)
  show ?thesis using Observe_calls [OF assms(5)] Observe_isolated [OF assms(5) ok assms(2,3,4)] by blast
qed

definition ex_down :: "Quota Instance" where
  "ex_down = (ex_instance None None)\<lparr>in_Provider := (ex_adapter None None)\<lparr>ad_ListAccounts :=
     (\<lambda>s. (Inl [UnreachableError ''cloud''], s))\<rparr>\<rparr>"

lemma ex_down_fields: "in_ID ex_down = 1" "in_Name ex_down = ''cloud''"
  "pi_Type (pr_Inst (in_Row ex_down)) = ''nextcloud''" "cap_CanReadUsers (ad_Capabilities (in_Provider ex_down))"
  "ad_ListAccounts (in_Provider ex_down) s = (Inl [UnreachableError ''cloud''], s)"
  "ad_Health (in_Provider ex_down) s = (\<lparr>he_Reachable = True, he_Version = ''1'', he_InSupported = True, he_Err = None\<rparr>, s)"
  by (simp_all add: ex_down_def ex_instance_def in_ID_def in_Name_def ex_row_def new_provider_def provider_id_def
      ex_adapter_def)

lemma ex_down_run:
  "\<exists>report err w rows. Observe ex_env ex_order [ex_down] (ex_world (bytes 300)) db =
     ((report, err), w, db\<lparr>d_Providers := rows\<rparr>) \<and> \<not> ProviderResult_OK (rp_Providers report ! 0)"
proof -
  obtain r w d where one: "observeOne ex_env ex_down (ex_world (bytes 300)) db = (r, w, d)"
    by (cases "observeOne ex_env ex_down (ex_world (bytes 300)) db") auto
  then have r: "\<not> ProviderResult_OK r" "rs_Name r = ''cloud''" "\<exists>rows. d = db\<lparr>d_Providers := rows\<rparr>"
    by (auto simp: observeOne_def call_Health_def call_List_def ex_down_fields ex_world_def new_result_def
        ProviderResult_OK_def Let_def SaveObserveResult_def SaveHealth_def update_provider_def)
  then have "loadStates [ex_down] [r] (ListLinks d) d = Inr []"
    by (simp add: result_of_def ex_down_fields split: option.split)
  then obtain e where "link ex_order (clock ex_env w) [ex_down] [r] d = ((d, [r]), e)"
    by (simp add: link_def match_all_def matchBySubject_def)
  with one r show ?thesis by (auto simp: Observe_def Let_def)
qed

theorem observing_is_isolated_witness:
  "\<exists>report err w db'. Observe ex_env ex_order [ex_down] (ex_world (bytes 300)) (ex_db [ex_link] (bytes 300)) =
     ((report, err), w, db') \<and> same_at 1 (ex_db [ex_link] (bytes 300)) db'"
proof -
  obtain report err w db' where run: "Observe ex_env ex_order [ex_down] (ex_world (bytes 300)) (ex_db [ex_link] (bytes 300)) =
     ((report, err), w, db')" and r: "\<not> ProviderResult_OK (rp_Providers report ! 0)" using ex_down_run by blast
  from observing_is_isolated [OF ex_db_ok ex_order_ok _ _ run] run r ex_down_fields(1) show ?thesis by auto
qed

text \<open>C8 Linking only adds. A pass over the accounts, whether or not all its statements succeed, keeps every link
  there was, changes nothing else but owners and issues, and keeps one account per person and provider and one
  person per account; each link it adds is justified by a value of the match key that exactly one active person
  and one free account have, or by a subject that only that person claims elsewhere.\<close>

theorem linking_only_adds_justified_links:
  fixes results :: "ProviderResult list" and now :: Time
  assumes "store_ok db" "order_ok ord" "distinct (map in_ID instances)"
  defines "db' \<equiv> fst (fst (link ord now instances results db))"
  shows "set (d_Links db) \<subseteq> set (d_Links db') \<and> links_ok db' \<and>
     (\<exists>links accounts issues. db' = db\<lparr>d_Links := links, d_Accounts := accounts, d_Issues := issues\<rparr>) \<and>
     (\<forall>l \<in> set (d_Links db') - set (d_Links db). \<exists>states. \<exists>s \<in> set states.
        loadStates instances results (ListLinks db) db = Inr states \<and> lk_ProviderID l = ls_ID s \<and>
        justified ord now (active_users db) states s l)"
proof -
  have ok: "links_ok db" "accounts_ok db" "distinct (map u_ID (d_Users db))"
    using assms(1) by (simp_all add: store_ok_def users_ok_def tbl_ok_def)
  obtain results' err where "link ord now instances results db = ((db', results'), err)"
    unfolding db'_def by (metis prod.collapse)
  from link_grew [OF ok assms(3,2) this] ok(1) show ?thesis unfolding grew_def by blast
qed

theorem linking_only_adds_justified_links_witness:
  "ex_link \<in> set (d_Links (fst (fst (link ex_order 9 [ex_instance None None] [new_result (ex_instance None None)]
     (ex_db [ex_link] (bytes 300))))))"
  using linking_only_adds_justified_links [OF ex_db_ok ex_order_ok, of "[ex_instance None None]"]
  by (auto simp: ex_db_def)

text \<open>
  A provider that cannot be read is not treated as unknown: a plan reads only what was stored, so
  after an observation that failed it is made from the values of an earlier cycle, and a change
  computed from them is offered as safe.
\<close>

lemma plan_ignores_providers [simp]:
  "LoadPolicy (db\<lparr>d_Providers := rows\<rparr>) = LoadPolicy db"
  "ListExternalAccounts p (db\<lparr>d_Providers := rows\<rparr>) = ListExternalAccounts p db"
  "UserPolicy_of u (db\<lparr>d_Providers := rows\<rparr>) = UserPolicy_of u db"
  "ListUsers (db\<lparr>d_Providers := rows\<rparr>) = ListUsers db"
  "ListLinks (db\<lparr>d_Providers := rows\<rparr>) = ListLinks db"
  by (simp_all add: LoadPolicy_def load_group_tiers_def ListExternalAccounts_def UserPolicy_of_def ListUsers_def
      ListLinks_def user_groups_def case_prod_unfold cong: if_cong)

lemma load_accounts_providers: "load_accounts is (db\<lparr>d_Providers := rows\<rparr>) m = load_accounts is db m"
  by (induction "is" arbitrary: m) (simp_all split: sum.split)

lemma plan_loop_providers: "plan_loop pair policy (db\<lparr>d_Providers := rows\<rparr>) ls s = plan_loop pair policy db ls s"
  by (induction ls arbitrary: s) (simp_all add: Let_def split: option.split sum.split)

lemma EnginePlan_providers: "EnginePlan instances f (db\<lparr>d_Providers := rows\<rparr>) = EnginePlan instances f db"
  by (simp add: EnginePlan_def load_accounts_providers plan_loop_providers)

theorem failed_observation_is_planned_from:
  "\<exists>report err w db result. Observe ex_env ex_order [ex_down] (ex_world (bytes 300)) (ex_db [ex_link] (bytes 300)) =
       ((report, err), w, db) \<and> \<not> ProviderResult_OK (rp_Providers report ! 0) \<and>
     EnginePlan [ex_instance None None] ex_all db = Inr result \<and>
     (\<exists>c \<in> set (pl_Changes (px_Plan result)). ch_Class c \<noteq> ClassUnknownState)"
proof -
  obtain report err w rows where run: "Observe ex_env ex_order [ex_down] (ex_world (bytes 300)) (ex_db [ex_link] (bytes 300)) =
     ((report, err), w, (ex_db [ex_link] (bytes 300))\<lparr>d_Providers := rows\<rparr>)"
    and r: "\<not> ProviderResult_OK (rp_Providers report ! 0)" using ex_down_run by blast
  have "\<not> Quota_Equal (bytes 400) (bytes 300)" by code_simp
  with ex_EnginePlan [OF ex_valid(2)] obtain d where d: "EnginePlan [ex_instance None None] ex_all
      (ex_db [ex_link] (bytes 300)) = Inr d" "map ch_To (pl_Changes (px_Plan d)) = [bytes 400]" by auto
  then obtain c where c: "c \<in> set (pl_Changes (px_Plan d))" by auto
  from EnginePlan_source [OF d(1) c] obtain i user l account stored policy up where
    src: "ListExternalAccounts (lk_ProviderID l) (ex_db [ex_link] (bytes 300)) = Inr stored" "l \<in> set [ex_link]"
      "last_account (lk_ExternalID l) stored = Some account" "i \<in> set [ex_instance None None]"
      "r_Present (Resolve user (lk_ProviderID l) policy up)"
    and eq: "c = change_of (plan_account i user l account (Resolve user (lk_ProviderID l) policy up))"
    by (auto simp: ex_db_def)
  let ?pa = "plan_account i user l account (Resolve user (lk_ProviderID l) policy up)"
  have "account \<in> set stored" using src(3) unfolding last_account_def by (auto dest: find_SomeD)
  with src(1,2) ex_accounts [OF ex_valid(2), of "[ex_link]"] have
    "xa_Quota account = bytes 300" "xa_Used account = bytes 100" "xa_ObserveOK account"
    by (auto simp: ex_fields external_of_def account_row_def)
  moreover have "ch_To c = bytes 400" using d(2) c by auto
  moreover have "ch_To c = pa_Desired ?pa" "ch_Class c = fst (classify ?pa)"
    by (simp_all add: eq change_of_def split: prod.splits)
  moreover have "Quota_IsKnown (bytes 300)" "Quota_IsKnown (bytes 100)" "Quota_IsKnown (bytes 400)" by code_simp+
  ultimately have "ch_Class c \<noteq> ClassUnknownState"
    using classify_unknown_iff [of ?pa] by (simp add: trusted_def plan_account_def)
  with run r d c show ?thesis by (auto simp: EnginePlan_providers)
qed

section \<open>Probing\<close>



text \<open>A competing writer stops the program: when one is seen on a registered provider, that provider is
  degraded in the store, with the first writer as its reason, so that no run writes to it.\<close>

theorem competing_writer_degrades:
  assumes "CheckCompetingWriters i w db = ((found, u, None), w', db')" "found \<noteq> []" "in_ID i \<noteq> 0"
    and "tbl_find provider_id (in_ID i) (d_Providers db) = Some (in_Row i)"
  shows "\<exists>r. tbl_find provider_id (in_ID i) (d_Providers db') = Some r \<and> Degraded r \<and>
     pr_DegradedReason r = degraded_reason found"
  using CheckCompetingWriters_degrades assms by blast

theorem competing_writer_degrades_witness:
  "\<exists>found u w db r. CheckCompetingWriters ((ex_instance None None)\<lparr>in_Provider := (ex_adapter None None)\<lparr>ad_Detector :=
       Some (\<lambda>s. (([\<lparr>cw_Setting = ''quota'', cw_Value = ''1'', cw_Detail = ''set'', cw_Remedy = []\<rparr>], None), s))\<rparr>\<rparr>)
       (ex_world (bytes 300)) (ex_db [] (bytes 300)) = ((found, u, None), w, db) \<and>
     tbl_find provider_id 1 (d_Providers db) = Some r \<and> Degraded r"
proof -
  let ?c = "\<lparr>cw_Setting = ''quota'', cw_Value = ''1'', cw_Detail = ''set'', cw_Remedy = []\<rparr>"
  let ?i = "(ex_instance None None)\<lparr>in_Provider := (ex_adapter None None)\<lparr>ad_Detector := Some (\<lambda>s. (([?c], None), s))\<rparr>\<rparr>"
  have i: "in_ID ?i = 1" "in_Row ?i = ex_row" "ad_Detector (in_Provider ?i) = Some (\<lambda>s. (([?c], None), s))"
    by (simp_all add: ex_instance_def in_ID_def ex_row_def new_provider_def provider_id_def)
  obtain u w db where run: "CheckCompetingWriters ?i (ex_world (bytes 300)) (ex_db [] (bytes 300)) = (([?c], u, None), w, db)"
    by (simp add: CheckCompetingWriters_def i call_Detect_def Let_def)
  have "tbl_find provider_id 1 (d_Providers (ex_db [] (bytes 300))) = Some ex_row"
    by (simp add: ex_db_def tbl_find_def ex_row_def new_provider_def provider_id_def)
  with competing_writer_degrades [OF run] run show ?thesis by (auto simp: i)
qed

end
