(* ===== verification/Server.thy ===== *)
theory Server
  imports ServerInvariant CycleGuarantees
begin

text \<open>
  A running server as a transition system: its timers, the clicks of an administrator, the edits of
  the store, and everything else that changes the services meanwhile. The gate makes a cycle one
  step; a click that finds the gate held is a step that changes nothing. What holds of every run
  of the server follows from what holds of one cycle.
\<close>

section \<open>The steps\<close>

datatype activity = Refresh | Timer | Click bool | ClickRefresh | Edit | Elsewhere

inductive edit :: "'w Server \<Rightarrow> Database \<Rightarrow> Database \<Rightarrow> bool" for srv :: "'w Server" where
  "actor_SaveTier tier db = Inr db' \<Longrightarrow> edit srv db db'"
| "actor_SetOverride uid provider quota clear db = Inr db' \<Longrightarrow> edit srv db db'"
| "actor_Link now uid provider externalID unlink db = (err, db') \<Longrightarrow> edit srv db db'"
| "actor_MapGroup (srv_Tiers srv) groupUUID tier unmap db = Inr db' \<Longrightarrow> edit srv db db'"
| "actor_IssueKey (srv_Hash srv) v label now db = Inr (db', key) \<Longrightarrow> edit srv db db'"
| "actor_RevokeKey i now db = Inr db' \<Longrightarrow> edit srv db db'"
| "CheckAdminKey (srv_Hash srv) presented now db = (db', accepted) \<Longrightarrow> edit srv db db'"

inductive server_step ::
  "'w Server \<Rightarrow> Duration \<Rightarrow> activity \<Rightarrow> 'w World \<times> Database \<Rightarrow> 'w World \<times> Database \<Rightarrow> bool"
  for srv :: "'w Server" and interval :: Duration where
  refresh: "refreshOnce srv w db = (ok, w', db') \<Longrightarrow> server_step srv interval Refresh (w, db) (w', db')"
| timer: "reconcile_enabled srv interval \<Longrightarrow> runScheduledReconcile srv w db = (ok, w', db') \<Longrightarrow>
    server_step srv interval Timer (w, db) (w', db')"
| click: "actor_Reconcile srv held consent f w db = (r, w', db') \<Longrightarrow>
    server_step srv interval (Click consent) (w, db) (w', db')"
| click_refresh: "actor_Observe srv held w db = (r, w', db') \<Longrightarrow>
    server_step srv interval ClickRefresh (w, db) (w', db')"
| edit: "edit srv db db' \<Longrightarrow> server_step srv interval Edit (w, db) (w, db')"
| elsewhere: "server_step srv interval Elsewhere (w, db) (w\<lparr>wd_State := state\<rparr>, db)"

inductive_cases editE: "edit srv db db'"
inductive_cases server_stepE: "server_step srv interval a (w, db) (w', db')"

inductive server_run ::
  "'w Server \<Rightarrow> Duration \<Rightarrow> activity list \<Rightarrow> 'w World \<times> Database \<Rightarrow> 'w World \<times> Database \<Rightarrow> bool"
  for srv :: "'w Server" and interval :: Duration where
  stop: "server_run srv interval [] s s"
| more: "server_step srv interval a s s' \<Longrightarrow> server_run srv interval as s' s'' \<Longrightarrow>
    server_run srv interval (a # as) s s''"

section \<open>The store\<close>

lemma reached_sync [reached]:
  "call_SyncIdentity srv w db = (r, w', db') \<Longrightarrow> reachable db \<Longrightarrow> reachable db'"
  by (auto simp: call_SyncIdentity_def split: option.splits prod.splits sum.splits dest: reached_SyncIdentity)

lemma reached_srv_Observe [reached]:
  "srv_Observe srv w db = (r, w', db') \<Longrightarrow> reachable db \<Longrightarrow> reachable db'"
  unfolding srv_Observe_def by (rule reached_Observe)

lemma reached_refreshOnce:
  "refreshOnce srv w db = (ok, w', db') \<Longrightarrow> reachable db \<Longrightarrow> reachable db'"
  by (auto simp: refreshOnce_def split: prod.splits option.splits dest!: reached_sync reached_srv_Observe)

lemma reached_scheduled:
  "runScheduledReconcile srv w db = (ok, w', db') \<Longrightarrow> reachable db \<Longrightarrow> reachable db'"
  by (auto simp: runScheduledReconcile_def Let_def split: prod.splits option.splits sum.splits if_splits
      dest!: reached_sync reached_srv_Observe reached_EngineApply)

lemma reached_actor_Reconcile:
  "actor_Reconcile srv held consent f w db = (r, w', db') \<Longrightarrow> reachable db \<Longrightarrow> reachable db'"
  by (auto simp: actor_Reconcile_def Let_def split: prod.splits option.splits sum.splits if_splits
      dest!: reached_sync reached_srv_Observe reached_EngineApply)

lemma reached_actor_Observe:
  "actor_Observe srv held w db = (r, w', db') \<Longrightarrow> reachable db \<Longrightarrow> reachable db'"
  by (auto simp: actor_Observe_def split: prod.splits option.splits if_splits dest!: reached_sync reached_srv_Observe)

lemma lift_store_eq_Inr [simp]: "lift_store r = Inr a \<longleftrightarrow> r = Inr a"
  by (simp add: lift_store_def split: sum.split)

lemma reached_link_to:
  "actor_link_to now user row externalID db = (err, db') \<Longrightarrow> reachable db \<Longrightarrow> reachable db'"
  by (auto simp: actor_link_to_def split: sum.splits dest: reached_accounts(2,3))

lemma reached_edit: "edit srv db db' \<Longrightarrow> reachable db \<Longrightarrow> reachable db'"
proof (induction rule: edit.induct)
  case (1 tier db db')
  then show ?case by (auto simp: actor_SaveTier_def split: sum.splits dest: reached_policy(1))
next
  case (2 uid provider quota clear db db')
  then show ?case
    by (auto simp: actor_SetOverride_def bind_result_eq_Inr split: if_splits prod.splits
        dest: reached_policy(6,7))
next
  case (3 now uid provider externalID unlink db err db')
  then show ?case
    by (auto simp: actor_Link_def split: sum.splits prod.splits if_splits option.splits
        dest: reached_accounts(6) reached_link_to)
next
  case (4 groupUUID tier unmap db db')
  then show ?case
    by (auto simp: actor_MapGroup_def bind_result_eq_Inr split: if_splits prod.splits option.splits
        dest: reached_policy(4,5))
qed (auto simp: actor_IssueKey_def actor_RevokeKey_def dest: reached_records)

lemma reached_step: "server_step srv interval a (w, db) (w', db') \<Longrightarrow> reachable db \<Longrightarrow> reachable db'"
  by (erule server_stepE) (auto dest: reached_refreshOnce reached_scheduled reached_actor_Reconcile
      reached_actor_Observe reached_edit)

lemma reached_run: "server_run srv interval as (w, db) (w', db') \<Longrightarrow> reachable db \<Longrightarrow> reachable db'"
proof (induction as "(w, db)" "(w', db')" arbitrary: w db rule: server_run.induct)
  case (more a s' as)
  then show ?case by (cases s') (auto dest: reached_step)
qed simp

section \<open>What is written\<close>

text \<open>Every write follows a read of the account that showed that it is safe.\<close>

definition permitted :: "bool \<Rightarrow> Call list \<Rightarrow> bool" where
  "permitted consent T \<longleftrightarrow> (\<forall>xs p e q r ys. T = xs @ CallSet p e q r # ys \<longrightarrow>
     (\<exists>zs a. xs = zs @ [CallGet p e (Inr a), CallSleep False] \<and> safe_to_write consent q a))"

definition appends :: "(Call list \<Rightarrow> bool) \<Rightarrow> 'w World \<Rightarrow> 'w World \<Rightarrow> bool" where
  "appends P w w' \<longleftrightarrow> (\<exists>T. wd_Calls w' = wd_Calls w @ T \<and> P T)"

lemma permitted_append:
  assumes "permitted consent S" "permitted consent T"
  shows "permitted consent (S @ T)"
proof -
  have "\<exists>zs a. xs = zs @ [CallGet p e (Inr a), CallSleep False] \<and> safe_to_write consent q a"
    if "S @ T = xs @ CallSet p e q r # ys" for xs p e q r ys
  proof -
    from append_eq_append_conv2 [THEN iffD1, OF that] obtain us where
      "S @ us = xs \<and> T = us @ CallSet p e q r # ys \<or> S = xs @ us \<and> us @ T = CallSet p e q r # ys"
      by (auto simp: eq_commute)
    then show ?thesis
    proof
      assume "S @ us = xs \<and> T = us @ CallSet p e q r # ys"
      moreover from this assms(2) obtain zs a where
        "us = zs @ [CallGet p e (Inr a), CallSleep False]" "safe_to_write consent q a"
        unfolding permitted_def by blast
      ultimately show ?thesis by (metis append_assoc)
    next
      assume *: "S = xs @ us \<and> us @ T = CallSet p e q r # ys"
      show ?thesis
      proof (cases us)
        case Nil
        with * have "T = [] @ CallSet p e q r # ys" by simp
        with assms(2) have "\<exists>zs a. [] = zs @ [CallGet p e (Inr a), CallSleep False]"
          unfolding permitted_def by blast
        then show ?thesis by simp
      next
        case (Cons u us')
        with * have "S = xs @ CallSet p e q r # us'" by simp
        with assms(1) show ?thesis unfolding permitted_def by blast
      qed
    qed
  qed
  then show ?thesis by (simp add: permitted_def)
qed

lemma reads_only_permitted: "reads_only T \<Longrightarrow> permitted consent T"
  by (auto simp: reads_only_def permitted_def)


lemma EngineApply_permitted:
  assumes "EngineApply env instances plan opts w db = (s', err)"
  shows "appends (permitted (ao_ConsentShrink opts)) w (as_World s')"
proof -
  obtain T where T: "wd_Calls (as_World s') = wd_Calls w @ T"
    using EngineApply_calls [OF assms] by blast
  have "permitted (ao_ConsentShrink opts) T"
    unfolding permitted_def
  proof (intro allI impI)
    fix xs p e q r ys
    assume "T = xs @ CallSet p e q r # ys"
    with T have "wd_Calls (as_World s') = wd_Calls w @ xs @ CallSet p e q r # ys" by simp
    from EngineApply_write [OF assms this] agreed_safe
    show "\<exists>zs a. xs = zs @ [CallGet p e (Inr a), CallSleep False] \<and> safe_to_write (ao_ConsentShrink opts) q a"
      unfolding write_of_def by metis
  qed
  with T show ?thesis unfolding appends_def by blast
qed

lemma permitted_trans:
  "appends (permitted consent) w w' \<Longrightarrow> appends (permitted consent) w' w'' \<Longrightarrow> appends (permitted consent) w w''"
  by (auto simp: appends_def intro: permitted_append)

lemma sync_calls: "call_SyncIdentity srv w db = (r, w', db') \<Longrightarrow> wd_Calls w' = wd_Calls w"
  by (auto simp: call_SyncIdentity_def split: option.splits prod.splits sum.splits)

lemma observe_reads:
  assumes "call_SyncIdentity srv w db = (r, w1, db1)" "srv_Observe srv w1 db1 = (res, w', db')"
  shows "appends reads_only w w'"
  using Observe_calls [OF assms(2) [unfolded srv_Observe_def]] sync_calls [OF assms(1)]
  by (simp add: appends_def)

lemma reads_appends: "appends reads_only w w' \<Longrightarrow> appends (permitted consent) w w'"
  unfolding appends_def using reads_only_permitted by blast

lemma refreshOnce_reads: "refreshOnce srv w db = (ok, w', db') \<Longrightarrow> appends reads_only w w'"
  by (auto simp: refreshOnce_def split: prod.splits option.splits dest: observe_reads)

lemma actor_Observe_reads: "actor_Observe srv held w db = (r, w', db') \<Longrightarrow> appends reads_only w w'"
  by (auto simp: actor_Observe_def appends_def reads_only_def split: prod.splits option.splits if_splits
      dest: observe_reads [unfolded appends_def reads_only_def])

lemma scheduled_permitted:
  assumes "runScheduledReconcile srv w db = (ok, w', db')"
  shows "appends (permitted False) w w'"
proof -
  obtain r1 w1 db1 where sync: "call_SyncIdentity srv w db = (r1, w1, db1)" by (metis prod_cases3)
  obtain r2 w2 db2 where obs: "srv_Observe srv w1 db1 = (r2, w2, db2)" by (metis prod_cases3)
  note seen = reads_appends [OF observe_reads [OF sync obs]]
  from assms sync obs have "w' = w2 \<or>
      (\<exists>plan s err. EngineApply (srv_Env srv) (srv_Instances srv) plan (schedule_options (clock (srv_Env srv) w2)) w2 db2 = (s, err) \<and>
         w' = as_World s)"
    by (cases r2) (auto simp: runScheduledReconcile_def Let_def split: option.splits sum.splits prod.splits if_splits)
  then show ?thesis
    using seen permitted_trans [OF seen] EngineApply_permitted by (fastforce simp: schedule_options_def)
qed

lemma click_permitted:
  assumes "actor_Reconcile srv held consent f w db = (r, w', db')"
  shows "appends (permitted consent) w w'"
proof -
  obtain r1 w1 db1 where sync: "call_SyncIdentity srv w db = (r1, w1, db1)" by (metis prod_cases3)
  obtain r2 w2 db2 where obs: "srv_Observe srv w1 db1 = (r2, w2, db2)" by (metis prod_cases3)
  note seen = reads_appends [OF observe_reads [OF sync obs]]
  from assms sync obs have "w' = w \<or> w' = w2 \<or>
      (\<exists>plan s err. EngineApply (srv_Env srv) (srv_Instances srv) plan (ui_options consent (clock (srv_Env srv) w2)) w2 db2 = (s, err) \<and>
         w' = as_World s)"
    by (cases r2) (auto simp: actor_Reconcile_def Let_def split: option.splits sum.splits prod.splits if_splits)
  moreover have "appends (permitted consent) w w" by (auto simp: appends_def permitted_def)
  ultimately show ?thesis
    using seen permitted_trans [OF seen] EngineApply_permitted by (fastforce simp: ui_options_def)
qed

text \<open>A step that nobody consented to.\<close>

definition unattended :: "activity \<Rightarrow> bool" where
  "unattended a \<longleftrightarrow> a \<noteq> Click True"

lemma step_permitted:
  assumes "server_step srv interval a (w, db) (w', db')" "unattended a"
  shows "appends (permitted False) w w'"
proof -
  have "appends (permitted False) w w" "appends (permitted False) w (w\<lparr>wd_State := s\<rparr>)" for s
    by (auto simp: appends_def permitted_def)
  with assms show ?thesis
    by (elim server_stepE) (auto simp: unattended_def dest: reads_appends [OF refreshOnce_reads]
        reads_appends [OF actor_Observe_reads] scheduled_permitted click_permitted)
qed

lemma run_permitted:
  "server_run srv interval as (w, db) (w', db') \<Longrightarrow> list_all unattended as \<Longrightarrow> appends (permitted False) w w'"
proof (induction as "(w, db)" "(w', db')" arbitrary: w db rule: server_run.induct)
  case stop
  then show ?case by (auto simp: appends_def permitted_def)
next
  case (more a s' as)
  then show ?case by (cases s') (auto dest: step_permitted intro: permitted_trans)
qed



section \<open>Guarantees\<close>

text \<open>A server whose provider cannot be listed, with one account to bring from 300 to 400 bytes.\<close>

definition ex_server :: "Quota Server" where
  "ex_server = \<lparr>srv_Env = ex_env\<lparr>env_Notifier := Some (\<lambda>_ s. s)\<rparr>, srv_Order = ex_order, srv_Tiers = (\<lambda>_. []),
     srv_Instances = [ex_down], srv_Directory = None, srv_Hash = (\<lambda>s. s)\<rparr>"

abbreviation ex_start :: Database where
  "ex_start \<equiv> ex_db [ex_link] (bytes 300)"

definition ex_observed :: "(Report \<times> store_error option) \<times> Quota World \<times> Database" where
  "ex_observed = srv_Observe ex_server (ex_world (bytes 300)) ex_start"

lemma ex_observed:
  "snd (fst ex_observed) = None" "wd_State (fst (snd ex_observed)) = bytes 300"
  "wd_Calls (fst (snd ex_observed)) = [CallHealth 1, CallList 1]"
  "snd (snd ex_observed) = ex_start\<lparr>d_Providers := d_Providers (snd (snd ex_observed))\<rparr>"
  by code_simp+

definition ex_applied :: "Quota ApplyState \<times> engine_error option" where
  "ex_applied = EngineApply (srv_Env ex_server) [ex_down] (BuildPlan [ex_pa ex_down (bytes 300)]) (schedule_options 1000)
     (fst (snd ex_observed)) (snd (snd ex_observed))"

lemma ex_applied:
  "snd ex_applied = None"
  "wd_Calls (as_World (fst ex_applied)) = [CallHealth 1, CallList 1] @
     [CallGet 1 ''ann'' (Inr (ex_remote (bytes 300))), CallSleep False, CallSet 1 ''ann'' (bytes 400) None,
      CallGet 1 ''ann'' (Inr (ex_remote (bytes 400)))]"
  by code_simp+

lemma ex_timer:
  "server_run ex_server 60 [Timer] (ex_world (bytes 300), ex_start) (as_World (fst ex_applied), as_DB (fst ex_applied))"
proof -
  have srv: "srv_Directory ex_server = None" "srv_Instances ex_server = [ex_down]"
    "clock (srv_Env ex_server) w = 1000" "env_Notifier (srv_Env ex_server) \<noteq> None" for w
    by (simp_all add: ex_server_def ex_env_def clock_def)
  obtain report w1 db1 where obs: "ex_observed = ((report, None), w1, db1)"
    using ex_observed(1) by (metis prod.collapse)
  have "\<not> Degraded (in_Row ex_down)"
    by (simp add: ex_down_def ex_instance_def ex_row_def new_provider_def Degraded_def)
  note at = ex_EnginePlan_at [OF ex_valid(2) ex_down_fields(1,2) this]
  have every: "every_account = ex_all" by (simp add: every_account_def ex_all_def)
  have plan: "\<exists>d. EnginePlan [ex_down] every_account db1 = Inr d \<and> px_Plan d = BuildPlan [ex_pa ex_down (bytes 300)]"
    using ex_observed(4) at unfolding obs every by (simp, metis EnginePlan_providers PlanResult.select_convs(1))
  have full: "\<not> Plan_Empty (BuildPlan [ex_pa ex_down (bytes 300)])" by code_simp
  obtain s where app: "EngineApply (srv_Env ex_server) [ex_down] (BuildPlan [ex_pa ex_down (bytes 300)])
      (schedule_options 1000) w1 db1 = (s, None)" "fst ex_applied = s"
    using ex_applied(1) unfolding ex_applied_def obs by (metis fst_conv prod.collapse snd_conv)
  have "srv_Observe ex_server (ex_world (bytes 300)) ex_start = ((report, None), w1, db1)"
    using obs by (simp add: ex_observed_def)
  then have "\<exists>ok. runScheduledReconcile ex_server (ex_world (bytes 300)) ex_start = (ok, as_World s, as_DB s)"
    using plan full app by (auto simp: runScheduledReconcile_def call_SyncIdentity_def srv Let_def)
  moreover have "reconcile_enabled ex_server 60" using srv(4) by (simp add: reconcile_enabled_def)
  ultimately show ?thesis using app(2) by (blast intro: server_run.intros timer)
qed

section \<open>Guarantees\<close>

text \<open>C22 The store of a running server is always sound. Whatever the services answer, whatever order the timers,
  the clicks and the edits come in, a server started on a reachable store stays on a store that satisfies its
  keys, its references and the readability of its quotas.\<close>

theorem server_keeps_the_store_sound:
  assumes "server_run srv interval as (w, db) (w', db')" "reachable db"
  shows "store_ok db'"
  using reachable_ok [OF reached_run [OF assms]] .

theorem server_keeps_the_store_sound_witness:
  "store_ok (snd (snd (refreshOnce ex_server (ex_world (bytes 300)) empty_db)))"
proof -
  obtain ok w db where once: "refreshOnce ex_server (ex_world (bytes 300)) empty_db = (ok, w, db)"
    by (metis prod_cases3)
  have "server_run ex_server 0 [Refresh] (ex_world (bytes 300), empty_db) (w, db)"
    by (rule server_run.more [OF server_step.refresh [OF once] server_run.stop])
  from server_keeps_the_store_sound [OF this reachable.start] once show ?thesis by simp
qed

text \<open>C21 Nothing unattended crosses the guardrail. In any run of a server in which nobody clicked with consent,
  every write of any timer or click comes right after the account was read again and found writable, known and
  different, and sets a value above what the account was then storing, unless the account was never used.\<close>

theorem unattended_writes_are_guarded:
  assumes "server_run srv interval as (w, db) (w', db')" "list_all unattended as"
    and "wd_Calls w' = wd_Calls w @ xs @ CallSet p e q r # ys"
  shows "\<exists>zs a. xs = zs @ [CallGet p e (Inr a), CallSleep False] \<and> safe_to_write False q a"
  using run_permitted [OF assms(1,2)] assms(3) by (auto simp: appends_def permitted_def)

theorem unattended_writes_are_guarded_witness:
  "\<exists>a. ex_remote (bytes 300) = a \<and> safe_to_write False (bytes 400) a"
proof -
  have calls: "wd_Calls (as_World (fst ex_applied)) = wd_Calls (ex_world (bytes 300)) @
      [CallHealth 1, CallList 1, CallGet 1 ''ann'' (Inr (ex_remote (bytes 300))), CallSleep False] @
      CallSet 1 ''ann'' (bytes 400) None # [CallGet 1 ''ann'' (Inr (ex_remote (bytes 400)))]"
    using ex_applied(2) by (simp add: ex_world_def)
  have "list_all unattended [Timer]" by (simp add: unattended_def)
  from unattended_writes_are_guarded [OF ex_timer this calls] show ?thesis by auto
qed



section \<open>The timers\<close>

definition backoff_after :: "Duration \<Rightarrow> Duration \<Rightarrow> bool list \<Rightarrow> Duration" where
  "backoff_after interval backoff oks = foldl (\<lambda>b ok. snd (next_delay interval ok b)) backoff oks"

text \<open>How many cycles in a row failed at the end of a history.\<close>

definition failures :: "bool list \<Rightarrow> nat" where
  "failures oks = length (takeWhile Not (rev oks))"

lemma loop_delays_snoc:
  "loop_delays interval backoff (oks @ [ok]) =
     loop_delays interval backoff oks @ [fst (next_delay interval ok (backoff_after interval backoff oks))]"
  by (induction oks arbitrary: backoff) (simp_all add: backoff_after_def split: prod.split)

lemma loop_delays_length [simp]: "length (loop_delays interval backoff oks) = length oks"
  by (induction oks arbitrary: backoff) (simp_all split: prod.split)

lemma backoff_after_failures:
  "backoff_after interval startupBackoffMin oks = min (2 ^ Suc (failures oks) * second) startupBackoffMax"
proof (induction oks rule: rev_induct)
  case Nil
  then show ?case by (simp add: backoff_after_def failures_def startupBackoffMin_def startupBackoffMax_def second_def)
next
  case (snoc ok oks)
  have "backoff_after interval startupBackoffMin (oks @ [ok]) =
      snd (next_delay interval ok (backoff_after interval startupBackoffMin oks))"
    by (simp add: backoff_after_def)
  with snoc show ?case
    by (cases ok) (auto simp: next_delay_def failures_def startupBackoffMin_def startupBackoffMax_def second_def min_def)
qed

text \<open>A timer backs off. The delay after a clean cycle is the interval; after a cycle that was not clean it is
  two seconds, doubled for every cycle that failed right before it, and never more than a minute.\<close>

theorem timers_back_off:
  assumes "k < length oks"
  shows "loop_delays interval startupBackoffMin oks ! k =
    (if oks ! k then interval else min (2 ^ Suc (failures (take k oks)) * second) startupBackoffMax)"
proof -
  have "loop_delays interval startupBackoffMin oks ! k = fst (next_delay interval (oks ! k)
      (backoff_after interval startupBackoffMin (take k oks)))" using assms
  proof (induction oks rule: rev_induct)
    case (snoc ok oks)
    then show ?case by (cases "k = length oks") (auto simp: loop_delays_snoc nth_append)
  qed simp
  then show ?thesis by (simp add: backoff_after_failures next_delay_def Let_def)
qed

theorem timers_back_off_witness:
  "loop_delays (900 * second) startupBackoffMin [True, False, False, False] ! 3 = 8 * second"
  using timers_back_off [of 3 "[True, False, False, False]" "900 * second"]
  by (simp add: failures_def startupBackoffMax_def second_def)

section \<open>Edits\<close>

text \<open>C24 At start-up the environment decides: once it has run, the configured key is accepted, no other key
  that came from the environment is active, and a key issued in the interface is as it was, unless it is the
  configured one.\<close>

theorem startup_key_is_the_environments:
  assumes "bootstrapAdminKey hash key now db = Inr db'"
  shows "(key \<noteq> [] \<longrightarrow> snd (CheckAdminKey hash key t db')) \<and>
     (\<forall>r \<in> set (d_Keys db'). kr_Source r = AdminKeyFromEnv \<and> kr_RevokedAt r = None \<longrightarrow> key \<noteq> [] \<and> kr_Hash r = hash key) \<and>
     (\<forall>r \<in> set (d_Keys db). kr_Source r \<noteq> AdminKeyFromEnv \<and> (key = [] \<or> kr_Hash r \<noteq> hash key) \<longrightarrow> r \<in> set (d_Keys db'))"
proof -
  let ?stale = "env_stale hash key" and ?revoke = "kr_RevokedAt_update (\<lambda>_. Some now)"
  from assms obtain db1 where db1: "(if key = [] then Inr db else EnsureAdminKey hash key ''NUNO_ADMIN_KEY'' now db) = Inr db1"
    and db': "d_Keys db' = tbl_update ?stale ?revoke (d_Keys db1)"
    by (auto simp: bootstrapAdminKey_def bind_result_eq_Inr RevokeEnvKeysExcept_def)
  have kept: "r \<in> set (d_Keys db')" if "r \<in> set (d_Keys db1)" "\<not> ?stale r" for r
    using that unfolding db' by (force simp: tbl_update_def)
  have active: "\<exists>r \<in> set (d_Keys db1). kr_Hash r = hash key \<and> kr_RevokedAt r = None" if "key \<noteq> []"
  proof (cases "tbl_find kr_Hash (hash key) (d_Keys db)")
    case None
    with db1 that show ?thesis by (auto simp: EnsureAdminKey_def)
  next
    case (Some r)
    with db1 that have keys: "d_Keys db1 = tbl_update (\<lambda>r. kr_Hash r = hash key)
        (\<lambda>r. r\<lparr>kr_Label := ''NUNO_ADMIN_KEY'', kr_RevokedAt := None\<rparr>) (d_Keys db)"
      by (auto simp: EnsureAdminKey_def)
    from tbl_find_Some [OF Some] show ?thesis unfolding keys
      by (intro bexI [where x = "r\<lparr>kr_Label := ''NUNO_ADMIN_KEY'', kr_RevokedAt := None\<rparr>"]) (auto simp: tbl_update_def)
  qed
  have "snd (CheckAdminKey hash key t db')" if "key \<noteq> []"
  proof -
    from active [OF that] obtain r where r: "r \<in> set (d_Keys db1)" "kr_Hash r = hash key" "kr_RevokedAt r = None" by blast
    then have "r \<in> set (d_Keys db')" using kept that by (simp add: env_stale_def)
    with r that show ?thesis by (auto simp: CheckAdminKey_def find_None_iff split: option.split)
  qed
  moreover have "key \<noteq> [] \<and> kr_Hash r = hash key"
    if "r \<in> set (d_Keys db')" "kr_Source r = AdminKeyFromEnv" "kr_RevokedAt r = None" for r
    using that unfolding db' by (auto simp: tbl_update_def env_stale_def split: if_splits)
  moreover have "r \<in> set (d_Keys db')" if "r \<in> set (d_Keys db)" "kr_Source r \<noteq> AdminKeyFromEnv" "key = [] \<or> kr_Hash r \<noteq> hash key" for r
  proof (rule kept)
    show "r \<in> set (d_Keys db1)"
      using db1 that by (cases "key = []") (force simp: EnsureAdminKey_def tbl_update_def split: option.splits)+
    show "\<not> ?stale r" using that(2) by (simp add: env_stale_def)
  qed
  ultimately show ?thesis by blast
qed

definition ex_keyed :: Database where
  "ex_keyed = (case EnsureAdminKey (\<lambda>s. s) ''old'' ''NUNO_ADMIN_KEY'' 3 empty_db of Inr db \<Rightarrow> db | Inl _ \<Rightarrow> empty_db)"

theorem startup_key_is_the_environments_witness:
  "\<exists>db. bootstrapAdminKey (\<lambda>s. s) ''new'' 9 ex_keyed = Inr db \<and> snd (CheckAdminKey (\<lambda>s. s) ''new'' 10 db) \<and>
     \<not> snd (CheckAdminKey (\<lambda>s. s) ''old'' 10 db)"
proof -
  obtain db where db: "bootstrapAdminKey (\<lambda>s. s) ''new'' 9 ex_keyed = Inr db"
    by (cases "bootstrapAdminKey (\<lambda>s. s) ''new'' 9 ex_keyed")
      (auto simp: bootstrapAdminKey_def EnsureAdminKey_def split: option.splits)
  have "\<not> snd (CheckAdminKey (\<lambda>s. s) ''old'' 10 (case bootstrapAdminKey (\<lambda>s. s) ''new'' 9 ex_keyed of Inr db \<Rightarrow> db | Inl _ \<Rightarrow> empty_db))"
    by code_simp
  with startup_key_is_the_environments [OF db] db show ?thesis by auto
qed

lemma link_to_ok:
  assumes "store_ok db" "actor_link_to now user row e db = (err, db')"
  defines "l \<equiv> manual_link user row e\<lparr>lk_LinkedAt := now\<rparr>"
  shows "err = None \<Longrightarrow> l \<in> set (d_Links db') \<and> link_target l = (provider_id row, e) \<and> lk_UserID l = u_ID user \<and>
      set (d_Links db') = insert l {k \<in> set (d_Links db). link_key k \<noteq> link_key l} \<and>
      (\<forall>k \<in> set (d_Links db'). link_target k = link_target l \<longrightarrow> k = l)"
    and "err \<noteq> None \<Longrightarrow> db' = db"
proof -
  have up: "UpsertLink now (manual_link user row e) db =
      (if \<exists>k \<in> set (d_Links db). link_target k = link_target l \<and> link_key k \<noteq> link_key l then Inl UniqueViolation
       else if \<not> has_user db (u_ID user) \<or> \<not> has_provider db (provider_id row) then Inl ForeignKeyViolation
       else Inr (db\<lparr>d_Links := tbl_put link_key l (d_Links db)\<rparr>))"
    by (simp add: UpsertLink_def l_def manual_link_def Let_def)
  have put: "set (tbl_put link_key l (d_Links db)) = insert l {k \<in> set (d_Links db). link_key k \<noteq> link_key l}"
    using store_okD(2) [OF assms(1)] by (intro tbl_put_set) (simp add: links_ok_def)
  have target: "link_target l = (provider_id row, e)" "lk_UserID l = u_ID user"
    by (simp_all add: l_def manual_link_def link_target_def)
  show "l \<in> set (d_Links db') \<and> link_target l = (provider_id row, e) \<and> lk_UserID l = u_ID user \<and>
      set (d_Links db') = insert l {k \<in> set (d_Links db). link_key k \<noteq> link_key l} \<and>
      (\<forall>k \<in> set (d_Links db'). link_target k = link_target l \<longrightarrow> k = l)" if "err = None"
    using assms(2) that put target
    by (auto simp: actor_link_to_def up SetAccountOwner_def split: if_splits)
  show "db' = db" if "err \<noteq> None"
    using assms(2) that by (auto simp: actor_link_to_def up SetAccountOwner_def has_user_def split: if_splits)
qed

text \<open>A manual link is made only to an observed, writable account nobody else holds. A link an administrator
  makes is recorded as asked and replaces at most the link the person had on that provider, which is then the only
  link to the account; when it is refused the store is as it was.\<close>

theorem manual_link_is_exclusive:
  assumes "store_ok db" "actor_Link now uid provider e False db = (err, db')"
  shows "(err \<noteq> None \<longrightarrow> db' = db) \<and>
    (err = None \<longrightarrow> (\<exists>user row stored a l. find_user uid db = Some user \<and> GetProviderByName provider db = Inr row \<and>
       ListExternalAccounts (provider_id row) db = Inr stored \<and> a \<in> set stored \<and> xa_ExternalID a = e \<and>
       ExternalAccount_Writable a \<and> link_target l = (provider_id row, e) \<and> lk_UserID l = u_ID user \<and>
       set (d_Links db') = insert l {k \<in> set (d_Links db). link_key k \<noteq> link_key l} \<and>
       (\<forall>k \<in> set (d_Links db'). link_target k = link_target l \<longrightarrow> k = l)))"
proof (cases "actor_resolve uid provider db")
  case (Inl x)
  with assms(2) show ?thesis by (auto simp: actor_Link_def)
next
  case (Inr ur)
  obtain user row where ur: "ur = (user, row)" by force
  with Inr have who: "find_user uid db = Some user" "GetProviderByName provider db = Inr row"
    by (auto simp: actor_resolve_def split: option.splits sum.splits)
  from assms(2) Inr ur have cases: "db' = db \<and> err \<noteq> None \<or> (\<exists>stored a. ListExternalAccounts (provider_id row) db = Inr stored \<and>
      find (\<lambda>a. xa_ExternalID a = e) stored = Some a \<and> ExternalAccount_Writable a \<and>
      actor_link_to now user row e db = (err, db'))"
    by (auto simp: actor_Link_def split: sum.splits option.splits if_splits)
  show ?thesis
  proof (cases "db' = db \<and> err \<noteq> None")
    case False
    with cases obtain stored a where found: "ListExternalAccounts (provider_id row) db = Inr stored"
      "find (\<lambda>a. xa_ExternalID a = e) stored = Some a" "ExternalAccount_Writable a"
      and to: "actor_link_to now user row e db = (err, db')" by blast
    show ?thesis
    proof (cases err)
      case None
      from find_SomeD [OF found(2)] have a: "a \<in> set stored" "xa_ExternalID a = e" by simp_all
      note l = link_to_ok(1) [OF assms(1) to None, THEN conjunct2]
      have "err \<noteq> None \<longrightarrow> db' = db" using None by simp
      then show ?thesis using who found(1,3) a l
        by - (rule conjI, assumption, rule impI, elim conjE, intro exI conjI; assumption)
    next
      case (Some x)
      with link_to_ok(2) [OF assms(1) to] show ?thesis by simp
    qed
  qed auto
qed

theorem manual_link_is_exclusive_witness:
  "\<exists>db l. actor_Link 9 ''ann'' ''cloud'' ''ann'' False ex_start = (None, db) \<and> l \<in> set (d_Links db) \<and> link_target l = (1, ''ann'')"
proof -
  have who: "find_user ''ann'' ex_start = Some (ex_user [''g1''])" "GetProviderByName ''cloud'' ex_start = Inr ex_row"
    "provider_id ex_row = 1"
    by code_simp+
  have L: "ListExternalAccounts 1 ex_start = Inr [ex_seen (bytes 300)]"
    using ex_accounts [OF ex_valid(2), of "[ex_link]"] by (simp add: ex_link_def ex_seen_def)
  have a: "xa_ExternalID (ex_seen (bytes 300)) = ''ann''" "ExternalAccount_Writable (ex_seen (bytes 300))" by code_simp+
  have "fst (actor_link_to 9 (ex_user [''g1'']) ex_row ''ann'' ex_start) = None" by code_simp
  then obtain db where db: "actor_Link 9 ''ann'' ''cloud'' ''ann'' False ex_start = (None, db)"
    using who L a by (cases "actor_link_to 9 (ex_user [''g1'']) ex_row ''ann'' ex_start") (simp add: actor_Link_def actor_resolve_def)
  from manual_link_is_exclusive [OF ex_db_ok db] who show ?thesis using db by auto
qed

end
