(* ===== verification/ConsoleGuarantees.thy ===== *)
theory ConsoleGuarantees
  imports PolicyConsole Server
begin

text \<open>
  What the commands guarantee: the list of tiers does not depend on the order of a map, an exit
  code of zero means a clean run, a run from the command line writes only what it was allowed to,
  and every command keeps the store sound.
\<close>

section \<open>The exchange sort\<close>

lemma exchange_simps [simp]: "length (exchange ts i j) = length ts"
  by (simp add: exchange_def)

lemma exchange_mset: "i < length ts \<Longrightarrow> j < length ts \<Longrightarrow> mset (exchange ts i j) = mset ts"
  using mset_swap [of j ts i] by (simp add: exchange_def list_update_swap)

definition least_upto :: "Tier list \<Rightarrow> nat \<Rightarrow> nat \<Rightarrow> bool" where
  "least_upto ts i k \<longleftrightarrow> (\<forall>j. i < j \<and> j < k \<longrightarrow> t_Name (ts ! i) \<le> t_Name (ts ! j))"

lemma exchange_least:
  assumes "i < k" "k < length ts" "least_upto ts i k"
  shows "least_upto (exchange ts i k) i (Suc k)"
  unfolding least_upto_def
proof (intro allI impI)
  fix j
  assume j: "i < j \<and> j < Suc k"
  show "t_Name (exchange ts i k ! i) \<le> t_Name (exchange ts i k ! j)"
  proof (cases "j = k")
    case True
    then show ?thesis using assms(1,2) by (auto simp: exchange_def nth_list_update)
  next
    case False
    with j assms(3) have "t_Name (ts ! i) \<le> t_Name (ts ! j)" by (simp add: least_upto_def)
    then show ?thesis using assms(1,2) j False by (auto simp: exchange_def nth_list_update)
  qed
qed

lemma inner_loop:
  assumes "i < length ts" "k \<le> length ts"
  defines "r \<equiv> foldl (\<lambda>ts j. exchange ts i j) ts [Suc i..<k]"
  shows "length r = length ts \<and> mset r = mset ts \<and> (\<forall>m < i. r ! m = ts ! m) \<and> least_upto r i k"
  using assms(2) unfolding r_def
proof (induction k)
  case 0
  then show ?case by (simp add: least_upto_def)
next
  case (Suc k)
  let ?r = "foldl (\<lambda>ts j. exchange ts i j) ts [Suc i..<k]"
  from Suc have IH: "length ?r = length ts" "mset ?r = mset ts" "\<forall>m < i. ?r ! m = ts ! m" "least_upto ?r i k" by simp_all
  show ?case
  proof (cases "i < k")
    case True
    then have step: "foldl (\<lambda>ts j. exchange ts i j) ts [Suc i..<Suc k] = exchange ?r i k" by simp
    have "exchange ?r i k ! m = ts ! m" if "m < i" for m
      using that IH(3) True by (auto simp: exchange_def)
    moreover have "mset (exchange ?r i k) = mset ts"
      using exchange_mset [of i ?r k] IH(1,2) assms(1) Suc.prems by simp
    ultimately show ?thesis
      using exchange_least [OF True _ IH(4)] IH(1) Suc.prems unfolding step by simp
  next
    case False
    then show ?thesis using IH by (simp add: least_upto_def)
  qed
qed

lemma select_least_props:
  assumes "i < length ts"
  shows "length (select_least ts i) = length ts" "mset (select_least ts i) = mset ts"
    "m < i \<Longrightarrow> select_least ts i ! m = ts ! m" "least_upto (select_least ts i) i (length ts)"
  using inner_loop [OF assms order.refl] by (simp_all add: select_least_def)

lemma nth_set_mset:
  assumes "mset a = mset b" "length a = length b" "\<forall>m < i. a ! m = b ! m" "i \<le> j" "j < length a"
  shows "\<exists>k \<ge> i. k < length b \<and> a ! j = b ! k"
proof -
  have "take i a = take i b" using assms(2,3) by (intro nth_equalityI) auto
  with assms(1) have "mset (drop i a) = mset (drop i b)"
    by (metis add_left_cancel append_take_drop_id mset_append)
  moreover have "drop i a ! (j - i) = a ! j" "j - i < length (drop i a)" using assms(4,5) by simp_all
  then have "a ! j \<in> set (drop i a)" by (metis nth_mem)
  ultimately have "a ! j \<in> set (drop i b)" by (metis mset_eq_setD)
  then obtain k where "k < length b - i" "drop i b ! k = a ! j" by (auto simp: in_set_conv_nth)
  then show ?thesis by (intro exI [of _ "i + k"]) auto
qed

definition sorted_upto :: "Tier list \<Rightarrow> nat \<Rightarrow> bool" where
  "sorted_upto ts i \<longleftrightarrow> (\<forall>m < i. least_upto ts m (length ts))"

lemma outer_loop:
  assumes "i \<le> length ts"
  defines "r \<equiv> foldl select_least ts [0..<i]"
  shows "length r = length ts \<and> mset r = mset ts \<and> sorted_upto r i"
  using assms(1) unfolding r_def
proof (induction i)
  case 0
  then show ?case by (simp add: sorted_upto_def)
next
  case (Suc i)
  let ?r = "foldl select_least ts [0..<i]"
  from Suc have IH: "length ?r = length ts" "mset ?r = mset ts" "sorted_upto ?r i" by simp_all
  with Suc.prems have i: "i < length ?r" by simp
  note sel = select_least_props [OF i]
  have "least_upto (select_least ?r i) m (length ts)" if "m < i" for m
    unfolding least_upto_def
  proof (intro allI impI)
    fix j
    assume j: "m < j \<and> j < length ts"
    have "\<exists>k. m < k \<and> k < length ?r \<and> select_least ?r i ! j = ?r ! k"
    proof (cases "j < i")
      case True
      then show ?thesis using sel(3) [of j] j IH(1) by auto
    next
      case False
      then have "\<exists>k \<ge> i. k < length ?r \<and> select_least ?r i ! j = ?r ! k"
        using sel(1,2,3) j IH(1) by (intro nth_set_mset) auto
      then show ?thesis using that by (meson order.strict_trans1 order_less_le_trans)
    qed
    then show "t_Name (select_least ?r i ! m) \<le> t_Name (select_least ?r i ! j)"
      using IH(3) that sel(3) [OF that] by (auto simp: sorted_upto_def least_upto_def)
  qed
  moreover have "least_upto (select_least ?r i) i (length ts)" using sel(4) IH(1) by simp
  ultimately have "sorted_upto (select_least ?r i) (Suc i)"
    using sel(1) IH(1) by (auto simp: sorted_upto_def less_Suc_eq)
  then show ?case using sel(1,2) IH(1,2) by simp
qed

text \<open>Tiers are listed in one order. Whatever order the map of tiers is iterated in, the exchange sort of the
  listing is the stable sort by name of what it was given; no tier is lost or listed twice.\<close>

theorem listing_is_sorted:
  shows "sorted (map t_Name (sortedTiers ord policy)) \<and> mset (sortedTiers ord policy) = mset (ord (p_Tiers policy)) \<and>
    (distinct (map t_Name (ord (p_Tiers policy))) \<longrightarrow> sortedTiers ord policy = sort_key t_Name (ord (p_Tiers policy)))"
proof -
  let ?ts = "ord (p_Tiers policy)" and ?r = "sortedTiers ord policy"
  have r: "length ?r = length ?ts" "mset ?r = mset ?ts" "sorted_upto ?r (length ?ts)"
    using outer_loop [of "length ?ts" ?ts] by (simp_all add: sortedTiers_def Let_def)
  then have sorted: "sorted (map t_Name ?r)"
    by (auto simp: sorted_iff_nth_mono_less sorted_upto_def least_upto_def)
  moreover have "?r = sort_key t_Name ?ts" if "distinct (map t_Name ?ts)"
  proof (rule sort_key_inj_key_eq [symmetric])
    show "mset ?ts = mset ?r" using r(2) by simp
    show "inj_on t_Name (set ?ts)" using that by (simp add: distinct_map)
    show "sorted (map t_Name ?r)" by (rule sorted)
  qed
  ultimately show ?thesis using r(2) by blast
qed

theorem listing_is_sorted_witness:
  "map t_Name (sortedTiers (\<lambda>_. [new_tier ''c'', new_tier ''a'', new_tier ''b'']) ex_policy) =
     map t_Name (sort_key t_Name [new_tier ''c'', new_tier ''a'', new_tier ''b''])"
  using listing_is_sorted [of "\<lambda>_. [new_tier ''c'', new_tier ''a'', new_tier ''b'']" ex_policy]
  by (simp add: new_tier_def)

section \<open>A run from the command line\<close>

lemma run_cycle_cases:
  assumes "run_cycle srv opts w db = ((code, out), w', db')"
  obtains (observed) w1 db1 r1 r2 where "call_SyncIdentity srv w db = (r1, w1, db1)" "srv_Observe srv w1 db1 = (r2, w', db')"
      "code = ExitError \<or> snd r2 = None \<and>
        (\<exists>result. EnginePlan (srv_Instances srv) (ro_Filter opts) db' = Inr result \<and> Plan_Empty (px_Plan result)) \<and>
        code = (if Report_OK (fst r2) then ExitClean else ExitIncomplete)"
  | (applied) w1 db1 r1 r2 w2 db2 result s err where "call_SyncIdentity srv w db = (r1, w1, db1)" "srv_Observe srv w1 db1 = (r2, w2, db2)"
      "EnginePlan (srv_Instances srv) (ro_Filter opts) db2 = Inr result" "snd r2 = None"
      "EngineApply (srv_Env srv) (srv_Instances srv) (px_Plan result) (cli_options opts (clock (srv_Env srv) w2)) w2 db2 = (s, err)"
      "w' = as_World s" "db' = as_DB s"
      "code = (if err = None then run_code opts (Report_OK (fst r2)) (as_Report s) else ExitError)"
proof -
  obtain r1 w1 db1 where sync: "call_SyncIdentity srv w db = (r1, w1, db1)" by (metis prod_cases3)
  obtain rep oerr w2 db2 where obs: "srv_Observe srv w1 db1 = ((rep, oerr), w2, db2)" by (metis prod.exhaust)
  show ?thesis
  proof (cases oerr)
    case (Some e)
    with assms sync obs show ?thesis by (intro observed [OF sync]) (auto simp: run_cycle_def)
  next
    case None
    note none = None
    show ?thesis
    proof (cases "EnginePlan (srv_Instances srv) (ro_Filter opts) db2")
      case (Inl e)
      with assms sync obs None show ?thesis by (intro observed [OF sync]) (auto simp: run_cycle_def)
    next
      case (Inr result)
      show ?thesis
      proof (cases "Plan_Empty (px_Plan result)")
        case True
        with assms sync obs None Inr show ?thesis
          by (intro observed [OF sync]) (auto simp: run_cycle_def split: if_splits)
      next
        case False
        obtain s err where app: "EngineApply (srv_Env srv) (srv_Instances srv) (px_Plan result)
            (cli_options opts (clock (srv_Env srv) w2)) w2 db2 = (s, err)" by force
        from assms sync obs None Inr False app show ?thesis
          by (intro applied [OF sync obs Inr _ app]) (auto simp: run_cycle_def split: option.splits)
      qed
    qed
  qed
qed

definition wrote_nothing :: "Call list \<Rightarrow> bool" where
  "wrote_nothing T \<longleftrightarrow> writes T = 0 \<and> (\<forall>p e q r. CallSet p e q r \<notin> set T)"

lemma EngineApply_dry:
  assumes "EngineApply env instances plan opts w db = (s', err)" "ao_DryRun opts"
  shows "\<exists>T. wd_Calls (as_World s') = wd_Calls w @ T \<and> (\<forall>p e q r. CallSet p e q r \<notin> set T)"
proof -
  obtain T where T: "wd_Calls (as_World s') = wd_Calls w @ T" using EngineApply_calls [OF assms(1)] by blast
  have "CallSet p e q r \<notin> set T" for p e q r
  proof
    assume "CallSet p e q r \<in> set T"
    then obtain xs ys where "T = xs @ CallSet p e q r # ys" by (meson split_list)
    with T have "wd_Calls (as_World s') = wd_Calls w @ xs @ CallSet p e q r # ys" by simp
    from EngineApply_write [OF assms(1) this] assms(2) show False by (auto simp: write_of_def)
  qed
  with T show ?thesis by blast
qed

text \<open>A run from the command line does what its flags say. With \<open>--dry-run\<close> no write is sent at all; without
  \<open>--allow-shrink\<close> every write sets a value above what the account, read again right before, was storing.\<close>

theorem command_line_runs_are_guarded:
  assumes "run_cycle srv opts w db = (answer, w', db')"
  shows "\<exists>T. wd_Calls w' = wd_Calls w @ T \<and> permitted (ro_Consent opts) T \<and>
    (ro_DryRun opts \<longrightarrow> (\<forall>p e q r. CallSet p e q r \<notin> set T))"
proof -
  obtain code out where answer: "answer = (code, out)" by force
  from assms [unfolded answer] show ?thesis
  proof (cases rule: run_cycle_cases)
    case (observed w1 db1 r1 r2)
    from observe_reads [OF observed(1,2)] obtain T where "wd_Calls w' = wd_Calls w @ T" "reads_only T"
      by (auto simp: appends_def)
    then show ?thesis using reads_only_permitted by (intro exI [of _ T]) (auto simp: reads_only_def)
  next
    case (applied w1 db1 r1 r2 w2 db2 result s err)
    from observe_reads [OF applied(1,2)] obtain S where S: "wd_Calls w2 = wd_Calls w @ S" "reads_only S"
      by (auto simp: appends_def)
    from EngineApply_permitted [OF applied(5)] obtain T where
      T: "wd_Calls w' = wd_Calls w2 @ T" "permitted (ro_Consent opts) T"
      using applied(6) by (auto simp: appends_def cli_options_def)
    have "CallSet p e q r \<notin> set (S @ T)" if "ro_DryRun opts" for p e q r
      using EngineApply_dry [OF applied(5)] that T(1) S(2) applied(6) by (auto simp: cli_options_def reads_only_def)
    then show ?thesis
      using S T permitted_append [OF reads_only_permitted T(2)] by (intro exI [of _ "S @ T"]) auto
  qed
qed

theorem command_line_runs_are_guarded_witness:
  "\<exists>T. wd_Calls (fst (snd (run_cycle ex_server (no_options\<lparr>ro_DryRun := True\<rparr>) (ex_world (bytes 300)) ex_start))) = T \<and>
     (\<forall>p e q r. CallSet p e q r \<notin> set T)"
proof -
  obtain answer w db where "run_cycle ex_server (no_options\<lparr>ro_DryRun := True\<rparr>) (ex_world (bytes 300)) ex_start = (answer, w, db)"
    by (metis prod_cases3)
  from command_line_runs_are_guarded [OF this] this show ?thesis by (auto simp: ex_world_def)
qed



section \<open>The store\<close>

lemma reached_run_cycle: "run_cycle srv opts w db = (answer, w', db') \<Longrightarrow> reachable db \<Longrightarrow> reachable db'"
  by (cases answer) (auto elim!: run_cycle_cases dest!: reached_sync reached_srv_Observe reached_EngineApply)

lemma reached_Adopt_loop:
  "Adopt_loop B U f ls n skipped db = (r, db') \<Longrightarrow> reachable db \<Longrightarrow> reachable db'"
  by (induction ls arbitrary: n skipped db)
    (auto simp: Let_def split: option.splits sum.splits if_splits prod.splits dest: reached_policy(6))

lemma reached_Adopt: "Adopt instances f db = (r, db') \<Longrightarrow> reachable db \<Longrightarrow> reachable db'"
  unfolding Adopt_def by (rule reached_Adopt_loop)

lemma reached_SavePlan: "SavePlan now mode actor c result body db = (db', r) \<Longrightarrow> reachable db \<Longrightarrow> reachable db'"
  by (auto simp: SavePlan_def Let_def split: prod.splits sum.splits intro!: reach dest: reached_records)

text \<open>Every command that touches the store.\<close>

inductive command :: "'w Server \<Rightarrow> 'w World \<times> Database \<Rightarrow> nat \<Rightarrow> 'w World \<times> Database \<Rightarrow> bool" for srv :: "'w Server" where
  "observeOnce srv w db = ((code, out), w', db') \<Longrightarrow> command srv (w, db) code (w', db')"
| "linkAccount now args db = ((code, out), db') \<Longrightarrow> command srv (w, db) code (w, db')"
| "unlinkAccount args db = ((code, out), db') \<Longrightarrow> command srv (w, db) code (w, db')"
| "manageUsers uuid args db = ((code, out), db') \<Longrightarrow> command srv (w, db) code (w, db')"
| "manageTiers oor (srv_Tiers srv) groups args db = ((code, out), db') \<Longrightarrow> command srv (w, db) code (w, db')"
| "setOverride oor args db = ((code, out), db') \<Longrightarrow> command srv (w, db) code (w, db')"
| "showPlan srv now body args db = ((code, out), db') \<Longrightarrow> command srv (w, db) code (w, db')"
| "adoptQuotas srv args db = ((code, out), db') \<Longrightarrow> command srv (w, db) code (w, db')"
| "runReconcile srv args w db = ((code, out), w', db') \<Longrightarrow> command srv (w, db) code (w', db')"

lemma reached_manageUsers: "manageUsers uuid args db = (r, db') \<Longrightarrow> reachable db \<Longrightarrow> reachable db'"
  by (auto simp: manageUsers_def addUser_def split: list.splits if_splits option.splits sum.splits prod.splits
      dest: reached_identity(1) reached_identity(2) [OF surjective_pairing])

lemma reached_setTier: "setTier oor ord args db = (r, db') \<Longrightarrow> reachable db \<Longrightarrow> reachable db'"
  by (auto simp: setTier_def Let_def split: list.splits sum.splits option.splits prod.splits dest: reached_policy(1))

lemma reached_tier_commands:
  "mapGroup ord g t db = (r, db') \<Longrightarrow> reachable db \<Longrightarrow> reachable db'"
  "deleteTier n db = (r, db') \<Longrightarrow> reachable db \<Longrightarrow> reachable db'"
  "defaultTier ord n db = (r, db') \<Longrightarrow> reachable db \<Longrightarrow> reachable db'"
  "unmapGroup n db = (r, db') \<Longrightarrow> reachable db \<Longrightarrow> reachable db'"
  by (auto simp: mapGroup_def deleteTier_def defaultTier_def unmapGroup_def
      split: sum.splits prod.splits bool.splits dest: reached_policy)

lemma reached_manageTiers: "manageTiers oor ord groups args db = (r, db') \<Longrightarrow> reachable db \<Longrightarrow> reachable db'"
  by (auto simp: manageTiers_def split: list.splits if_splits dest: reached_setTier reached_tier_commands)

lemma reached_setOverride: "setOverride oor args db = (r, db') \<Longrightarrow> reachable db \<Longrightarrow> reachable db'"
  by (auto simp: setOverride_def split: list.splits option.splits if_splits sum.splits prod.splits bool.splits
      dest: reached_policy(6,7))

lemma reached_command: "command srv (w, db) code (w', db') \<Longrightarrow> reachable db \<Longrightarrow> reachable db'"
proof (induction "(w, db)" code "(w', db')" rule: command.induct)
  case (1 code out)
  then show ?case
    by (auto simp: observeOnce_def split: prod.splits option.splits dest!: reached_sync reached_srv_Observe)
next
  case (2 now args code out)
  then show ?case
    by (auto simp: linkAccount_def split: list.splits option.splits sum.splits if_splits prod.splits dest: reached_link_to)
next
  case (3 args code out)
  then show ?case
    by (auto simp: unlinkAccount_def split: list.splits option.splits prod.splits bool.splits dest: reached_accounts(6))
next
  case (7 now body args code out)
  then show ?case
    by (auto simp: showPlan_def split: option.splits sum.splits prod.splits dest: reached_SavePlan)
next
  case (8 args code out)
  then show ?case
    by (auto simp: adoptQuotas_def split: option.splits sum.splits prod.splits dest: reached_Adopt)
next
  case (9 args code out)
  then show ?case
    by (auto simp: runReconcile_def split: option.splits dest: reached_run_cycle)
qed (auto dest: reached_manageUsers reached_manageTiers reached_setOverride)

text \<open>No command breaks the store. Whatever its arguments and whatever the services answer, a command run on a
  reachable store leaves a store that satisfies its keys, its references and the readability of its quotas.\<close>

theorem commands_keep_the_store_sound:
  assumes "command srv (w, db) code (w', db')" "reachable db"
  shows "store_ok db'"
  using reachable_ok [OF reached_command [OF assms]] .

theorem commands_keep_the_store_sound_witness:
  "store_ok (snd (manageUsers ''1'' [''add'', ''ann''] empty_db))"
proof -
  obtain code out db where "manageUsers ''1'' [''add'', ''ann''] empty_db = ((code, out), db)" by (metis prod.exhaust)
  from commands_keep_the_store_sound [OF command.intros(4) [OF this] reachable.start] this show ?thesis by simp
qed

end
