(* ===== verification/Net.thy ===== *)
theory Net
  imports Format Strconv
begin

text \<open>
  What \<open>net\<close> does with addresses, as far as the configuration and the trusted proxy use it:
  \<open>SplitHostPort\<close>, \<open>ParseIP\<close>, \<open>ParseCIDR\<close> and \<open>Contains\<close>. An address is its sixteen bytes; an
  IPv4 address is the mapped one.
\<close>

section \<open>Host and port\<close>

text \<open>Cutting at the last occurrence of a character, and \<open>strings.Split\<close> at a character.\<close>

definition cut_last :: "char \<Rightarrow> string \<Rightarrow> (string \<times> string) option" where
  "cut_last c s =
     (if c \<notin> set s then None
      else let after = rev (takeWhile (\<lambda>x. x \<noteq> c) (rev s))
           in Some (take (length s - length after - 1) s, after))"

fun Split :: "char \<Rightarrow> string \<Rightarrow> string list" where
  "Split sep [] = [[]]"
| "Split sep (c # cs) =
     (if c = sep then [] # Split sep cs
      else case Split sep cs of [] \<Rightarrow> [[c]] | p # ps \<Rightarrow> (c # p) # ps)"

definition SplitHostPort :: "string \<Rightarrow> (string \<times> string) option" where
  "SplitHostPort s =
     (case cut_last CHR '':'' s of
        None \<Rightarrow> None
      | Some (host, port) \<Rightarrow>
          (case s of
             CHR ''['' # rest \<Rightarrow>
               (case Cut rest '']'' of
                  None \<Rightarrow> None
                | Some (host, tail) \<Rightarrow>
                    if tail \<noteq> CHR '':'' # port \<or> CHR ''['' \<in> set rest \<or> CHR '']'' \<in> set tail then None
                    else Some (host, port))
           | _ \<Rightarrow>
               if CHR '':'' \<in> set host \<or> CHR ''['' \<in> set s \<or> CHR '']'' \<in> set s then None
               else Some (host, port)))"

section \<open>Addresses\<close>

text \<open>Decimal digits without a sign; \<open>None\<close> for anything else.\<close>

definition digits_value :: "string \<Rightarrow> nat option" where
  "digits_value s =
     (if s = [] \<or> \<not> list_all (\<lambda>c. digit_val c \<noteq> None) s then None else Some (foldl (\<lambda>v c. v * 10 + (case digit_val c of Some d \<Rightarrow> d | None \<Rightarrow> 0)) 0 s))"

definition ipv4_field :: "string \<Rightarrow> nat option" where
  "ipv4_field s =
     (if 1 < length s \<and> hd s = CHR ''0'' \<or> 3 < length s then None
      else case digits_value s of None \<Rightarrow> None | Some v \<Rightarrow> if 255 < v then None else Some v)"

fun all_some :: "'a option list \<Rightarrow> 'a list option" where
  "all_some [] = Some []"
| "all_some (x # xs) = (case (x, all_some xs) of (Some y, Some ys) \<Rightarrow> Some (y # ys) | _ \<Rightarrow> None)"

definition ipv4_bytes :: "string \<Rightarrow> nat list option" where
  "ipv4_bytes s =
     (case all_some (map ipv4_field (Split CHR ''.'' s)) of
        None \<Rightarrow> None | Some bs \<Rightarrow> if length bs = 4 then Some bs else None)"

definition is_hex :: "char \<Rightarrow> bool" where
  "is_hex c \<longleftrightarrow> hex_val c \<noteq> None"

definition hex_value :: "string \<Rightarrow> nat" where
  "hex_value s = foldl (\<lambda>v c. v * 16 + (case hex_val c of Some d \<Rightarrow> d | None \<Rightarrow> 0)) 0 s"

text \<open>
  The groups of an IPv6 address: the bytes read so far, where \<open>::\<close> stood, and at most \<open>n\<close> more
  groups. A last group with a dot is an IPv4 address.
\<close>

fun ipv6_groups :: "nat \<Rightarrow> nat list \<Rightarrow> nat option \<Rightarrow> string \<Rightarrow> (nat list \<times> nat option \<times> string) option" where
  "ipv6_groups 0 bs gap s = Some (bs, gap, s)"
| "ipv6_groups (Suc n) bs gap s =
     (let digits = takeWhile is_hex s; rest = dropWhile is_hex s in
      if digits = [] \<or> 4 < length digits then None
      else case rest of
        [] \<Rightarrow> Some (bs @ [hex_value digits div 256, hex_value digits mod 256], gap, [])
      | c # tail \<Rightarrow>
          if c = CHR ''.''
          then (if gap = None \<and> length bs \<noteq> 12 \<or> 12 < length bs then None
                else case ipv4_bytes s of None \<Rightarrow> None | Some v4 \<Rightarrow> Some (bs @ v4, gap, []))
          else if c \<noteq> CHR '':'' then None
          else let bs = bs @ [hex_value digits div 256, hex_value digits mod 256] in
            (case tail of
               [] \<Rightarrow> None
             | d # later \<Rightarrow>
                 if d = CHR '':''
                 then (if gap \<noteq> None then None
                       else if later = [] then Some (bs, Some (length bs), [])
                       else ipv6_groups n bs (Some (length bs)) later)
                 else ipv6_groups n bs gap tail))"

definition ipv6_bytes :: "string \<Rightarrow> nat list option" where
  "ipv6_bytes s =
     (if s = ''::'' then Some (replicate 16 0)
      else case (case CutPrefix s ''::'' of
          Some rest \<Rightarrow> ipv6_groups 8 [] (Some 0) rest | None \<Rightarrow> ipv6_groups 8 [] None s) of
        None \<Rightarrow> None
      | Some (bs, gap, rest) \<Rightarrow>
          if rest \<noteq> [] then None
          else (case gap of
              None \<Rightarrow> if length bs = 16 then Some bs else None
            | Some k \<Rightarrow> if 16 \<le> length bs then None
                else Some (take k bs @ replicate (16 - length bs) 0 @ drop k bs)))"

definition mapped :: "nat list \<Rightarrow> nat list" where
  "mapped v4 = replicate 10 0 @ [255, 255] @ v4"

text \<open>The address and its length in bits, as \<open>netip.ParseAddr\<close> reads it; a zone is not accepted.\<close>

definition ParseAddr :: "string \<Rightarrow> (nat list \<times> nat) option" where
  "ParseAddr s =
     (case dropWhile (\<lambda>c. c \<noteq> CHR ''.'' \<and> c \<noteq> CHR '':'' \<and> c \<noteq> CHR ''%'') s of
        [] \<Rightarrow> None
      | c # _ \<Rightarrow>
          if c = CHR ''.'' then map_option (\<lambda>b. (mapped b, 32)) (ipv4_bytes s)
          else if c = CHR '':'' \<and> CHR ''%'' \<notin> set s then map_option (\<lambda>b. (b, 128)) (ipv6_bytes s)
          else None)"

definition ParseIP :: "string \<Rightarrow> nat list option" where
  "ParseIP s = map_option fst (ParseAddr s)"

definition IsLoopback :: "nat list \<Rightarrow> bool" where
  "IsLoopback ip \<longleftrightarrow> take 12 ip = mapped [] \<and> ip ! 12 = 127 \<or> ip = replicate 15 0 @ [1]"

definition IsUnspecified :: "nat list \<Rightarrow> bool" where
  "IsUnspecified ip \<longleftrightarrow> ip = mapped [0, 0, 0, 0] \<or> ip = replicate 16 0"

section \<open>Networks\<close>

text \<open>The address bytes with the bits after the first \<open>n\<close> cleared.\<close>

fun mask_bytes :: "nat \<Rightarrow> nat list \<Rightarrow> nat list" where
  "mask_bytes n [] = []"
| "mask_bytes n (b # bs) =
     (if 8 \<le> n then b # mask_bytes (n - 8) bs else (b - b mod 2 ^ (8 - n)) # mask_bytes 0 bs)"

text \<open>The network address and how many of the sixteen bytes' bits it fixes.\<close>

definition ParseCIDR :: "string \<Rightarrow> (nat list \<times> nat) option" where
  "ParseCIDR s =
     (case Cut s ''/'' of
        None \<Rightarrow> None
      | Some (addr, len) \<Rightarrow>
          (case (ParseAddr addr, digits_value len) of
             (Some (ip, bits), Some n) \<Rightarrow>
               if bits < n then None else Some (mask_bytes (128 - bits + n) ip, 128 - bits + n)
           | _ \<Rightarrow> None))"

definition is_v4 :: "nat list \<Rightarrow> bool" where
  "is_v4 ip \<longleftrightarrow> take 12 ip = mapped []"

text \<open>Both addresses are of the same family and agree on the bits of the network.\<close>

definition Contains :: "nat list \<times> nat \<Rightarrow> nat list \<Rightarrow> bool" where
  "Contains network ip \<longleftrightarrow>
     is_v4 (fst network) = is_v4 ip \<and> mask_bytes (snd network) (fst network) = mask_bytes (snd network) ip"

end
