(* ===== verification/Http.thy ===== *)
theory Http
  imports Console Size Net
begin

text \<open>
  The ground of \<open>internal/api\<close>: a request, a response, the options of the surface, and the checks
  a request passes before a handler sees it (\<open>auth.go\<close>, the proxy gate of \<open>api.go\<close>, the
  cross-site check of \<open>actions.go\<close>, the trusted network of \<open>me.go\<close>). A handler is a function
  of the request and of the state; a check wraps a handler into another.

  A request carries, besides what was sent, when it arrives, whether a cycle holds the gate then,
  and the random value that is drawn if it issues a key. Names of headers are canonical; the form
  is what \<open>PostForm\<close> holds, in the order a loop over that map takes.
\<close>

section \<open>Requests and responses\<close>

record Request =
  rq_Method :: string
  rq_Path :: string
  rq_Host :: string
  rq_RemoteAddr :: string
  rq_Headers :: "(string \<times> string) list"
  rq_Query :: "(string \<times> string) list"
  rq_Form :: "(string \<times> string list) list"
  rq_FormOK :: bool
  rq_Now :: Time
  rq_Held :: bool
  rq_Fresh :: string

definition Header_Get :: "Request \<Rightarrow> string \<Rightarrow> string" where
  "Header_Get rq name = (case map_of (rq_Headers rq) name of None \<Rightarrow> [] | Some v \<Rightarrow> v)"

definition Query_Get :: "Request \<Rightarrow> string \<Rightarrow> string" where
  "Query_Get rq name = (case map_of (rq_Query rq) name of None \<Rightarrow> [] | Some v \<Rightarrow> v)"

definition PostFormValue :: "Request \<Rightarrow> string \<Rightarrow> string" where
  "PostFormValue rq name = (case map_of (rq_Form rq) name of Some (v # _) \<Rightarrow> v | _ \<Rightarrow> [])"

text \<open>
  The body of a response. \<open>ErrorJSON\<close> and \<open>ObjectJSON\<close> are the object with one key \<open>error\<close> and
  with the given keys; \<open>Html\<close> is the data a template is executed with.
\<close>

datatype 'p Body =
    EmptyBody
  | PlainText string
  | ErrorJSON string
  | ObjectJSON "(string \<times> string) list"
  | UsageJSON UsageResponse
  | DetailJSON UsageDetailResponse
  | Html 'p
  | Asset string

record 'p Response =
  rp_Code :: nat
  rp_Header :: "(string \<times> string) list"
  rp_Body :: "'p Body"

definition http_error :: "nat \<Rightarrow> string \<Rightarrow> 'p Response" where
  "http_error code message = \<lparr>rp_Code = code, rp_Header = [], rp_Body = PlainText message\<rparr>"

definition no_store :: "string \<Rightarrow> (string \<times> string) list" where
  "no_store content = [(''Content-Type'', content), (''Cache-Control'', ''no-store'')]"

definition html :: "'p \<Rightarrow> 'p Response" where
  "html page = \<lparr>rp_Code = 200, rp_Header = no_store ''text/html; charset=utf-8'', rp_Body = Html page\<rparr>"

definition writeJSONError :: "(string \<times> string) list \<Rightarrow> nat \<Rightarrow> string \<Rightarrow> 'p Response" where
  "writeJSONError headers code detail =
     \<lparr>rp_Code = code, rp_Header = headers @ no_store ''application/json'', rp_Body = ErrorJSON detail\<rparr>"

definition unauthorized :: "string \<Rightarrow> 'p Response" where
  "unauthorized detail = writeJSONError [(''WWW-Authenticate'', ''Bearer realm=\"nuno\"'')] 401 detail"

section \<open>The surface\<close>

text \<open>
  \<open>Options\<close>. \<open>op_Ping\<close>: whether the database answers, when one is given. \<open>op_Actor\<close> and
  \<open>op_Store\<close>: whether an actor and a store are wired.
\<close>

record Options =
  op_Version :: string
  op_Ping :: "bool option"
  op_Store :: bool
  op_Actor :: bool
  op_AdminPassword :: string
  op_ProxySecret :: string
  op_RefreshInterval :: Duration
  op_TrustedProxy :: string
  op_SiteName :: string

datatype api_error =
    ApiActor actor_error
  | ApiBudget parse_error
  | ApiAllocation string parse_error
  | ApiSize parse_error
  | ApiQuota quota_error
  | ApiStore store_error

text \<open>
  The surface on a server. \<open>si_URLHost\<close> is the host of \<open>url.Parse\<close>, when it parses; \<open>si_Text\<close> the
  text of an error; \<open>si_Float\<close> the conversion of a double that no 64-bit integer holds, and
  \<open>si_Percent\<close> the one of a percentage.
\<close>

record 'w Site =
  si_Options :: Options
  si_Server :: "'w Server"
  si_URLHost :: "string \<Rightarrow> string option"
  si_Text :: "api_error \<Rightarrow> string"
  si_Float :: "f64 \<Rightarrow> int64"
  si_Percent :: int64

section \<open>The limiter\<close>

record bucket =
  bk_Tokens :: rat
  bk_Last :: Time

record limiter =
  lm_Buckets :: "(string \<times> bucket) list"
  lm_Rate :: Duration
  lm_Burst :: int

definition newLimiter :: "int \<Rightarrow> int \<Rightarrow> limiter" where
  "newLimiter perMinute burst =
     \<lparr>lm_Buckets = [], lm_Rate = 60 * second div max perMinute 1, lm_Burst = max burst 1\<rparr>"

text \<open>What a bucket holds after a time, before a request is taken from it.\<close>

definition refilled :: "limiter \<Rightarrow> Time \<Rightarrow> bucket \<Rightarrow> rat" where
  "refilled l now b =
     (let tokens = fl (bk_Tokens b + fdiv (Seconds (now - bk_Last b)) (Seconds (lm_Rate l))) in
      if f64_of_int (lm_Burst l) < tokens then f64_of_int (lm_Burst l) else tokens)"

definition allow :: "string \<Rightarrow> Time \<Rightarrow> limiter \<Rightarrow> bool \<times> limiter" where
  "allow key now l =
     (case tbl_find fst key (lm_Buckets l) of
        None \<Rightarrow>
          let buckets = (if 1024 < length (lm_Buckets l) then [] else lm_Buckets l);
              b = \<lparr>bk_Tokens = fl (f64_of_int (lm_Burst l) - 1), bk_Last = now\<rparr> in
          (True, l\<lparr>lm_Buckets := tbl_put fst (key, b) buckets\<rparr>)
      | Some (_, b) \<Rightarrow>
          let tokens = refilled l now b; allowed = (1 \<le> tokens);
              b = \<lparr>bk_Tokens = (if allowed then fl (tokens - 1) else tokens), bk_Last = now\<rparr> in
          (allowed, l\<lparr>lm_Buckets := tbl_put fst (key, b) (lm_Buckets l)\<rparr>))"

text \<open>The key of a credential: the first eight bytes of its hash, in hexadecimal.\<close>

definition credential_key :: "(string \<Rightarrow> string) \<Rightarrow> string \<Rightarrow> string" where
  "credential_key hash credential = take 16 (hash credential)"

section \<open>The state and the handlers\<close>

record 'w Surface =
  sf_World :: "'w World"
  sf_DB :: Database
  sf_Limiter :: limiter

type_synonym ('w, 'p) Handler = "Request \<Rightarrow> 'w Surface \<Rightarrow> 'p Response \<times> 'w Surface"

section \<open>Credentials\<close>

definition bearer :: "Request \<Rightarrow> string option" where
  "bearer rq =
     (let header = Header_Get rq ''Authorization'' in
      case (case CutPrefix header ''Bearer '' of Some v \<Rightarrow> Some v | None \<Rightarrow> CutPrefix header ''bearer '') of
        None \<Rightarrow> None
      | Some v \<Rightarrow> if TrimSpace v = [] then None else Some (TrimSpace v))"

text \<open>\<open>base64.StdEncoding.DecodeString\<close>: groups of four digits, the last one padded.\<close>

definition base64_digit :: "char \<Rightarrow> nat option" where
  "base64_digit c =
     (if CHR ''A'' \<le> c \<and> c \<le> CHR ''Z'' then Some (of_char c - 65)
      else if CHR ''a'' \<le> c \<and> c \<le> CHR ''z'' then Some (of_char c - 71)
      else if CHR ''0'' \<le> c \<and> c \<le> CHR ''9'' then Some (of_char c + 4)
      else if c = CHR ''+'' then Some 62 else if c = CHR ''/'' then Some 63 else None)"

fun base64_decode :: "string \<Rightarrow> string option" where
  "base64_decode [] = Some []"
| "base64_decode (a # b # c # d # rest) =
     (case (base64_digit a, base64_digit b) of
        (Some x, Some y) \<Rightarrow>
          let one = char_of (x * 4 + y div 16) in
          if c = CHR ''='' then (if d = CHR ''='' \<and> rest = [] then Some [one] else None)
          else (case base64_digit c of
              None \<Rightarrow> None
            | Some z \<Rightarrow>
                let two = char_of (y mod 16 * 16 + z div 4) in
                if d = CHR ''='' then (if rest = [] then Some [one, two] else None)
                else (case base64_digit d of
                    None \<Rightarrow> None
                  | Some u \<Rightarrow>
                      map_option (\<lambda>s. one # two # char_of (z mod 4 * 64 + u) # s) (base64_decode rest)))
      | _ \<Rightarrow> None)"
| "base64_decode _ = None"

text \<open>\<open>Request.BasicAuth\<close>: the name and the password, when the header carries them.\<close>

definition BasicAuth :: "Request \<Rightarrow> (string \<times> string) option" where
  "BasicAuth rq =
     (let auth = Header_Get rq ''Authorization'' in
      if length auth < 6 \<or> \<not> EqualFold (take 6 auth) ''Basic '' then None
      else case base64_decode (filter (\<lambda>c. c \<notin> {CHR 0x0D, CHR 0x0A}) (drop 6 auth)) of
        None \<Rightarrow> None | Some credentials \<Rightarrow> Cut credentials '':'')"

text \<open>The hashes are compared, not the values; an absent password is the empty one.\<close>

definition password_ok :: "(string \<Rightarrow> string) \<Rightarrow> string \<Rightarrow> Request \<Rightarrow> bool" where
  "password_ok hash password rq \<longleftrightarrow>
     (case BasicAuth rq of None \<Rightarrow> False | Some (_, presented) \<Rightarrow> hash presented = hash password)"

definition basicAuth :: "(string \<Rightarrow> string) \<Rightarrow> string \<Rightarrow> ('w, 'p) Handler \<Rightarrow> ('w, 'p) Handler" where
  "basicAuth hash password next =
     (if password = [] then next
      else (\<lambda>rq s.
        if \<not> password_ok hash password rq
        then ((http_error 401 ''unauthorized'')
                \<lparr>rp_Header := [(''WWW-Authenticate'', ''Basic realm=\"nuno\", charset=\"UTF-8\"'')]\<rparr>, s)
        else next rq s))"

definition proxy :: "(string \<Rightarrow> string) \<Rightarrow> string \<Rightarrow> ('w, 'p) Handler \<Rightarrow> ('w, 'p) Handler" where
  "proxy hash secret next =
     (if secret = [] then next
      else (\<lambda>rq s.
        if hash secret \<noteq> hash (Header_Get rq ''X-Nuno-Proxy-Secret'')
        then (http_error 403 ''this surface is reachable only through the proxy'', s)
        else next rq s))"

section \<open>Where a request comes from\<close>

definition from_here :: "(string \<Rightarrow> string option) \<Rightarrow> Request \<Rightarrow> bool" where
  "from_here urlHost rq \<longleftrightarrow>
     Header_Get rq ''Sec-Fetch-Site'' \<in> {[], ''same-origin'', ''none''} \<and>
     (Header_Get rq ''Origin'' \<noteq> [] \<longrightarrow> urlHost (Header_Get rq ''Origin'') = Some (rq_Host rq))"

definition sameOrigin :: "(string \<Rightarrow> string option) \<Rightarrow> ('w, 'p) Handler \<Rightarrow> ('w, 'p) Handler" where
  "sameOrigin urlHost next =
     (\<lambda>rq s. if \<not> from_here urlHost rq then (http_error 403 ''cross-site requests are refused'', s) else next rq s)"

definition trusts :: "string \<Rightarrow> nat list \<Rightarrow> bool" where
  "trusts part ip \<longleftrightarrow>
     (let part = TrimSpace part in
      part \<noteq> [] \<and>
      (case ParseCIDR part of Some network \<Rightarrow> Contains network ip | None \<Rightarrow> ParseIP part = Some ip))"

definition fromTrustedProxy :: "Request \<Rightarrow> string \<Rightarrow> bool" where
  "fromTrustedProxy rq networks \<longleftrightarrow>
     (if TrimSpace networks = [] then False
      else let host = (case SplitHostPort (rq_RemoteAddr rq) of None \<Rightarrow> rq_RemoteAddr rq | Some (host, _) \<Rightarrow> host) in
        (case ParseIP host of
           None \<Rightarrow> False
         | Some ip \<Rightarrow> list_ex (\<lambda>part. trusts part ip) (Split CHR '','' networks)))"

section \<open>Health\<close>

definition healthz :: "Options \<Rightarrow> ('w, 'p) Handler" where
  "healthz opts rq s =
     (let down = (op_Ping opts = Some False) in
      (\<lparr>rp_Code = (if down then 503 else 200), rp_Header = no_store ''application/json'',
        rp_Body = ObjectJSON ([(''status'', if down then ''unavailable'' else ''ok''), (''version'', op_Version opts)] @
          (if down then [(''detail'', ''database unreachable'')] else []))\<rparr>, s))"

end
