(* ===== verification/Pages.thy ===== *)
theory Pages
  imports Http
begin

text \<open>
  The pages of the admin surface: what \<open>page.go\<close> shares between them and what \<open>pages.go\<close> reads for
  each. A page is the data its template is executed with; a read that fails shows a warning and
  leaves the rest. The templates themselves are not modelled.
\<close>

section \<open>Shared by every page\<close>

record layout =
  ly_Version :: string
  ly_SiteName :: string
  ly_Now :: Time
  ly_Tab :: string
  ly_Slug :: string
  ly_Warnings :: "string list"
  ly_Editable :: bool
  ly_OK :: string
  ly_Error :: string

definition newLayout :: "Options \<Rightarrow> Request \<Rightarrow> string \<Rightarrow> layout" where
  "newLayout opts rq tab =
     \<lparr>ly_Version = op_Version opts, ly_SiteName = op_SiteName opts, ly_Now = rq_Now rq, ly_Tab = tab,
      ly_Slug = ToLower tab, ly_Warnings = [], ly_Editable = op_Actor opts, ly_OK = Query_Get rq ''ok'',
      ly_Error = Query_Get rq ''err''\<rparr>"

definition provider_warnings :: "ProviderRow \<Rightarrow> string list" where
  "provider_warnings p =
     (let name = pi_Name (pr_Inst p) in
      (if pr_LastObserveAt p = None then [name @ '' has never been observed. Run nuno observe.'']
       else if \<not> pr_LastObserveOK p then [name @ '' could not be read: '' @ pr_LastError p] else []) @
      (if Degraded p then [name @ '' is degraded and will not be written to: '' @ pr_DegradedReason p] else []))"

definition warningsFor :: "ProviderRow list \<Rightarrow> Options \<Rightarrow> string list" where
  "warningsFor providers opts =
     (if providers = []
      then [''No providers are configured. Set NUNO_PROVIDER_<NAME>_TYPE and _URL, then run nuno observe.''] else []) @
     concat (map provider_warnings providers) @
     (if op_AdminPassword opts = [] \<and> TrimSpace (op_TrustedProxy opts) = []
      then [''No admin password is set, so this page is only as protected as whatever sits in front of it.''] else [])"

definition warn :: "string \<Rightarrow> layout \<Rightarrow> layout" where
  "warn message l = l\<lparr>ly_Warnings := ly_Warnings l @ [message]\<rparr>"

definition providerRows :: "Options \<Rightarrow> Database \<Rightarrow> layout \<Rightarrow> layout" where
  "providerRows opts db l = l\<lparr>ly_Warnings := ly_Warnings l @ warningsFor (ListProviders db) opts\<rparr>"

definition quotaText :: "int64 option \<Rightarrow> string \<Rightarrow> string" where
  "quotaText bytes status =
     (if status = StatusUnknown then ''unknown''
      else if status = StatusUnavailable then ''unavailable''
      else case bytes of None \<Rightarrow> ''unlimited'' | Some n \<Rightarrow> FormatIEC n)"

definition barWidth :: "rat option \<Rightarrow> int" where
  "barWidth share =
     (case share of None \<Rightarrow> 0 | Some p \<Rightarrow> if p < 0 then 0 else if 100 < p then 100 else trunc_rat p)"

definition fillFor :: "int \<Rightarrow> string \<Rightarrow> string" where
  "fillFor width status =
     (if status \<noteq> StatusOK \<and> status \<noteq> StatusStale then ''fill-bad''
      else if 90 \<le> width then ''fill-warn'' else ''fill-ok'')"

definition totalFill :: "int \<Rightarrow> string" where
  "totalFill width = (if 90 \<le> width then ''fill-bad'' else if 70 \<le> width then ''fill-warn'' else [])"

definition refresh_or_default :: "Duration \<Rightarrow> Duration" where
  "refresh_or_default refresh = (if refresh \<le> 0 then 15 * (60 * second) else refresh)"

definition with_accounts :: "UsageResponse \<Rightarrow> UsageResponse" where
  "with_accounts r = r\<lparr>ur_Users := filter (\<lambda>u. vu_Providers u \<noteq> []) (ur_Users r)\<rparr>"

definition buildUsage :: "'w Site \<Rightarrow> Time \<Rightarrow> bool \<Rightarrow> Database \<Rightarrow> store_error + UsageResponse" where
  "buildUsage site now withAccounts db =
     bind_result (usage_input now (refresh_or_default (op_RefreshInterval (si_Options site))) db) (\<lambda>inp.
       let response = BuildUsage (si_Percent site) inp
       in Inr (if withAccounts then with_accounts response else response))"

section \<open>Quotas\<close>

record providerField =
  pf_ID :: RowID
  pf_Name :: string
  pf_Type :: string

record ceilingRow =
  cr_Provider :: string
  cr_Type :: string
  cr_Used :: string
  cr_Ceiling :: string
  cr_Edit :: string
  cr_Percent :: int
  cr_Fill :: string
  cr_Status :: string
  cr_Linked :: bool
  cr_Override :: bool

record personView =
  pv_UID :: string
  pv_TierPills :: "string list"
  pv_Used :: string
  pv_Budget :: string
  pv_Percent :: int
  pv_Fill :: string
  pv_Partial :: bool
  pv_Rows :: "ceilingRow list"
  pv_Empty :: bool
  pv_Elsewhere :: "providerField list"

record quotasData =
  qd_Layout :: layout
  qd_Query :: string
  qd_ShowAll :: bool
  qd_People :: "personView list"

definition provider_field :: "ProviderRow \<Rightarrow> providerField" where
  "provider_field p = \<lparr>pf_ID = provider_id p, pf_Name = pi_Name (pr_Inst p), pf_Type = pi_Type (pr_Inst p)\<rparr>"

definition editGiB :: "Quota \<Rightarrow> string" where
  "editGiB q = (if Quota_IsBytes q then FormatGiBNumber (q_Bytes q) else Quota_String q)"

definition overrideRedundant :: "User \<Rightarrow> RowID \<Rightarrow> Policy \<Rightarrow> UserPolicy \<Rightarrow> bool" where
  "overrideRedundant user providerID policy up =
     (case up_ProviderOverrides up providerID of
        None \<Rightarrow> False
      | Some override \<Rightarrow>
          let without = up\<lparr>up_ProviderOverrides := (up_ProviderOverrides up)(providerID := None)\<rparr>;
              resolved = Resolve user providerID policy without
          in r_Present resolved \<and> Quota_Equal (r_Ceiling resolved) override)"

text \<open>An em dash, three bytes in UTF-8.\<close>

definition dash :: string where
  "dash = [CHR 0xE2, CHR 0x80, CHR 0x94]"

text \<open>One row: what the person uses and may use there, when linked, and the override, when there is one.\<close>

definition linked_row :: "UsageProvider option \<Rightarrow> ceilingRow \<Rightarrow> ceilingRow" where
  "linked_row usage row =
     (case usage of
        None \<Rightarrow> row
      | Some u \<Rightarrow>
          row\<lparr>cr_Used := (case vp_UsedBytes u of None \<Rightarrow> cr_Used row | Some n \<Rightarrow> FormatIEC n),
              cr_Ceiling := quotaText (vp_QuotaBytes u) (vp_Status u),
              cr_Percent := barWidth (vp_UsedPercent u),
              cr_Fill := fillFor (barWidth (vp_UsedPercent u)) (vp_Status u),
              cr_Edit := (case vp_QuotaBytes u of
                  None \<Rightarrow> cr_Edit row
                | Some n \<Rightarrow> if readable_status (vp_Status u) then FormatGiBNumber n else cr_Edit row)\<rparr>)"

definition overridden_row :: "Quota option \<Rightarrow> ceilingRow \<Rightarrow> ceilingRow" where
  "overridden_row override row =
     (case override of
        None \<Rightarrow> row | Some q \<Rightarrow> row\<lparr>cr_Ceiling := Quota_String q, cr_Edit := editGiB q\<rparr>)"

definition ceiling_row ::
  "User \<Rightarrow> Policy \<Rightarrow> UserPolicy \<Rightarrow> ProviderRow \<Rightarrow> UsageProvider option \<Rightarrow> ceilingRow" where
  "ceiling_row user policy up provider usage =
     (let i = provider_id provider; override = up_ProviderOverrides up i in
      overridden_row override (linked_row usage
        \<lparr>cr_Provider = pi_Name (pr_Inst provider), cr_Type = pi_Type (pr_Inst provider), cr_Used = dash,
         cr_Ceiling = dash, cr_Edit = [], cr_Percent = 0, cr_Fill = [],
         cr_Status = (case usage of None \<Rightarrow> [] | Some u \<Rightarrow> vp_Status u), cr_Linked = (usage \<noteq> None),
         cr_Override = (override \<noteq> None \<and> \<not> overrideRedundant user i policy up)\<rparr>))"

definition personFor ::
  "Database \<Rightarrow> UsageUser \<Rightarrow> User \<Rightarrow> ProviderRow list \<Rightarrow> Policy \<Rightarrow> personView" where
  "personFor db entry user providers policy =
     (let up = (case UserPolicy_of (u_ID user) db of Inl _ \<Rightarrow> no_policy | Inr up \<Rightarrow> up);
          observed = (\<lambda>p. find (\<lambda>u. vp_Name u = pi_Name (pr_Inst p)) (rev (vu_Providers entry)));
          shown = (\<lambda>p. observed p \<noteq> None \<or> up_ProviderOverrides up (provider_id p) \<noteq> None);
          rows = map (\<lambda>p. ceiling_row user policy up p (observed p)) (filter shown providers) in
      \<lparr>pv_UID = vu_User entry, pv_TierPills = TierNames user (map provider_id providers) policy up,
       pv_Used = (case vu_UsedBytes entry of None \<Rightarrow> ''unknown'' | Some n \<Rightarrow> FormatIEC n),
       pv_Budget = (case vu_BudgetBytes entry of None \<Rightarrow> ''unlimited'' | Some n \<Rightarrow> FormatIEC n),
       pv_Percent = barWidth (vu_UsedPercent entry), pv_Fill = totalFill (barWidth (vu_UsedPercent entry)),
       pv_Partial = (\<not> vu_Complete entry), pv_Rows = rows, pv_Empty = (rows = []),
       pv_Elsewhere = map provider_field (filter (\<lambda>p. \<not> shown p) providers)\<rparr>)"

definition no_user :: User where
  "no_user = \<lparr>u_ID = 0, u_Source = SourceLDAP, u_SourceUUID = [], u_UID = [], u_Email = [], u_DisplayName = [],
     u_Status = UserOrphaned, u_GroupUUIDs = []\<rparr>"

definition no_tiers :: Policy where
  "no_tiers = \<lparr>p_Tiers = Map.empty, p_GroupTiers = Map.empty, p_DefaultTierID = None\<rparr>"

definition text_contains :: "string \<Rightarrow> string \<Rightarrow> bool" where
  "text_contains s t \<longleftrightarrow> Cut s t \<noteq> None"

definition quotasPage :: "'w Site \<Rightarrow> Request \<Rightarrow> Database \<Rightarrow> quotasData" where
  "quotasPage site rq db =
     (let l = providerRows (si_Options site) db (newLayout (si_Options site) rq ''Quotas'');
          query = TrimSpace (Query_Get rq ''q''); showAll = (Query_Get rq ''all'' = ''1'');
          usage = buildUsage site (rq_Now rq) False db;
          l = (case usage of Inl e \<Rightarrow> warn (''Usage could not be read from the database: '' @ si_Text site (ApiStore e)) l
               | Inr _ \<Rightarrow> l);
          entries = (case usage of Inl _ \<Rightarrow> [] | Inr r \<Rightarrow> ur_Users r);
          policy = (case LoadPolicy db of Inl _ \<Rightarrow> no_tiers | Inr p \<Rightarrow> p);
          byUID = (\<lambda>uid. case find (\<lambda>u. u_UID u = uid) (rev (ListUsers db)) of None \<Rightarrow> no_user | Some u \<Rightarrow> u);
          matching = filter (\<lambda>e. query = [] \<or> text_contains (ToLower (vu_User e)) (ToLower query)) entries;
          views = map (\<lambda>e. personFor db e (byUID (vu_User e)) (ListProviders db) policy) matching in
      \<lparr>qd_Layout = l, qd_Query = query, qd_ShowAll = showAll,
       qd_People = filter (\<lambda>v. \<not> (pv_Empty v \<and> \<not> showAll \<and> query = [])) views\<rparr>)"

section \<open>Tiers\<close>

record allocationView =
  aw_ProviderID :: RowID
  aw_Provider :: string
  aw_Input :: string
  aw_Display :: string
  aw_Raw :: string

record groupChip =
  gc_Name :: string
  gc_UUID :: string
  gc_Members :: nat

record tierView =
  tw_Name :: string
  tw_Budget :: string
  tw_BudgetValue :: string
  tw_IsDefault :: bool
  tw_Overcommit :: bool
  tw_Allocations :: "allocationView list"
  tw_Groups :: "groupChip list"

record tiersData =
  td_Layout :: layout
  td_Tiers :: "tierView list"
  td_Fields :: "providerField list"
  td_Unmapped :: "groupChip list"
  td_DefaultTier :: string

text \<open>The last allocation of the tier for the provider.\<close>

definition allocation_view :: "Tier \<Rightarrow> providerField \<Rightarrow> allocationView" where
  "allocation_view tier field =
     (let view = \<lparr>aw_ProviderID = pf_ID field, aw_Provider = pf_Name field, aw_Input = [], aw_Display = [], aw_Raw = []\<rparr> in
      case find (\<lambda>a. al_ProviderID a = pf_ID field) (rev (t_Allocations tier)) of
        None \<Rightarrow> view
      | Some a \<Rightarrow>
          (case AllocationFor tier (pf_ID field) of (resolved, ok) \<Rightarrow>
             if ok \<and> Quota_IsBytes resolved
             then view\<lparr>aw_Input := FormatGiBNumber (q_Bytes resolved), aw_Display := FormatIEC (q_Bytes resolved),
                       aw_Raw := Allocation_Describe a\<rparr>
             else view\<lparr>aw_Input := Allocation_DescribeGiB a, aw_Display := Allocation_Describe a,
                       aw_Raw := Allocation_Describe a\<rparr>))"

definition tier_view :: "providerField list \<Rightarrow> (RowID \<Rightarrow> groupChip list) \<Rightarrow> Tier \<Rightarrow> tierView" where
  "tier_view offered chips tier =
     (let budget = (if Quota_IsKnown (t_Budget tier) then Quota_String (t_Budget tier) else []) in
      \<lparr>tw_Name = t_Name tier, tw_Budget = budget, tw_BudgetValue = budget, tw_IsDefault = t_IsDefault tier,
       tw_Overcommit = Overcommitted tier, tw_Allocations = map (allocation_view tier) offered,
       tw_Groups = chips (t_ID tier)\<rparr>)"

definition group_chip :: "User list \<Rightarrow> Group \<Rightarrow> groupChip" where
  "group_chip users g =
     \<lparr>gc_Name = g_Name g, gc_UUID = g_SourceUUID g,
      gc_Members = length (filter (\<lambda>uuid. uuid = g_SourceUUID g) (concat (map u_GroupUUIDs users)))\<rparr>"

definition tiersPage :: "'w Site \<Rightarrow> Request \<Rightarrow> Database \<Rightarrow> tiersData" where
  "tiersPage site rq db =
     (let l = providerRows (si_Options site) db (newLayout (si_Options site) rq ''Tiers'');
          offered = map provider_field (ListProviders db) in
      case LoadPolicy db of
        Inl e \<Rightarrow>
          \<lparr>td_Layout = warn (''The policy could not be read: '' @ si_Text site (ApiStore e)) l, td_Tiers = [],
           td_Fields = offered, td_Unmapped = [], td_DefaultTier = []\<rparr>
      | Inr policy \<Rightarrow>
          let groups = ListGroups db; chip = group_chip (ListUsers db);
              chips = (\<lambda>tierID. map chip (filter (\<lambda>g. p_GroupTiers policy (g_SourceUUID g) = Some tierID) groups));
              tiers = srv_Tiers (si_Server site) (p_Tiers policy) in
          \<lparr>td_Layout = l,
           td_Tiers = sort_key tw_Name (map (tier_view offered chips) tiers),
           td_Fields = offered,
           td_Unmapped = map chip (filter (\<lambda>g. p_GroupTiers policy (g_SourceUUID g) = None) groups),
           td_DefaultTier = (case find t_IsDefault (rev tiers) of None \<Rightarrow> [] | Some t \<Rightarrow> t_Name t)\<rparr>)"

section \<open>Services\<close>

record providerView =
  sw_Name :: string
  sw_Type :: string
  sw_Version :: string
  sw_Reachable :: bool
  sw_InSupported :: bool
  sw_WriteAccess :: string
  sw_LastObserve :: "Time option"
  sw_LastError :: string
  sw_Degraded :: string

record servicesData =
  sd_Layout :: layout
  sd_Providers :: "providerView list"
  sd_Keys :: "KeyRow list"

definition provider_view :: "ProviderRow \<Rightarrow> providerView" where
  "provider_view p =
     \<lparr>sw_Name = pi_Name (pr_Inst p), sw_Type = pi_Type (pr_Inst p), sw_Version = pr_Version p,
      sw_Reachable = pr_Reachable p, sw_InSupported = pr_InSupported p,
      sw_WriteAccess = WriteAccess_String (pr_WriteAccess p), sw_LastObserve = pr_LastObserveAt p,
      sw_LastError = pr_LastError p, sw_Degraded = pr_DegradedReason p\<rparr>"

definition servicesPage :: "'w Site \<Rightarrow> Request \<Rightarrow> Database \<Rightarrow> servicesData" where
  "servicesPage site rq db =
     \<lparr>sd_Layout = providerRows (si_Options site) db (newLayout (si_Options site) rq ''Services''),
      sd_Providers = map provider_view (ListProviders db), sd_Keys = ListAdminKeys db\<rparr>"

section \<open>Accounts\<close>

record accountRow =
  cw_ID :: nat
  cw_Account :: string
  cw_Provider :: string
  cw_Person :: string
  cw_Kind :: string
  cw_Manual :: bool
  cw_Pick :: string
  cw_Confirm :: bool
  cw_Accounts :: "string list"

record accountsData =
  ad_Layout :: layout
  ad_Resolved :: "accountRow list"
  ad_Pending :: "accountRow list"
  ad_Users :: "User list"

definition linkKey :: "RowID \<Rightarrow> string \<Rightarrow> string" where
  "linkKey providerID externalID = show_int providerID @ CHR 0x00 # externalID"

definition name_of :: "User list \<Rightarrow> RowID \<Rightarrow> string" where
  "name_of users i = (case find (\<lambda>u. u_ID u = i) (rev users) of None \<Rightarrow> [] | Some u \<Rightarrow> u_UID u)"

definition manual_keys :: "Database \<Rightarrow> string list" where
  "manual_keys db =
     map (\<lambda>l. linkKey (lk_ProviderID l) (lk_ExternalID l)) (filter (\<lambda>l. lk_Origin l = LinkManual) (ListLinks db))"

definition no_account_row :: accountRow where
  "no_account_row = \<lparr>cw_ID = 0, cw_Account = [], cw_Provider = [], cw_Person = [], cw_Kind = [], cw_Manual = False,
     cw_Pick = [], cw_Confirm = False, cw_Accounts = []\<rparr>"

definition resolved_rows :: "Database \<Rightarrow> ExternalAccount list \<Rightarrow> accountRow list" where
  "resolved_rows db accounts =
     concat (map (\<lambda>a. case xa_UserID a of
         None \<Rightarrow> []
       | Some i \<Rightarrow> [no_account_row\<lparr>cw_Account := xa_ExternalID a,
           cw_Provider := provider_label (ListProviders db) (xa_ProviderID a), cw_Person := name_of (ListUsers db) i,
           cw_Manual := (linkKey (xa_ProviderID a) (xa_ExternalID a) \<in> set (manual_keys db))\<rparr>]) accounts)"

definition unowned :: "ExternalAccount list \<Rightarrow> RowID \<Rightarrow> string list" where
  "unowned accounts i = map xa_ExternalID (filter (\<lambda>a. xa_UserID a = None \<and> xa_ProviderID a = i) accounts)"

text \<open>The free text of an issue is not in the model.\<close>

definition pending_row :: "Database \<Rightarrow> ExternalAccount list \<Rightarrow> nat \<times> LinkIssue \<Rightarrow> accountRow" where
  "pending_row db accounts = (\<lambda>(n, issue).
     let row = no_account_row\<lparr>cw_ID := n, cw_Account := li_ExternalID issue,
           cw_Provider := provider_label (ListProviders db) (li_ProviderID issue),
           cw_Kind := issue_kind_text (li_Kind issue),
           cw_Person := (case li_UserID issue of None \<Rightarrow> [] | Some i \<Rightarrow> name_of (ListUsers db) i)\<rparr> in
     if li_ExternalID issue \<noteq> [] then row\<lparr>cw_Pick := ''person'', cw_Confirm := (cw_Person row \<noteq> [])\<rparr>
     else if unowned accounts (li_ProviderID issue) \<noteq> []
     then row\<lparr>cw_Pick := ''account'', cw_Accounts := unowned accounts (li_ProviderID issue)\<rparr>
     else row)"

definition accountsPage :: "'w Site \<Rightarrow> Request \<Rightarrow> Database \<Rightarrow> accountsData" where
  "accountsPage site rq db =
     (let l = providerRows (si_Options site) db (newLayout (si_Options site) rq ''Accounts'');
          read = ListAllExternalAccounts db;
          l = (case read of Inl e \<Rightarrow> warn (''Accounts could not be read: '' @ si_Text site (ApiStore e)) l | Inr _ \<Rightarrow> l);
          accounts = (case read of Inl _ \<Rightarrow> [] | Inr as \<Rightarrow> as); issues = ListLinkIssues db in
      \<lparr>ad_Layout = l, ad_Resolved = resolved_rows db accounts,
       ad_Pending = map (pending_row db accounts) (zip [0..<length issues] issues), ad_Users = active_users db\<rparr>)"

section \<open>Activity\<close>

record activityData =
  vd_Layout :: layout
  vd_Runs :: "RunRow list"
  vd_Changes :: "AuditView list"

definition activityPage :: "'w Site \<Rightarrow> Request \<Rightarrow> Database \<Rightarrow> activityData" where
  "activityPage site rq db =
     \<lparr>vd_Layout = providerRows (si_Options site) db (newLayout (si_Options site) rq ''Activity''),
      vd_Runs = LastRuns 5 db, vd_Changes = (case RecentChanges 10 db of Inl _ \<Rightarrow> [] | Inr cs \<Rightarrow> cs)\<rparr>"

section \<open>One person's page\<close>

record mePage =
  me_User :: "UsageUser option"
  me_Theme :: string
  me_SiteName :: string

datatype Page =
    QuotasPage quotasData
  | TiersPage tiersData
  | ServicesPage servicesData
  | AccountsPage accountsData
  | ActivityPage activityData
  | MePage mePage
  | KeyPage string string string

definition meHandler :: "'w Site \<Rightarrow> ('w, Page) Handler" where
  "meHandler site rq s =
     (let opts = si_Options site; uid = TrimSpace (Header_Get rq ''Remote-User'') in
      if \<not> fromTrustedProxy rq (op_TrustedProxy opts)
      then (http_error 403 ''this page is served through the proxy that authenticates you'', s)
      else if uid = [] then (http_error 401 ''no authenticated user in the request'', s)
      else case buildUsage site (rq_Now rq) True (sf_DB s) of
        Inl _ \<Rightarrow> (http_error 500 ''internal error'', s)
      | Inr response \<Rightarrow>
          let theme = Query_Get rq ''theme'' in
          (html (MePage \<lparr>me_User = find (\<lambda>u. vu_User u = uid) (ur_Users response),
              me_Theme = (if theme \<noteq> ''dark'' \<and> theme \<noteq> ''light'' then ''auto'' else theme),
              me_SiteName = op_SiteName opts\<rparr>), s))"

end
