(* ===== verification/Actions.thy ===== *)
theory Actions
  imports Pages
begin

text \<open>
  What the admin surface lets one do (\<open>actions.go\<close>). Each action is a form post to the actor of
  \<open>Cycle\<close>, answered with a redirect that carries a message, or with the new value when the
  inline editor asks for it.
\<close>

section \<open>Answering\<close>

definition unreserved :: "char \<Rightarrow> bool" where
  "unreserved c \<longleftrightarrow> lower_char c \<in> set ''abcdefghijklmnopqrstuvwxyz0123456789-_.~''"

definition upper_hex :: "nat \<Rightarrow> char" where
  "upper_hex n = (if n < 10 then digit_char n else char_of (n + 55))"

text \<open>\<open>url.QueryEscape\<close>.\<close>

definition QueryEscape :: "string \<Rightarrow> string" where
  "QueryEscape s = concat (map (\<lambda>c.
     if unreserved c then [c] else if c = CHR '' '' then ''+''
     else [CHR ''%'', upper_hex (of_char c div 16), upper_hex (of_char c mod 16)]) s)"

definition returnTo :: "Request \<Rightarrow> string" where
  "returnTo rq =
     (let v = PostFormValue rq ''return'';
          target = (case Cut v ''?'' of None \<Rightarrow> v | Some (before, _) \<Rightarrow> before)
      in if HasPrefix target ''/'' \<and> \<not> HasPrefix target ''//'' then target else ''/'')"

text \<open>The location is the one \<open>http.Redirect\<close> is given, before it cleans the path.\<close>

definition respondWith ::
  "Request \<Rightarrow> string \<Rightarrow> string \<Rightarrow> string \<Rightarrow> (string \<times> string) list \<Rightarrow> 'p Response" where
  "respondWith rq kind message v extra =
     (if Header_Get rq ''X-Requested-With'' = ''nuno-inline-edit''
      then \<lparr>rp_Code = (if kind = ''err'' then 400 else 200), rp_Header = no_store ''application/json'',
            rp_Body = ObjectJSON ([(kind, message), (''value'', v)] @ extra)\<rparr>
      else \<lparr>rp_Code = 303, rp_Header = [(''Location'', returnTo rq @ ''?'' @ kind @ ''='' @ QueryEscape message)],
            rp_Body = EmptyBody\<rparr>)"

definition respond :: "Request \<Rightarrow> string \<Rightarrow> string \<Rightarrow> string \<Rightarrow> 'p Response" where
  "respond rq kind message v = respondWith rq kind message v []"

definition redirect :: "Request \<Rightarrow> string \<Rightarrow> string \<Rightarrow> 'p Response" where
  "redirect rq kind message = respond rq kind message []"

definition refused :: "'w Site \<Rightarrow> Request \<Rightarrow> api_error \<Rightarrow> 'p Response" where
  "refused site rq e = redirect rq ''err'' (si_Text site e)"

definition field :: "Request \<Rightarrow> string \<Rightarrow> string" where
  "field rq name = TrimSpace (PostFormValue rq name)"

definition boolFlag :: "bool \<Rightarrow> string" where
  "boolFlag b = (if b then ''1'' else ''0'')"

section \<open>Cycles\<close>

definition actionReconcile :: "'w Site \<Rightarrow> ('w, 'p) Handler" where
  "actionReconcile site rq s =
     (if \<not> rq_FormOK rq then (redirect rq ''err'' ''Malformed form'', s)
      else
        let consent = (PostFormValue rq ''allow_shrink'' \<noteq> []);
            f = \<lparr>pf_UID = field rq ''user'', pf_Provider = field rq ''provider''\<rparr> in
        case actor_Reconcile (si_Server site) (rq_Held rq) consent f (sf_World s) (sf_DB s) of
          ((report, err), w, db) \<Rightarrow>
            let s = s\<lparr>sf_World := w, sf_DB := db\<rparr> in
            (case err of
               Some e \<Rightarrow> (refused site rq (ApiActor e), s)
             | None \<Rightarrow>
                 (redirect rq ''ok'' (ApplyReport_Summary report @
                    (if 0 < ay_Guarded report \<and> \<not> consent
                     then ''. Tick \"apply guarded changes\" to allow the ones below usage.'' else [])), s)))"

definition actionObserve :: "'w Site \<Rightarrow> ('w, 'p) Handler" where
  "actionObserve site rq s =
     (case actor_Observe (si_Server site) (rq_Held rq) (sf_World s) (sf_DB s) of
        (err, w, db) \<Rightarrow>
          let s = s\<lparr>sf_World := w, sf_DB := db\<rparr> in
          (case err of
             Some e \<Rightarrow> (refused site rq (ApiActor e), s)
           | None \<Rightarrow> (redirect rq ''ok'' ''Read every provider again'', s)))"

section \<open>Tiers\<close>

record TierForm =
  tf_Allocations :: "Allocation list"
  tf_Absolute :: int64
  tf_HasPercent :: bool
  tf_HasUnlimited :: bool

definition no_allocations :: TierForm where
  "no_allocations = \<lparr>tf_Allocations = [], tf_Absolute = 0, tf_HasPercent = False, tf_HasUnlimited = False\<rparr>"

definition add_allocation :: "Allocation \<Rightarrow> TierForm \<Rightarrow> TierForm" where
  "add_allocation a t =
     (let t = t\<lparr>tf_Allocations := tf_Allocations t @ [a]\<rparr> in
      case al_Mode a of
        ModeAbsolute \<Rightarrow> t\<lparr>tf_Absolute := tf_Absolute t + al_Value a\<rparr>
      | ModePercent \<Rightarrow> t\<lparr>tf_HasPercent := True\<rparr>
      | ModeUnlimited \<Rightarrow> t\<lparr>tf_HasUnlimited := True\<rparr>
      | ModeOther _ \<Rightarrow> t)"

text \<open>The value of a field \<open>alloc_<id>\<close> that says something, with the provider's id.\<close>

definition allocation_field :: "string \<times> string list \<Rightarrow> (RowID \<times> string) option" where
  "allocation_field = (\<lambda>(key, values).
     case (CutPrefix key ''alloc_'', values) of
       (Some i, v # _) \<Rightarrow>
         if TrimSpace v = [] then None
         else (case ParseInt i of Inl _ \<Rightarrow> None | Inr n \<Rightarrow> Some (sint n, v))
     | _ \<Rightarrow> None)"

fun allocation_fields ::
  "(f64 \<Rightarrow> int64) \<Rightarrow> (string \<times> string list) list \<Rightarrow> TierForm \<Rightarrow> api_error + TierForm" where
  "allocation_fields oor [] t = Inr t"
| "allocation_fields oor (kv # kvs) t =
     (case allocation_field kv of
        None \<Rightarrow> allocation_fields oor kvs t
      | Some (providerID, v) \<Rightarrow>
          (case ParseAllocationInGiB oor v of
             Inl e \<Rightarrow> Inl (ApiAllocation v e)
           | Inr a \<Rightarrow> allocation_fields oor kvs (add_allocation (a\<lparr>al_ProviderID := providerID\<rparr>) t)))"

definition form_budget :: "(f64 \<Rightarrow> int64) \<Rightarrow> Request \<Rightarrow> api_error + Quota" where
  "form_budget oor rq =
     (if field rq ''budget'' = [] then Inr Unknown
      else case ParseSize oor (field rq ''budget'') of Inl e \<Rightarrow> Inl (ApiBudget e) | Inr q \<Rightarrow> Inr q)"

definition form_tier :: "'w Site \<Rightarrow> Request \<Rightarrow> api_error + Tier" where
  "form_tier site rq =
     bind_result (form_budget (si_Float site) rq) (\<lambda>budget.
     bind_result (allocation_fields (si_Float site) (rq_Form rq) no_allocations) (\<lambda>t.
     bind_result (if tf_Allocations t \<noteq> [] \<and> \<not> tf_HasPercent t \<and> \<not> tf_HasUnlimited t
                  then (case BytesQuota (tf_Absolute t) of Inl e \<Rightarrow> Inl (ApiQuota e) | Inr q \<Rightarrow> Inr q)
                  else Inr budget) (\<lambda>budget.
       Inr \<lparr>t_ID = 0, t_Name = field rq ''name'', t_Budget = budget,
            t_IsDefault = (PostFormValue rq ''is_default'' \<noteq> []), t_Allocations = tf_Allocations t\<rparr>)))"

definition editedAllocation :: "Request \<Rightarrow> Tier \<Rightarrow> string" where
  "editedAllocation rq tier =
     (if field rq ''edited'' = [] then []
      else case ParseInt (field rq ''edited'') of
        Inl _ \<Rightarrow> []
      | Inr i \<Rightarrow>
          (case find (\<lambda>a. al_ProviderID a = sint i) (t_Allocations tier) of
             None \<Rightarrow> ''none'' | Some a \<Rightarrow> Allocation_Describe a))"

definition actionTier :: "'w Site \<Rightarrow> ('w, 'p) Handler" where
  "actionTier site rq s =
     (if \<not> rq_FormOK rq then (redirect rq ''err'' ''Malformed form'', s)
      else if field rq ''name'' = [] then (redirect rq ''err'' ''A tier needs a name'', s)
      else case form_tier site rq of
        Inl e \<Rightarrow> (refused site rq e, s)
      | Inr tier \<Rightarrow>
          (case actor_SaveTier tier (sf_DB s) of
             Inl e \<Rightarrow> (refused site rq (ApiActor e), s)
           | Inr db \<Rightarrow>
               (respondWith rq ''ok''
                  (''Saved tier '' @ t_Name tier @ ''. Run a reconcile to apply it.'' @
                   (if Overcommitted tier
                    then '' Its percentages add up to more than 100, which over-commits deliberately.'' else []))
                  (editedAllocation rq tier)
                  [(''budget'', if Quota_IsKnown (t_Budget tier) then Quota_String (t_Budget tier) else ''no budget''),
                   (''overcommit'', boolFlag (Overcommitted tier))],
                s\<lparr>sf_DB := db\<rparr>)))"

section \<open>Overrides\<close>

definition overrideTag :: "string \<Rightarrow> string \<Rightarrow> Database \<Rightarrow> string" where
  "overrideTag uid providerName db =
     (case (find (\<lambda>u. u_UID u = uid) (ListUsers db), find (\<lambda>p. pi_Name (pr_Inst p) = providerName) (ListProviders db)) of
        (Some user, Some provider) \<Rightarrow>
          (case (LoadPolicy db, UserPolicy_of (u_ID user) db) of
             (Inr policy, Inr up) \<Rightarrow>
               boolFlag (up_ProviderOverrides up (provider_id provider) \<noteq> None \<and>
                 \<not> overrideRedundant user (provider_id provider) policy up)
           | _ \<Rightarrow> ''0'')
      | _ \<Rightarrow> ''0'')"

definition totalsFor :: "'w Site \<Rightarrow> Time \<Rightarrow> string \<Rightarrow> string \<Rightarrow> Database \<Rightarrow> (string \<times> string) list" where
  "totalsFor site now uid provider db =
     (case buildUsage site now False db of
        Inl _ \<Rightarrow> []
      | Inr usage \<Rightarrow>
          (case find (\<lambda>u. vu_User u = uid) (ur_Users usage) of
             None \<Rightarrow> []
           | Some user \<Rightarrow>
               let width = barWidth (vu_UsedPercent user) in
               [(''used'', case vu_UsedBytes user of None \<Rightarrow> ''unknown'' | Some n \<Rightarrow> FormatIEC n),
                (''budget'', case vu_BudgetBytes user of None \<Rightarrow> ''unlimited'' | Some n \<Rightarrow> FormatIEC n),
                (''percent'', show_int width), (''fill'', totalFill width)] @
               (case find (\<lambda>p. vp_Name p = provider) (vu_Providers user) of
                  None \<Rightarrow> []
                | Some p \<Rightarrow>
                    [(''row_percent'', show_int (barWidth (vp_UsedPercent p))),
                     (''row_fill'', fillFor (barWidth (vp_UsedPercent p)) (vp_Status p))]) @
               [(''override'', overrideTag uid provider db)]))"

definition actionOverride :: "'w Site \<Rightarrow> ('w, 'p) Handler" where
  "actionOverride site rq s =
     (if \<not> rq_FormOK rq then (redirect rq ''err'' ''Malformed form'', s)
      else
        let uid = field rq ''user''; provider = field rq ''provider''; v = field rq ''quota'';
            clear = (PostFormValue rq ''clear'' \<noteq> [] \<or> v = []) in
        case (if clear then Inr Unknown else ParseSizeInGiB (si_Float site) v) of
          Inl e \<Rightarrow> (refused site rq (ApiSize e), s)
        | Inr quota \<Rightarrow>
            (case actor_SetOverride uid provider quota clear (sf_DB s) of
               Inl e \<Rightarrow> (refused site rq (ApiActor e), s)
             | Inr db \<Rightarrow>
                 (if clear
                  then respondWith rq ''ok''
                    (''Cleared the override for '' @ uid @ '' on '' @ provider @ '': their tier decides again'')
                    dash (totalsFor site (rq_Now rq) uid provider db)
                  else respondWith rq ''ok''
                    (''Override saved: '' @ uid @ '' now has '' @ Quota_String quota @ '' on '' @ provider @
                     '', above any tier. Run a reconcile to apply it.'')
                    (Quota_String quota) (totalsFor site (rq_Now rq) uid provider db),
                  s\<lparr>sf_DB := db\<rparr>)))"

section \<open>Links and groups\<close>

definition actionLink :: "'w Site \<Rightarrow> ('w, 'p) Handler" where
  "actionLink site rq s =
     (if \<not> rq_FormOK rq then (redirect rq ''err'' ''Malformed form'', s)
      else
        let uid = field rq ''user''; provider = field rq ''provider''; externalID = field rq ''external_id'';
            unlink = (PostFormValue rq ''unlink'' \<noteq> []) in
        case actor_Link (rq_Now rq) uid provider externalID unlink (sf_DB s) of
          (Some e, db) \<Rightarrow> (refused site rq (ApiActor e), s\<lparr>sf_DB := db\<rparr>)
        | (None, db) \<Rightarrow>
            (redirect rq ''ok''
               (if unlink then ''Unlinked '' @ uid @ '' from '' @ provider
                else ''Linked '' @ uid @ '' to '' @ externalID @ '' on '' @ provider),
             s\<lparr>sf_DB := db\<rparr>))"

definition actionGroup :: "'w Site \<Rightarrow> ('w, 'p) Handler" where
  "actionGroup site rq s =
     (if \<not> rq_FormOK rq then (redirect rq ''err'' ''Malformed form'', s)
      else
        let group = field rq ''group''; tier = field rq ''tier''; unmap = (PostFormValue rq ''unmap'' \<noteq> []) in
        if group = [] then (redirect rq ''err'' ''No group was chosen'', s)
        else case actor_MapGroup (srv_Tiers (si_Server site)) group tier unmap (sf_DB s) of
          Inl e \<Rightarrow> (refused site rq (ApiActor e), s)
        | Inr db \<Rightarrow>
            (respond rq ''ok''
               (if unmap then ''That group no longer maps to a tier, so its members fall back to the default one''
                else ''That group now follows '' @ tier @ ''. Run a reconcile to apply it.'') [],
             s\<lparr>sf_DB := db\<rparr>))"

section \<open>Keys\<close>

definition revoke_key :: "'w Site \<Rightarrow> string \<Rightarrow> ('w, 'p) Handler" where
  "revoke_key site i rq s =
     (case ParseInt i of
        Inl _ \<Rightarrow> (redirect rq ''err'' ''Not a key id'', s)
      | Inr n \<Rightarrow>
          (case actor_RevokeKey (sint n) (rq_Now rq) (sf_DB s) of
             Inl e \<Rightarrow> (refused site rq (ApiActor e), s)
           | Inr db \<Rightarrow>
               (redirect rq ''ok'' ''Revoked that key. Anything using it stops working now.'', s\<lparr>sf_DB := db\<rparr>)))"

definition actionKeys :: "'w Site \<Rightarrow> ('w, Page) Handler" where
  "actionKeys site rq s =
     (if \<not> rq_FormOK rq then (redirect rq ''err'' ''Malformed form'', s)
      else if field rq ''revoke'' \<noteq> [] then revoke_key site (field rq ''revoke'') rq s
      else
        let label = (if field rq ''label'' = [] then ''unnamed'' else field rq ''label'') in
        case actor_IssueKey (srv_Hash (si_Server site)) (rq_Fresh rq) label (rq_Now rq) (sf_DB s) of
          Inl e \<Rightarrow> (refused site rq (ApiActor e), s)
        | Inr (db, key) \<Rightarrow> (html (KeyPage label key (op_SiteName (si_Options site))), s\<lparr>sf_DB := db\<rparr>))"

end
