(* ===== verification/Api.thy ===== *)
theory Api
  imports Actions ServerInvariant
begin

text \<open>
  The surface as a whole: the usage endpoint (\<open>usage.go\<close>) and the routes with the checks in front
  of each (\<open>api.go\<close>, \<open>registerActions\<close> of \<open>actions.go\<close>). A path is in its canonical form; the
  multiplexer of \<open>net/http\<close> redirects any other before a handler sees it.
\<close>

section \<open>The usage endpoint\<close>

definition usage_body :: "Request \<Rightarrow> UsageResponse \<Rightarrow> 'p Body" where
  "usage_body rq response =
     (if Query_Get rq ''detail'' = ''provider'' then DetailJSON (BuildUsageDetail response)
      else if Query_Get rq ''detail'' = ''service'' then DetailJSON (BuildUsageByService response)
      else UsageJSON response)"

definition usageHandler :: "'w Site \<Rightarrow> ('w, 'p) Handler" where
  "usageHandler site rq s =
     (case bearer rq of
        None \<Rightarrow> (unauthorized ''an admin key is required in an Authorization: Bearer header'', s)
      | Some presented \<Rightarrow>
          let hash = srv_Hash (si_Server site) in
          (case allow (credential_key hash presented) (rq_Now rq) (sf_Limiter s) of (allowed, l) \<Rightarrow>
            let s = s\<lparr>sf_Limiter := l\<rparr> in
            if \<not> allowed then (writeJSONError [(''Retry-After'', ''60'')] 429 ''too many requests'', s)
            else if CountAdminKeys (sf_DB s) = 0
            then (writeJSONError [] 503 ''no admin key is configured: set NUNO_ADMIN_KEY and restart'', s)
            else (case CheckAdminKey hash presented (rq_Now rq) (sf_DB s) of (db, valid) \<Rightarrow>
              let s = s\<lparr>sf_DB := db\<rparr> in
              if \<not> valid then (unauthorized ''unknown or revoked admin key'', s)
              else (case buildUsage site (rq_Now rq) (Query_Get rq ''with_accounts'' = ''1'') db of
                  Inl _ \<Rightarrow> (writeJSONError [] 500 ''internal error'', s)
                | Inr response \<Rightarrow>
                    (\<lparr>rp_Code = 200, rp_Header = no_store ''application/json'', rp_Body = usage_body rq response\<rparr>, s)))))"

section \<open>Routes\<close>

datatype Pattern = Exactly string | Under string

definition path_matches :: "Pattern \<Rightarrow> Request \<Rightarrow> bool" where
  "path_matches p rq = (case p of Exactly path \<Rightarrow> rq_Path rq = path | Under path \<Rightarrow> HasPrefix (rq_Path rq) path)"

definition method_matches :: "string \<Rightarrow> Request \<Rightarrow> bool" where
  "method_matches m rq \<longleftrightarrow> rq_Method rq = m \<or> m = ''GET'' \<and> rq_Method rq = ''HEAD''"

type_synonym ('w, 'p) Route = "(string \<times> Pattern) \<times> ('w, 'p) Handler"

definition show_page :: "(Request \<Rightarrow> Database \<Rightarrow> 'p) \<Rightarrow> ('w, 'p) Handler" where
  "show_page page rq s = (html (page rq (sf_DB s)), s)"

definition staticHandler :: "('w, 'p) Handler" where
  "staticHandler rq s =
     (\<lparr>rp_Code = 200, rp_Header = [(''Cache-Control'', ''no-cache'')],
       rp_Body = Asset (drop (length ''/static/'') (rq_Path rq))\<rparr>, s)"

definition gated :: "'w Site \<Rightarrow> ('w, 'p) Handler \<Rightarrow> ('w, 'p) Handler" where
  "gated site = proxy (srv_Hash (si_Server site)) (op_ProxySecret (si_Options site))"

definition admin :: "'w Site \<Rightarrow> ('w, 'p) Handler \<Rightarrow> ('w, 'p) Handler" where
  "admin site = basicAuth (srv_Hash (si_Server site)) (op_AdminPassword (si_Options site))"

definition guard :: "'w Site \<Rightarrow> ('w, 'p) Handler \<Rightarrow> ('w, 'p) Handler" where
  "guard site next = gated site (admin site (sameOrigin (si_URLHost site) next))"

definition registerActions :: "'w Site \<Rightarrow> ('w, Page) Route list" where
  "registerActions site =
     (if \<not> op_Actor (si_Options site) then []
      else map (\<lambda>(path, h). ((''POST'', Exactly path), guard site h))
        [(''/actions/reconcile'', actionReconcile site), (''/actions/observe'', actionObserve site),
         (''/actions/tier'', actionTier site), (''/actions/override'', actionOverride site),
         (''/actions/link'', actionLink site), (''/actions/group'', actionGroup site),
         (''/actions/keys'', actionKeys site)])"

definition page_routes :: "'w Site \<Rightarrow> ('w, Page) Route list" where
  "page_routes site =
     map (\<lambda>(path, h). ((''GET'', Exactly path), gated site (admin site h)))
       [(''/'', show_page (\<lambda>rq db. QuotasPage (quotasPage site rq db))),
        (''/tiers'', show_page (\<lambda>rq db. TiersPage (tiersPage site rq db))),
        (''/services'', show_page (\<lambda>rq db. ServicesPage (servicesPage site rq db))),
        (''/accounts'', show_page (\<lambda>rq db. AccountsPage (accountsPage site rq db))),
        (''/activity'', show_page (\<lambda>rq db. ActivityPage (activityPage site rq db)))]"

definition Routes :: "'w Site \<Rightarrow> ('w, Page) Route list" where
  "Routes site =
     ((''GET'', Exactly ''/healthz''), healthz (si_Options site)) #
     (if \<not> op_Store (si_Options site) then []
      else [((''GET'', Exactly ''/api/v1/usage''), usageHandler site),
            ((''GET'', Exactly ''/me''), gated site (meHandler site))] @
           page_routes site @
           [((''GET'', Under ''/static/''), gated site staticHandler)] @
           registerActions site)"

definition serve :: "'w Site \<Rightarrow> ('w, Page) Handler" where
  "serve site rq s =
     (case find (\<lambda>((m, p), _). method_matches m rq \<and> path_matches p rq) (Routes site) of
        Some (_, h) \<Rightarrow> h rq s
      | None \<Rightarrow>
          ((if list_ex (\<lambda>((_, p), _). path_matches p rq) (Routes site)
            then http_error 405 ''Method Not Allowed'' else http_error 404 ''404 page not found''), s))"

end
