(* ===== verification/Limiter.thy ===== *)
theory Limiter
  imports Http
begin

text \<open>
  What the limiter of the usage endpoint lets through (\<open>auth.go\<close>). At one instant a bucket holds a
  whole number of tokens, so a burst is counted exactly; over time the refill is the double the
  code computes, and one second of silence is enough for another request.
\<close>

section \<open>Histories\<close>

text \<open>The limiter after a history of requests, each a key and an instant.\<close>

definition after :: "(string \<times> Time) list \<Rightarrow> limiter \<Rightarrow> limiter" where
  "after rqs l = foldl (\<lambda>l (key, now). snd (allow key now l)) l rqs"

lemma after_snoc [simp]: "after (rqs @ [(key, now)]) l = snd (allow key now (after rqs l))"
  by (simp add: after_def)

lemma after_Nil [simp]: "after [] l = l"
  by (simp add: after_def)

lemma allow_fields [simp]:
  "lm_Rate (snd (allow key now l)) = lm_Rate l" "lm_Burst (snd (allow key now l)) = lm_Burst l"
  by (simp_all add: allow_def Let_def split: option.split prod.split)

lemma after_fields [simp]: "lm_Rate (after rqs l) = lm_Rate l" "lm_Burst (after rqs l) = lm_Burst l"
  by (induction rqs rule: rev_induct) auto

lemma newLimiter_fields [simp]: "lm_Buckets (newLimiter perMinute burst) = []" "lm_Burst (newLimiter perMinute burst) = max burst 1"
  "lm_Rate (newLimiter 60 burst) = second"
  by (simp_all add: newLimiter_def second_def)

section \<open>A burst\<close>

lemma Seconds_zero [simp]: "Seconds 0 = 0"
  by (simp add: Seconds_def f64_of_int_def fdiv_def signed_divide_int_def signed_modulo_int_def)

lemma refilled_now:
  assumes "bk_Tokens b = of_int n" "bk_Last b = now" "0 \<le> n" "n \<le> lm_Burst l" "lm_Burst l < 2 ^ 53"
  shows "refilled l now b = of_int n"
proof -
  have "fl (of_int n) = of_int n" "f64_of_int (lm_Burst l) = of_int (lm_Burst l)"
    using assms(3-5) by (simp_all add: fl_int f64_of_int_def)
  with assms show ?thesis by (simp add: refilled_def fdiv_def Let_def)
qed

text \<open>After requests at one instant, a bucket has given out one token for each, as long as it had any.\<close>

definition counted :: "Time \<Rightarrow> string list \<Rightarrow> limiter \<Rightarrow> bool" where
  "counted now ks l \<longleftrightarrow> tbl_ok fst (lm_Buckets l) \<and> fst ` set (lm_Buckets l) = set ks \<and>
     (\<forall>k \<in> set ks. tbl_find fst k (lm_Buckets l) =
        Some (k, \<lparr>bk_Tokens = of_int (max 0 (lm_Burst l - int (count_list ks k))), bk_Last = now\<rparr>))"

lemma allow_counted:
  assumes "counted now ks l" "1 \<le> lm_Burst l" "lm_Burst l < 2 ^ 53"
  shows "fst (allow key now l) \<longleftrightarrow> int (count_list ks key) < lm_Burst l"
    and "key \<in> set ks \<or> card (set ks) \<le> 1024 \<Longrightarrow> counted now (ks @ [key]) (snd (allow key now l))"
proof -
  let ?B = "lm_Burst l" and ?n = "\<lambda>k. max 0 (lm_Burst l - int (count_list ks k))"
  have ok: "tbl_ok fst (lm_Buckets l)" and keys: "fst ` set (lm_Buckets l) = set ks"
    and at: "\<And>k. k \<in> set ks \<Longrightarrow> tbl_find fst k (lm_Buckets l) = Some (k, \<lparr>bk_Tokens = of_int (?n k), bk_Last = now\<rparr>)"
    using assms(1) by (auto simp: counted_def)
  have B: "f64_of_int ?B = of_int ?B" "fl (of_int ?B - 1) = of_int ?B - 1"
    using assms(2,3) fl_int [of ?B] fl_int [of "?B - 1"] by (simp_all add: f64_of_int_def)
  have len: "length (lm_Buckets l) = card (set ks)"
    using ok keys unfolding tbl_ok_def by (metis distinct_card length_map set_map)
  have "(fst (allow key now l) \<longleftrightarrow> int (count_list ks key) < ?B) \<and>
    (key \<in> set ks \<or> card (set ks) \<le> 1024 \<longrightarrow> counted now (ks @ [key]) (snd (allow key now l)))"
  proof (cases "key \<in> set ks")
    case False
    then have none: "tbl_find fst key (lm_Buckets l) = None" using keys by (simp add: tbl_find_None)
    have zero: "count_list ks key = 0" using False by simp
    let ?row = "(key, \<lparr>bk_Tokens = of_int (?B - 1), bk_Last = now\<rparr>)"
    have allow: "allow key now l = (True, l\<lparr>lm_Buckets := tbl_put fst ?row
        (if 1024 < length (lm_Buckets l) then [] else lm_Buckets l)\<rparr>)"
      using none B by (simp add: allow_def Let_def)
    have "counted now (ks @ [key]) (snd (allow key now l))" if "card (set ks) \<le> 1024"
      using that ok keys at assms(2) zero False len
      by (auto simp: allow counted_def tbl_ok_put tbl_put_keys tbl_find_put)
    with allow zero assms(2) False show ?thesis by simp
  next
    case True
    define n where "n = ?n key"
    have n: "0 \<le> n" "n \<le> ?B" using assms(2) by (auto simp: n_def)
    have row: "tbl_find fst key (lm_Buckets l) = Some (key, \<lparr>bk_Tokens = of_int n, bk_Last = now\<rparr>)"
      using at [OF True] unfolding n_def .
    have r: "refilled l now \<lparr>bk_Tokens = of_int n, bk_Last = now\<rparr> = of_int n"
      using n assms(3) by (intro refilled_now) auto
    have sub: "1 \<le> n \<Longrightarrow> fl (of_int n - 1) = of_int (n - 1)"
      using n assms(3) fl_int [of "n - 1"] by simp
    define b where "b = \<lparr>bk_Tokens = (if 1 \<le> n then of_int (n - 1) else of_int n), bk_Last = now\<rparr>"
    have allow: "allow key now l = (1 \<le> n, l\<lparr>lm_Buckets := tbl_put fst (key, b) (lm_Buckets l)\<rparr>)"
      using row r sub by (auto simp: allow_def Let_def b_def)
    have b: "b = \<lparr>bk_Tokens = of_int (max 0 (?B - int (count_list (ks @ [key]) key))), bk_Last = now\<rparr>"
      by (simp add: b_def n_def max_def)
    have "counted now (ks @ [key]) (snd (allow key now l))"
      unfolding counted_def
    proof (intro conjI ballI)
      show "tbl_ok fst (lm_Buckets (snd (allow key now l)))" using ok by (simp add: allow tbl_ok_put)
      show "fst ` set (lm_Buckets (snd (allow key now l))) = set (ks @ [key])"
        using keys True by (auto simp: allow tbl_put_keys)
      fix k assume "k \<in> set (ks @ [key])"
      then show "tbl_find fst k (lm_Buckets (snd (allow key now l))) = Some (k, \<lparr>bk_Tokens =
          of_int (max 0 (lm_Burst (snd (allow key now l)) - int (count_list (ks @ [key]) k))), bk_Last = now\<rparr>)"
        using at [of k] True b by (auto simp: allow tbl_find_put)
    qed
    with allow n_def assms(2) show ?thesis by auto
  qed
  then show "fst (allow key now l) \<longleftrightarrow> int (count_list ks key) < ?B"
    and "key \<in> set ks \<or> card (set ks) \<le> 1024 \<Longrightarrow> counted now (ks @ [key]) (snd (allow key now l))" by simp_all
qed

lemma after_counted:
  assumes "card (set ks) \<le> 1025" "max burst 1 < 2 ^ 53"
  shows "counted now ks (after (map (\<lambda>k. (k, now)) ks) (newLimiter perMinute burst))"
  using assms(1)
proof (induction ks rule: rev_induct)
  case Nil
  then show ?case by (simp add: counted_def tbl_ok_def)
next
  case (snoc key ks)
  have le: "card (set ks) \<le> card (set (ks @ [key]))" by (intro card_mono) auto
  with snoc have IH: "counted now ks (after (map (\<lambda>k. (k, now)) ks) (newLimiter perMinute burst))" by simp
  have "key \<in> set ks \<or> card (set ks) \<le> 1024"
    using snoc.prems by (auto simp: card_insert_if split: if_splits)
  with allow_counted(2) [OF IH] assms(2) show ?case by simp
qed

text \<open>A burst is bounded. At one instant, a new limiter lets exactly the first \<open>burst\<close> requests of each
  credential through, whatever other credentials ask in between, as long as they are at most 1025.\<close>

theorem burst_is_bounded:
  assumes "card (set ks) \<le> 1025" "max burst 1 < 2 ^ 53"
  shows "fst (allow key now (after (map (\<lambda>k. (k, now)) ks) (newLimiter perMinute burst))) \<longleftrightarrow>
    int (count_list ks key) < max burst 1"
  using allow_counted(1) [OF after_counted [OF assms]] assms(2) by simp

theorem burst_is_bounded_witness:
  "\<not> fst (allow ''a'' 9 (after (map (\<lambda>k. (k, 9)) (''b'' # replicate 20 ''a'')) (newLimiter 60 20)))"
proof -
  have "card (set (''b'' # replicate 20 ''a'')) \<le> 1025" by (rule le_trans [OF card_length]) simp
  moreover have "int (count_list (''b'' # replicate 20 ''a'') ''a'') = 20" by code_simp
  ultimately show ?thesis using burst_is_bounded [of "''b'' # replicate 20 ''a''" 20 "''a''" 9 60] by simp
qed

text \<open>A flood of other credentials empties the map, and with it the bucket of one that had used its tokens up.\<close>

lemma flood_resets:
  assumes "1024 < length (lm_Buckets l)" "tbl_find fst other (lm_Buckets l) = None" "key \<noteq> other"
  shows "fst (allow key t (snd (allow other now l)))"
  using assms by (simp add: allow_def Let_def tbl_find_Cons)

section \<open>Recovery\<close>

lemma Seconds_one [simp]: "Seconds second = 1"
  by code_simp

lemma f64_of_int_ge_one: "1 \<le> k \<Longrightarrow> 1 \<le> f64_of_int k"
  using fl_ge_powi [of 0 "of_int k"] by (simp add: f64_of_int_def)

lemma f64_of_int_nonneg: "0 \<le> k \<Longrightarrow> 0 \<le> f64_of_int k"
  by (simp add: f64_of_int_def fl_nonneg)

lemma smod_nonneg: "0 \<le> d \<Longrightarrow> 0 < m \<Longrightarrow> 0 \<le> (d :: int) smod m"
  by (cases "d = 0") (simp_all add: signed_modulo_int_def)

lemma Seconds_ge_one:
  assumes "second \<le> d"
  shows "1 \<le> Seconds d"
proof -
  have pos: "0 < second" by (simp add: second_def)
  have "1 \<le> d sdiv second" using assms pos by (simp add: sdiv_nonneg pos_imp_zdiv_pos_iff int_one_le_iff_zero_less)
  then have "1 \<le> f64_of_int (d sdiv second)" by (rule f64_of_int_ge_one)
  moreover have "0 \<le> d smod second" using assms pos by (intro smod_nonneg) auto
  then have "0 \<le> fdiv (f64_of_int (d smod second)) (f64_of_int second)"
    using pos by (simp add: fdiv_def fl_nonneg f64_of_int_nonneg)
  ultimately have "2 powi 0 \<le> f64_of_int (d sdiv second) + fdiv (f64_of_int (d smod second)) (f64_of_int second)" by simp
  from fl_ge_powi [OF this] show ?thesis by (simp add: Seconds_def)
qed

lemma Seconds_nonneg:
  assumes "0 \<le> d"
  shows "0 \<le> Seconds d"
proof -
  have pos: "0 < second" by (simp add: second_def)
  have "0 \<le> f64_of_int (d sdiv second)" using assms pos by (simp add: f64_of_int_nonneg sdiv_nonneg pos_imp_zdiv_nonneg_iff)
  moreover have "0 \<le> f64_of_int (d smod second)" "0 \<le> f64_of_int second"
    using smod_nonneg [OF assms pos] pos by (simp_all add: f64_of_int_nonneg)
  ultimately show ?thesis by (simp add: Seconds_def fdiv_def fl_nonneg)
qed

lemma refilled_nonneg:
  assumes "0 \<le> bk_Tokens b" "bk_Last b \<le> now" "lm_Rate l = second" "0 \<le> lm_Burst l"
  shows "0 \<le> refilled l now b"
  using assms by (simp add: refilled_def fdiv_def fl_nonneg Seconds_nonneg f64_of_int_nonneg Let_def)

lemma refilled_after_a_second:
  assumes "0 \<le> bk_Tokens b" "bk_Last b + second \<le> now" "lm_Rate l = second" "1 \<le> lm_Burst l"
  shows "1 \<le> refilled l now b"
proof -
  have "1 \<le> Seconds (now - bk_Last b)" using assms(2) by (intro Seconds_ge_one) simp
  then have "2 powi 0 \<le> fdiv (Seconds (now - bk_Last b)) (Seconds (lm_Rate l))"
    using fl_ge_powi [of 0 "Seconds (now - bk_Last b)"] assms(3) by (simp add: fdiv_def)
  then have "2 powi 0 \<le> bk_Tokens b + fdiv (Seconds (now - bk_Last b)) (Seconds (lm_Rate l))" using assms(1) by simp
  from fl_ge_powi [OF this] f64_of_int_ge_one [OF assms(4)] show ?thesis by (simp add: refilled_def Let_def)
qed

text \<open>Every bucket was last touched by a request of its key, and holds no negative tokens.\<close>

definition sane :: "(string \<times> Time) list \<Rightarrow> limiter \<Rightarrow> bool" where
  "sane rqs l \<longleftrightarrow> (\<forall>(k, b) \<in> set (lm_Buckets l). 0 \<le> bk_Tokens b \<and> (k, bk_Last b) \<in> set rqs)"

lemma tbl_put_sub: "set (tbl_put key r rows) \<subseteq> insert r (set rows)"
  by (induction rows) auto

lemma allow_sane:
  assumes "sane rqs l" "\<forall>(k, t) \<in> set rqs. t \<le> now" "lm_Rate l = second" "1 \<le> lm_Burst l"
  shows "sane (rqs @ [(key, now)]) (snd (allow key now l))"
proof -
  have put: "sane (rqs @ [(key, now)]) (l\<lparr>lm_Buckets := tbl_put fst (key, b) bs\<rparr>)"
    if "0 \<le> bk_Tokens b" "bk_Last b = now" "set bs \<subseteq> set (lm_Buckets l)" for b bs
    using that assms(1) tbl_put_sub [of fst "(key, b)" bs] by (fastforce simp: sane_def)
  show ?thesis
  proof (cases "tbl_find fst key (lm_Buckets l)")
    case None
    have "1 \<le> f64_of_int (lm_Burst l)" using assms(4) by (rule f64_of_int_ge_one)
    then have "0 \<le> fl (f64_of_int (lm_Burst l) - 1)" by (simp add: fl_nonneg)
    with None put show ?thesis by (simp add: allow_def Let_def)
  next
    case (Some x)
    then obtain b where x: "x = (key, b)" "(key, b) \<in> set (lm_Buckets l)" by (cases x) (auto dest: tbl_find_Some)
    with assms have "0 \<le> refilled l now b" by (intro refilled_nonneg) (auto simp: sane_def)
    with Some x put show ?thesis by (auto simp: allow_def Let_def fl_nonneg)
  qed
qed

lemma after_sane:
  assumes "sorted (map snd rqs)" "1 \<le> burst"
  shows "sane rqs (after rqs (newLimiter 60 burst))"
  using assms(1)
proof (induction rqs rule: rev_induct)
  case Nil
  then show ?case by (simp add: sane_def)
next
  case (snoc rq rqs)
  obtain key now where rq: "rq = (key, now)" by force
  from snoc.prems have "sorted (map snd rqs)" "\<forall>(k, t) \<in> set rqs. t \<le> now" by (auto simp: sorted_append rq)
  with snoc.IH allow_sane [of rqs _ now key] assms(2) show ?case by (simp add: rq)
qed

text \<open>C29 A throttled credential recovers. Whatever was asked before, by whomever, a credential that has been silent
  for a second is let through by the limiter of the usage endpoint.\<close>

theorem quiet_credential_is_served:
  assumes "sorted (map snd rqs)" "\<forall>t. (key, t) \<in> set rqs \<longrightarrow> t + second \<le> now" "1 \<le> burst"
  shows "fst (allow key now (after rqs (newLimiter 60 burst)))"
proof (cases "tbl_find fst key (lm_Buckets (after rqs (newLimiter 60 burst)))")
  case None
  then show ?thesis by (simp add: allow_def Let_def)
next
  case (Some x)
  then obtain b where x: "x = (key, b)" "(key, b) \<in> set (lm_Buckets (after rqs (newLimiter 60 burst)))"
    by (cases x) (auto dest: tbl_find_Some)
  with after_sane [OF assms(1,3)] have "0 \<le> bk_Tokens b" "(key, bk_Last b) \<in> set rqs" by (auto simp: sane_def)
  then have "1 \<le> refilled (after rqs (newLimiter 60 burst)) now b"
    using assms(2,3) by (intro refilled_after_a_second) auto
  then show ?thesis using Some x by (simp add: allow_def Let_def)
qed

theorem quiet_credential_is_served_witness:
  "fst (allow ''a'' (2 * second) (after (replicate 30 (''a'', 0)) (newLimiter 60 20)))"
  by (rule quiet_credential_is_served) (simp_all add: second_def sorted_replicate)

end
