(* ===== verification/ApiGuarantees.thy ===== *)
theory ApiGuarantees
  imports Api Limiter Server
begin

text \<open>
  What holds of every request to the surface: which requests can change anything, who reads what,
  where a redirect leads, and how often a credential is let through. A request is a step of the
  server of \<open>Server\<close>, so what holds of every run of the server holds of what is asked over HTTP.
\<close>

section \<open>What a check lets through\<close>

definition proxy_ok :: "'w Site \<Rightarrow> Request \<Rightarrow> bool" where
  "proxy_ok site rq \<longleftrightarrow> op_ProxySecret (si_Options site) = [] \<or>
     srv_Hash (si_Server site) (op_ProxySecret (si_Options site)) =
     srv_Hash (si_Server site) (Header_Get rq ''X-Nuno-Proxy-Secret'')"

definition admin_ok :: "'w Site \<Rightarrow> Request \<Rightarrow> bool" where
  "admin_ok site rq \<longleftrightarrow> op_AdminPassword (si_Options site) = [] \<or>
     password_ok (srv_Hash (si_Server site)) (op_AdminPassword (si_Options site)) rq"

definition authorised :: "'w Site \<Rightarrow> Request \<Rightarrow> bool" where
  "authorised site rq \<longleftrightarrow> proxy_ok site rq \<and> admin_ok site rq \<and> from_here (si_URLHost site) rq"

lemma gated_cases:
  "gated site next rq s = (r, s') \<Longrightarrow> s' = s \<and> r = http_error 403 ''this surface is reachable only through the proxy'' \<or>
     proxy_ok site rq \<and> next rq s = (r, s')"
  by (auto simp: gated_def proxy_def proxy_ok_def split: if_splits)

lemma admin_cases:
  "admin site next rq s = (r, s') \<Longrightarrow> s' = s \<and> rp_Code r = 401 \<and> rp_Header r = [(''WWW-Authenticate'', ''Basic realm=\"nuno\", charset=\"UTF-8\"'')] \<or>
     admin_ok site rq \<and> next rq s = (r, s')"
  by (auto simp: admin_def basicAuth_def admin_ok_def http_error_def split: if_splits)

lemma guard_cases:
  "guard site next rq s = (r, s') \<Longrightarrow> s' = s \<and> rp_Code r \<in> {401, 403} \<and> map_of (rp_Header r) ''Location'' = None \<or>
     authorised site rq \<and> next rq s = (r, s')"
  by (auto simp: guard_def sameOrigin_def authorised_def http_error_def split: if_splits dest!: gated_cases admin_cases)

lemma guard_open: "authorised site rq \<Longrightarrow> guard site next rq s = next rq s"
  by (auto simp: authorised_def guard_def gated_def admin_def proxy_def basicAuth_def sameOrigin_def admin_ok_def
      proxy_ok_def)

section \<open>Every request is a step of the server\<close>

abbreviation held :: "'w Surface \<Rightarrow> 'w World \<times> Database" where
  "held s \<equiv> (sf_World s, sf_DB s)"

text \<open>What a handler did: nothing, or one step; with consent only when the form says so.\<close>

definition steps :: "'w Site \<Rightarrow> Duration \<Rightarrow> Request \<Rightarrow> 'w Surface \<Rightarrow> 'w Surface \<Rightarrow> bool" where
  "steps site interval rq s s' \<longleftrightarrow> held s' = held s \<or>
     (\<exists>a. server_step (si_Server site) interval a (held s) (held s') \<and>
        (a = Click True \<longrightarrow> PostFormValue rq ''allow_shrink'' \<noteq> []))"

named_theorems step_of \<comment> \<open>what one handler does is a step\<close>

lemma steps_refl [simp]: "steps site interval rq s s"
  by (simp add: steps_def)

lemma steps_edit:
  "edit (si_Server site) (sf_DB s) db \<Longrightarrow> steps site interval rq s (s\<lparr>sf_DB := db\<rparr>)"
  by (auto simp: steps_def intro: server_step.edit)

lemma step_reconcile [step_of]:
  assumes "actionReconcile site rq s = (r, s')"
  shows "steps site interval rq s s'"
proof -
  let ?consent = "PostFormValue rq ''allow_shrink'' \<noteq> []"
  let ?f = "\<lparr>pf_UID = field rq ''user'', pf_Provider = field rq ''provider''\<rparr>"
  obtain x w db where click: "actor_Reconcile (si_Server site) (rq_Held rq) ?consent ?f (sf_World s) (sf_DB s) = (x, w, db)"
    by (metis prod_cases3)
  with assms have "s' = s \<or> held s' = (w, db)"
    by (auto simp: actionReconcile_def Let_def split: if_splits prod.splits option.splits)
  with server_step.click [OF click] show ?thesis unfolding steps_def by fastforce
qed

lemma step_observe [step_of]: "actionObserve site rq s = (r, s') \<Longrightarrow> steps site interval rq s s'"
  by (auto simp: actionObserve_def Let_def steps_def split: prod.splits option.splits
      intro!: exI [where x = ClickRefresh] server_step.click_refresh)

lemma step_tier [step_of]: "actionTier site rq s = (r, s') \<Longrightarrow> steps site interval rq s s'"
  by (auto simp: actionTier_def split: if_splits sum.splits intro!: steps_edit edit.intros(1))

lemma step_override [step_of]: "actionOverride site rq s = (r, s') \<Longrightarrow> steps site interval rq s s'"
  by (auto simp: actionOverride_def Let_def split: if_splits sum.splits intro!: steps_edit edit.intros(2))

lemma step_link [step_of]: "actionLink site rq s = (r, s') \<Longrightarrow> steps site interval rq s s'"
  by (auto simp: actionLink_def Let_def split: if_splits prod.splits option.splits intro!: steps_edit edit.intros(3))

lemma step_group [step_of]: "actionGroup site rq s = (r, s') \<Longrightarrow> steps site interval rq s s'"
  by (auto simp: actionGroup_def Let_def split: if_splits sum.splits intro!: steps_edit edit.intros(4))

lemma step_keys [step_of]: "actionKeys site rq s = (r, s') \<Longrightarrow> steps site interval rq s s'"
  by (auto simp: actionKeys_def revoke_key_def Let_def split: if_splits sum.splits prod.splits
      intro: steps_edit edit.intros(5) edit.intros(6))

lemma step_usage [step_of]: "usageHandler site rq s = (r, s') \<Longrightarrow> steps site interval rq s s'"
proof -
  have "edit (si_Server site) (sf_DB s) db" if "CheckAdminKey (srv_Hash (si_Server site)) k t (sf_DB s) = (db, v)" for k t db v
    using that by (rule edit.intros(7))
  then show "usageHandler site rq s = (r, s') \<Longrightarrow> steps site interval rq s s'"
    by (auto simp: usageHandler_def Let_def steps_def split: option.splits prod.splits if_splits sum.splits
        intro!: exI [where x = Edit] server_step.edit)
qed

lemma step_me [step_of]: "meHandler site rq s = (r, s') \<Longrightarrow> s' = s"
  by (auto simp: meHandler_def Let_def split: if_splits sum.splits)

section \<open>What a route serves\<close>

lemma serve_cases:
  assumes "serve site rq s = (r, s')"
  obtains (route) m p h where "((m, p), h) \<in> set (Routes site)" "method_matches m rq" "path_matches p rq" "h rq s = (r, s')"
  | (none) "s' = s" "rp_Code r \<in> {404, 405}" "rp_Header r = []"
proof (cases "find (\<lambda>((m, p), _). method_matches m rq \<and> path_matches p rq) (Routes site)")
  case None
  then show ?thesis using assms none by (auto simp: serve_def http_error_def split: if_splits)
next
  case (Some x)
  then obtain m p h where x: "x = ((m, p), h)" by (cases x) auto
  with find_SomeD [OF Some] Some assms show ?thesis by (intro route [of m p h]) (auto simp: serve_def)
qed

lemma action_routes:
  "((m, p), h) \<in> set (registerActions site) \<Longrightarrow> op_Actor (si_Options site) \<and> m = ''POST'' \<and>
     (\<exists>path next. p = Exactly (''/actions/'' @ path) \<and> h = guard site next \<and>
        next \<in> {actionReconcile site, actionObserve site, actionTier site, actionOverride site, actionLink site,
                actionGroup site, actionKeys site})"
  by (auto simp: registerActions_def split: if_splits)

lemma page_route: "((m, p), h) \<in> set (page_routes site) \<Longrightarrow> \<exists>page. h = gated site (admin site (show_page page))"
  by (auto simp: page_routes_def)

lemma Routes_cases:
  assumes "((m, p), h) \<in> set (Routes site)"
  obtains (health) "h = healthz (si_Options site)"
  | (usage) "m = ''GET''" "p = Exactly ''/api/v1/usage''" "h = usageHandler site"
  | (me) "h = gated site (meHandler site)"
  | (page) page where "h = gated site (admin site (show_page page))"
  | (static) "h = gated site staticHandler"
  | (action) "((m, p), h) \<in> set (registerActions site)"
  using assms by (auto simp: Routes_def split: if_splits dest!: page_route)

lemma pages_change_nothing: "gated site (admin site (show_page page)) rq s = (r, s') \<Longrightarrow> s' = s"
  by (auto simp: show_page_def dest!: gated_cases admin_cases)

lemma static_changes_nothing: "gated site staticHandler rq s = (r, s') \<Longrightarrow> s' = s"
  by (auto simp: staticHandler_def dest!: gated_cases)

lemma me_changes_nothing: "gated site (meHandler site) rq s = (r, s') \<Longrightarrow> s' = s"
  by (auto dest!: gated_cases step_me)

lemma health_changes_nothing: "healthz opts rq s = (r, s') \<Longrightarrow> s' = s"
  by (auto simp: healthz_def Let_def)

lemmas unchanged = pages_change_nothing static_changes_nothing me_changes_nothing health_changes_nothing

lemma action_steps:
  assumes "next \<in> {actionReconcile site, actionObserve site, actionTier site, actionOverride site, actionLink site,
      actionGroup site, actionKeys site}" "next rq s = (r, s')"
  shows "steps site interval rq s s'"
  using assms step_of by auto

lemma serve_steps:
  assumes "serve site rq s = (r, s')"
  shows "steps site interval rq s s' \<and>
    (s' = s \<or> rq_Path rq = ''/api/v1/usage'' \<and> usageHandler site rq s = (r, s') \<or>
     op_Actor (si_Options site) \<and> rq_Method rq = ''POST'' \<and> HasPrefix (rq_Path rq) ''/actions/'' \<and> authorised site rq)"
  using assms
proof (cases rule: serve_cases)
  case (route m p h)
  from route(1) show ?thesis
  proof (cases rule: Routes_cases)
    case usage
    with route show ?thesis by (auto simp: path_matches_def dest: step_usage)
  next
    case action
    from action_routes [OF this] obtain path "next" where a: "op_Actor (si_Options site)" "m = ''POST''"
      "p = Exactly (''/actions/'' @ path)" "h = guard site next"
      "next \<in> {actionReconcile site, actionObserve site, actionTier site, actionOverride site, actionLink site,
        actionGroup site, actionKeys site}" by blast
    have path: "HasPrefix (rq_Path rq) ''/actions/''" "rq_Method rq = ''POST''"
      using route(2,3) a(2,3) by (auto simp: method_matches_def path_matches_def HasPrefix_def)
    from route(4) a(4) guard_cases have "s' = s \<or> authorised site rq \<and> next rq s = (r, s')" by metis
    then show ?thesis
      using path a(1) action_steps [OF a(5)] by (elim disjE) simp_all
  qed (use route(4) in \<open>auto dest!: unchanged\<close>)
qed simp

section \<open>Who can change what\<close>





definition ex_options :: Options where
  "ex_options = \<lparr>op_Version = ''1'', op_Ping = Some True, op_Store = True, op_Actor = True, op_AdminPassword = ''pw'',
     op_ProxySecret = ''px'', op_RefreshInterval = 0, op_TrustedProxy = ''10.0.0.0/8'', op_SiteName = []\<rparr>"

definition ex_site :: "Quota Site" where
  "ex_site = \<lparr>si_Options = ex_options, si_Server = ex_server, si_URLHost = (\<lambda>url. map_option snd (Cut url ''//'')),
     si_Text = (\<lambda>_. ''failed''), si_Float = (\<lambda>_. 0), si_Percent = 0\<rparr>"

definition ex_request :: "string \<Rightarrow> string \<Rightarrow> (string \<times> string) list \<Rightarrow> (string \<times> string list) list \<Rightarrow> Request" where
  "ex_request m path headers form =
     \<lparr>rq_Method = m, rq_Path = path, rq_Host = ''nuno'', rq_RemoteAddr = ''10.0.0.7:4000'', rq_Headers = headers,
      rq_Query = [], rq_Form = form, rq_FormOK = True, rq_Now = 1000, rq_Held = False, rq_Fresh = ''key1''\<rparr>"

text \<open>The form that issues a key, with the header of the password \<open>pw\<close>.\<close>

definition ex_form :: Request where
  "ex_form = ex_request ''POST'' ''/actions/keys''
     [(''X-Nuno-Proxy-Secret'', ''px''), (''Authorization'', ''Basic OnB3''), (''Origin'', ''https://nuno'')]
     [(''label'', [''widget''])]"

definition ex_surface :: "Database \<Rightarrow> Quota Surface" where
  "ex_surface db = \<lparr>sf_World = ex_world (bytes 300), sf_DB = db, sf_Limiter = newLimiter 60 20\<rparr>"

lemma ex_serve_keys:
  "rq_Method rq = ''POST'' \<Longrightarrow> rq_Path rq = ''/actions/keys'' \<Longrightarrow>
     serve ex_site rq s = guard ex_site (actionKeys ex_site) rq s"
  by (simp add: serve_def Routes_def page_routes_def registerActions_def ex_site_def ex_options_def method_matches_def
      path_matches_def HasPrefix_def)

lemma ex_form_served:
  "\<exists>r s'. serve ex_site ex_form (ex_surface empty_db) = (r, s') \<and> length (d_Keys (sf_DB s')) = 1"
proof -
  have "admin_ok ex_site ex_form" "proxy_ok ex_site ex_form" "from_here (si_URLHost ex_site) ex_form" by code_simp+
  then have "guard ex_site (actionKeys ex_site) ex_form s = actionKeys ex_site ex_form s" for s
    by (intro guard_open) (simp add: authorised_def)
  moreover have "rq_Method ex_form = ''POST''" "rq_Path ex_form = ''/actions/keys''" by (simp_all add: ex_form_def ex_request_def)
  ultimately have "serve ex_site ex_form s = actionKeys ex_site ex_form s" for s
    by (simp add: ex_serve_keys)
  moreover have "length (d_Keys (sf_DB (snd (actionKeys ex_site ex_form (ex_surface empty_db))))) = 1" by code_simp
  ultimately show ?thesis by (metis prod.collapse)
qed


text \<open>C26 A request over HTTP is at most one step of the server, so every guarantee of a run of the server is one
  of what is asked over HTTP; and it is a click with consent only when an authorised form ticked the box.\<close>

theorem requests_are_server_steps:
  assumes "serve site rq s = (r, s')"
  shows "held s' = held s \<or> (\<exists>a. server_step (si_Server site) interval a (held s) (held s') \<and>
    (a = Click True \<longrightarrow> PostFormValue rq ''allow_shrink'' \<noteq> []))"
  using serve_steps [OF assms] by (simp add: steps_def)

theorem requests_are_server_steps_witness:
  "\<exists>a s'. server_step ex_server 0 a (held (ex_surface empty_db)) (held s') \<and> a \<noteq> Click True"
proof -
  obtain r s' where served: "serve ex_site ex_form (ex_surface empty_db) = (r, s')" "length (d_Keys (sf_DB s')) = 1"
    using ex_form_served by blast
  have "held s' \<noteq> held (ex_surface empty_db)" using served(2) by (auto simp: ex_surface_def empty_db_def)
  moreover have "PostFormValue ex_form ''allow_shrink'' = []" by code_simp
  ultimately show ?thesis
    using requests_are_server_steps [OF served(1), of 0] by (auto simp: ex_site_def)
qed

section \<open>Who reads what\<close>

lemma serve_usage:
  assumes "rq_Path rq = ''/api/v1/usage''" "serve site rq s = (r, s')"
  shows "usageHandler site rq s = (r, s') \<or> r = http_error 404 ''404 page not found'' \<or> r = http_error 405 ''Method Not Allowed''"
  using assms by (auto simp: serve_def Routes_def page_routes_def registerActions_def path_matches_def HasPrefix_def
      split: if_splits)

lemma serve_me:
  assumes "rq_Path rq = ''/me''" "serve site rq s = (r, s')"
  shows "gated site (meHandler site) rq s = (r, s') \<or> r = http_error 404 ''404 page not found'' \<or> r = http_error 405 ''Method Not Allowed''"
  using assms by (auto simp: serve_def Routes_def page_routes_def registerActions_def path_matches_def HasPrefix_def
      split: if_splits)

text \<open>C27 Usage is for the holders of a key. A usage response with content is sent only to a request that
  presented a key whose hash is stored and not revoked, and its content is the usage of the file.\<close>

theorem usage_is_for_key_holders:
  assumes "serve site rq s = (r, s')" "rq_Path rq = ''/api/v1/usage''" "rp_Code r = 200"
  shows "\<exists>key row response. bearer rq = Some key \<and> row \<in> set (d_Keys (sf_DB s)) \<and>
    kr_Hash row = srv_Hash (si_Server site) key \<and> kr_RevokedAt row = None \<and>
    buildUsage site (rq_Now rq) (Query_Get rq ''with_accounts'' = ''1'') (sf_DB s') = Inr response \<and>
    rp_Body r = usage_body rq response"
  using serve_usage [OF assms(2,1)] assms(3)
  by (auto simp: usageHandler_def unauthorized_def writeJSONError_def http_error_def Let_def CheckAdminKey_def
      split: option.splits prod.splits if_splits sum.splits dest!: find_SomeD)

definition ex_ask :: Request where
  "ex_ask = ex_request ''GET'' ''/api/v1/usage'' [(''Authorization'', ''Bearer old'')] []"

theorem usage_is_for_key_holders_witness:
  "\<exists>row \<in> set (d_Keys ex_keyed). kr_Hash row = ''old'' \<and> kr_RevokedAt row = None"
proof -
  let ?s = "ex_surface ex_keyed"
  have route: "serve ex_site ex_ask ?s = usageHandler ex_site ex_ask ?s"
    by (simp add: serve_def Routes_def ex_site_def ex_options_def method_matches_def path_matches_def ex_ask_def ex_request_def)
  have read: "is_ok (usage_input 1000 (15 * (60 * second)) (fst (CheckAdminKey (\<lambda>k. k) ''old'' 1000 ex_keyed)))"
    by code_simp
  have "bearer ex_ask = Some ''old''" "rq_Now ex_ask = 1000" "CountAdminKeys ex_keyed \<noteq> 0"
    "fst (allow ''old'' 1000 (newLimiter 60 20))" "snd (CheckAdminKey (\<lambda>k. k) ''old'' 1000 ex_keyed)" "take 16 ''old'' = ''old''"
    by code_simp+
  then have "rp_Code (fst (usageHandler ex_site ex_ask ?s :: Page Response \<times> _)) = 200" using read
    by (auto simp: usageHandler_def ex_site_def ex_server_def ex_options_def ex_surface_def credential_key_def buildUsage_def
        refresh_or_default_def bind_result_def Let_def split: prod.split sum.split)
  with route have "serve ex_site ex_ask ?s = (fst (serve ex_site ex_ask ?s), snd (serve ex_site ex_ask ?s))"
    "rp_Code (fst (serve ex_site ex_ask ?s)) = 200" by simp_all
  moreover have "rq_Path ex_ask = ''/api/v1/usage''" "bearer ex_ask = Some ''old''" by code_simp+
  moreover have "srv_Hash (si_Server ex_site) = (\<lambda>k. k)" "sf_DB ?s = ex_keyed"
    by (simp_all add: ex_site_def ex_server_def ex_surface_def)
  ultimately show ?thesis
    using usage_is_for_key_holders [of ex_site ex_ask ?s "fst (serve ex_site ex_ask ?s)" "snd (serve ex_site ex_ask ?s)"]
    by auto
qed

text \<open>C28 A person's page is their own. When the page of a person shows somebody, the request came through the
  proxy, from the trusted network, and it is the person the proxy named.\<close>

theorem me_is_only_yourself:
  assumes "serve site rq s = (r, s')" "rq_Path rq = ''/me''" "rp_Body r = Html (MePage page)" "me_User page = Some u"
  shows "proxy_ok site rq \<and> fromTrustedProxy rq (op_TrustedProxy (si_Options site)) \<and>
    vu_User u = TrimSpace (Header_Get rq ''Remote-User'') \<and>
    (\<exists>response. buildUsage site (rq_Now rq) True (sf_DB s) = Inr response \<and> u \<in> set (ur_Users response))"
proof -
  from serve_me [OF assms(2,1)] assms(3) have "gated site (meHandler site) rq s = (r, s')"
    by (auto simp: http_error_def)
  then have "proxy_ok site rq" "meHandler site rq s = (r, s')"
    using gated_cases [of site "meHandler site" rq s r s'] assms(3) by (auto simp: http_error_def)
  then show ?thesis using assms(3,4)
    by (auto simp: meHandler_def html_def http_error_def Let_def split: if_splits sum.splits dest!: find_SomeD)
qed

text \<open>The usage of the example: one person, who has one account.\<close>

definition ex_input :: "Time \<Rightarrow> Duration \<Rightarrow> UsageInput" where
  "ex_input now interval =
     \<lparr>ui_Now = now, ui_RefreshInterval = interval, ui_Users = [ex_user [''g1'']],
      ui_Providers = [observed_provider ex_row], ui_Accounts = [ex_seen (bytes 300)], ui_Policy = ex_stored,
      ui_UserPolicies = [7 \<mapsto> ex_overrides]\<rparr>"

lemma ex_usage_input: "usage_input now interval ex_start = Inr (ex_input now interval)"
proof -
  have "active_users ex_start = [ex_user [''g1'']]"
    using ex_users [of "[ex_link]" "bytes 300"] by (simp add: active_users_def ex_user_def)
  moreover have "ListProviders ex_start = [ex_row]" by code_simp
  moreover have "ListAllExternalAccounts ex_start = Inr [ex_seen (bytes 300)]"
    using ex_decode_account [OF ex_valid(2), of "Some 7"]
    by (simp add: ListAllExternalAccounts_def ex_db_def ex_link_def ex_seen_def)
  ultimately show ?thesis by (simp add: usage_input_def ex_load ex_userpolicy ex_input_def ex_fields)
qed

definition ex_visit :: Request where
  "ex_visit = ex_request ''GET'' ''/me'' [(''X-Nuno-Proxy-Secret'', ''px''), (''Remote-User'', ''ann'')] []"

theorem me_is_only_yourself_witness:
  "fromTrustedProxy ex_visit ''10.0.0.0/8'' \<and> proxy_ok ex_site ex_visit"
proof -
  let ?s = "ex_surface ex_start" and ?r = "with_accounts (BuildUsage 0 (ex_input 1000 (15 * (60 * second))))"
  have "find (\<lambda>p. ob_ID p = xa_ProviderID (ex_seen (bytes 300))) [observed_provider ex_row] = Some (observed_provider ex_row)"
    "xa_UserID (ex_seen (bytes 300)) = Some 7" by code_simp+
  then have "vu_Providers (usage_entry 0 (ex_input 1000 i) (ex_user [''g1''])) \<noteq> []" for i
    by (auto simp: usage_entry_providers ex_input_def ex_fields)
  then have shown: "map vu_User (ur_Users ?r) = [''ann'']"
    by (simp add: with_accounts_def BuildUsage_def ex_fields) (simp add: ex_input_def ex_fields)
  then obtain u where u: "ur_Users ?r = [u]" "vu_User u = ''ann''" by auto
  have trusted: "fromTrustedProxy ex_visit ''10.0.0.0/8''" "proxy_ok ex_site ex_visit"
    "TrimSpace (Header_Get ex_visit ''Remote-User'') = ''ann''" by code_simp+
  have usage: "buildUsage ex_site 1000 True ex_start = Inr ?r"
    by (simp add: buildUsage_def ex_usage_input refresh_or_default_def ex_site_def ex_options_def)
  define page where "page = \<lparr>me_User = Some u, me_Theme = ''auto'', me_SiteName = []\<rparr>"
  have "Query_Get ex_visit ''theme'' = []" "rq_Now ex_visit = 1000" by code_simp+
  with trusted usage u have "meHandler ex_site ex_visit ?s = (html (MePage page), ?s)"
    by (simp add: meHandler_def ex_site_def ex_options_def ex_surface_def page_def Let_def)
  with trusted(2) have "gated ex_site (meHandler ex_site) ex_visit ?s = (html (MePage page), ?s)"
    by (auto simp: gated_def proxy_def proxy_ok_def)
  moreover have path: "rq_Path ex_visit = ''/me''" "rq_Method ex_visit = ''GET''" by code_simp+
  ultimately have "serve ex_site ex_visit ?s = (html (MePage page), ?s)"
    by (simp add: serve_def Routes_def ex_site_def ex_options_def method_matches_def path_matches_def)
  from me_is_only_yourself [OF this path(1), of page u] show ?thesis
    by (simp add: html_def page_def ex_site_def ex_options_def)
qed

section \<open>Where a redirect leads\<close>

definition stays_here :: "'p Response \<Rightarrow> bool" where
  "stays_here r \<longleftrightarrow> (\<forall>url. map_of (rp_Header r) ''Location'' = Some url \<longrightarrow>
     HasPrefix url ''/'' \<and> \<not> HasPrefix url ''//'')"

named_theorems stays \<comment> \<open>what one handler answers leads nowhere else\<close>

lemma returnTo_local: "HasPrefix (returnTo rq @ CHR ''?'' # s) ''/'' \<and> \<not> HasPrefix (returnTo rq @ CHR ''?'' # s) ''//''"
proof -
  have "HasPrefix (t @ CHR ''?'' # s) ''/'' \<and> \<not> HasPrefix (t @ CHR ''?'' # s) ''//''"
    if "HasPrefix t ''/''" "\<not> HasPrefix t ''//''" for t
  proof (cases t)
    case (Cons c cs)
    with that show ?thesis by (cases cs) (auto simp: HasPrefix_def)
  qed (use that in \<open>simp add: HasPrefix_def\<close>)
  moreover have "HasPrefix (returnTo rq) ''/'' \<and> \<not> HasPrefix (returnTo rq) ''//''"
    by (auto simp: returnTo_def Let_def HasPrefix_def split: option.split)
  ultimately show ?thesis by blast
qed

lemma stays_answers [simp]:
  "stays_here (respondWith rq kind message v extra)" "stays_here (respond rq kind message v)"
  "stays_here (redirect rq kind message)" "stays_here (refused site rq e)" "stays_here (html page)"
  "stays_here (http_error code message)"
  using returnTo_local [of rq]
  by (simp_all add: stays_here_def respond_def redirect_def refused_def respondWith_def html_def http_error_def no_store_def)

lemma stays_actions [stays]:
  "actionReconcile site rq s = (r, s') \<Longrightarrow> stays_here r" "actionObserve site rq s = (r, s') \<Longrightarrow> stays_here r"
  "actionTier site rq s = (r, s') \<Longrightarrow> stays_here r" "actionOverride site rq s = (r, s') \<Longrightarrow> stays_here r"
  "actionLink site rq s = (r, s') \<Longrightarrow> stays_here r" "actionGroup site rq s = (r, s') \<Longrightarrow> stays_here r"
  "actionKeys site rq s = (p, s') \<Longrightarrow> stays_here p"
  by (auto simp: actionReconcile_def actionObserve_def actionTier_def actionOverride_def actionLink_def actionGroup_def
      actionKeys_def revoke_key_def Let_def split: if_splits option.splits sum.splits prod.splits)

lemma stays_reads [stays]:
  "usageHandler site rq s = (r, s') \<Longrightarrow> stays_here r"
  "meHandler site rq s = (p, s') \<Longrightarrow> stays_here p"
  "healthz opts rq s = (r, s') \<Longrightarrow> stays_here r"
  "staticHandler rq s = (r, s') \<Longrightarrow> stays_here r"
  "show_page page rq s = (p, s') \<Longrightarrow> stays_here p"
  by (auto simp: usageHandler_def unauthorized_def writeJSONError_def meHandler_def healthz_def staticHandler_def show_page_def
      Let_def split: if_splits option.splits sum.splits prod.splits,
      auto simp: stays_here_def no_store_def split: if_splits)

lemma stays_gated [stays]: "gated site next rq s = (r, s') \<Longrightarrow> (\<And>r. next rq s = (r, s') \<Longrightarrow> stays_here r) \<Longrightarrow> stays_here r"
  by (drule gated_cases) auto

lemma stays_admin [stays]: "admin site next rq s = (r, s') \<Longrightarrow> (\<And>r. next rq s = (r, s') \<Longrightarrow> stays_here r) \<Longrightarrow> stays_here r"
  by (drule admin_cases) (auto simp: stays_here_def)

lemma stays_guard [stays]: "guard site next rq s = (r, s') \<Longrightarrow> (\<And>r. next rq s = (r, s') \<Longrightarrow> stays_here r) \<Longrightarrow> stays_here r"
  by (drule guard_cases) (auto simp: stays_here_def)

text \<open>A redirect leads nowhere else. Whatever the form says, a location the surface sends the browser to is an
  absolute path of the surface: it starts with one slash and not with two.\<close>

theorem redirects_stay_on_the_surface:
  assumes "serve site rq s = (r, s')" "map_of (rp_Header r) ''Location'' = Some url"
  shows "HasPrefix url ''/'' \<and> \<not> HasPrefix url ''//''"
proof -
  have "stays_here r" using assms(1)
  proof (cases rule: serve_cases)
    case (route m p h)
    from route(1) show ?thesis
    proof (cases rule: Routes_cases)
      case action
      from action_routes [OF this] route(4) show ?thesis by (auto intro: stays_guard stays_actions)
    qed (use route(4) in \<open>blast intro: stays_gated stays_admin stays_reads\<close>)+
  qed (simp add: stays_here_def)
  with assms(2) show ?thesis by (simp add: stays_here_def)
qed

text \<open>A form that cannot be read and asks to be sent to another host.\<close>

definition ex_detour :: Request where
  "ex_detour = ex_form\<lparr>rq_FormOK := False, rq_Form := [(''return'', [''//evil.example/x''])]\<rparr>"

theorem redirects_stay_on_the_surface_witness:
  "\<exists>r s'. serve ex_site ex_detour (ex_surface empty_db) = (r, s') \<and> rp_Code r = 303 \<and>
     (\<exists>url. map_of (rp_Header r) ''Location'' = Some url \<and> \<not> HasPrefix url ''//'')"
proof -
  let ?s = "ex_surface empty_db" and ?r = "redirect ex_detour ''err'' ''Malformed form'' :: Page Response"
  have "authorised ex_site ex_detour" unfolding authorised_def by (intro conjI; code_simp)
  moreover have "rq_Method ex_detour = ''POST''" "rq_Path ex_detour = ''/actions/keys''" "\<not> rq_FormOK ex_detour"
    by (simp_all add: ex_detour_def ex_form_def ex_request_def)
  ultimately have served: "serve ex_site ex_detour ?s = (?r, ?s)"
    by (simp add: ex_serve_keys guard_open actionKeys_def)
  have "Header_Get ex_detour ''X-Requested-With'' \<noteq> ''nuno-inline-edit''" by code_simp
  then have r: "rp_Code ?r = 303" "\<exists>url. map_of (rp_Header ?r) ''Location'' = Some url"
    by (simp_all add: redirect_def respond_def respondWith_def)
  then show ?thesis using redirects_stay_on_the_surface [OF served] served by blast
qed

end
