(* ===== verification/DashboardGuarantees.thy ===== *)
theory DashboardGuarantees
  imports Actions Examples
begin

text \<open>
  What is shown and what is typed: the usage a dashboard reads is what was observed, the view by
  service is the sum over its people, what the editor shows is what it reads back, a form makes the
  tier it says, and a redundant override is one that can go.
\<close>

section \<open>What is shown\<close>





text \<open>The view by service hides nobody and shows nobody. It has one row per kind of service, in order, and each
  row is the total over all the entries of that kind: what is read is summed, and an entry that cannot be read
  marks the row as partial.\<close>

theorem service_view_is_the_sum:
  "map uw_Name (ud_Rows (BuildUsageByService response)) =
     map TitleCase (sorted_list_of_set (vp_Type ` set (concat (map vu_Providers (ur_Users response))))) \<and>
   ud_Rows (BuildUsageByService response) =
     map (\<lambda>typ. service_row typ (foldl add_to_total no_total
            (filter (\<lambda>p. vp_Type p = typ) (concat (map vu_Providers (ur_Users response))))))
       (sorted_list_of_set (vp_Type ` set (concat (map vu_Providers (ur_Users response)))))"
  by (simp add: BuildUsageByService_eq total_of_def service_row_def Let_def)

section \<open>What is typed\<close>

text \<open>The editor shows what it reads back: a quota of a whole number of GiB below eight exabytes is shown as that
  number, and typing the number again gives the same quota.\<close>

theorem editor_roundtrip:
  assumes "0 \<le> k" "k < 2 ^ 33"
  shows "editGiB (bytes (k * 2 ^ 30)) = show_nat (nat k) \<and>
    ParseSizeInGiB oor (editGiB (bytes (k * 2 ^ 30))) = Inr (bytes (k * 2 ^ 30))"
proof -
  have "editGiB (bytes (k * 2 ^ 30)) = show_nat (nat k)"
    using FormatGiBNumber_whole [OF assms] by (simp add: editGiB_def bytes_def Quota_IsBytes_def)
  moreover have "ParseSizeInGiB oor (show_nat (nat k)) = Inr (bytes (k * 2 ^ 30))"
    using ParseSizeInGiB_number [of "nat k" oor] assms by (simp add: bytes_def)
  ultimately show ?thesis by simp
qed

theorem editor_roundtrip_witness:
  "ParseSizeInGiB oor (editGiB (bytes (250 * 2 ^ 30))) = Inr (bytes (250 * 2 ^ 30))"
  by (rule conjunct2 [OF editor_roundtrip]) simp_all

text \<open>Two quotas below one hundredth of a GiB look alike, so no reading gives both back.\<close>

lemma different_quotas_look_alike: "editGiB (bytes 1) = editGiB (bytes 2)"
proof -
  have "FormatGiBNumber 1 = ''0.00''" "FormatGiBNumber 2 = ''0.00''" by code_simp+
  then show ?thesis by (simp add: editGiB_def bytes_def Quota_IsBytes_def)
qed

lemma ParseAllocationInGiB_number:
  assumes "k < 2 ^ 33"
  shows "ParseAllocationInGiB oor (show_nat k) =
    Inr \<lparr>al_ProviderID = 0, al_Mode = ModeAbsolute, al_Value = word_of_int (int k * 2 ^ 30)\<rparr>"
proof -
  have k: "k < 2 ^ 53" using assms by (rule order.strict_trans) simp
  note t = show_nat_text [of k]
  have trim: "TrimSpace (show_nat k) = show_nat k" by (rule TrimSpace_id) (use t in simp_all)
  have trim': "TrimSpace (show_nat k @ ''GiB'') = show_nat k @ ''GiB''"
    by (rule TrimSpace_id) (use t in \<open>simp_all add: is_space_def\<close>)
  have "ParseSize oor (show_nat k @ ''GiB'') = Inr (bytes (int k * 2 ^ 30))"
    using ParseSizeInGiB_number [OF assms, of oor] t
    by (simp add: ParseSizeInGiB_def Let_def trim ParseFloat_show_nat [OF k] bytes_def)
  moreover have "CutSuffix (show_nat k @ ''GiB'') ''%'' = None" by (auto simp: CutSuffix_def HasSuffix_def)
  ultimately show ?thesis
    using t by (simp add: ParseAllocationInGiB_def ParseAllocation_def Let_def trim trim' ParseFloat_show_nat [OF k] bytes_def)
qed

lemma allocation_fields_ok:
  assumes "allocation_fields oor kvs t = Inr t'"
  shows "\<exists>as. tf_Allocations t' = tf_Allocations t @ as \<and> (\<forall>a \<in> set as. alloc_ok a) \<and>
    tf_HasPercent t' = (tf_HasPercent t \<or> (\<exists>a \<in> set as. al_Mode a = ModePercent)) \<and>
    tf_HasUnlimited t' = (tf_HasUnlimited t \<or> (\<exists>a \<in> set as. al_Mode a = ModeUnlimited)) \<and>
    tf_Absolute t' = tf_Absolute t + sum_list (map al_Value (filter is_absolute as))"
  using assms
proof (induction oor kvs t rule: allocation_fields.induct)
  case (2 oor kv kvs t)
  show ?case
  proof (cases "allocation_field kv")
    case None
    with 2 show ?thesis by simp
  next
    case (Some x)
    obtain i v where x: "x = (i, v)" by force
    with Some 2(3) obtain a where a: "ParseAllocationInGiB oor v = Inr a"
      "allocation_fields oor kvs (add_allocation (a\<lparr>al_ProviderID := i\<rparr>) t) = Inr t'"
      by (auto split: sum.splits)
    have ok: "alloc_ok (a\<lparr>al_ProviderID := i\<rparr>)"
      using ParseAllocationInGiB_ok [OF a(1)] by (auto simp: alloc_ok_def split: AllocationMode.splits)
    from 2(2) [OF Some x [symmetric] a] obtain as where as:
      "tf_Allocations t' = tf_Allocations (add_allocation (a\<lparr>al_ProviderID := i\<rparr>) t) @ as" "\<forall>a \<in> set as. alloc_ok a"
      "tf_HasPercent t' = (tf_HasPercent (add_allocation (a\<lparr>al_ProviderID := i\<rparr>) t) \<or> (\<exists>a \<in> set as. al_Mode a = ModePercent))"
      "tf_HasUnlimited t' = (tf_HasUnlimited (add_allocation (a\<lparr>al_ProviderID := i\<rparr>) t) \<or> (\<exists>a \<in> set as. al_Mode a = ModeUnlimited))"
      "tf_Absolute t' = tf_Absolute (add_allocation (a\<lparr>al_ProviderID := i\<rparr>) t) + sum_list (map al_Value (filter is_absolute as))"
      by blast
    show ?thesis
      by (rule exI [where x = "a\<lparr>al_ProviderID := i\<rparr> # as"])
        (use as ok in \<open>auto simp: add_allocation_def is_absolute_def [abs_def] Let_def split: AllocationMode.splits\<close>)
  qed
qed simp

text \<open>A form makes the tier it says. Every allocation of a tier made by the form is one that validation accepts,
  and a tier whose ceilings are all absolute has their sum, as a 64-bit integer, as its budget.\<close>

theorem form_makes_a_valid_tier:
  assumes "form_tier site rq = Inr tier"
  shows "(\<forall>a \<in> set (t_Allocations tier). alloc_ok a) \<and> t_Name tier = field rq ''name'' \<and>
    (t_Allocations tier \<noteq> [] \<and> (\<forall>a \<in> set (t_Allocations tier). al_Mode a = ModeAbsolute) \<longrightarrow>
       t_Budget tier = \<lparr>q_Kind = KindBytes, q_Bytes = sum_list (map al_Value (t_Allocations tier))\<rparr>)"
proof -
  from assms obtain budget t where t: "allocation_fields (si_Float site) (rq_Form rq) no_allocations = Inr t"
    and tier: "t_Allocations tier = tf_Allocations t" "t_Name tier = field rq ''name''"
    and budget: "tf_Allocations t \<noteq> [] \<and> \<not> tf_HasPercent t \<and> \<not> tf_HasUnlimited t \<longrightarrow>
      BytesQuota (tf_Absolute t) = Inr (t_Budget tier)"
    by (auto simp: form_tier_def bind_result_eq_Inr split: if_splits sum.splits)
  from allocation_fields_ok [OF t] have a: "\<forall>a \<in> set (tf_Allocations t). alloc_ok a"
    "tf_HasPercent t = (\<exists>a \<in> set (tf_Allocations t). al_Mode a = ModePercent)"
    "tf_HasUnlimited t = (\<exists>a \<in> set (tf_Allocations t). al_Mode a = ModeUnlimited)"
    "tf_Absolute t = sum_list (map al_Value (filter is_absolute (tf_Allocations t)))"
    by (auto simp: no_allocations_def)
  have "filter is_absolute (tf_Allocations t) = tf_Allocations t"
    if "\<forall>a \<in> set (tf_Allocations t). al_Mode a = ModeAbsolute"
    using that by (simp add: is_absolute_def)
  with a budget tier show ?thesis by (auto simp: BytesQuota_eq_Inr)
qed

definition ex_tier_form :: Request where
  "ex_tier_form = \<lparr>rq_Method = ''POST'', rq_Path = ''/actions/tier'', rq_Host = [], rq_RemoteAddr = [], rq_Headers = [],
     rq_Query = [], rq_Form = [(''name'', [''family'']), (''alloc_1'', [''2'']), (''alloc_2'', [''1''])],
     rq_FormOK = True, rq_Now = 0, rq_Held = False, rq_Fresh = []\<rparr>"

theorem form_makes_a_valid_tier_witness:
  "\<exists>tier. form_tier site ex_tier_form = Inr tier \<and> t_Budget tier = bytes (3 * 2 ^ 30) \<and> (\<forall>a \<in> set (t_Allocations tier). alloc_ok a)"
proof -
  let ?as = "[ex_alloc 1 ModeAbsolute (2 * 2 ^ 30), ex_alloc 2 ModeAbsolute (1 * 2 ^ 30)]"
  have "show_nat 2 = ''2''" "show_nat 1 = ''1''" by code_simp+
  then have read: "ParseAllocationInGiB oor ''2'' = Inr \<lparr>al_ProviderID = 0, al_Mode = ModeAbsolute, al_Value = 2147483648\<rparr>"
    "ParseAllocationInGiB oor ''1'' = Inr \<lparr>al_ProviderID = 0, al_Mode = ModeAbsolute, al_Value = 1073741824\<rparr>" for oor
    using ParseAllocationInGiB_number [of 2 oor] ParseAllocationInGiB_number [of 1 oor] by simp_all
  have "FormatInt 1 = ''1''" "FormatInt 2 = ''2''" by code_simp+
  then have ints: "ParseInt ''1'' = Inr 1" "ParseInt ''2'' = Inr 2"
    using ParseInt_FormatInt [of 1] ParseInt_FormatInt [of 2] by simp_all
  have "CutPrefix ''name'' ''alloc_'' = None" "CutPrefix ''alloc_1'' ''alloc_'' = Some ''1''"
    "CutPrefix ''alloc_2'' ''alloc_'' = Some ''2''" "TrimSpace ''1'' = ''1''" "TrimSpace ''2'' = ''2''" by code_simp+
  then have fields: "map allocation_field (rq_Form ex_tier_form) = [None, Some (1, ''2''), Some (2, ''1'')]"
    using ints by (simp add: ex_tier_form_def allocation_field_def)
  have form: "field ex_tier_form ''budget'' = []" "PostFormValue ex_tier_form ''is_default'' = []" by code_simp+
  have "is_ok (BytesQuota (2147483648 + 1073741824))" by code_simp
  then obtain q where q: "BytesQuota (2147483648 + 1073741824) = Inr q" by (cases "BytesQuota (2147483648 + 1073741824)") auto
  have "\<exists>tier. form_tier site ex_tier_form = Inr tier \<and> t_Allocations tier = ?as"
    using fields form read q by (auto simp: form_tier_def form_budget_def bind_result_def ex_tier_form_def no_allocations_def
        add_allocation_def ex_alloc_def Let_def)
  then obtain tier where tier: "form_tier site ex_tier_form = Inr tier" "t_Allocations tier = ?as" by blast
  from form_makes_a_valid_tier [OF tier(1)] tier(2)
  show ?thesis by (intro exI [where x = tier]) (simp add: tier(1) ex_alloc_def bytes_def)
qed

section \<open>A redundant override\<close>

text \<open>A redundant override is one that can go. When the page does not tag an override, taking it away leaves the
  ceiling of that person on that provider present and as it was.\<close>

theorem redundant_override_can_go:
  assumes "overrideRedundant user providerID policy up"
    and "\<forall>q. up_ProviderOverrides up providerID = Some q \<longrightarrow> Quota_Valid q = None"
  defines "without \<equiv> up\<lparr>up_ProviderOverrides := (up_ProviderOverrides up)(providerID := None)\<rparr>"
  shows "r_Present (Resolve user providerID policy without) \<and>
    r_Ceiling (Resolve user providerID policy without) = r_Ceiling (Resolve user providerID policy up)"
proof -
  from assms(1) obtain q where q: "up_ProviderOverrides up providerID = Some q"
    "r_Present (Resolve user providerID policy without)" "Quota_Equal (r_Ceiling (Resolve user providerID policy without)) q"
    by (auto simp: overrideRedundant_def without_def Let_def split: option.splits)
  have "Quota_Valid (r_Ceiling (Resolve user providerID policy without)) = None"
    by (rule Resolve_ceiling_valid) (simp add: without_def)
  with q assms(2) have "r_Ceiling (Resolve user providerID policy without) = q" by (simp add: Quota_Equal_iff_eq)
  with q show ?thesis by (simp add: Resolve_override)
qed

theorem redundant_override_can_go_witness:
  "r_Ceiling (Resolve (ex_user [''g1'']) 1 ex_policy ex_overrides) = bytes 400"
proof -
  let ?up = "ex_overrides\<lparr>up_ProviderOverrides := [1 \<mapsto> bytes 400]\<rparr>"
  have "overrideRedundant (ex_user [''g1'']) 1 ex_policy ?up" "Quota_Valid (bytes 400) = None"
    "r_Ceiling (Resolve (ex_user [''g1'']) 1 ex_policy ?up) = bytes 400" by code_simp+
  moreover have "?up\<lparr>up_ProviderOverrides := (up_ProviderOverrides ?up)(1 := None)\<rparr> = ex_overrides"
    by (simp add: ex_overrides_def)
  ultimately show ?thesis
    using redundant_override_can_go [of "ex_user [''g1'']" 1 ex_policy ?up] by simp
qed

end
