(* ===== verification/Config.thy ===== *)
theory Config
  imports Net Wire
begin

text \<open>
  \<open>internal/config\<close>: the environment and the env-style file (\<open>env.go\<close>), and the configuration read
  from them (\<open>config.go\<close>), with every problem found. An environment is a list of keys with their
  values, no key twice, in the order a loop over the map takes. A line of the file is shorter than
  the 64 KiB a scanner takes.
\<close>

section \<open>Durations\<close>

text \<open>\<open>time.ParseDuration\<close>: numbers with a unit, the fraction computed in floating point.\<close>

fun leadingInt :: "int \<Rightarrow> string \<Rightarrow> (int \<times> string) option" where
  "leadingInt x [] = Some (x, [])"
| "leadingInt x (c # cs) =
     (case digit_val c of
        None \<Rightarrow> Some (x, c # cs)
      | Some d \<Rightarrow>
          if 2 ^ 63 div 10 < x then None
          else if 2 ^ 63 < x * 10 + int d then None else leadingInt (x * 10 + int d) cs)"

fun leadingFraction :: "int \<Rightarrow> rat \<Rightarrow> bool \<Rightarrow> string \<Rightarrow> int \<times> rat \<times> string" where
  "leadingFraction x scale full [] = (x, scale, [])"
| "leadingFraction x scale full (c # cs) =
     (case digit_val c of
        None \<Rightarrow> (x, scale, c # cs)
      | Some d \<Rightarrow>
          if full \<or> (2 ^ 63 - 1) div 10 < x \<or> 2 ^ 63 < x * 10 + int d then leadingFraction x scale True cs
          else leadingFraction (x * 10 + int d) (fmul scale 10) False cs)"

definition unitMap :: "string \<Rightarrow> int option" where
  "unitMap u =
     (if u = ''ns'' then Some 1
      else if u \<in> {''us'', [CHR 0xC2, CHR 0xB5, CHR ''s''], [CHR 0xCE, CHR 0xBC, CHR ''s'']} then Some (10 ^ 3)
      else if u = ''ms'' then Some (10 ^ 6)
      else if u = ''s'' then Some second
      else if u = ''m'' then Some (60 * second)
      else if u = ''h'' then Some (3600 * second) else None)"

definition in_unit :: "char \<Rightarrow> bool" where
  "in_unit c \<longleftrightarrow> c \<noteq> CHR ''.'' \<and> digit_val c = None"

text \<open>The fraction after a number, its scale, what follows, and how long the digits could have been.\<close>

definition duration_fraction :: "string \<Rightarrow> (int \<times> rat \<times> string) \<times> nat" where
  "duration_fraction s =
     (case s of
        [] \<Rightarrow> ((0, 1, []), 0)
      | c # cs \<Rightarrow> if c = CHR ''.'' then (leadingFraction 0 1 False cs, length cs) else ((0, 1, s), length s))"

definition duration_amount :: "int \<Rightarrow> int \<Rightarrow> rat \<Rightarrow> int \<Rightarrow> int" where
  "duration_amount v f scale u =
     v * u + (if 0 < f then trunc_rat (fmul (f64_of_int f) (fdiv (f64_of_int u) scale)) else 0)"

text \<open>One number with its unit: its nanoseconds and what follows.\<close>

definition duration_part :: "string \<Rightarrow> (int \<times> string) option" where
  "duration_part s =
     (case leadingInt 0 s of
        None \<Rightarrow> None
      | Some (v, s1) \<Rightarrow>
          (case duration_fraction s1 of ((f, scale, s2), digits) \<Rightarrow>
             if length s1 = length s \<and> length s2 = digits then None
             else (case unitMap (takeWhile in_unit s2) of
                 None \<Rightarrow> None
               | Some u \<Rightarrow>
                   if 2 ^ 63 div u < v \<or> 2 ^ 63 < duration_amount v f scale u then None
                   else Some (duration_amount v f scale u, dropWhile in_unit s2))))"

lemma leadingInt_shorter: "leadingInt x s = Some (v, s') \<Longrightarrow> length s' \<le> length s"
  by (induction x s rule: leadingInt.induct) (fastforce split: option.splits if_splits)+

lemma leadingFraction_shorter: "length (snd (snd (leadingFraction x scale full s))) \<le> length s"
  by (induction x scale full s rule: leadingFraction.induct) (auto split: option.splits)

lemma unitMap_empty [simp]: "unitMap [] = None"
  by (simp add: unitMap_def)

lemma duration_part_shorter:
  assumes "duration_part s = Some (v, rest)"
  shows "length rest < length s"
proof -
  obtain w s1 where s1: "leadingInt 0 s = Some (w, s1)" using assms by (auto simp: duration_part_def split: option.splits)
  obtain f scale s2 digits where s2: "duration_fraction s1 = ((f, scale, s2), digits)" by (metis surj_pair)
  have "length s2 \<le> length s1"
    using s2 leadingFraction_shorter [of 0 1 False "tl s1"] by (cases s1) (auto simp: duration_fraction_def split: if_splits)
  with leadingInt_shorter [OF s1] have le: "length s2 \<le> length s" by simp
  have unit: "takeWhile in_unit s2 \<noteq> []" "rest = dropWhile in_unit s2"
    using assms unfolding duration_part_def s1 option.case prod.case s2 by (auto split: option.splits if_splits)
  have "length (takeWhile in_unit s2) + length (dropWhile in_unit s2) = length s2"
    by (metis length_append takeWhile_dropWhile_id)
  moreover have "0 < length (takeWhile in_unit s2)" using unit(1) by simp
  ultimately show ?thesis unfolding unit(2) using le by linarith
qed

function duration_parts :: "int \<Rightarrow> string \<Rightarrow> int option" where
  "duration_parts d s =
     (if s = [] then Some d
      else case duration_part s of
        None \<Rightarrow> None
      | Some (v, rest) \<Rightarrow> if 2 ^ 63 < d + v then None else duration_parts (d + v) rest)"
  by pat_completeness auto

termination
  by (relation "measure (\<lambda>(d, s). length s)") (auto dest: duration_part_shorter)

declare duration_parts.simps [simp del]

definition ParseDuration :: "string \<Rightarrow> Duration option" where
  "ParseDuration s =
     (let (neg, body) = parse_sign s in
      if body = ''0'' then Some 0
      else if body = [] then None
      else case duration_parts 0 body of
        None \<Rightarrow> None
      | Some d \<Rightarrow> if neg then Some (- d) else if 2 ^ 63 - 1 < d then None else Some d)"

section \<open>The environment\<close>

type_synonym Environment = "(string \<times> string) list"

definition env_get :: "Environment \<Rightarrow> string \<Rightarrow> string \<Rightarrow> string" where
  "env_get env key fallback =
     (case map_of env key of None \<Rightarrow> fallback | Some v \<Rightarrow> if v = [] then fallback else v)"

definition env_put :: "string \<Rightarrow> string \<Rightarrow> Environment \<Rightarrow> Environment" where
  "env_put key v env = tbl_put fst (key, v) env"

definition FromOS :: "string list \<Rightarrow> Environment" where
  "FromOS environ =
     foldl (\<lambda>env kv. case Cut kv ''='' of None \<Rightarrow> env | Some (k, v) \<Rightarrow> env_put k v env) [] environ"

definition unquote :: "string \<Rightarrow> string" where
  "unquote v =
     (if 2 \<le> length v \<and> hd v = last v \<and> hd v \<in> {CHR 0x22, CHR 0x27} then butlast (tl v) else v)"

datatype env_error = NoAssignment nat | EmptyKeyAt nat | CannotRead string

definition TrimPrefix :: "string \<Rightarrow> string \<Rightarrow> string" where
  "TrimPrefix s p = (case CutPrefix s p of None \<Rightarrow> s | Some rest \<Rightarrow> rest)"

fun ParseEnv_loop :: "nat \<Rightarrow> string list \<Rightarrow> Environment \<Rightarrow> env_error + Environment" where
  "ParseEnv_loop n [] env = Inr env"
| "ParseEnv_loop n (text # ls) env =
     (let t = TrimSpace text in
      if t = [] \<or> HasPrefix t ''#'' then ParseEnv_loop (Suc n) ls env
      else case Cut (TrimPrefix t ''export '') ''='' of
        None \<Rightarrow> Inl (NoAssignment n)
      | Some (key, v) \<Rightarrow>
          if TrimSpace key = [] then Inl (EmptyKeyAt n)
          else ParseEnv_loop (Suc n) ls (env_put (TrimSpace key) (unquote (TrimSpace v)) env))"

definition ParseEnv :: "string \<Rightarrow> env_error + Environment" where
  "ParseEnv text = ParseEnv_loop 1 (Split CHR 0x0A text) []"

definition FromFile :: "(string \<Rightarrow> string option) \<Rightarrow> string \<Rightarrow> env_error + Environment" where
  "FromFile read path = (case read path of None \<Rightarrow> Inl (CannotRead path) | Some text \<Rightarrow> ParseEnv text)"

definition Merge :: "Environment list \<Rightarrow> Environment" where
  "Merge sets = foldl (\<lambda>merged env. foldl (\<lambda>m (k, v). env_put k v m) merged env) [] sets"

definition Env_Resolve :: "(string \<Rightarrow> string option) \<Rightarrow> string list \<Rightarrow> env_error + Environment" where
  "Env_Resolve read environ =
     (let osEnv = FromOS environ; path = env_get osEnv ''NUNO_CONFIG'' [] in
      if path = [] then Inr osEnv
      else case FromFile read path of Inl e \<Rightarrow> Inl e | Inr fileEnv \<Rightarrow> Inr (Merge [fileEnv, osEnv]))"

section \<open>The configuration\<close>

record LDAPConfig =
  lc_URL :: string
  lc_BaseDN :: string
  lc_BindDN :: string
  lc_BindPassword :: string
  lc_UserFilter :: string
  lc_GroupFilter :: string
  lc_Timeout :: Duration

record ProviderConfig =
  pc_Name :: string
  pc_Type :: string
  pc_BaseURL :: string
  pc_MatchKey :: MatchKey
  pc_Timeout :: Duration
  pc_Credentials :: "(string \<times> string) list"

record Config =
  cf_Addr :: string
  cf_UsageAddr :: string
  cf_AllowPublicBind :: bool
  cf_DataDir :: string
  cf_LogLevel :: int64
  cf_RefreshInterval :: Duration
  cf_AdminKey :: string
  cf_AdminPassword :: string
  cf_ProxySecret :: string
  cf_TrustedProxy :: string
  cf_LDAP :: LDAPConfig
  cf_Providers :: "ProviderConfig list"
  cf_WebhookURL :: string
  cf_WebhookTimeout :: Duration
  cf_WebhookToken :: string
  cf_ReconcileInterval :: Duration
  cf_PublicURL :: string
  cf_SiteName :: string

text \<open>What is wrong, with the key or the listener it is about.\<close>

datatype config_error =
    NotABoolean string
  | NotALevel string
  | NotADuration string
  | NotPositive string
  | NegativeDuration string
  | IsRequired string
  | NotAMatchKey string
  | NotHostPort string
  | HasNoPort string
  | EveryInterface string
  | NotAnIP string
  | NotLoopback string
  | NoDataDir

definition LDAP_Configured :: "LDAPConfig \<Rightarrow> bool" where
  "LDAP_Configured l \<longleftrightarrow> lc_URL l \<noteq> []"

definition providerPrefix :: string where
  "providerPrefix = ''NUNO_PROVIDER_''"

definition ConfigRef :: "ProviderConfig \<Rightarrow> string" where
  "ConfigRef p = providerPrefix @ ToUpper (pc_Name p)"

definition parseBool :: "string \<Rightarrow> bool option" where
  "parseBool v =
     (let t = ToLower (TrimSpace v) in
      if t \<in> {''1'', ''true'', ''yes'', ''on''} then Some True
      else if t \<in> {''0'', ''false'', ''no'', ''off''} then Some False else None)"

text \<open>\<open>slog.Level.UnmarshalText\<close>: a name and an optional offset.\<close>

definition parse_level :: "string \<Rightarrow> int64 option" where
  "parse_level s =
     (let name = ToUpper (takeWhile (\<lambda>c. c \<noteq> CHR ''+'' \<and> c \<noteq> CHR ''-'') s);
          rest = dropWhile (\<lambda>c. c \<noteq> CHR ''+'' \<and> c \<noteq> CHR ''-'') s in
      case (if rest = [] then Some 0 else case ParseInt rest of Inl _ \<Rightarrow> None | Inr n \<Rightarrow> Some n) of
        None \<Rightarrow> None
      | Some offset \<Rightarrow>
          if name = ''DEBUG'' then Some (offset - 4) else if name = ''INFO'' then Some offset
          else if name = ''WARN'' then Some (offset + 4) else if name = ''ERROR'' then Some (offset + 8) else None)"

definition checkBind :: "string \<Rightarrow> string \<Rightarrow> bool \<Rightarrow> config_error option" where
  "checkBind name addr allowPublic =
     (case SplitHostPort addr of
        None \<Rightarrow> Some (NotHostPort name)
      | Some (host, port) \<Rightarrow>
          if port = [] then Some (HasNoPort name)
          else if allowPublic \<or> host = ''localhost'' then None
          else if host = [] then Some (EveryInterface name)
          else (case ParseIP host of
              None \<Rightarrow> Some (NotAnIP name)
            | Some ip \<Rightarrow>
                if IsLoopback ip then None
                else if IsUnspecified ip then Some (EveryInterface name) else Some (NotLoopback name)))"

definition option_list :: "'a option \<Rightarrow> 'a list" where
  "option_list x = (case x of None \<Rightarrow> [] | Some a \<Rightarrow> [a])"

definition validate :: "Config \<Rightarrow> config_error list" where
  "validate c =
     concat (map (\<lambda>(name, addr). if addr = [] then [] else option_list (checkBind name addr (cf_AllowPublicBind c)))
       [(''NUNO_ADDR'', cf_Addr c), (''NUNO_USAGE_ADDR'', cf_UsageAddr c)]) @
     (if cf_DataDir c = [] then [NoDataDir] else [])"

text \<open>A duration that must be positive, or must not be negative: its value and what is wrong.\<close>

definition positive_duration :: "Environment \<Rightarrow> string \<Rightarrow> Duration \<Rightarrow> Duration \<times> config_error list" where
  "positive_duration env key fallback =
     (let v = env_get env key [] in
      if v = [] then (fallback, [])
      else case ParseDuration v of
        None \<Rightarrow> (fallback, [NotADuration key])
      | Some d \<Rightarrow> if d \<le> 0 then (fallback, [NotPositive key]) else (d, []))"

definition natural_duration :: "Environment \<Rightarrow> string \<Rightarrow> Duration \<times> config_error list" where
  "natural_duration env key =
     (let v = env_get env key [] in
      if v = [] then (0, [])
      else case ParseDuration v of
        None \<Rightarrow> (0, [NotADuration key])
      | Some d \<Rightarrow> if d < 0 then (0, [NegativeDuration key]) else (d, []))"

definition loadLDAP :: "Environment \<Rightarrow> LDAPConfig \<times> config_error list" where
  "loadLDAP env =
     (let ldap = \<lparr>lc_URL = env_get env ''NUNO_LDAP_URL'' [], lc_BaseDN = env_get env ''NUNO_LDAP_BASE_DN'' [],
            lc_BindDN = env_get env ''NUNO_LDAP_BIND_DN'' [], lc_BindPassword = env_get env ''NUNO_LDAP_BIND_PASSWORD'' [],
            lc_UserFilter = env_get env ''NUNO_LDAP_USER_FILTER'' [],
            lc_GroupFilter = env_get env ''NUNO_LDAP_GROUP_FILTER'' [], lc_Timeout = 0\<rparr> in
      if \<not> LDAP_Configured ldap then (ldap, [])
      else if lc_BaseDN ldap = [] then (ldap, [IsRequired ''NUNO_LDAP_BASE_DN''])
      else case positive_duration env ''NUNO_LDAP_TIMEOUT'' 0 of (d, errs) \<Rightarrow> (ldap\<lparr>lc_Timeout := d\<rparr>, errs))"

definition provider_names :: "Environment \<Rightarrow> string list" where
  "provider_names env =
     sort (remdups (concat (map (\<lambda>(key, _).
       case CutPrefix key providerPrefix of
         None \<Rightarrow> []
       | Some rest \<Rightarrow> (case Cut rest ''_'' of None \<Rightarrow> [] | Some (name, _) \<Rightarrow> if name = [] then [] else [name])) env)))"

definition reservedProviderKeys :: "string list" where
  "reservedProviderKeys = [''TYPE'', ''URL'', ''MATCH_KEY'', ''TIMEOUT'']"

definition credentials_of :: "Environment \<Rightarrow> string \<Rightarrow> (string \<times> string) list" where
  "credentials_of env prefix =
     foldl (\<lambda>m (key, v).
       case CutPrefix key prefix of
         None \<Rightarrow> m
       | Some suffix \<Rightarrow> if suffix \<in> set reservedProviderKeys then m else tbl_put fst (ToLower suffix, v) m) [] env"

definition load_provider :: "Environment \<Rightarrow> string \<Rightarrow> ProviderConfig \<times> config_error list" where
  "load_provider env name =
     (let prefix = providerPrefix @ name @ ''_'';
          typ = ToLower (env_get env (prefix @ ''TYPE'') []); url = env_get env (prefix @ ''URL'') [];
          v = env_get env (prefix @ ''MATCH_KEY'') [];
          key = (if v = [] then MatchOther [] else MatchKey_of (ToLower v)) in
      case positive_duration env (prefix @ ''TIMEOUT'') (30 * second) of (timeout, errs) \<Rightarrow>
        (\<lparr>pc_Name = ToLower name, pc_Type = typ, pc_BaseURL = url, pc_MatchKey = key, pc_Timeout = timeout,
          pc_Credentials = credentials_of env prefix\<rparr>,
         (if typ = [] then [IsRequired (prefix @ ''TYPE'')] else []) @
         (if url = [] then [IsRequired (prefix @ ''URL'')] else []) @
         (if v \<noteq> [] \<and> \<not> MatchKey_Valid key then [NotAMatchKey (prefix @ ''MATCH_KEY'')] else []) @ errs))"

definition loadProviders :: "Environment \<Rightarrow> ProviderConfig list \<times> config_error list" where
  "loadProviders env =
     (let ps = map (load_provider env) (provider_names env) in (map fst ps, concat (map snd ps)))"

definition Load :: "Environment \<Rightarrow> Config \<times> config_error list" where
  "Load env =
     (let public = env_get env ''NUNO_ALLOW_PUBLIC_BIND'' []; level = env_get env ''NUNO_LOG_LEVEL'' ''info'';
          (refresh, e3) = positive_duration env ''NUNO_REFRESH_INTERVAL'' (15 * (60 * second));
          (ldap, e4) = loadLDAP env;
          (webhook, e5) = natural_duration env ''NUNO_WEBHOOK_TIMEOUT'';
          (interval, e6) = natural_duration env ''NUNO_RECONCILE_INTERVAL'';
          (providers, e7) = loadProviders env;
          cfg = \<lparr>cf_Addr = env_get env ''NUNO_ADDR'' ''127.0.0.1:8080'', cf_UsageAddr = env_get env ''NUNO_USAGE_ADDR'' [],
            cf_AllowPublicBind = (public \<noteq> [] \<and> parseBool public = Some True),
            cf_DataDir = env_get env ''NUNO_DATA_DIR'' ''/data'',
            cf_LogLevel = (case parse_level level of None \<Rightarrow> 0 | Some l \<Rightarrow> l), cf_RefreshInterval = refresh,
            cf_AdminKey = env_get env ''NUNO_ADMIN_KEY'' [], cf_AdminPassword = env_get env ''NUNO_ADMIN_PASSWORD'' [],
            cf_ProxySecret = env_get env ''NUNO_PROXY_SECRET'' [], cf_TrustedProxy = env_get env ''NUNO_TRUSTED_PROXY'' [],
            cf_LDAP = ldap, cf_Providers = providers, cf_WebhookURL = env_get env ''NUNO_WEBHOOK_URL'' [],
            cf_WebhookTimeout = webhook, cf_WebhookToken = env_get env ''NUNO_WEBHOOK_TOKEN'' [],
            cf_ReconcileInterval = interval, cf_PublicURL = env_get env ''NUNO_PUBLIC_URL'' [],
            cf_SiteName = TrimSpace (env_get env ''NUNO_SITE_NAME'' [])\<rparr> in
      (cfg,
       (if public \<noteq> [] \<and> parseBool public = None then [NotABoolean ''NUNO_ALLOW_PUBLIC_BIND''] else []) @
       (if parse_level level = None then [NotALevel ''NUNO_LOG_LEVEL''] else []) @
       e3 @ e4 @ e5 @ e6 @ e7 @ validate cfg))"

end
