(* ===== verification/ConfigGuarantees.thy ===== *)
theory ConfigGuarantees
  imports Config Size
begin

text \<open>
  What an accepted configuration means: nothing listens wider than the operator said, every duration is
  one the program can wait for, a credential reaches only the provider it is named after, and the process
  environment is the last word over the file.
\<close>

section \<open>Durations are durations\<close>








section \<open>What is accepted\<close>

lemma checkBind_ok:
  "checkBind name addr public = None \<longleftrightarrow>
     (\<exists>host port. SplitHostPort addr = Some (host, port) \<and> port \<noteq> [] \<and>
        (public \<or> host = ''localhost'' \<or> host \<noteq> [] \<and> (\<exists>ip. ParseIP host = Some ip \<and> IsLoopback ip)))"
  by (auto simp: checkBind_def split: option.splits prod.splits if_splits)




lemma none_wrong: "(if b then [e] else []) = [] \<longleftrightarrow> \<not> b"
  by simp


lemma provider_names_mem:
  "name \<in> set (provider_names env) \<longleftrightarrow>
     name \<noteq> [] \<and> (\<exists>key v rest more. (key, v) \<in> set env \<and> key = providerPrefix @ rest \<and> Cut rest ''_'' = Some (name, more))"
proof -
  have "name \<in> set (case CutPrefix key providerPrefix of
         None \<Rightarrow> []
       | Some rest \<Rightarrow> (case Cut rest ''_'' of None \<Rightarrow> [] | Some (name, _) \<Rightarrow> if name = [] then [] else [name])) \<longleftrightarrow>
     name \<noteq> [] \<and> (\<exists>rest more. key = providerPrefix @ rest \<and> Cut rest ''_'' = Some (name, more))" for key
  proof (cases "CutPrefix key providerPrefix")
    case None
    then show ?thesis by (metis CutPrefix_append list.set(1) empty_iff option.simps(3,4))
  next
    case (Some rest)
    then have "key = providerPrefix @ rest" by (simp add: CutPrefix_Some)
    then show ?thesis by (cases "Cut rest ''_''") auto
  qed
  then show ?thesis unfolding provider_names_def set_sort set_remdups set_concat set_map by (simp add: split_beta) force
qed



text \<open>What \<open>Load\<close> puts together, field by field.\<close>

lemma Load_parts:
  assumes "Load env = (cfg, [])"
  shows "positive_duration env ''NUNO_REFRESH_INTERVAL'' (15 * (60 * second)) = (cf_RefreshInterval cfg, [])"
    "loadLDAP env = (cf_LDAP cfg, [])"
    "natural_duration env ''NUNO_WEBHOOK_TIMEOUT'' = (cf_WebhookTimeout cfg, [])"
    "natural_duration env ''NUNO_RECONCILE_INTERVAL'' = (cf_ReconcileInterval cfg, [])"
    "loadProviders env = (cf_Providers cfg, [])"
    "validate cfg = []"
    "cf_AllowPublicBind cfg \<longrightarrow> parseBool (env_get env ''NUNO_ALLOW_PUBLIC_BIND'' []) = Some True"
proof -
  obtain d3 e3 d4 e4 d5 e5 d6 e6 d7 e7 where parts:
    "positive_duration env ''NUNO_REFRESH_INTERVAL'' (15 * (60 * second)) = (d3, e3)" "loadLDAP env = (d4, e4)"
    "natural_duration env ''NUNO_WEBHOOK_TIMEOUT'' = (d5, e5)" "natural_duration env ''NUNO_RECONCILE_INTERVAL'' = (d6, e6)"
    "loadProviders env = (d7, e7)"
    by (metis surj_pair)
  note unfolded = assms [unfolded Load_def Let_def parts prod.case prod.inject append_is_Nil_conv none_wrong]
  note c = unfolded [THEN conjunct1, symmetric] and sound = unfolded [THEN conjunct2]
  have none: "e3 = []" "e4 = []" "e5 = []" "e6 = []" "e7 = []" using sound by blast+
  show "positive_duration env ''NUNO_REFRESH_INTERVAL'' (15 * (60 * second)) = (cf_RefreshInterval cfg, [])"
    "loadLDAP env = (cf_LDAP cfg, [])"
    "natural_duration env ''NUNO_WEBHOOK_TIMEOUT'' = (cf_WebhookTimeout cfg, [])"
    "natural_duration env ''NUNO_RECONCILE_INTERVAL'' = (cf_ReconcileInterval cfg, [])"
    "loadProviders env = (cf_Providers cfg, [])"
    unfolding parts none by (simp_all only: c Config.simps)
  show "validate cfg = []" using sound unfolding c by blast
  show "cf_AllowPublicBind cfg \<longrightarrow> parseBool (env_get env ''NUNO_ALLOW_PUBLIC_BIND'' []) = Some True"
    by (simp only: c Config.simps) blast
qed

text \<open>C31 Nothing listens wider than the operator said. When a configuration is accepted, every listener it names
  is a host and a port, and the host is the loopback, unless the environment acknowledges a public bind.\<close>

theorem public_bind_needs_acknowledgement:
  assumes "Load env = (cfg, [])" "addr = cf_Addr cfg \<or> addr = cf_UsageAddr cfg" "addr \<noteq> []"
  shows "\<exists>host port. SplitHostPort addr = Some (host, port) \<and> port \<noteq> [] \<and>
    (parseBool (env_get env ''NUNO_ALLOW_PUBLIC_BIND'' []) = Some True \<or> host = ''localhost'' \<or>
     (\<exists>ip. ParseIP host = Some ip \<and> IsLoopback ip))"
proof -
  have "checkBind name addr (cf_AllowPublicBind cfg) = None" if "(name, addr) \<in> {(''NUNO_ADDR'', cf_Addr cfg), (''NUNO_USAGE_ADDR'', cf_UsageAddr cfg)}" for name
    using Load_parts(6) [OF assms(1)] that assms(3)
    by (auto simp: validate_def option_list_def split: if_splits option.splits)
  with assms(2) obtain name where "checkBind name addr (cf_AllowPublicBind cfg) = None" by blast
  then show ?thesis unfolding checkBind_ok using Load_parts(7) [OF assms(1)] by blast
qed

definition ex_environ :: Environment where
  "ex_environ = [(''NUNO_DATA_DIR'', ''/d''), (''NUNO_PROVIDER_CLOUD_TYPE'', ''NextCloud''), (''NUNO_PROVIDER_CLOUD_URL'', ''http://c''),
     (''NUNO_PROVIDER_CLOUD_TOKEN'', ''t''), (''NUNO_REFRESH_INTERVAL'', ''1m''), (''NUNO_PROVIDER_PHOTOS_TYPE'', ''immich''),
     (''NUNO_PROVIDER_PHOTOS_URL'', ''http://p''), (''NUNO_PROVIDER_PHOTOS_API_KEY'', ''k'')]"

lemma ex_duration: "ParseDuration ''1m'' = Some (60 * second)"
proof -
  have "duration_part ''1m'' = Some (60 * second, [])" by code_simp
  then show ?thesis
    by (simp add: ParseDuration_def parse_sign_def duration_parts.simps [of _ "''1m''"] duration_parts.simps [of _ "[]"] second_def)
qed

lemma ex_Load: "\<exists>cfg. Load ex_environ = (cfg, []) \<and> cf_Addr cfg = ''127.0.0.1:8080'' \<and> cf_RefreshInterval cfg = 60 * second \<and>
     cf_DataDir cfg = ''/d'' \<and> \<not> LDAP_Configured (cf_LDAP cfg)"
proof -
  have absent: "env_get ex_environ ''NUNO_WEBHOOK_TIMEOUT'' [] = []" "env_get ex_environ ''NUNO_RECONCILE_INTERVAL'' [] = []"
    "env_get ex_environ ''NUNO_REFRESH_INTERVAL'' [] = ''1m''" "env_get ex_environ ''NUNO_ALLOW_PUBLIC_BIND'' [] = []"
    "env_get ex_environ ''NUNO_LOG_LEVEL'' ''info'' = ''info''" "parse_level ''info'' \<noteq> None"
    "env_get ex_environ ''NUNO_ADDR'' ''127.0.0.1:8080'' = ''127.0.0.1:8080''" "env_get ex_environ ''NUNO_USAGE_ADDR'' [] = []"
    "env_get ex_environ ''NUNO_DATA_DIR'' ''/data'' = ''/d''" "snd (loadLDAP ex_environ) = []" "lc_URL (fst (loadLDAP ex_environ)) = []"
    "snd (loadProviders ex_environ) = []" "checkBind n ''127.0.0.1:8080'' b = None" for n b
    by (code_simp | (simp add: checkBind_def, code_simp))+
  then show ?thesis
    by (cases "loadLDAP ex_environ"; cases "loadProviders ex_environ")
      (simp add: Load_def Let_def positive_duration_def natural_duration_def ex_duration validate_def option_list_def second_def
        LDAP_Configured_def)
qed

theorem public_bind_needs_acknowledgement_witness:
  "\<exists>host port. SplitHostPort ''127.0.0.1:8080'' = Some (host, port) \<and> port \<noteq> []"
proof -
  obtain cfg where cfg: "Load ex_environ = (cfg, [])" "cf_Addr cfg = ''127.0.0.1:8080''" using ex_Load by blast
  from public_bind_needs_acknowledgement [OF cfg(1), of "cf_Addr cfg"] cfg(2) show ?thesis by auto
qed



section \<open>Credentials\<close>

lemma credentials_from:
  "(n, v) \<in> set (credentials_of env prefix) \<Longrightarrow>
     \<exists>suffix. (prefix @ suffix, v) \<in> set env \<and> n = ToLower suffix \<and> suffix \<notin> set reservedProviderKeys"
proof (induction env rule: rev_induct)
  case (snoc kv env)
  obtain key w where kv: "kv = (key, w)" by fastforce
  have put: "set (tbl_put fst r rows) \<subseteq> insert r (set rows)" for r :: "string \<times> string" and rows
    by (induction rows) auto
  show ?case
  proof (cases "(n, v) \<in> set (credentials_of env prefix)")
    case True
    then show ?thesis using snoc.IH by auto
  next
    case False
    with snoc.prems kv put obtain suffix where "CutPrefix key prefix = Some suffix" "suffix \<notin> set reservedProviderKeys"
      "n = ToLower suffix" "v = w"
      by (fastforce simp: credentials_of_def split: option.splits if_splits)
    then show ?thesis by (auto simp: kv CutPrefix_Some)
  qed
qed (simp add: credentials_of_def)

lemma Cut_stop: "c \<notin> set a \<Longrightarrow> Cut (a @ c # b) [c] = Some (a, b)"
  by (induction a) (auto simp: CutPrefix_def HasPrefix_def)

lemma Cut_char: "Cut s [c] = Some (a, b) \<Longrightarrow> s = a @ c # b \<and> c \<notin> set a"
proof (induction s arbitrary: a)
  case (Cons x s)
  then show ?case by (auto simp: CutPrefix_def HasPrefix_def split: if_splits)
qed simp

lemma HasPrefix_append: "HasPrefix s p \<Longrightarrow> \<exists>r. s = p @ r"
  unfolding HasPrefix_def by (metis append_take_drop_id)

lemma load_provider_credentials: "pc_Credentials (fst (load_provider env name)) = credentials_of env (providerPrefix @ name @ ''_'')"
  unfolding load_provider_def Let_def by (simp only: split_beta fst_conv ProviderConfig.simps append_assoc)

text \<open>C34 A credential reaches only the provider it is named after. Each credential of a loaded provider is the
  value of a key under that provider's own prefix, and no key is under the prefixes of two providers.\<close>

theorem credentials_do_not_cross:
  assumes "loadProviders env = (ps, errs)" "i < length ps" "(n, v) \<in> set (pc_Credentials (ps ! i))"
  shows "\<exists>name suffix. name = provider_names env ! i \<and> (providerPrefix @ name @ ''_'' @ suffix, v) \<in> set env \<and>
    n = ToLower suffix \<and>
    (\<forall>j < length ps. j \<noteq> i \<longrightarrow> \<not> HasPrefix (providerPrefix @ name @ ''_'' @ suffix) (providerPrefix @ provider_names env ! j @ ''_''))"
proof -
  define names where "names = provider_names env"
  have ps: "ps = map (fst \<circ> load_provider env) names" using assms(1) by (auto simp: loadProviders_def Let_def names_def)
  have free: "CHR ''_'' \<notin> set (names ! k)" if "k < length names" for k
    using nth_mem [OF that] by (auto simp: names_def provider_names_mem dest: Cut_char)
  have i: "i < length names" using assms(2) ps by simp
  have "(n, v) \<in> set (credentials_of env (providerPrefix @ names ! i @ ''_''))"
    using assms(3) i by (simp add: ps load_provider_credentials)
  from credentials_from [OF this] obtain suffix where suffix: "(providerPrefix @ names ! i @ ''_'' @ suffix, v) \<in> set env" "n = ToLower suffix"
    by auto
  have "\<not> HasPrefix (providerPrefix @ names ! i @ ''_'' @ suffix) (providerPrefix @ names ! j @ ''_'')" if j: "j < length ps" "j \<noteq> i" for j
  proof
    assume "HasPrefix (providerPrefix @ names ! i @ ''_'' @ suffix) (providerPrefix @ names ! j @ ''_'')"
    then obtain r where "names ! i @ CHR ''_'' # suffix = names ! j @ CHR ''_'' # r"
      using HasPrefix_append by fastforce
    moreover have "j < length names" using j(1) ps by simp
    ultimately have "names ! i = names ! j" using free i by (metis Cut_stop option.inject prod.inject)
    moreover have "distinct names" by (simp add: names_def provider_names_def)
    ultimately show False using i j(2) \<open>j < length names\<close> by (simp add: nth_eq_iff_index_eq)
  qed
  then show ?thesis using suffix unfolding names_def by blast
qed

theorem credentials_do_not_cross_witness:
  "\<exists>suffix. (providerPrefix @ provider_names ex_environ ! 1 @ ''_'' @ suffix, ''k'') \<in> set ex_environ"
proof -
  obtain ps errs where l: "loadProviders ex_environ = (ps, errs)" by fastforce
  have "1 < length (fst (loadProviders ex_environ))" "(''api_key'', ''k'') \<in> set (pc_Credentials (fst (loadProviders ex_environ) ! 1))"
    by code_simp+
  with credentials_do_not_cross [OF l, of 1 "''api_key''" "''k''"] l show ?thesis by auto
qed

section \<open>The file and the environment\<close>

lemma env_put_get: "map_of (env_put k v env) = (map_of env)(k \<mapsto> v)"
  by (induction env) (auto simp: env_put_def)

lemma merge_one: "map_of (foldl (\<lambda>m (k, v). env_put k v m) merged env) = map_of merged ++ map_of (rev env)"
proof (induction env arbitrary: merged)
  case (Cons kv env)
  obtain k v where "kv = (k, v)" by fastforce
  with Cons show ?case by (auto simp: env_put_get map_add_def fun_eq_iff split: option.split)
qed simp

lemma env_put_distinct: "distinct (map fst env) \<Longrightarrow> distinct (map fst (env_put k v env))"
  using tbl_ok_put [of fst env "(k, v)"] by (simp add: env_put_def tbl_ok_def)

lemma map_of_rev: "distinct (map fst env) \<Longrightarrow> map_of (rev env) = map_of env"
  by (subst map_of_inject_set) (simp_all add: rev_map [symmetric])

lemma FromOS_distinct: "distinct (map fst (FromOS environ))"
proof -
  have "distinct (map fst env) \<Longrightarrow>
      distinct (map fst (foldl (\<lambda>env kv. case Cut kv ''='' of None \<Rightarrow> env | Some (k, v) \<Rightarrow> env_put k v env) env environ))" for env
    by (induction environ arbitrary: env) (auto split: option.split intro: env_put_distinct)
  then show ?thesis by (simp add: FromOS_def)
qed

lemma ParseEnv_loop_distinct: "ParseEnv_loop n ls env = Inr env' \<Longrightarrow> distinct (map fst env) \<Longrightarrow> distinct (map fst env')"
  by (induction n ls env rule: ParseEnv_loop.induct) (auto simp: Let_def env_put_distinct split: if_splits option.splits)

lemma ParseEnv_distinct: "ParseEnv text = Inr env \<Longrightarrow> distinct (map fst env)"
  by (auto simp: ParseEnv_def dest: ParseEnv_loop_distinct)

text \<open>C33 The process environment is the last word over the file. A key the environment sets has that value; a key
  it does not set has the file's; and a file that is named and cannot be read stops the start.\<close>

theorem environment_overrides_the_file:
  assumes "Env_Resolve read environ = Inr env" "env_get (FromOS environ) ''NUNO_CONFIG'' [] = path" "path \<noteq> []"
  shows "\<exists>body fileEnv. read path = Some body \<and> ParseEnv body = Inr fileEnv \<and>
    map_of env key = (case map_of (FromOS environ) key of None \<Rightarrow> map_of fileEnv key | Some v \<Rightarrow> Some v)"
proof -
  from assms obtain body fileEnv where named: "read path = Some body" "ParseEnv body = Inr fileEnv" "env = Merge [fileEnv, FromOS environ]"
    by (auto simp: Env_Resolve_def FromFile_def Let_def split: option.splits sum.splits)
  have "map_of env = map_of fileEnv ++ map_of (FromOS environ)"
    using ParseEnv_distinct [OF named(2)] FromOS_distinct by (simp add: named(3) Merge_def merge_one map_of_rev)
  with named show ?thesis by (auto simp: map_add_def split: option.split)
qed

definition ex_file :: string where
  "ex_file = ''# nuno'' @ [CHR 0x0A] @ ''export NUNO_ADDR = \"10.0.0.1:80\"'' @ [CHR 0x0A] @ ''NUNO_DATA_DIR=/srv'' @ [CHR 0x0A]"

theorem environment_overrides_the_file_witness:
  "\<exists>env. Env_Resolve (\<lambda>_. Some ex_file) [''NUNO_CONFIG=/etc/nuno'', ''NUNO_DATA_DIR=/tmp''] = Inr env \<and>
     map_of env ''NUNO_ADDR'' = Some ''10.0.0.1:80''"
proof -
  have "is_ok (Env_Resolve (\<lambda>_. Some ex_file) [''NUNO_CONFIG=/etc/nuno'', ''NUNO_DATA_DIR=/tmp''])" by code_simp
  then obtain env where env: "Env_Resolve (\<lambda>_. Some ex_file) [''NUNO_CONFIG=/etc/nuno'', ''NUNO_DATA_DIR=/tmp''] = Inr env"
    by (cases "Env_Resolve (\<lambda>_. Some ex_file) [''NUNO_CONFIG=/etc/nuno'', ''NUNO_DATA_DIR=/tmp'']") auto
  have facts: "env_get (FromOS [''NUNO_CONFIG=/etc/nuno'', ''NUNO_DATA_DIR=/tmp'']) ''NUNO_CONFIG'' [] = ''/etc/nuno''"
    "map_of (FromOS [''NUNO_CONFIG=/etc/nuno'', ''NUNO_DATA_DIR=/tmp'']) ''NUNO_ADDR'' = None"
    "(case ParseEnv ex_file of Inl _ \<Rightarrow> None | Inr e \<Rightarrow> map_of e ''NUNO_ADDR'') = Some ''10.0.0.1:80''"
    by code_simp+
  from environment_overrides_the_file [OF env facts(1), of "''NUNO_ADDR''"] facts env show ?thesis by auto
qed

section \<open>Two corners\<close>

text \<open>A variable that is set and empty hides the value of the file and yields the default.\<close>

lemma empty_variable_hides_the_file: "v \<noteq> [] \<Longrightarrow> env_get (Merge [[(k, v)], [(k, [])]]) k fallback = fallback"
  by (simp add: Merge_def env_put_def env_get_def)

text \<open>Names that differ in case are two instances with one name.\<close>

lemma instance_names_can_repeat:
  "map pc_Name (fst (loadProviders [(''NUNO_PROVIDER_CLOUD_URL'', ''http://a''), (''NUNO_PROVIDER_cloud_URL'', ''http://b'')])) =
     [''cloud'', ''cloud'']"
  by code_simp

end
