(* ===== verification/Ldap.thy ===== *)
theory Ldap
  imports Config Format Engine
begin

text \<open>
  \<open>internal/identity/ldap/ldap.go\<close>: reading groups and people from a directory. The LDAP library is a
  parameter: \<open>DialURL\<close>, a connection with \<open>Bind\<close> and \<open>Search\<close>, and \<open>ParseDN\<close>, which
  yields the attributes of each RDN or fails.
\<close>

section \<open>What the library gives\<close>

record Entry =
  en_DN :: string
  en_Attributes :: "(string \<times> string list) list"

datatype Scope = ScopeBaseObject | ScopeWholeSubtree

record SearchRequest =
  sq_BaseDN :: string
  sq_Scope :: Scope
  sq_SizeLimit :: nat
  sq_TimeLimit :: int
  sq_Filter :: string
  sq_Attributes :: "string list"

record Connection =
  ld_Bind :: "string \<Rightarrow> string \<Rightarrow> string option"
  ld_Search :: "SearchRequest \<Rightarrow> string + Entry list"

type_synonym ParseDN = "string \<Rightarrow> (string \<times> string) list list option"

type_synonym DialURL = "string \<Rightarrow> string + Connection"

section \<open>The source\<close>

type_synonym SourceConfig = LDAPConfig

datatype ldap_error =
    LdapURLRequired
  | LdapBaseDNRequired
  | LdapNotLdapURL
  | LdapUnreachable string
  | LdapAuth string
  | LdapRootDSE string
  | LdapSearchGroups string
  | LdapSearchUsers string

definition DefaultUserFilter :: string where
  "DefaultUserFilter = ''(objectClass=person)''"

definition DefaultGroupFilter :: string where
  "DefaultGroupFilter = ''(objectClass=groupOfUniqueNames)''"

definition DefaultTimeout :: Duration where
  "DefaultTimeout = 15 * second"

definition attrUUID :: string where "attrUUID = ''entryuuid''"
definition attrMemberOf :: string where "attrMemberOf = ''memberOf''"

definition Source_New :: "SourceConfig \<Rightarrow> ldap_error + SourceConfig" where
  "Source_New cfg =
     (if lc_URL cfg = [] then Inl LdapURLRequired
      else if lc_BaseDN cfg = [] then Inl LdapBaseDNRequired
      else case Cut (lc_URL cfg) ''://'' of
        None \<Rightarrow> Inl LdapNotLdapURL
      | Some (scheme, _) \<Rightarrow>
          if scheme \<noteq> ''ldap'' \<and> scheme \<noteq> ''ldaps'' then Inl LdapNotLdapURL
          else Inr (cfg\<lparr>lc_UserFilter := (if lc_UserFilter cfg = [] then DefaultUserFilter else lc_UserFilter cfg),
                        lc_GroupFilter := (if lc_GroupFilter cfg = [] then DefaultGroupFilter else lc_GroupFilter cfg),
                        lc_Timeout := (if lc_Timeout cfg \<le> 0 then DefaultTimeout else lc_Timeout cfg)\<rparr>))"

definition dialReal :: "DialURL \<Rightarrow> SourceConfig \<Rightarrow> ldap_error + Connection" where
  "dialReal dial cfg =
     (case dial (lc_URL cfg) of
        Inl e \<Rightarrow> Inl (LdapUnreachable e)
      | Inr conn \<Rightarrow>
          if lc_BindDN cfg = [] then Inr conn
          else (case ld_Bind conn (lc_BindDN cfg) (lc_BindPassword cfg) of
              Some e \<Rightarrow> Inl (LdapAuth e) | None \<Rightarrow> Inr conn))"

section \<open>Reading an entry\<close>

definition attributeValues :: "Entry \<Rightarrow> string \<Rightarrow> string list" where
  "attributeValues entry name =
     (case find (\<lambda>(n, _). EqualFold n name) (en_Attributes entry) of None \<Rightarrow> [] | Some (_, vs) \<Rightarrow> vs)"

definition attribute :: "Entry \<Rightarrow> string \<Rightarrow> string" where
  "attribute entry name = (case attributeValues entry name of [] \<Rightarrow> [] | v # _ \<Rightarrow> TrimSpace v)"

definition normalizeDN :: "ParseDN \<Rightarrow> string \<Rightarrow> string" where
  "normalizeDN parse dn =
     (case parse dn of
        None \<Rightarrow> ToLower (TrimSpace dn)
      | Some rdns \<Rightarrow> Join '','' (map (\<lambda>(t, v). ToLower t @ ''='' @ ToLower (TrimSpace v)) (concat rdns)))"

definition firstRDNValue :: "ParseDN \<Rightarrow> string \<Rightarrow> string" where
  "firstRDNValue parse dn = (case parse dn of Some (((_, v) # _) # _) \<Rightarrow> v | _ \<Rightarrow> [])"

definition displayName :: "Entry \<Rightarrow> string \<Rightarrow> string" where
  "displayName entry fallback =
     (if attribute entry ''displayName'' \<noteq> [] then attribute entry ''displayName''
      else if attribute entry ''cn'' \<noteq> [] then attribute entry ''cn''
      else let name = TrimSpace (attribute entry ''givenName'' @ '' '' @ attribute entry ''sn'') in
        if name \<noteq> [] then name else fallback)"

section \<open>Groups\<close>

definition request :: "SourceConfig \<Rightarrow> string \<Rightarrow> string list \<Rightarrow> SearchRequest" where
  "request cfg filt attrs =
     \<lparr>sq_BaseDN = lc_BaseDN cfg, sq_Scope = ScopeWholeSubtree, sq_SizeLimit = 0,
      sq_TimeLimit = trunc_rat (Seconds (lc_Timeout cfg)), sq_Filter = filt, sq_Attributes = attrs\<rparr>"

definition group_of :: "ParseDN \<Rightarrow> Entry \<Rightarrow> Group" where
  "group_of parse entry =
     (let cn = attribute entry ''cn''; name = (if cn = [] then firstRDNValue parse (en_DN entry) else cn);
          display = attribute entry ''displayName'' in
      \<lparr>g_ID = 0, g_Source = SourceLDAP, g_SourceUUID = attribute entry attrUUID, g_Name = name,
       g_DisplayName = (if display = [] then name else display)\<rparr>)"

definition keyed_entries :: "Entry list \<Rightarrow> Entry list" where
  "keyed_entries es = filter (\<lambda>e. attribute e attrUUID \<noteq> []) es"

text \<open>The groups, and the uuid of each by its normalised DN.\<close>

definition readGroups :: "ParseDN \<Rightarrow> SourceConfig \<Rightarrow> Connection \<Rightarrow> ldap_error + Group list \<times> (string \<rightharpoonup> string)" where
  "readGroups parse cfg conn =
     (case ld_Search conn (request cfg (lc_GroupFilter cfg) [attrUUID, ''cn'', ''displayName'', ''description'']) of
        Inl e \<Rightarrow> Inl (LdapSearchGroups e)
      | Inr entries \<Rightarrow>
          (let kept = keyed_entries entries in
           Inr (map (group_of parse) kept,
                foldl (\<lambda>m e. m(normalizeDN parse (en_DN e) \<mapsto> attribute e attrUUID)) Map.empty kept)))"

section \<open>People\<close>

text \<open>The groups of one person that the read knows, and the memberships it does not, each once.\<close>

fun memberships ::
  "(string \<Rightarrow> string) \<Rightarrow> (string \<rightharpoonup> string) \<Rightarrow> string list \<Rightarrow> string list \<times> string list \<Rightarrow> string list \<times> string list" where
  "memberships canonical byDN [] acc = acc"
| "memberships canonical byDN (dn # dns) (uuids, unknown) =
     memberships canonical byDN dns
       (case byDN (canonical dn) of
          Some uuid \<Rightarrow> (uuids @ [uuid], unknown)
        | None \<Rightarrow> (uuids, if dn \<in> set unknown then unknown else unknown @ [dn]))"

definition user_of :: "ParseDN \<Rightarrow> Entry \<Rightarrow> string list \<Rightarrow> User" where
  "user_of parse entry uuids =
     (let a = attribute entry ''uid''; uid = (if a = [] then firstRDNValue parse (en_DN entry) else a) in
      \<lparr>u_ID = 0, u_Source = SourceLDAP, u_SourceUUID = attribute entry attrUUID, u_UID = uid,
       u_Email = attribute entry ''mail'', u_DisplayName = displayName entry uid, u_Status = UserActive,
       u_GroupUUIDs = uuids\<rparr>)"

record Reading =
  rd_Users :: "User list"
  rd_Skipped :: "string list"
  rd_Unresolved :: "string list"

definition read_user :: "ParseDN \<Rightarrow> (string \<rightharpoonup> string) \<Rightarrow> Reading \<Rightarrow> Entry \<Rightarrow> Reading" where
  "read_user parse byDN r entry =
     (if attribute entry attrUUID = [] then r\<lparr>rd_Skipped := rd_Skipped r @ [en_DN entry]\<rparr>
      else case memberships (normalizeDN parse) byDN (attributeValues entry attrMemberOf) ([], rd_Unresolved r) of
        (uuids, unknown) \<Rightarrow>
          r\<lparr>rd_Users := rd_Users r @ [user_of parse entry uuids], rd_Unresolved := unknown\<rparr>)"

definition user_attributes :: "string list" where
  "user_attributes = [attrUUID, ''uid'', ''mail'', ''cn'', ''displayName'', ''givenName'', ''sn'', attrMemberOf]"

definition nobody_read :: Reading where
  "nobody_read = \<lparr>rd_Users = [], rd_Skipped = [], rd_Unresolved = []\<rparr>"

definition readUsers :: "ParseDN \<Rightarrow> SourceConfig \<Rightarrow> Connection \<Rightarrow> (string \<rightharpoonup> string) \<Rightarrow> ldap_error + Reading" where
  "readUsers parse cfg conn byDN =
     (case ld_Search conn (request cfg (lc_UserFilter cfg) user_attributes) of
        Inl e \<Rightarrow> Inl (LdapSearchUsers e)
      | Inr entries \<Rightarrow> Inr (foldl (read_user parse byDN) nobody_read entries))"

section \<open>The operations of the directory\<close>

definition Source_Sync :: "ParseDN \<Rightarrow> DialURL \<Rightarrow> SourceConfig \<Rightarrow> ldap_error + IdentityRead" where
  "Source_Sync parse dial cfg =
     bind_result (dialReal dial cfg) (\<lambda>conn.
     bind_result (readGroups parse cfg conn) (\<lambda>(groups, byDN).
     bind_result (readUsers parse cfg conn byDN) (\<lambda>r.
       Inr \<lparr>ir_Snapshot = \<lparr>sn_Source = SourceLDAP, sn_Users = rd_Users r, sn_Groups = groups\<rparr>,
            ir_SkippedEntries = rd_Skipped r, ir_UnresolvedMemberships = rd_Unresolved r\<rparr>)))"

definition Source_Version :: "DialURL \<Rightarrow> SourceConfig \<Rightarrow> ldap_error + string" where
  "Source_Version dial cfg =
     bind_result (dialReal dial cfg) (\<lambda>conn.
       case ld_Search conn \<lparr>sq_BaseDN = [], sq_Scope = ScopeBaseObject, sq_SizeLimit = 1,
              sq_TimeLimit = trunc_rat (Seconds (lc_Timeout cfg)), sq_Filter = ''(objectClass=*)'',
              sq_Attributes = [''vendorName'', ''vendorVersion'']\<rparr> of
         Inl e \<Rightarrow> Inl (LdapRootDSE e)
       | Inr [] \<Rightarrow> Inr []
       | Inr (e # _) \<Rightarrow> Inr (TrimSpace (attribute e ''vendorName'' @ '' '' @ attribute e ''vendorVersion'')))"

end
