(* ===== verification/LdapGuarantees.thy ===== *)
theory LdapGuarantees
  imports Ldap StoreGuarantees
begin

text \<open>
  What a directory read is worth to the store: it can always be kept, nobody in it is left out, and every
  membership is either one of the read's own groups or reported.
\<close>

section \<open>What a read holds\<close>

abbreviation uuid_of :: "Entry \<Rightarrow> string" where
  "uuid_of e \<equiv> attribute e attrUUID"

lemma memberships_eq:
  "\<exists>unknown'. memberships canonical byDN dns (uuids, unknown) = (uuids @ List.map_filter (\<lambda>dn. byDN (canonical dn)) dns, unknown') \<and>
     set unknown' = set unknown \<union> {dn \<in> set dns. byDN (canonical dn) = None}"
proof (induction dns arbitrary: uuids unknown)
  case (Cons dn dns)
  show ?case
  proof (cases "byDN (canonical dn)")
    case None
    show ?thesis using Cons [of uuids "if dn \<in> set unknown then unknown else unknown @ [dn]"] None
      by (auto simp: map_filter_simps)
  next
    case (Some uuid)
    show ?thesis using Cons [of "uuids @ [uuid]" unknown] Some by (auto simp: map_filter_simps)
  qed
qed (simp add: map_filter_simps)

lemma read_user_fold:
  "\<exists>unknown. foldl (read_user parse byDN) nobody_read es =
     \<lparr>rd_Users = map (\<lambda>e. user_of parse e
        (List.map_filter (\<lambda>dn. byDN (normalizeDN parse dn)) (attributeValues e attrMemberOf))) (keyed_entries es),
      rd_Skipped = map en_DN (filter (\<lambda>e. uuid_of e = []) es), rd_Unresolved = unknown\<rparr> \<and>
     set unknown = {dn. \<exists>e \<in> set (keyed_entries es). dn \<in> set (attributeValues e attrMemberOf) \<and> byDN (normalizeDN parse dn) = None}"
proof (induction es rule: rev_induct)
  case (snoc e es)
  then obtain unknown where IH: "foldl (read_user parse byDN) nobody_read es =
      \<lparr>rd_Users = map (\<lambda>e. user_of parse e
        (List.map_filter (\<lambda>dn. byDN (normalizeDN parse dn)) (attributeValues e attrMemberOf))) (keyed_entries es),
       rd_Skipped = map en_DN (filter (\<lambda>e. uuid_of e = []) es), rd_Unresolved = unknown\<rparr>"
    "set unknown = {dn. \<exists>e \<in> set (keyed_entries es). dn \<in> set (attributeValues e attrMemberOf) \<and> byDN (normalizeDN parse dn) = None}"
    by blast
  obtain unknown' where m: "memberships (normalizeDN parse) byDN (attributeValues e attrMemberOf) ([], unknown) =
      (List.map_filter (\<lambda>dn. byDN (normalizeDN parse dn)) (attributeValues e attrMemberOf), unknown')"
    "set unknown' = set unknown \<union> {dn \<in> set (attributeValues e attrMemberOf). byDN (normalizeDN parse dn) = None}"
    using memberships_eq [of "normalizeDN parse" byDN "attributeValues e attrMemberOf" "[]" unknown] by auto
  show ?case
  proof (cases "uuid_of e = []")
    case True
    then have "read_user parse byDN r e = r\<lparr>rd_Skipped := rd_Skipped r @ [en_DN e]\<rparr>" for r by (simp add: read_user_def)
    then show ?thesis using True IH(2) by (intro exI [of _ unknown]) (simp add: IH(1) keyed_entries_def)
  next
    case False
    have "foldl (read_user parse byDN) nobody_read (es @ [e]) =
      \<lparr>rd_Users = map (\<lambda>e. user_of parse e
        (List.map_filter (\<lambda>dn. byDN (normalizeDN parse dn)) (attributeValues e attrMemberOf))) (keyed_entries (es @ [e])),
       rd_Skipped = map en_DN (filter (\<lambda>e. uuid_of e = []) (es @ [e])), rd_Unresolved = unknown'\<rparr>"
      using False by (simp add: IH(1) m(1) read_user_def keyed_entries_def)
    then show ?thesis using False by (auto simp: m(2) IH(2) keyed_entries_def)
  qed
qed (simp add: nobody_read_def keyed_entries_def)

lemma fold_keys:
  "foldl (\<lambda>m e. m(f e \<mapsto> g e)) Map.empty es k = Some v \<Longrightarrow> \<exists>e \<in> set es. f e = k \<and> g e = v"
  by (induction es rule: rev_induct) (auto split: if_splits)

lemma user_of_fields [simp]: "u_SourceUUID (user_of parse e us) = uuid_of e" "u_GroupUUIDs (user_of parse e us) = us"
  by (simp_all add: user_of_def Let_def)

lemma group_of_uuid [simp]: "g_SourceUUID (group_of parse e) = uuid_of e"
  by (simp add: group_of_def Let_def)

lemma Source_Sync_parts:
  assumes "Source_Sync parse dial cfg = Inr read"
  obtains conn groups people byDN where "dialReal dial cfg = Inr conn"
    "ld_Search conn (request cfg (lc_GroupFilter cfg) [attrUUID, ''cn'', ''displayName'', ''description'']) = Inr groups"
    "ld_Search conn (request cfg (lc_UserFilter cfg) user_attributes) = Inr people"
    "sn_Source (ir_Snapshot read) = SourceLDAP"
    "sn_Groups (ir_Snapshot read) = map (group_of parse) (keyed_entries groups)"
    "sn_Users (ir_Snapshot read) = map (\<lambda>e. user_of parse e
        (List.map_filter (\<lambda>dn. byDN (normalizeDN parse dn)) (attributeValues e attrMemberOf))) (keyed_entries people)"
    "ir_SkippedEntries read = map en_DN (filter (\<lambda>e. uuid_of e = []) people)"
    "set (ir_UnresolvedMemberships read) =
       {dn. \<exists>e \<in> set (keyed_entries people). dn \<in> set (attributeValues e attrMemberOf) \<and> byDN (normalizeDN parse dn) = None}"
    "\<And>k v. byDN k = Some v \<Longrightarrow> \<exists>e \<in> set (keyed_entries groups). normalizeDN parse (en_DN e) = k \<and> uuid_of e = v"
proof -
  let ?groups = "request cfg (lc_GroupFilter cfg) [attrUUID, ''cn'', ''displayName'', ''description'']"
  let ?people = "request cfg (lc_UserFilter cfg) user_attributes"
  obtain conn where c1: "dialReal dial cfg = Inr conn"
    using assms by (cases "dialReal dial cfg") (auto simp: Source_Sync_def)
  obtain groups where c2: "ld_Search conn ?groups = Inr groups"
    using assms c1 by (cases "ld_Search conn ?groups") (auto simp: Source_Sync_def readGroups_def)
  obtain people where c3: "ld_Search conn ?people = Inr people"
    using assms c1 c2 by (cases "ld_Search conn ?people") (auto simp: Source_Sync_def readGroups_def readUsers_def Let_def)
  note c = c1 c2 c3
  define byDN where "byDN = foldl (\<lambda>m e. m(normalizeDN parse (en_DN e) \<mapsto> uuid_of e)) Map.empty (keyed_entries groups)"
  obtain unknown where r: "foldl (read_user parse byDN) nobody_read people =
     \<lparr>rd_Users = map (\<lambda>e. user_of parse e
        (List.map_filter (\<lambda>dn. byDN (normalizeDN parse dn)) (attributeValues e attrMemberOf))) (keyed_entries people),
      rd_Skipped = map en_DN (filter (\<lambda>e. uuid_of e = []) people), rd_Unresolved = unknown\<rparr>"
     "set unknown = {dn. \<exists>e \<in> set (keyed_entries people). dn \<in> set (attributeValues e attrMemberOf) \<and> byDN (normalizeDN parse dn) = None}"
    using read_user_fold by blast
  have "read = \<lparr>ir_Snapshot = \<lparr>sn_Source = SourceLDAP, sn_Users = rd_Users (foldl (read_user parse byDN) nobody_read people),
      sn_Groups = map (group_of parse) (keyed_entries groups)\<rparr>,
      ir_SkippedEntries = rd_Skipped (foldl (read_user parse byDN) nobody_read people),
      ir_UnresolvedMemberships = rd_Unresolved (foldl (read_user parse byDN) nobody_read people)\<rparr>"
    using assms c by (simp add: Source_Sync_def readGroups_def readUsers_def Let_def byDN_def)
  with c r show ?thesis
    by (intro that [of conn groups people byDN] fold_keys) (simp_all add: byDN_def)
qed

text \<open>C35 No membership is lost. A directory read holds everybody who can be identified, in order, and reports
  the others; and each membership of a person it holds is either a group of the same read that the person is then
  in, or reported.\<close>

theorem no_membership_is_lost:
  assumes "Source_Sync parse dial cfg = Inr read"
  shows "\<exists>conn groups people. dialReal dial cfg = Inr conn \<and>
    ld_Search conn (request cfg (lc_GroupFilter cfg) [attrUUID, ''cn'', ''displayName'', ''description'']) = Inr groups \<and>
    ld_Search conn (request cfg (lc_UserFilter cfg) user_attributes) = Inr people \<and>
    map u_SourceUUID (sn_Users (ir_Snapshot read)) = filter (\<lambda>i. i \<noteq> []) (map uuid_of people) \<and>
    ir_SkippedEntries read = map en_DN (filter (\<lambda>e. uuid_of e = []) people) \<and>
    (\<forall>e \<in> set people. \<forall>dn \<in> set (attributeValues e attrMemberOf). uuid_of e \<noteq> [] \<longrightarrow>
       dn \<in> set (ir_UnresolvedMemberships read) \<or>
       (\<exists>g \<in> set groups. \<exists>u \<in> set (sn_Users (ir_Snapshot read)). normalizeDN parse (en_DN g) = normalizeDN parse dn \<and>
          u_SourceUUID u = uuid_of e \<and> uuid_of g \<in> set (u_GroupUUIDs u)))"
proof (rule Source_Sync_parts [OF assms])
  fix conn groups people byDN
  assume p: "dialReal dial cfg = Inr conn"
    "ld_Search conn (request cfg (lc_GroupFilter cfg) [attrUUID, ''cn'', ''displayName'', ''description'']) = Inr groups"
    "ld_Search conn (request cfg (lc_UserFilter cfg) user_attributes) = Inr people"
    and users: "sn_Users (ir_Snapshot read) = map (\<lambda>e. user_of parse e
        (List.map_filter (\<lambda>dn. byDN (normalizeDN parse dn)) (attributeValues e attrMemberOf))) (keyed_entries people)"
    and skipped: "ir_SkippedEntries read = map en_DN (filter (\<lambda>e. uuid_of e = []) people)"
    and unknown: "set (ir_UnresolvedMemberships read) =
       {dn. \<exists>e \<in> set (keyed_entries people). dn \<in> set (attributeValues e attrMemberOf) \<and> byDN (normalizeDN parse dn) = None}"
    and keys: "\<And>k v. byDN k = Some v \<Longrightarrow> \<exists>e \<in> set (keyed_entries groups). normalizeDN parse (en_DN e) = k \<and> uuid_of e = v"
  have "dn \<in> set (ir_UnresolvedMemberships read) \<or>
       (\<exists>g \<in> set groups. \<exists>u \<in> set (sn_Users (ir_Snapshot read)). normalizeDN parse (en_DN g) = normalizeDN parse dn \<and>
          u_SourceUUID u = uuid_of e \<and> uuid_of g \<in> set (u_GroupUUIDs u))"
    if e: "e \<in> set people" "uuid_of e \<noteq> []" and dn: "dn \<in> set (attributeValues e attrMemberOf)" for e dn
  proof (cases "byDN (normalizeDN parse dn)")
    case None
    with e dn show ?thesis unfolding unknown keyed_entries_def by auto
  next
    case (Some v)
    from keys [OF this] obtain g where g: "g \<in> set groups" "normalizeDN parse (en_DN g) = normalizeDN parse dn" "uuid_of g = v"
      by (auto simp: keyed_entries_def)
    moreover have "v \<in> set (List.map_filter (\<lambda>dn. byDN (normalizeDN parse dn)) (attributeValues e attrMemberOf))"
      using dn Some by (force simp: set_map_filter)
    ultimately show ?thesis using e unfolding users keyed_entries_def by fastforce
  qed
  moreover have "map u_SourceUUID (sn_Users (ir_Snapshot read)) = filter (\<lambda>i. i \<noteq> []) (map uuid_of people)"
    by (simp add: users keyed_entries_def filter_map comp_def)
  ultimately show ?thesis using p skipped by blast
qed

section \<open>Keeping a read\<close>

lemma replace_groups_ok:
  "(\<forall>g \<in> set gs. g_SourceUUID g \<noteq> []) \<Longrightarrow>
     \<exists>db' m'. replace_groups source gs m db = Inr (db', m') \<and> dom m' = dom m \<union> g_SourceUUID ` set gs"
proof (induction gs arbitrary: m db)
  case (Cons g gs)
  obtain db1 i where "upsertGroup source g db = (db1, i)" by fastforce
  moreover from Cons.IH [of "m(g_SourceUUID g \<mapsto> i)" db1] Cons.prems obtain db' m'
    where "replace_groups source gs (m(g_SourceUUID g \<mapsto> i)) db1 = Inr (db', m')"
      "dom m' = dom (m(g_SourceUUID g \<mapsto> i)) \<union> g_SourceUUID ` set gs" by (metis list.set_intros(2))
  ultimately show ?case using Cons.prems by simp
qed simp

lemma insert_memberships_total: "set uuids \<subseteq> dom m \<Longrightarrow> \<exists>db'. insert_memberships i m uuids db = Inr db'"
  by (induction uuids arbitrary: db) auto

lemma replace_users_total:
  "(\<forall>u \<in> set us. u_SourceUUID u \<noteq> [] \<and> set (u_GroupUUIDs u) \<subseteq> dom m) \<Longrightarrow>
     \<exists>db' n'. replace_users source m us n db = Inr (db', n')"
proof (induction us arbitrary: n db)
  case (Cons u us)
  obtain db1 i bk where up: "upsertUser source u db = (db1, i, bk)" by (metis prod_cases3)
  from Cons.prems obtain db2 where "setUserGroups i (u_GroupUUIDs u) m db1 = Inr db2"
    unfolding setUserGroups_def using insert_memberships_total by (metis list.set_intros(1))
  with up Cons.IH [of "if bk then n + 1 else n" db2] Cons.prems show ?case by simp
qed simp

text \<open>C36 What the directory adapter reads, the store keeps. A read of the directory is stored whatever the file
  holds, except that a read with nobody in it does not replace the people the file has.\<close>

theorem directory_reads_are_stored:
  assumes "Source_Sync parse dial cfg = Inr read"
  shows "(\<exists>result db'. SyncIdentity (Some (Inr read)) db = (Inr result, db') \<and> id_Users result = length (sn_Users (ir_Snapshot read))) \<or>
    (SyncIdentity (Some (Inr read)) db = (Inl (WouldOrphanEveryone (countActiveUsers db)), db) \<and>
     sn_Users (ir_Snapshot read) = [] \<and> 0 < countActiveUsers db)"
proof (rule Source_Sync_parts [OF assms])
  fix groups people byDN
  assume g: "sn_Groups (ir_Snapshot read) = map (group_of parse) (keyed_entries groups)"
    and u: "sn_Users (ir_Snapshot read) = map (\<lambda>e. user_of parse e
        (List.map_filter (\<lambda>dn. byDN (normalizeDN parse dn)) (attributeValues e attrMemberOf))) (keyed_entries people)"
    and keys: "\<And>k v. byDN k = Some v \<Longrightarrow> \<exists>e \<in> set (keyed_entries groups). normalizeDN parse (en_DN e) = k \<and> uuid_of e = v"
  have "\<forall>g \<in> set (sn_Groups (ir_Snapshot read)). g_SourceUUID g \<noteq> []" by (simp add: g keyed_entries_def)
  from replace_groups_ok [OF this, of "sn_Source (ir_Snapshot read)" Map.empty db] obtain db1 m
    where m: "replace_groups (sn_Source (ir_Snapshot read)) (sn_Groups (ir_Snapshot read)) Map.empty db = Inr (db1, m)"
      "dom m = uuid_of ` set (keyed_entries groups)"
    by (auto simp: g image_image)
  have "set (List.map_filter (\<lambda>dn. byDN (normalizeDN parse dn)) vs) \<subseteq> dom m" for vs
    unfolding m(2) using keys by (force simp: set_map_filter)
  then have "\<forall>p \<in> set (sn_Users (ir_Snapshot read)). u_SourceUUID p \<noteq> [] \<and> set (u_GroupUUIDs p) \<subseteq> dom m"
    by (simp add: u keyed_entries_def)
  from replace_users_total [OF this] obtain db2 n
    where "replace_users (sn_Source (ir_Snapshot read)) m (sn_Users (ir_Snapshot read)) 0 db1 = Inr (db2, n)" by blast
  with m obtain db3 result where "ReplaceIdentity (ir_Snapshot read) db = Inr (db3, result)"
    "id_Users result = length (sn_Users (ir_Snapshot read))"
    by (cases "markOrphaned (sn_Source (ir_Snapshot read)) (map u_SourceUUID (sn_Users (ir_Snapshot read))) db2")
      (simp add: ReplaceIdentity_def)
  then show ?thesis by (auto simp: SyncIdentity_def Let_def)
qed

section \<open>A directory\<close>

definition ex_config :: SourceConfig where
  "ex_config = \<lparr>lc_URL = ''ldap://d'', lc_BaseDN = ''dc=x'', lc_BindDN = ''cn=r'', lc_BindPassword = ''p'',
     lc_UserFilter = DefaultUserFilter, lc_GroupFilter = DefaultGroupFilter, lc_Timeout = DefaultTimeout\<rparr>"

definition ex_people :: "Entry list" where
  "ex_people = [\<lparr>en_DN = ''uid=ann,dc=x'', en_Attributes = [(''entryUUID'', [''u1'']), (''uid'', [''ann'']),
       (''memberof'', [''CN=Staff,dc=x'', ''cn=gone,dc=x''])]\<rparr>,
     \<lparr>en_DN = ''uid=svc,dc=x'', en_Attributes = []\<rparr>]"

definition ex_groups :: "Entry list" where
  "ex_groups = [\<lparr>en_DN = ''cn=staff,dc=x'', en_Attributes = [(''entryuuid'', [''g1''])]\<rparr>]"

definition ex_conn :: Connection where
  "ex_conn = \<lparr>ld_Bind = (\<lambda>dn pw. if pw = ''p'' then None else Some ''no''),
     ld_Search = (\<lambda>r. Inr (if sq_Filter r = DefaultUserFilter then ex_people else ex_groups))\<rparr>"

lemma ex_answers:
  "dialReal (\<lambda>_. Inr ex_conn) ex_config = Inr ex_conn"
  "ld_Search ex_conn (request ex_config (lc_UserFilter ex_config) attrs) = Inr ex_people"
  "ld_Search ex_conn (request ex_config (lc_GroupFilter ex_config) attrs) = Inr ex_groups"
  by (simp_all add: dialReal_def ex_config_def ex_conn_def request_def DefaultUserFilter_def DefaultGroupFilter_def)

lemma ex_read:
  "\<exists>read. Source_Sync (\<lambda>_. None) (\<lambda>_. Inr ex_conn) ex_config = Inr read \<and> length (sn_Users (ir_Snapshot read)) = 1"
proof -
  have "length (keyed_entries ex_people) = 1" by code_simp
  moreover have "length (rd_Users (foldl (read_user parse byDN) nobody_read es)) = length (keyed_entries es)" for parse byDN es
    using read_user_fold [of parse byDN es] by fastforce
  ultimately have "length (rd_Users (foldl (read_user (\<lambda>_. None) byDN) nobody_read ex_people)) = 1" for byDN by simp
  then show ?thesis by (simp add: Source_Sync_def readGroups_def readUsers_def ex_answers Let_def)
qed

theorem no_membership_is_lost_witness:
  "\<exists>read. Source_Sync (\<lambda>_. None) (\<lambda>_. Inr ex_conn) ex_config = Inr read \<and>
     map u_SourceUUID (sn_Users (ir_Snapshot read)) = [''u1''] \<and> ir_SkippedEntries read = [''uid=svc,dc=x'']"
proof -
  obtain read where read: "Source_Sync (\<lambda>_. None) (\<lambda>_. Inr ex_conn) ex_config = Inr read" using ex_read by blast
  have "filter (\<lambda>i. i \<noteq> []) (map uuid_of ex_people) = [''u1'']"
    "map en_DN (filter (\<lambda>e. uuid_of e = []) ex_people) = [''uid=svc,dc=x'']" by code_simp+
  with no_membership_is_lost [OF read] read ex_answers show ?thesis by auto
qed

theorem directory_reads_are_stored_witness:
  "\<exists>read result db'. Source_Sync (\<lambda>_. None) (\<lambda>_. Inr ex_conn) ex_config = Inr read \<and>
     SyncIdentity (Some (Inr read)) empty_db = (Inr result, db') \<and> id_Users result = 1"
proof -
  obtain read where read: "Source_Sync (\<lambda>_. None) (\<lambda>_. Inr ex_conn) ex_config = Inr read"
    "length (sn_Users (ir_Snapshot read)) = 1" using ex_read by blast
  with directory_reads_are_stored [OF read(1), of empty_db] show ?thesis by fastforce
qed

end
