(* ===== verification/Webhook.thy ===== *)
theory Webhook
  imports Wire Engine
begin

text \<open>
  \<open>internal/core/secret.go\<close> and \<open>internal/notify/notify.go\<close>: what a credential and an address look
  like in a log, and posting an event to a webhook. \<open>net/url\<close> is a parameter, and so is the HTTP client,
  which yields the text of its error or a status.
\<close>

section \<open>Secrets\<close>

definition redacted :: string where
  "redacted = ''[redacted]''"

text \<open>A \<open>Secret\<close> is the string it holds; every way to print it but \<open>Reveal\<close> yields this.\<close>

definition Secret_String :: "string \<Rightarrow> string" where
  "Secret_String s = redacted"

definition Secret_Empty :: "string \<Rightarrow> bool" where
  "Secret_Empty s \<longleftrightarrow> s = []"

record URL =
  ul_Scheme :: string
  ul_Userinfo :: "string option"
  ul_Host :: string
  ul_Path :: string
  ul_RawQuery :: string

record UrlLib =
  url_Parse :: "string \<Rightarrow> URL option"
  url_String :: "URL \<Rightarrow> string"
  url_Keys :: "string \<Rightarrow> string list"
  url_Encode :: "(string \<times> string) list \<Rightarrow> string"

definition RedactURL :: "UrlLib \<Rightarrow> string \<Rightarrow> string" where
  "RedactURL lib raw =
     (case url_Parse lib raw of
        None \<Rightarrow> redacted
      | Some u \<Rightarrow>
          let u = (if ul_Userinfo u \<noteq> None then u\<lparr>ul_Userinfo := Some ''redacted''\<rparr> else u);
              u = (if ul_RawQuery u \<noteq> []
                   then u\<lparr>ul_RawQuery := url_Encode lib (map (\<lambda>k. (k, ''redacted'')) (url_Keys lib (ul_RawQuery u)))\<rparr>
                   else u) in
          url_String lib u)"

definition RedactURLToHost :: "UrlLib \<Rightarrow> string \<Rightarrow> string" where
  "RedactURLToHost lib raw =
     (case url_Parse lib raw of
        None \<Rightarrow> redacted
      | Some u \<Rightarrow> if ul_Host u = [] then redacted else ul_Scheme u @ ''://'' @ ul_Host u)"

section \<open>Posting\<close>

record Webhook =
  wk_URL :: string
  wk_Host :: string
  wk_Token :: string
  wk_Timeout :: Duration

record Post =
  po_URL :: string
  po_Headers :: "(string \<times> string) list"
  po_Event :: Event
  po_Host :: string
  po_Timeout :: Duration

datatype notify_error =
    BadRequest string
  | PostFailed string string
  | PostStatus string nat

definition NewWebhook :: "string \<Rightarrow> string \<Rightarrow> Duration \<Rightarrow> Webhook" where
  "NewWebhook url host timeout =
     \<lparr>wk_URL = url, wk_Host = host, wk_Token = [], wk_Timeout = (if timeout \<le> 0 then 10 * second else timeout)\<rparr>"

definition WithToken :: "string \<Rightarrow> Webhook \<Rightarrow> Webhook" where
  "WithToken token h = h\<lparr>wk_Token := token\<rparr>"

definition Webhook_Configured :: "Webhook \<Rightarrow> bool" where
  "Webhook_Configured h \<longleftrightarrow> wk_URL h \<noteq> []"

text \<open>\<open>zero\<close> is Go's zero time; \<open>valid\<close> says whether a request can be made for an address.\<close>

definition post_of :: "Time \<Rightarrow> Time \<Rightarrow> Webhook \<Rightarrow> Event \<Rightarrow> Post" where
  "post_of zero now h e =
     \<lparr>po_URL = wk_URL h,
      po_Headers = [(''Content-Type'', ''application/json''), (''User-Agent'', ''nuno'')] @
        (if Secret_Empty (wk_Token h) then [] else [(''Authorization'', ''Bearer '' @ wk_Token h)]),
      po_Event = (if ev_At e = zero then e\<lparr>ev_At := now\<rparr> else e), po_Host = wk_Host h, po_Timeout = wk_Timeout h\<rparr>"

definition Notify ::
  "UrlLib \<Rightarrow> (string \<Rightarrow> string option) \<Rightarrow> (Post \<Rightarrow> string + nat) \<Rightarrow> Time \<Rightarrow> Time \<Rightarrow> Webhook \<Rightarrow> Event \<Rightarrow> notify_error option" where
  "Notify lib invalid post zero now h e =
     (if \<not> Webhook_Configured h then None
      else case invalid (wk_URL h) of
        Some err \<Rightarrow> Some (BadRequest err)
      | None \<Rightarrow>
          (case post (post_of zero now h e) of
             Inl err \<Rightarrow> Some (PostFailed (RedactURLToHost lib (wk_URL h)) err)
           | Inr code \<Rightarrow>
               if code < 200 \<or> 299 < code then Some (PostStatus (RedactURLToHost lib (wk_URL h)) code) else None))"

definition notify_text :: "(nat \<Rightarrow> string) \<Rightarrow> notify_error \<Rightarrow> string" where
  "notify_text status e =
     (case e of
        BadRequest err \<Rightarrow> err
      | PostFailed host err \<Rightarrow> ''post to '' @ host @ '': '' @ err
      | PostStatus host code \<Rightarrow> ''post to '' @ host @ '': '' @ status code)"

section \<open>What is told\<close>

text \<open>The host is all that the program itself says of an address: two webhooks of one host look alike.\<close>

lemma RedactURLToHost_same:
  "url_Parse lib a = Some u \<Longrightarrow> url_Parse lib b = Some v \<Longrightarrow> ul_Scheme u = ul_Scheme v \<Longrightarrow> ul_Host u = ul_Host v \<Longrightarrow>
     RedactURLToHost lib a = RedactURLToHost lib b"
  by (simp add: RedactURLToHost_def)

text \<open>The text of a failed delivery ends in the text of the client's own error.\<close>

lemma failed_delivery_text:
  assumes "Webhook_Configured h" "invalid (wk_URL h) = None" "post (post_of zero now h e) = Inl err"
  shows "\<exists>n before. Notify lib invalid post zero now h e = Some n \<and> notify_text status n = before @ err"
proof -
  have "notify_text status (PostFailed (RedactURLToHost lib (wk_URL h)) err) =
      (''post to '' @ RedactURLToHost lib (wk_URL h) @ '': '') @ err" by (simp add: notify_text_def)
  with assms show ?thesis unfolding Notify_def by fastforce
qed

end
