(* ===== verification/Startup.thy ===== *)
theory Startup
  imports Webhook Ldap Console
begin

text \<open>
  \<open>internal/core/registry.go\<close>, \<open>cmd/nuno/providers.go\<close>, \<open>cmd/nuno/main.go\<close> and the constructors of
  the adapters: from the environment to the parts a command runs with, or to the exit code that says
  why not. What an adapter does over its client is a parameter here.
\<close>

section \<open>The registry of providers\<close>

record ProviderSettings =
  ps_Instance :: ProviderInstance
  ps_BaseURL :: string
  ps_Credentials :: "(string \<times> string) list"
  ps_Timeout :: Duration

definition Credential :: "ProviderSettings \<Rightarrow> string \<Rightarrow> string option" where
  "Credential s name = (case map_of (ps_Credentials s) name of None \<Rightarrow> None | Some v \<Rightarrow> if v = [] then None else Some v)"

definition Settings :: "ProviderConfig \<Rightarrow> ProviderSettings" where
  "Settings p =
     \<lparr>ps_Instance = \<lparr>pi_ID = 0, pi_Type = pc_Type p, pi_Name = pc_Name p, pi_MatchKey = pc_MatchKey p, pi_ConfigRef = ConfigRef p\<rparr>,
      ps_BaseURL = pc_BaseURL p, ps_Credentials = pc_Credentials p, ps_Timeout = pc_Timeout p\<rparr>"

datatype client_error = CredentialRequired string | UrlUnreadable | UrlNotHttp | UrlWithoutHost

datatype registry_error =
    EmptyType
  | NilFactory string
  | AlreadyRegistered string
  | UnknownType string "string list"
  | FactoryFailed string string client_error

type_synonym 'w Factory = "ProviderSettings \<Rightarrow> client_error + 'w Adapter"
type_synonym 'w Registry = "(string \<times> 'w Factory) list"

definition NewRegistry :: "'w Registry" where
  "NewRegistry = []"

definition Register :: "string \<Rightarrow> 'w Factory option \<Rightarrow> 'w Registry \<Rightarrow> registry_error + 'w Registry" where
  "Register typ f r =
     (if typ = [] then Inl EmptyType
      else case f of
        None \<Rightarrow> Inl (NilFactory typ)
      | Some f \<Rightarrow> if map_of r typ \<noteq> None then Inl (AlreadyRegistered typ) else Inr (r @ [(typ, f)]))"

definition Types :: "'w Registry \<Rightarrow> string list" where
  "Types r = sort (map fst r)"

definition Build :: "'w Registry \<Rightarrow> ProviderSettings \<Rightarrow> registry_error + 'w Adapter" where
  "Build r s =
     (case map_of r (pi_Type (ps_Instance s)) of
        None \<Rightarrow> Inl (UnknownType (pi_Type (ps_Instance s)) (Types r))
      | Some f \<Rightarrow>
          (case f s of
             Inl e \<Rightarrow> Inl (FactoryFailed (pi_Name (ps_Instance s)) (pi_Type (ps_Instance s)) e)
           | Inr p \<Rightarrow> Inr p))"

section \<open>The constructors of the adapters\<close>

record Client =
  cl_Base :: URL
  cl_Username :: string
  cl_Secret :: string
  cl_Timeout :: Duration

definition TrimSuffix :: "string \<Rightarrow> string \<Rightarrow> string" where
  "TrimSuffix s p = (case CutSuffix s p of None \<Rightarrow> s | Some rest \<Rightarrow> rest)"

definition newClient :: "UrlLib \<Rightarrow> string \<Rightarrow> string \<Rightarrow> string \<Rightarrow> Duration \<Rightarrow> client_error + Client" where
  "newClient lib baseURL username secret timeout =
     (case url_Parse lib (TrimSuffix baseURL ''/'') of
        None \<Rightarrow> Inl UrlUnreadable
      | Some base \<Rightarrow>
          if ul_Scheme base \<noteq> ''http'' \<and> ul_Scheme base \<noteq> ''https'' then Inl UrlNotHttp
          else if ul_Host base = [] then Inl UrlWithoutHost
          else Inr \<lparr>cl_Base = base, cl_Username = username, cl_Secret = secret, cl_Timeout = timeout\<rparr>)"

definition timeout_or_default :: "Duration \<Rightarrow> Duration" where
  "timeout_or_default t = (if t \<le> 0 then 30 * second else t)"

definition nextcloud_New :: "UrlLib \<Rightarrow> ProviderSettings \<Rightarrow> client_error + Client" where
  "nextcloud_New lib s =
     (case Credential s ''username'' of
        None \<Rightarrow> Inl (CredentialRequired (pi_ConfigRef (ps_Instance s) @ ''_USERNAME''))
      | Some username \<Rightarrow>
          (case Credential s ''password'' of
             None \<Rightarrow> Inl (CredentialRequired (pi_ConfigRef (ps_Instance s) @ ''_PASSWORD''))
           | Some password \<Rightarrow> newClient lib (ps_BaseURL s) username password (timeout_or_default (ps_Timeout s))))"

definition immich_New :: "UrlLib \<Rightarrow> ProviderSettings \<Rightarrow> client_error + Client" where
  "immich_New lib s =
     (case Credential s ''api_key'' of
        None \<Rightarrow> Inl (CredentialRequired (pi_ConfigRef (ps_Instance s) @ ''_API_KEY''))
      | Some key \<Rightarrow> newClient lib (ps_BaseURL s) [] key (timeout_or_default (ps_Timeout s)))"

text \<open>What the two packages make of a client.\<close>

record 'w Adapters =
  as_Nextcloud :: "ProviderInstance \<Rightarrow> Client \<Rightarrow> 'w Adapter"
  as_Immich :: "ProviderInstance \<Rightarrow> Client \<Rightarrow> 'w Adapter"

definition buildRegistry :: "UrlLib \<Rightarrow> 'w Adapters \<Rightarrow> registry_error + 'w Registry" where
  "buildRegistry lib ads =
     bind_result (Register ''nextcloud'' (Some (\<lambda>s. map_sum id (as_Nextcloud ads (ps_Instance s)) (nextcloud_New lib s))) NewRegistry)
       (Register ''immich'' (Some (\<lambda>s. map_sum id (as_Immich ads (ps_Instance s)) (immich_New lib s))))"

section \<open>The configured instances\<close>

text \<open>\<open>tables\<close> says whether the file has the tables; before the first migration no statement on them succeeds.\<close>

definition unstored_row :: "ProviderInstance \<Rightarrow> ProviderRow" where
  "unstored_row inst =
     \<lparr>pr_Inst = inst, pr_WriteAccess = WriteUnproven, pr_WriteProbedAt = None, pr_Version = [], pr_Reachable = False,
      pr_InSupported = False, pr_LastObserveAt = None, pr_LastObserveOK = False, pr_LastError = [], pr_DegradedReason = []\<rparr>"

definition register_instance :: "bool \<Rightarrow> ProviderInstance \<Rightarrow> Database \<Rightarrow> ProviderRow option \<times> Database" where
  "register_instance tables inst db =
     (if \<not> tables then (None, db)
      else case UpsertProvider inst db of
        Inl _ \<Rightarrow> (None, db)
      | Inr (db, _) \<Rightarrow> (case GetProviderByName (pi_Name inst) db of Inl _ \<Rightarrow> (None, db) | Inr row \<Rightarrow> (Some row, db)))"

fun buildProviders ::
  "'w Registry \<Rightarrow> bool \<Rightarrow> ProviderConfig list \<Rightarrow> Database \<Rightarrow> 'w Instance list \<times> Database" where
  "buildProviders r tables [] db = ([], db)"
| "buildProviders r tables (p # ps) db =
     (case Build r (Settings p) of
        Inl _ \<Rightarrow> buildProviders r tables ps db
      | Inr built \<Rightarrow>
          (case register_instance tables (ps_Instance (Settings p)) db of
             (None, db) \<Rightarrow> buildProviders r tables ps db
           | (Some row, db) \<Rightarrow>
               (case buildProviders r tables ps db of
                  (is, db) \<Rightarrow> (\<lparr>in_Row = row, in_Provider = built\<rparr> # is, db))))"

text \<open>Without a database.\<close>

definition buildProviders_unstored :: "'w Registry \<Rightarrow> ProviderConfig list \<Rightarrow> 'w Instance list" where
  "buildProviders_unstored r ps =
     concat (map (\<lambda>p. case Build r (Settings p) of
        Inl _ \<Rightarrow> []
      | Inr built \<Rightarrow> [\<lparr>in_Row = unstored_row (ps_Instance (Settings p)), in_Provider = built\<rparr>]) ps)"

section \<open>\<open>providers health\<close>\<close>

definition yesNo :: "bool \<Rightarrow> string" where
  "yesNo b = (if b then ''yes'' else ''no'')"

definition health_row :: "'w Env \<Rightarrow> 'w Instance \<Rightarrow> HealthResult \<Rightarrow> Line" where
  "health_row env i h =
     Row [in_Name i, pi_Type (pr_Inst (in_Row i)), yesNo (he_Reachable h),
          (if he_Version h = [] then ''unknown'' else he_Version h), yesNo (he_InSupported h), ''unproven'',
          (case he_Err h of
             Some e \<Rightarrow> env_Error env (AdapterErr e)
           | None \<Rightarrow> if \<not> he_InSupported h \<and> he_Version h \<noteq> [] then ''outside the supported major, continuing'' else [])]"

fun health_rows :: "'w Env \<Rightarrow> 'w Instance list \<Rightarrow> 'w World \<Rightarrow> (nat \<times> Line list) \<times> 'w World" where
  "health_rows env [] w = ((ExitClean, []), w)"
| "health_rows env (i # is) w =
     (case call_Health i w of (h, w) \<Rightarrow>
        (case health_rows env is w of
           ((code, rows), w) \<Rightarrow>
             ((if he_Err h \<noteq> None \<or> \<not> he_Reachable h then ExitError else code, health_row env i h # rows), w)))"

definition providersHealth :: "'w Env \<Rightarrow> 'w Instance list \<Rightarrow> 'w World \<Rightarrow> Answer \<times> 'w World" where
  "providersHealth env is w =
     (if is = [] then ((ExitConfig, [Print ''No providers are configured. See NUNO_PROVIDER_<NAME>_* in .env.example.'']), w)
      else case health_rows env is w of
        ((code, rows), w) \<Rightarrow>
          ((code, Row [''NAME'', ''TYPE'', ''REACHABLE'', ''VERSION'', ''SUPPORTED'', ''WRITE'', ''DETAIL''] # rows), w))"

section \<open>Starting a command\<close>

text \<open>What the machine answers: the environment, the file it names, the lock of a data directory, opening
  the database in it, whether that has its tables and whether they are of this version.\<close>

record Machine =
  mc_Environ :: "string list"
  mc_Read :: "string \<Rightarrow> string option"
  mc_Lock :: "string \<Rightarrow> bool"
  mc_Open :: "string \<Rightarrow> bool"
  mc_Tables :: bool
  mc_SchemaCurrent :: bool

record 'w App =
  ap_Config :: Config
  ap_Directory :: "SourceConfig option"
  ap_Instances :: "'w Instance list"
  ap_Notifier :: "Webhook option"

definition loadConfig :: "Machine \<Rightarrow> Config option" where
  "loadConfig m =
     (case Env_Resolve (mc_Read m) (mc_Environ m) of
        Inl _ \<Rightarrow> None
      | Inr env \<Rightarrow> (case Load env of (cfg, errs) \<Rightarrow> if errs = [] then Some cfg else None))"

definition buildDirectory :: "Config \<Rightarrow> ldap_error + SourceConfig option" where
  "buildDirectory cfg =
     (if \<not> LDAP_Configured (cf_LDAP cfg) then Inr None
      else case Source_New (cf_LDAP cfg) of Inl e \<Rightarrow> Inl e | Inr s \<Rightarrow> Inr (Some s))"

definition buildNotifier :: "Config \<Rightarrow> Webhook option" where
  "buildNotifier cfg =
     (if cf_WebhookURL cfg = [] then None
      else Some (WithToken (cf_WebhookToken cfg) (NewWebhook (cf_WebhookURL cfg) (cf_PublicURL cfg) (cf_WebhookTimeout cfg))))"

definition withAppSchema ::
  "UrlLib \<Rightarrow> 'w Adapters \<Rightarrow> Machine \<Rightarrow> bool \<Rightarrow> ('w App \<Rightarrow> Database \<Rightarrow> nat \<times> Database) \<Rightarrow> Database \<Rightarrow> nat \<times> Database" where
  "withAppSchema lib ads m migrates f db =
     (case loadConfig m of
        None \<Rightarrow> (ExitConfig, db)
      | Some cfg \<Rightarrow>
          if \<not> mc_Lock m (cf_DataDir cfg) then (ExitConfig, db)
          else if \<not> mc_Open m (cf_DataDir cfg) then (ExitConfig, db)
          else if \<not> migrates \<and> \<not> mc_SchemaCurrent m then (ExitConfig, db)
          else (case (buildRegistry lib ads, buildDirectory cfg) of
              (Inr registry, Inr directory) \<Rightarrow>
                (case buildProviders registry (mc_Tables m) (cf_Providers cfg) db of
                   (is, db) \<Rightarrow>
                     f \<lparr>ap_Config = cfg, ap_Directory = directory, ap_Instances = is, ap_Notifier = buildNotifier cfg\<rparr> db)
            | _ \<Rightarrow> (ExitConfig, db)))"

definition withApp ::
  "UrlLib \<Rightarrow> 'w Adapters \<Rightarrow> Machine \<Rightarrow> ('w App \<Rightarrow> Database \<Rightarrow> nat \<times> Database) \<Rightarrow> Database \<Rightarrow> nat \<times> Database" where
  "withApp lib ads m = withAppSchema lib ads m False"

definition withAppMigrating ::
  "UrlLib \<Rightarrow> 'w Adapters \<Rightarrow> Machine \<Rightarrow> ('w App \<Rightarrow> Database \<Rightarrow> nat \<times> Database) \<Rightarrow> Database \<Rightarrow> nat \<times> Database" where
  "withAppMigrating lib ads m = withAppSchema lib ads m True"

definition withConfig ::
  "UrlLib \<Rightarrow> 'w Adapters \<Rightarrow> Machine \<Rightarrow> (Config \<Rightarrow> 'w Instance list \<Rightarrow> nat) \<Rightarrow> nat" where
  "withConfig lib ads m f =
     (case loadConfig m of
        None \<Rightarrow> ExitConfig
      | Some cfg \<Rightarrow>
          (case buildRegistry lib ads of
             Inl _ \<Rightarrow> ExitConfig
           | Inr registry \<Rightarrow> f cfg (buildProviders_unstored registry (cf_Providers cfg))))"

section \<open>The command line\<close>

text \<open>What a command line asks for, and what each command needs before it runs.\<close>

datatype command =
    ShowVersion | ShowHelp | ShowUsage | UnknownCommand string | CheckHealth | HealthUsage
  | Migrating string
  | Opening string "string list"

definition plain_commands :: "string list" where
  "plain_commands = [''observe'', ''usage'', ''accounts'', ''runs'']"

definition argument_commands :: "string list" where
  "argument_commands = [''doctor'', ''tiers'', ''override'', ''plan'', ''explain'', ''reconcile'', ''apply'', ''adopt'', ''users'', ''link'', ''unlink'']"

definition command_of :: "string list \<Rightarrow> command" where
  "command_of args =
     (case args of
        [] \<Rightarrow> ShowUsage
      | c # rest \<Rightarrow>
          if c = ''version'' then ShowVersion
          else if c \<in> {''help'', ''-h'', ''--help''} then ShowHelp
          else if c \<in> {''serve'', ''migrate''} then Migrating c
          else if c \<in> set plain_commands then Opening c []
          else if c \<in> set argument_commands then Opening c rest
          else if c = ''providers'' then (case rest of [] \<Rightarrow> HealthUsage | h # _ \<Rightarrow> if h = ''health'' then CheckHealth else HealthUsage)
          else UnknownCommand c)"

text \<open>\<open>exec\<close> is what a command does with the parts it is given.\<close>

definition run ::
  "UrlLib \<Rightarrow> 'w Adapters \<Rightarrow> Machine \<Rightarrow> (string \<Rightarrow> string list \<Rightarrow> 'w App \<Rightarrow> Database \<Rightarrow> nat \<times> Database) \<Rightarrow>
   ('w Instance list \<Rightarrow> nat) \<Rightarrow> string list \<Rightarrow> Database \<Rightarrow> nat \<times> Database" where
  "run lib ads m exec health args db =
     (case command_of args of
        ShowVersion \<Rightarrow> (ExitClean, db)
      | ShowHelp \<Rightarrow> (ExitClean, db)
      | ShowUsage \<Rightarrow> (ExitConfig, db)
      | UnknownCommand _ \<Rightarrow> (ExitConfig, db)
      | HealthUsage \<Rightarrow> (ExitConfig, db)
      | CheckHealth \<Rightarrow> (withConfig lib ads m (\<lambda>_ is. health is), db)
      | Migrating c \<Rightarrow> withAppMigrating lib ads m (exec c []) db
      | Opening c rest \<Rightarrow> withApp lib ads m (exec c rest) db)"

end
