(* ===== verification/StartupGuarantees.thy ===== *)
theory StartupGuarantees
  imports Startup ServerInvariant ConfigGuarantees
begin

text \<open>
  What holds when a command starts: nothing touches the file before every precondition is met, what the
  start itself writes keeps the file sound, and which configured instances are left out.
\<close>

section \<open>The registry\<close>

definition registry :: "UrlLib \<Rightarrow> 'w Adapters \<Rightarrow> 'w Registry" where
  "registry lib ads =
     [(''nextcloud'', \<lambda>s. map_sum id (as_Nextcloud ads (ps_Instance s)) (nextcloud_New lib s)),
      (''immich'', \<lambda>s. map_sum id (as_Immich ads (ps_Instance s)) (immich_New lib s))]"

lemma buildRegistry_ok: "buildRegistry lib ads = Inr (registry lib ads)"
  by (simp add: buildRegistry_def Register_def NewRegistry_def registry_def)

text \<open>An unknown type is refused, and the refusal names the types there are.\<close>

lemma Build_unknown:
  "pi_Type (ps_Instance s) \<notin> {''nextcloud'', ''immich''} \<Longrightarrow>
     Build (registry lib ads) s = Inl (UnknownType (pi_Type (ps_Instance s)) [''immich'', ''nextcloud''])"
proof -
  have "Types (registry lib ads) = sort [''nextcloud'', ''immich'']" by (simp add: Types_def registry_def)
  also have "\<dots> = [''immich'', ''nextcloud'']" by code_simp
  finally show "pi_Type (ps_Instance s) \<notin> {''nextcloud'', ''immich''} \<Longrightarrow> ?thesis"
    by (simp add: Build_def registry_def)
qed

section \<open>Instances\<close>

lemma register_reached [reached]: "register_instance tables inst db = (row, db') \<Longrightarrow> reachable db \<Longrightarrow> reachable db'"
  by (auto simp: register_instance_def split: if_splits sum.splits dest: reached_identity)

lemma buildProviders_reached [reached]: "buildProviders r tables ps db = (insts, db') \<Longrightarrow> reachable db \<Longrightarrow> reachable db'"
proof (induction ps arbitrary: insts db)
  case (Cons p ps)
  then show ?case by (fastforce split: sum.splits prod.splits option.splits dest: register_reached)
qed simp

text \<open>A file without its tables registers nothing: a command that migrates it builds its instances before.\<close>

lemma no_tables_no_instances: "buildProviders r False ps db = ([], db)"
  by (induction ps) (simp_all add: register_instance_def split: sum.split)

text \<open>An instance without a match key, which the configuration accepts, is refused by the table.\<close>

lemma UpsertProvider_key: "\<not> MatchKey_Valid (pi_MatchKey inst) \<Longrightarrow> \<not> is_ok (UpsertProvider inst db)"
  by (auto simp: UpsertProvider_def split: option.split)

lemma without_match_key_left_out:
  "pi_MatchKey inst = MatchOther [] \<Longrightarrow> register_instance tables inst db = (None, db)"
  using UpsertProvider_key [of inst db]
  by (cases "UpsertProvider inst db") (auto simp: register_instance_def MatchKey_Valid_def)

section \<open>Starting\<close>

lemma withAppSchema_cases:
  assumes "withAppSchema lib ads m migrates f db = (code, db')"
  obtains (refused) "code = ExitConfig" "db' = db"
  | (started) app db1 where "loadConfig m = Some (ap_Config app)" "mc_Lock m (cf_DataDir (ap_Config app))"
      "mc_Open m (cf_DataDir (ap_Config app))" "migrates \<or> mc_SchemaCurrent m"
      "buildDirectory (ap_Config app) = Inr (ap_Directory app)"
      "buildProviders (registry lib ads) (mc_Tables m) (cf_Providers (ap_Config app)) db = (ap_Instances app, db1)"
      "f app db1 = (code, db')"
proof (cases "loadConfig m")
  case None
  then show ?thesis using assms refused by (simp add: withAppSchema_def)
next
  case (Some cfg)
  show ?thesis
  proof (cases "buildDirectory cfg")
    case (Inl e)
    then show ?thesis using assms refused Some by (auto simp: withAppSchema_def split: if_splits sum.splits)
  next
    case (Inr d)
    obtain insts db1 where b: "buildProviders (registry lib ads) (mc_Tables m) (cf_Providers cfg) db = (insts, db1)" by fastforce
    let ?app = "\<lparr>ap_Config = cfg, ap_Directory = d, ap_Instances = insts, ap_Notifier = buildNotifier cfg\<rparr>"
    show ?thesis
      using assms Some Inr b refused started [of ?app db1]
      by (auto simp: withAppSchema_def buildRegistry_ok split: if_splits)
  qed
qed

text \<open>C38 Nothing runs unprepared. When a command line changed the file, the configuration was accepted, the data
  directory was locked and its database opened, the schema was current unless the command is one that migrates, the
  directory was built, and the command ran on a file that the start-up left sound.\<close>

theorem nothing_runs_unprepared:
  assumes "run lib ads m exec health args db = (code, db')" "db' \<noteq> db" "reachable db"
  shows "\<exists>c rest app db1. exec c rest app db1 = (code, db') \<and> args \<noteq> [] \<and> c = hd args \<and>
    loadConfig m = Some (ap_Config app) \<and> mc_Lock m (cf_DataDir (ap_Config app)) \<and> mc_Open m (cf_DataDir (ap_Config app)) \<and>
    (mc_SchemaCurrent m \<or> c = ''serve'' \<or> c = ''migrate'') \<and>
    buildDirectory (ap_Config app) = Inr (ap_Directory app) \<and> reachable db1"
proof -
  from assms(1,2) obtain c rest migrates where run: "withAppSchema lib ads m migrates (exec c rest) db = (code, db')"
    "args \<noteq> []" "c = hd args" "migrates \<longrightarrow> c = ''serve'' \<or> c = ''migrate''"
    by (cases args) (auto simp: run_def command_of_def withApp_def withAppMigrating_def split: if_splits list.splits)
  from run(1) show ?thesis
  proof (cases rule: withAppSchema_cases)
    case (started app db1)
    have "reachable db1" using started(6) assms(3) by (rule buildProviders_reached)
    with started run(2-4) show ?thesis by blast
  qed (use assms(2) in simp)
qed

definition ex_machine :: Machine where
  "ex_machine = \<lparr>mc_Environ = map (\<lambda>(k, v). k @ ''='' @ v) ex_environ, mc_Read = (\<lambda>_. None), mc_Lock = (\<lambda>d. d = ''/d''),
     mc_Open = (\<lambda>d. d = ''/d''), mc_Tables = True, mc_SchemaCurrent = True\<rparr>"

theorem nothing_runs_unprepared_witness:
  "\<exists>cfg. loadConfig ex_machine = Some cfg \<and> mc_Lock ex_machine (cf_DataDir cfg)"
proof -
  let ?exec = "\<lambda>c rest (app :: nat App) db. (ExitClean, SetSetting c ''done'' empty_db)"
  obtain cfg where cfg: "Load ex_environ = (cfg, [])" and c: "cf_DataDir cfg = ''/d''" "\<not> LDAP_Configured (cf_LDAP cfg)"
    using ex_Load by blast
  have "FromOS (mc_Environ ex_machine) = ex_environ" "env_get ex_environ ''NUNO_CONFIG'' [] = []" by code_simp+
  then have load: "loadConfig ex_machine = Some cfg" using cfg by (simp add: loadConfig_def Env_Resolve_def Let_def)
  have "command_of [''override''] = Opening ''override'' []" by code_simp
  then have served: "run lib ads ex_machine ?exec (\<lambda>_. 0) [''override''] empty_db =
      (ExitClean, SetSetting ''override'' ''done'' empty_db)" for lib and ads :: "nat Adapters"
    using load c by (simp add: run_def withApp_def withAppSchema_def buildRegistry_ok buildDirectory_def ex_machine_def
        split: prod.split)
  have "SetSetting ''override'' ''done'' empty_db \<noteq> empty_db" by code_simp
  from nothing_runs_unprepared [OF served this start] show ?thesis by blast
qed

end
