(* ===== verification/Explain.thy ===== *)
theory Explain
  imports Console
begin

text \<open>
  \<open>cmd/nuno/explain.go\<close>: the whole chain behind a person's numbers, printed from what the store holds.
  It calls the resolver itself, so what it prints is what a plan would use.
\<close>

section \<open>Quoting\<close>

text \<open>\<open>strconv.Quote\<close> on ASCII, which \<open>%q\<close> prints.\<close>

definition hex_char :: "nat \<Rightarrow> char" where
  "hex_char n = (if n < 10 then digit_char n else char_of (n + 87))"

definition quoted_char :: "char \<Rightarrow> string" where
  "quoted_char c =
     (if c = CHR 0x22 \<or> c = CHR 0x5C then [CHR 0x5C, c]
      else if c = CHR 0x07 then [CHR 0x5C, CHR ''a''] else if c = CHR 0x08 then [CHR 0x5C, CHR ''b'']
      else if c = CHR 0x0C then [CHR 0x5C, CHR ''f''] else if c = CHR 0x0A then [CHR 0x5C, CHR ''n'']
      else if c = CHR 0x0D then [CHR 0x5C, CHR ''r''] else if c = CHR 0x09 then [CHR 0x5C, CHR ''t'']
      else if c = CHR 0x0B then [CHR 0x5C, CHR ''v'']
      else if (of_char c :: nat) < 32 \<or> c = CHR 0x7F
      then [CHR 0x5C, CHR ''x'', hex_char (of_char c div 16), hex_char (of_char c mod 16)] else [c])"

definition Quote :: "string \<Rightarrow> string" where
  "Quote s = CHR 0x22 # concat (map quoted_char s) @ [CHR 0x22]"

definition note_text :: "Note \<Rightarrow> string" where
  "note_text n =
     (case n of
        MissingTierNote i \<Rightarrow> ''a group maps to tier '' @ show_int i @ '', which does not exist''
      | OvercommitNote name \<Rightarrow> ''tier '' @ Quote name @
          '' allocates more than 100 percent of its budget, which over-commits storage deliberately'')"

section \<open>The parts of the chain\<close>

definition tier_name :: "Policy \<Rightarrow> RowID \<Rightarrow> string" where
  "tier_name policy i = (case p_Tiers policy i of None \<Rightarrow> [] | Some t \<Rightarrow> t_Name t)"

definition group_name :: "Group list \<Rightarrow> string \<Rightarrow> string" where
  "group_name groups uuid = (case find (\<lambda>g. g_SourceUUID g = uuid) (rev groups) of None \<Rightarrow> [] | Some g \<Rightarrow> g_Name g)"

definition group_line :: "Group list \<Rightarrow> Policy \<Rightarrow> string \<Rightarrow> Line" where
  "group_line groups policy uuid =
     (let name = (if group_name groups uuid = [] then uuid else group_name groups uuid) in
      Print (''  '' @ pad_right 20 name @
        (case p_GroupTiers policy uuid of
           None \<Rightarrow> '' maps to no tier''
         | Some i \<Rightarrow> '' entitles them to '' @ tier_name policy i)))"

definition head_lines :: "Group list \<Rightarrow> Policy \<Rightarrow> UserPolicy \<Rightarrow> User \<Rightarrow> Line list" where
  "head_lines groups policy up u =
     [Print (u_UID u @ '' ('' @ source_text (u_Source u) @ '', '' @ status_text (u_Status u) @ '')'')] @
     (if u_Email u = [] then [] else [Print (''  email      '' @ u_Email u)]) @
     [Print (''  identity   '' @ u_SourceUUID u), Print [], Print ''Groups''] @
     (if u_GroupUUIDs u = [] then [Print ''  none, so the default tier applies''] else []) @
     map (group_line groups policy) (u_GroupUUIDs u) @
     (case up_TierOverride up of
        None \<Rightarrow> []
      | Some i \<Rightarrow> [Print [], Print (''Tier override: '' @ tier_name policy i @ '', which replaces the group set entirely'')])"

definition ceiling_line :: "Group list \<Rightarrow> (RowID \<rightharpoonup> OverrideOrigin) \<Rightarrow> RowID \<Rightarrow> Resolution \<Rightarrow> Line" where
  "ceiling_line groups origins providerID r =
     (if \<not> r_Present r
      then Print ''  ceiling    none: no tier they are entitled to allocates this provider, so it is left alone''
      else if r_Rule r = RuleProviderOverride
      then Print (''  ceiling    '' @ Quota_String (r_Ceiling r) @ '', from a per-provider override ('' @
             (case origins providerID of None \<Rightarrow> [] | Some og \<Rightarrow> override_origin_text og) @ ''), which beats every tier'')
      else Print (''  ceiling    '' @ Quota_String (r_Ceiling r) @ '', from tier '' @ r_TierName r @ '' via '' @
             (if r_GroupUUID r = [] then rule_text (r_Rule r) else ''group '' @ group_name groups (r_GroupUUID r))))"

definition candidate_line :: "Resolution \<Rightarrow> Candidate \<Rightarrow> Line" where
  "candidate_line r c =
     Row [''    '' @ (if c_Allocates c \<and> c_TierID c = r_TierID r then ''*'' else '' '') @ '' '' @ c_TierName c,
          ''offers '' @ (if c_Allocates c then Quota_String (c_Offered c) else ''nothing here'')]"

definition observed_lines :: "ExternalAccount list \<Rightarrow> RowID \<Rightarrow> AccountLink \<Rightarrow> Line list" where
  "observed_lines accounts providerID l =
     (case find (\<lambda>a. xa_ProviderID a = providerID \<and> xa_ExternalID a = lk_ExternalID l) (rev accounts) of
        None \<Rightarrow> [Print ''  observed   not in the last cycle, so this link is dangling and excluded'']
      | Some a \<Rightarrow>
          Print (''  observed   quota '' @ Quota_String (xa_Quota a) @ '', used '' @ Quota_String (xa_Used a) @ '', at '' @
            FormatDate (xa_ObservedAt a) @ '' UTC'') #
          (if xa_NeverUsed a
           then [Print ''             this account has never been logged into, so its zero is a fact rather than a gap'']
           else []))"

definition provider_lines ::
  "Group list \<Rightarrow> ExternalAccount list \<Rightarrow> (RowID \<rightharpoonup> OverrideOrigin) \<Rightarrow> ProviderRow \<Rightarrow> AccountLink option \<Rightarrow> Resolution \<Rightarrow> Line list" where
  "provider_lines groups accounts origins p linked r =
     [Print [], Print (pi_Name (pr_Inst p) @ '' ('' @ pi_Type (pr_Inst p) @ '')''),
      Print (case linked of
         None \<Rightarrow> ''  link       none, so Nuno writes nothing here (FR-7)''
       | Some l \<Rightarrow> ''  link       '' @ lk_ExternalID l @ '', '' @ link_origin_text (lk_Origin l)),
      ceiling_line groups origins (provider_id p) r] @
     (if r_Candidates r = [] then [] else Print ''  considered'' # map (candidate_line r) (r_Candidates r)) @
     map (\<lambda>n. Print (''  note       '' @ note_text n)) (r_Notes r) @
     (case linked of None \<Rightarrow> [] | Some l \<Rightarrow> observed_lines accounts (provider_id p) l)"

definition audit_entry_line :: "AuditEntry \<Rightarrow> Line" where
  "audit_entry_line e =
     Row [''  '' @ FormatDate (ae_At e), ae_Provider e, ae_From e @ '' -> '' @ ae_To e, audit_text (ae_Result e)]"

section \<open>The command\<close>

text \<open>Of several people whose names differ only in case the last one is explained.\<close>

definition explained_user :: "string \<Rightarrow> Database \<Rightarrow> User option" where
  "explained_user uid db = find (\<lambda>u. EqualFold (u_UID u) uid) (rev (ListUsers db))"

definition explain_lines ::
  "Policy \<Rightarrow> UserPolicy \<Rightarrow> ExternalAccount list \<Rightarrow> User \<Rightarrow> Database \<Rightarrow> Line list" where
  "explain_lines policy up accounts u db =
     (let groups = ListGroups db; providers = ListProviders db;
          linked = (\<lambda>p. find (\<lambda>l. lk_UserID l = u_ID u \<and> lk_ProviderID l = provider_id p) (rev (ListLinks db)));
          resolved = (\<lambda>p. Resolve u (provider_id p) policy up);
          entries = RecentAudit (u_ID u) 5 db in
      head_lines groups policy up u @
      concat (map (\<lambda>p. provider_lines groups accounts (override_origins (u_ID u) db) p (linked p) (resolved p)) providers) @
      [Print [], Print (''Effective budget: '' @ Quota_String (EffectiveBudget (map resolved providers))),
       Print ''That is the sum of the ceilings actually resolved, which may differ from any tier's budget.''] @
      (if entries = [] then [] else [Print [], Print ''Recent changes''] @ map audit_entry_line entries))"

definition explain :: "string list \<Rightarrow> Database \<Rightarrow> Answer" where
  "explain args db =
     (case args of
        [uid] \<Rightarrow>
          (case explained_user uid db of
             None \<Rightarrow> (ExitConfig, [])
           | Some u \<Rightarrow>
               (case (LoadPolicy db, UserPolicy_of (u_ID u) db, ListAllExternalAccounts db) of
                  (Inr policy, Inr up, Inr accounts) \<Rightarrow> (ExitClean, explain_lines policy up accounts u db)
                | _ \<Rightarrow> (ExitError, [])))
      | _ \<Rightarrow> (ExitConfig, []))"

end
