(* ===== verification/Migration.thy ===== *)
theory Migration
  imports Console Net
begin

text \<open>
  \<open>internal/store/migrate.go\<close> and \<open>migrateOnly\<close> of \<open>cmd/nuno/main.go\<close>: which schema a file has, copying it
  before it is migrated, and pruning the copies. The migrations themselves and the library that runs them are
  parameters, and so is what the operating system answers.
\<close>

section \<open>Paths\<close>

text \<open>The functions of \<open>path/filepath\<close> that are used, on a system with slashes.\<close>

fun clean_parts :: "bool \<Rightarrow> string list \<Rightarrow> string list \<Rightarrow> string list" where
  "clean_parts rooted done [] = rev done"
| "clean_parts rooted done (p # ps) =
     (if p = [] \<or> p = ''.'' then clean_parts rooted done ps
      else if p = ''..'' then
        (case done of
           d # ds \<Rightarrow> if d = ''..'' then clean_parts rooted (p # done) ps else clean_parts rooted ds ps
         | [] \<Rightarrow> clean_parts rooted (if rooted then [] else [p]) ps)
      else clean_parts rooted (p # done) ps)"

definition path_Clean :: "string \<Rightarrow> string" where
  "path_Clean p =
     (if p = [] then ''.''
      else let rooted = (hd p = CHR ''/''); rest = Join ''/'' (clean_parts rooted [] (Split CHR ''/'' p)) in
        if rooted then CHR ''/'' # rest else if rest = [] then ''.'' else rest)"

definition path_Join :: "string \<Rightarrow> string \<Rightarrow> string" where
  "path_Join a b =
     (if a = [] \<and> b = [] then [] else if a = [] then path_Clean b else if b = [] then path_Clean a
      else path_Clean (a @ ''/'' @ b))"

text \<open>\<open>after_slash\<close> is the last element, \<open>up_to_slash\<close> what comes before it.\<close>

definition after_slash :: "string \<Rightarrow> string" where
  "after_slash p = rev (takeWhile (\<lambda>c. c \<noteq> CHR ''/'') (rev p))"

definition up_to_slash :: "string \<Rightarrow> string" where
  "up_to_slash p = rev (dropWhile (\<lambda>c. c \<noteq> CHR ''/'') (rev p))"

definition path_Dir :: "string \<Rightarrow> string" where
  "path_Dir p = path_Clean (up_to_slash p)"

definition path_Base :: "string \<Rightarrow> string" where
  "path_Base p =
     (if p = [] then ''.''
      else let trimmed = rev (dropWhile (\<lambda>c. c = CHR ''/'') (rev p)) in
        if after_slash trimmed = [] then ''/'' else after_slash trimmed)"

definition path_Ext :: "string \<Rightarrow> string" where
  "path_Ext p =
     (let name = rev (after_slash p) in
      if CHR ''.'' \<in> set name then CHR ''.'' # rev (takeWhile (\<lambda>c. c \<noteq> CHR ''.'') name) else [])"

section \<open>The version of a file\<close>

text \<open>
  What the library is asked: the number at the start of a name, the newest version a file records (an error
  text, or nothing when the table is empty), making a runner, and running what is pending.
\<close>

record 'd Goose =
  go_NumericComponent :: "string \<Rightarrow> string + int64"
  go_Recorded :: "'d \<Rightarrow> string + int64 option"
  go_NewProvider :: "'d \<Rightarrow> string option"
  go_Up :: "'d \<Rightarrow> string option \<times> 'd"

datatype backup_error =
    DirectoryFailed string
  | BackupExists string
  | VacuumFailed string string
  | PruningFailed string "string list"

datatype migrate_error =
    BadMigration string string
  | NoMigrations
  | VersionUnreadable string
  | SchemaNewer int64 int64
  | SchemaOlder int64 int64
  | BackupFailed backup_error
  | RunnerFailed string
  | UpFailed int64 int64 string

text \<open>The embedded entries, with whether each is a directory.\<close>

fun target_loop :: "'d Goose \<Rightarrow> (string \<times> bool) list \<Rightarrow> int64 \<Rightarrow> migrate_error + int64" where
  "target_loop go [] target = Inr target"
| "target_loop go ((name, isDir) # es) target =
     (if isDir \<or> \<not> HasSuffix name ''.sql'' then target_loop go es target
      else case go_NumericComponent go name of
        Inl e \<Rightarrow> Inl (BadMigration name e)
      | Inr version \<Rightarrow> target_loop go es (if sint target < sint version then version else target))"

definition TargetVersion :: "'d Goose \<Rightarrow> (string \<times> bool) list \<Rightarrow> migrate_error + int64" where
  "TargetVersion go entries =
     (case target_loop go entries 0 of
        Inl e \<Rightarrow> Inl e
      | Inr target \<Rightarrow> if target = 0 then Inl NoMigrations else Inr target)"

definition DBVersion :: "'d Goose \<Rightarrow> 'd \<Rightarrow> migrate_error + int64" where
  "DBVersion go d =
     (case go_Recorded go d of
        Inl e \<Rightarrow> if Cut e ''no such table'' \<noteq> None then Inr 0 else Inl (VersionUnreadable e)
      | Inr None \<Rightarrow> Inr 0
      | Inr (Some version) \<Rightarrow> Inr version)"

definition CheckSchema :: "'d Goose \<Rightarrow> (string \<times> bool) list \<Rightarrow> 'd \<Rightarrow> migrate_error option" where
  "CheckSchema go entries d =
     (case TargetVersion go entries of
        Inl e \<Rightarrow> Some e
      | Inr target \<Rightarrow>
          (case DBVersion go d of
             Inl e \<Rightarrow> Some e
           | Inr current \<Rightarrow>
               if sint target < sint current then Some (SchemaNewer current target)
               else if sint current < sint target then Some (SchemaOlder current target) else None))"

section \<open>Copies\<close>

definition BackupsKept :: nat where
  "BackupsKept = 5"

definition BackupDir :: "string \<Rightarrow> string" where
  "BackupDir dbPath = path_Join (path_Dir dbPath) ''backups''"

text \<open>
  The file with its contents, and the entries of the directory of its copies (a directory in it is \<open>None\<close>).
  What the operating system answers to each request is a parameter: \<open>None\<close> when it succeeds.
\<close>

record 'd Disk =
  dk_Path :: string
  dk_Data :: 'd
  dk_Backups :: "(string \<times> 'd option) list"

record Answers =
  an_MkdirAll :: "string \<Rightarrow> string option"
  an_Vacuum :: "string \<Rightarrow> string option"
  an_ReadDir :: "string \<Rightarrow> string option"
  an_Remove :: "string \<Rightarrow> string option"

definition stored_copies :: "(string \<times> 'd option) list \<Rightarrow> string list" where
  "stored_copies es = map fst (filter (\<lambda>(n, x). x \<noteq> None \<and> HasSuffix n ''.db'') es)"

fun remove_all :: "Answers \<Rightarrow> string \<Rightarrow> string list \<Rightarrow> (string \<times> 'd option) list \<Rightarrow> string list \<times> (string \<times> 'd option) list" where
  "remove_all an dir [] es = ([], es)"
| "remove_all an dir (n # ns) es =
     (case an_Remove an (path_Join dir n) of
        Some e \<Rightarrow> (case remove_all an dir ns es of (errs, es) \<Rightarrow> (e # errs, es))
      | None \<Rightarrow> remove_all an dir ns (filter (\<lambda>(m, _). m \<noteq> n) es))"

definition pruneBackups :: "Answers \<Rightarrow> string \<Rightarrow> nat \<Rightarrow> (string \<times> 'd option) list \<Rightarrow> string list \<times> (string \<times> 'd option) list" where
  "pruneBackups an dir keep es =
     (case an_ReadDir an dir of
        Some e \<Rightarrow> ([e], es)
      | None \<Rightarrow>
          let backups = stored_copies es in
          if length backups \<le> keep then ([], es)
          else remove_all an dir (take (length backups - keep) (sort backups)) es)"

text \<open>\<open>stamp\<close> is the time in the layout of the name.\<close>

definition backup_name :: "string \<Rightarrow> int64 \<Rightarrow> string \<Rightarrow> string" where
  "backup_name path version stamp =
     (case CutSuffix (path_Base path) (path_Ext path) of None \<Rightarrow> path_Base path | Some s \<Rightarrow> s) @
     ''.v'' @ FormatInt version @ ''.'' @ stamp @ ''.db''"

definition Backup :: "Answers \<Rightarrow> string \<Rightarrow> int64 \<Rightarrow> 'd Disk \<Rightarrow> backup_error option \<times> 'd Disk" where
  "Backup an stamp version disk =
     (let dir = BackupDir (dk_Path disk); name = backup_name (dk_Path disk) version stamp; path = path_Join dir name in
      case an_MkdirAll an dir of
        Some e \<Rightarrow> (Some (DirectoryFailed e), disk)
      | None \<Rightarrow>
          if name \<in> fst ` set (dk_Backups disk) then (Some (BackupExists path), disk)
          else (case an_Vacuum an path of
              Some e \<Rightarrow> (Some (VacuumFailed path e), disk)
            | None \<Rightarrow>
                (case pruneBackups an dir BackupsKept (dk_Backups disk @ [(name, Some (dk_Data disk))]) of
                   (errs, es) \<Rightarrow>
                     (if errs = [] then None else Some (PruningFailed path errs), disk\<lparr>dk_Backups := es\<rparr>))))"

section \<open>Migrating\<close>

definition run_pending :: "'d Goose \<Rightarrow> int64 \<Rightarrow> int64 \<Rightarrow> 'd Disk \<Rightarrow> migrate_error option \<times> 'd Disk" where
  "run_pending go current target disk =
     (case go_NewProvider go (dk_Data disk) of
        Some e \<Rightarrow> (Some (RunnerFailed e), disk)
      | None \<Rightarrow>
          (case go_Up go (dk_Data disk) of
             (failed, d) \<Rightarrow> (map_option (UpFailed current target) failed, disk\<lparr>dk_Data := d\<rparr>)))"

definition Migrate :: "'d Goose \<Rightarrow> Answers \<Rightarrow> (string \<times> bool) list \<Rightarrow> string \<Rightarrow> 'd Disk \<Rightarrow> migrate_error option \<times> 'd Disk" where
  "Migrate go an entries stamp disk =
     (case TargetVersion go entries of
        Inl e \<Rightarrow> (Some e, disk)
      | Inr target \<Rightarrow>
          (case DBVersion go (dk_Data disk) of
             Inl e \<Rightarrow> (Some e, disk)
           | Inr current \<Rightarrow>
               if sint target < sint current then (Some (SchemaNewer current target), disk)
               else if current = target then (None, disk)
               else if 0 < sint current then
                 (case Backup an stamp current disk of
                    (Some e, disk) \<Rightarrow> (Some (BackupFailed e), disk)
                  | (None, disk) \<Rightarrow> run_pending go current target disk)
               else run_pending go current target disk))"

definition migrateOnly ::
  "'d Goose \<Rightarrow> Answers \<Rightarrow> (string \<times> bool) list \<Rightarrow> string \<Rightarrow> 'd Disk \<Rightarrow> nat \<times> 'd Disk" where
  "migrateOnly go an entries stamp disk =
     (case Migrate go an entries stamp disk of
        (Some (SchemaNewer _ _), disk) \<Rightarrow> (ExitConfig, disk)
      | (Some _, disk) \<Rightarrow> (ExitError, disk)
      | (None, disk) \<Rightarrow> (case DBVersion go (dk_Data disk) of Inl _ \<Rightarrow> (ExitError, disk) | Inr _ \<Rightarrow> (ExitClean, disk)))"

section \<open>What a failed check says\<close>

definition schema_text :: "string \<Rightarrow> migrate_error \<Rightarrow> string" where
  "schema_text path e =
     (case e of
        BadMigration name err \<Rightarrow> ''migration '' @ name @ '': '' @ err
      | VersionUnreadable err \<Rightarrow> ''read schema version: '' @ err
      | SchemaNewer current target \<Rightarrow>
          ''database schema is newer than this binary: database is at '' @ FormatInt current @ '', this binary knows '' @
          FormatInt target @ '': run the newer Nuno, or restore a backup from '' @ BackupDir path
      | SchemaOlder current target \<Rightarrow>
          ''database schema is older than this binary: database is at '' @ FormatInt current @ '', this binary expects '' @
          FormatInt target @ '': run `nuno migrate`''
      | _ \<Rightarrow> ''no migrations are embedded in this binary'')"

end
