(* ===== verification/Doctor.thy ===== *)
theory Doctor
  imports Explain Startup Migration Probe
begin

text \<open>
  \<open>cmd/nuno/doctor.go\<close>: checking every precondition, and printing for what is not met the command that
  mends it. The text of an error of the directory is a parameter.
\<close>

section \<open>Checks\<close>

definition statusOK :: string where "statusOK = ''ok''"
definition statusWarn :: string where "statusWarn = ''warn''"
definition statusFail :: string where "statusFail = ''fail''"

lemma statuses [simp]:
  "statusOK \<noteq> statusWarn" "statusWarn \<noteq> statusOK" "statusOK \<noteq> statusFail" "statusFail \<noteq> statusOK"
  "statusWarn \<noteq> statusFail" "statusFail \<noteq> statusWarn"
  by (simp_all add: statusOK_def statusWarn_def statusFail_def)

record checkResult =
  ck_Name :: string
  ck_Status :: string
  ck_Detail :: string
  ck_Remedy :: "string list"

definition exitFor :: "checkResult list \<Rightarrow> nat" where
  "exitFor checks = (if list_ex (\<lambda>c. ck_Status c = statusFail) checks then ExitConfig else ExitClean)"

section \<open>The configuration\<close>

definition check_configured :: "Config \<Rightarrow> checkResult" where
  "check_configured cfg =
     (if cf_Providers cfg = []
      then \<lparr>ck_Name = ''providers configured'', ck_Status = statusFail,
            ck_Detail = ''no provider is configured, so there is nothing to observe'',
            ck_Remedy = [''# set NUNO_PROVIDER_<NAME>_TYPE and NUNO_PROVIDER_<NAME>_URL in .env'']\<rparr>
      else \<lparr>ck_Name = ''providers configured'', ck_Status = statusOK,
            ck_Detail = Join '', '' (map (\<lambda>p. pc_Name p @ '' ('' @ pc_Type p @ '')'') (cf_Providers cfg)), ck_Remedy = []\<rparr>)"

definition check_admin_key :: "Config \<Rightarrow> Database \<Rightarrow> checkResult" where
  "check_admin_key cfg db =
     (let name = ''admin key for the usage API'' in
      if 0 < CountAdminKeys db
      then \<lparr>ck_Name = name, ck_Status = statusOK, ck_Detail = show_nat (CountAdminKeys db) @ '' usable key(s)'', ck_Remedy = []\<rparr>
      else if \<not> Secret_Empty (cf_AdminKey cfg)
      then \<lparr>ck_Name = name, ck_Status = statusOK,
            ck_Detail = ''NUNO_ADMIN_KEY is set; it is stored on the next `nuno serve`'', ck_Remedy = []\<rparr>
      else \<lparr>ck_Name = name, ck_Status = statusFail, ck_Detail = ''GET /api/v1/usage refuses every request without one'',
            ck_Remedy = [''# NUNO_ADMIN_KEY=$(openssl rand -hex 32), then restart nuno'']\<rparr>)"

definition check_password :: "Config \<Rightarrow> checkResult" where
  "check_password cfg =
     (if Secret_Empty (cf_AdminPassword cfg)
      then \<lparr>ck_Name = ''admin password for the UI'', ck_Status = statusWarn,
            ck_Detail = ''not set, so the admin surface is only as protected as whatever sits in front of it'',
            ck_Remedy = [''# NUNO_ADMIN_PASSWORD=... in .env, or put a forward-auth proxy in front'']\<rparr>
      else \<lparr>ck_Name = ''admin password for the UI'', ck_Status = statusOK, ck_Detail = [], ck_Remedy = []\<rparr>)"

definition checkConfiguration :: "Config \<Rightarrow> Database \<Rightarrow> checkResult list" where
  "checkConfiguration cfg db = [check_configured cfg, check_admin_key cfg db, check_password cfg]"

section \<open>The file and the directory\<close>

definition checkDatabase :: "'d Goose \<Rightarrow> (string \<times> bool) list \<Rightarrow> 'd Disk \<Rightarrow> checkResult" where
  "checkDatabase go entries disk =
     (let failed = \<lparr>ck_Name = ''database schema'', ck_Status = statusFail, ck_Detail = [], ck_Remedy = []\<rparr> in
      case CheckSchema go entries (dk_Data disk) of
        Some e \<Rightarrow> failed\<lparr>ck_Detail := schema_text (dk_Path disk) e, ck_Remedy := [''nuno migrate'']\<rparr>
      | None \<Rightarrow>
          (case DBVersion go (dk_Data disk) of
             Inl e \<Rightarrow> failed\<lparr>ck_Detail := schema_text (dk_Path disk) e\<rparr>
           | Inr version \<Rightarrow>
               \<lparr>ck_Name = ''database schema'', ck_Status = statusOK,
                ck_Detail = ''version '' @ FormatInt version @ '', backups in '' @ BackupDir (dk_Path disk), ck_Remedy = []\<rparr>))"

definition checkIdentity ::
  "UrlLib \<Rightarrow> DialURL \<Rightarrow> (ldap_error \<Rightarrow> string) \<Rightarrow> Config \<Rightarrow> SourceConfig option \<Rightarrow> checkResult" where
  "checkIdentity lib dial err_text cfg directory =
     (case directory of
        None \<Rightarrow>
          \<lparr>ck_Name = ''identity source'', ck_Status = statusWarn, ck_Detail = ''none configured, so only manual users exist'',
           ck_Remedy = [''# NUNO_LDAP_URL and NUNO_LDAP_BASE_DN in .env, with a read-only bind user'']\<rparr>
      | Some source \<Rightarrow>
          (case Source_Version dial source of
             Inl e \<Rightarrow>
               \<lparr>ck_Name = ''identity source'', ck_Status = statusFail, ck_Detail = ''cannot be read: '' @ err_text e,
                ck_Remedy =
                  [''# check NUNO_LDAP_URL, NUNO_LDAP_BIND_DN and NUNO_LDAP_BIND_PASSWORD'',
                   ''ldapsearch -x -H '' @ RedactURL lib (lc_URL (cf_LDAP cfg)) @ '' -D '' @ [CHR 0x27] @ lc_BindDN (cf_LDAP cfg) @
                   [CHR 0x27] @ '' -W -b '' @ [CHR 0x27] @ lc_BaseDN (cf_LDAP cfg) @ [CHR 0x27] @ '' -s base'']\<rparr>
           | Inr version \<Rightarrow>
               \<lparr>ck_Name = ''identity source'', ck_Status = statusOK,
                ck_Detail = (if version = [] then ''reachable'' else version), ck_Remedy = []\<rparr>))"

section \<open>The providers\<close>

definition remedyForHealth :: "'w Instance \<Rightarrow> AdapterError \<Rightarrow> string list" where
  "remedyForHealth i e =
     (let prefix = pi_ConfigRef (pr_Inst (in_Row i)) in
      if IsAuth e then [''# the credential was rejected: check '' @ prefix @ ''_USERNAME, _PASSWORD and _API_KEY'']
      else if IsUnreachable e
      then [''# check '' @ prefix @ ''_URL and that the container shares a network with the service'']
      else [])"

definition health_check :: "'w Env \<Rightarrow> 'w Instance \<Rightarrow> HealthResult \<Rightarrow> checkResult" where
  "health_check env i h =
     (case he_Err h of
        Some e \<Rightarrow>
          \<lparr>ck_Name = in_Name i @ '': reachable and authenticated'', ck_Status = statusFail,
           ck_Detail = env_Error env (AdapterErr e), ck_Remedy = remedyForHealth i e\<rparr>
      | None \<Rightarrow>
          if \<not> he_InSupported h
          then \<lparr>ck_Name = in_Name i @ '': version'', ck_Status = statusWarn,
                ck_Detail = he_Version h @ '' is outside the major this adapter was verified against, continuing'', ck_Remedy = []\<rparr>
          else \<lparr>ck_Name = in_Name i @ '': reachable and authenticated'', ck_Status = statusOK,
                ck_Detail = he_Version h, ck_Remedy = []\<rparr>)"

text \<open>A slice without elements is \<open>nil\<close> here, as both adapters yield it.\<close>

definition writer_checks ::
  "'w Env \<Rightarrow> 'w Instance \<Rightarrow> CompetingWriter list \<times> CompetingWriter list \<times> AdapterError option \<Rightarrow> checkResult list" where
  "writer_checks env i answer =
     (case answer of
        (_, _, Some e) \<Rightarrow>
          [\<lparr>ck_Name = in_Name i @ '': competing writers'', ck_Status = statusWarn,
            ck_Detail = ''could not be checked: '' @ env_Error env (AdapterErr e), ck_Remedy = []\<rparr>]
      | (found, undetectable, None) \<Rightarrow>
          if found = [] \<and> undetectable = [] then []
          else
            map (\<lambda>c. \<lparr>ck_Name = in_Name i @ '': competing writer '' @ cw_Setting c, ck_Status = statusFail,
                      ck_Detail = cw_Detail c @ '' (currently '' @ Quote (cw_Value c) @ '')'', ck_Remedy = cw_Remedy c\<rparr>) found @
            (if found = []
             then [\<lparr>ck_Name = in_Name i @ '': competing writers'', ck_Status = statusOK,
                    ck_Detail = ''none of the settings this adapter can read are set'', ck_Remedy = []\<rparr>] else []) @
            map (\<lambda>c. \<lparr>ck_Name = in_Name i @ '': '' @ cw_Setting c @ '' cannot be checked from here'', ck_Status = statusWarn,
                      ck_Detail = cw_Detail c, ck_Remedy = cw_Remedy c\<rparr>) undetectable)"

definition checkCompetingWriters ::
  "'w Env \<Rightarrow> 'w Instance \<Rightarrow> 'w World \<Rightarrow> Database \<Rightarrow> checkResult list \<times> 'w World \<times> Database" where
  "checkCompetingWriters env i w db =
     (case CheckCompetingWriters i w db of (answer, w, db) \<Rightarrow> (writer_checks env i answer, w, db))"

definition write_check :: "'w Env \<Rightarrow> 'w Instance \<Rightarrow> ProbeResult \<Rightarrow> checkResult" where
  "write_check env i r =
     (let c = \<lparr>ck_Name = in_Name i @ '': credential can write'', ck_Status = statusWarn, ck_Detail = pr_Detail r, ck_Remedy = []\<rparr> in
      case pr_Err r of
        Some e \<Rightarrow> c\<lparr>ck_Status := statusFail, ck_Detail := env_Error env e\<rparr>
      | None \<Rightarrow>
          (case pr_Access r of
             WriteYes \<Rightarrow> c\<lparr>ck_Status := statusOK\<rparr>
           | WriteNo \<Rightarrow>
               c\<lparr>ck_Status := statusFail,
                 ck_Remedy :=
                   [''# on Nextcloud an app password cannot write a quota: use a dedicated admin without 2FA,'',
                    ''# or whitelist this container in allowed_no_password_confirmation_ranges'',
                    ''occ config:system:get allowed_no_password_confirmation_ranges'']\<rparr>
           | WriteUnproven \<Rightarrow> c))"

definition checkWriteAccess ::
  "'w Env \<Rightarrow> 'w Instance \<Rightarrow> 'w World \<Rightarrow> Database \<Rightarrow> checkResult \<times> 'w World \<times> Database" where
  "checkWriteAccess env i w db = (case ProbeWrite env i w db of (r, w, db) \<Rightarrow> (write_check env i r, w, db))"

definition check_instance ::
  "'w Env \<Rightarrow> bool \<Rightarrow> 'w Instance \<Rightarrow> 'w World \<Rightarrow> Database \<Rightarrow> checkResult list \<times> 'w World \<times> Database" where
  "check_instance env skipProbe i w db =
     (case call_Health i w of (h, w) \<Rightarrow>
        (case checkCompetingWriters env i w db of (cs, w, db) \<Rightarrow>
           if skipProbe then (health_check env i h # cs, w, db)
           else (case checkWriteAccess env i w db of (c, w, db) \<Rightarrow> (health_check env i h # cs @ [c], w, db))))"

fun checkProviders ::
  "'w Env \<Rightarrow> bool \<Rightarrow> 'w Instance list \<Rightarrow> 'w World \<Rightarrow> Database \<Rightarrow> checkResult list \<times> 'w World \<times> Database" where
  "checkProviders env skipProbe [] w db = ([], w, db)"
| "checkProviders env skipProbe (i # is) w db =
     (case check_instance env skipProbe i w db of (cs, w, db) \<Rightarrow>
        (case checkProviders env skipProbe is w db of (ds, w, db) \<Rightarrow> (cs @ ds, w, db)))"

section \<open>The links\<close>

definition issues_of :: "Database \<Rightarrow> LinkIssueKind \<Rightarrow> nat" where
  "issues_of db kind = length (filter (\<lambda>i. li_Kind i = kind) (ListLinkIssues db))"

definition checkLinks :: "Database \<Rightarrow> checkResult" where
  "checkLinks db =
     (if ListLinkIssues db = []
      then \<lparr>ck_Name = ''account links'', ck_Status = statusOK, ck_Detail = ''nothing unresolved'', ck_Remedy = []\<rparr>
      else
        \<lparr>ck_Name = ''account links'',
         ck_Status = (if issues_of db IssueAmbiguous + issues_of db IssueStale + issues_of db IssueDangling = 0
                      then statusOK else statusWarn),
         ck_Detail = Join '', '' (map (\<lambda>k. show_nat (issues_of db k) @ '' '' @ issue_kind_text k)
           (filter (\<lambda>k. 0 < issues_of db k) [IssueAmbiguous, IssueStale, IssueDangling, IssueUnlinked, IssueUnmanaged])),
         ck_Remedy = [''nuno accounts'', ''# then `nuno link <uid> <provider> <external-id>` for the ones that need a decision'']\<rparr>)"

section \<open>Printing\<close>

definition check_lines :: "checkResult \<Rightarrow> Line list" where
  "check_lines c =
     Print (''['' @ ToUpper (ck_Status c) @ ''] '' @ ck_Name c) #
     (if ck_Detail c = [] then [] else [Print (''       '' @ ck_Detail c)]) @
     map (\<lambda>l. Print (''       fix: '' @ l)) (ck_Remedy c)"

definition writeChecks :: "checkResult list \<Rightarrow> Line list" where
  "writeChecks checks =
     (let failures = length (filter (\<lambda>c. ck_Status c = statusFail) checks) in
      concat (map check_lines checks) @
      [Print [], Print (show_nat (length checks) @ '' checks, '' @ show_nat failures @ '' failing'')] @
      (if 0 < failures
       then [Print ''run `nuno doctor --fix` to get these as a script, and read it before running it''] else []))"

fun wrap_loop :: "nat \<Rightarrow> string \<Rightarrow> string list \<Rightarrow> string list" where
  "wrap_loop width line [] = [line]"
| "wrap_loop width line (word # words) =
     (if width < length line + 1 + length word then line # wrap_loop width word words
      else wrap_loop width (line @ '' '' @ word) words)"

definition wrap :: "string \<Rightarrow> nat \<Rightarrow> string" where
  "wrap txt width = (case fields_loop [] txt of [] \<Rightarrow> [] | word # words \<Rightarrow> Join [CHR 0x0A] (wrap_loop width word words))"

definition has_fix :: "checkResult \<Rightarrow> bool" where
  "has_fix c \<longleftrightarrow> ck_Remedy c \<noteq> [] \<and> ck_Status c \<noteq> statusOK"

definition fix_lines :: "checkResult \<Rightarrow> Line list" where
  "fix_lines c =
     [Print [], Print (''# '' @ ck_Name c)] @
     (if ck_Detail c = [] then [] else map (\<lambda>l. Print (''# '' @ l)) (Split CHR 0x0A (wrap (ck_Detail c) 72))) @
     map Print (ck_Remedy c)"

definition writeFixScript :: "checkResult list \<Rightarrow> Line list" where
  "writeFixScript checks =
     [Print ''#!/bin/sh'',
      Print ''# Generated by nuno doctor --fix. Read it before running it.'',
      Print ''#'',
      Print ''# Nuno does not run these itself. They reach occ, which would mean the'',
      Print ''# Docker socket or exec into another container, and that trades a one-time'',
      Print ''# setup step for root on the host. See ADR-0023.'',
      Print ''set -eu''] @
     concat (map fix_lines (filter has_fix checks)) @
     (if list_ex has_fix checks then [] else [Print [], Print ''# Nothing to fix.''])"

section \<open>The command\<close>

fun doctor_options :: "string list \<Rightarrow> bool \<times> bool \<Rightarrow> (bool \<times> bool) option" where
  "doctor_options [] opts = Some opts"
| "doctor_options (arg # args) (emitScript, skipProbe) =
     (if arg = ''--fix'' then doctor_options args (True, skipProbe)
      else if arg = ''--skip-probe'' then doctor_options args (emitScript, True)
      else None)"

text \<open>What the command inspects besides the parts it was started with.\<close>

record 'd Machinery =
  my_Url :: UrlLib
  my_Dial :: DialURL
  my_LdapText :: "ldap_error \<Rightarrow> string"
  my_Goose :: "'d Goose"
  my_Entries :: "(string \<times> bool) list"
  my_Disk :: "'d Disk"

definition doctor_checks ::
  "'d Machinery \<Rightarrow> 'w Env \<Rightarrow> 'w App \<Rightarrow> bool \<Rightarrow> 'w World \<Rightarrow> Database \<Rightarrow> checkResult list \<times> 'w World \<times> Database" where
  "doctor_checks my env app skipProbe w db =
     (case checkProviders env skipProbe (ap_Instances app) w db of
        (cs, w, db') \<Rightarrow>
          (checkConfiguration (ap_Config app) db @
           [checkDatabase (my_Goose my) (my_Entries my) (my_Disk my),
            checkIdentity (my_Url my) (my_Dial my) (my_LdapText my) (ap_Config app) (ap_Directory app)] @
           cs @ [checkLinks db'], w, db'))"

definition doctor ::
  "'d Machinery \<Rightarrow> 'w Env \<Rightarrow> 'w App \<Rightarrow> string list \<Rightarrow> 'w World \<Rightarrow> Database \<Rightarrow> Answer \<times> 'w World \<times> Database" where
  "doctor my env app args w db =
     (case doctor_options args (False, False) of
        None \<Rightarrow> ((ExitConfig, []), w, db)
      | Some (emitScript, skipProbe) \<Rightarrow>
          (case doctor_checks my env app skipProbe w db of
             (checks, w, db) \<Rightarrow>
               ((exitFor checks, if emitScript then writeFixScript checks else writeChecks checks), w, db)))"

end
