(* ===== verification/MigrationGuarantees.thy ===== *)
theory MigrationGuarantees
  imports Migration
begin

text \<open>
  What migrating promises: the file is copied before its data changes, and a copy is only ever given up while
  later ones are kept, later by name.
\<close>

section \<open>Pruning\<close>





lemma entry_unique: "distinct (map fst es) \<Longrightarrow> (n, x) \<in> set es \<Longrightarrow> (n, y) \<in> set es \<Longrightarrow> x = y"
  by (metis eq_key_imp_eq_value)



section \<open>Migrating\<close>





text \<open>A library over files that hold nothing but their version.\<close>

definition ex_goose :: "int64 \<Rightarrow> int64 Goose" where
  "ex_goose target = \<lparr>go_NumericComponent = (\<lambda>_. Inr target), go_Recorded = (\<lambda>d. Inr (Some d)),
     go_NewProvider = (\<lambda>_. None), go_Up = (\<lambda>_. (None, target))\<rparr>"

definition ex_answers :: Answers where
  "ex_answers = \<lparr>an_MkdirAll = (\<lambda>_. None), an_Vacuum = (\<lambda>_. None), an_ReadDir = (\<lambda>_. None), an_Remove = (\<lambda>_. None)\<rparr>"

definition ex_copies :: "string list \<Rightarrow> int64 \<Rightarrow> int64 Disk" where
  "ex_copies ns v = \<lparr>dk_Path = ''/d/nuno.db'', dk_Data = v, dk_Backups = map (\<lambda>n. (n, Some 0)) ns\<rparr>"


text \<open>
  Names are compared as text and the version comes before the time in them, so the copy made at version ten is
  before those made at versions five to nine: when those are there, pruning takes the copy that was just made.
\<close>

lemma tenth_copy_is_pruned:
  "let ns = [''nuno.v5.t.db'', ''nuno.v6.t.db'', ''nuno.v7.t.db'', ''nuno.v8.t.db'', ''nuno.v9.t.db''];
       (err, disk) = Migrate (ex_goose 11) ex_answers [(''11.sql'', False)] ''u'' (ex_copies ns 10) in
   err = None \<and> dk_Data disk = 11 \<and> map fst (dk_Backups disk) = ns"
  by code_simp

end
