(* ===== verification/DoctorGuarantees.thy ===== *)
theory DoctorGuarantees
  imports Doctor MigrationGuarantees Examples
begin

text \<open>
  What the doctor does and means: it sends nothing but probes that change no quota, it is content only when every
  precondition is met, and which failures it has no command for.
\<close>

section \<open>What it sends\<close>

text \<open>The doctor leaves everything of the file but the rows of the providers.\<close>

definition same_but_providers :: "Database \<Rightarrow> Database \<Rightarrow> bool" where
  "same_but_providers db db' \<longleftrightarrow> db'\<lparr>d_Providers := d_Providers db\<rparr> = db"

lemma same_refl [simp]: "same_but_providers db db"
  by (simp add: same_but_providers_def)


lemma same_update [simp]: "same_but_providers db (update_provider i f db)"
  by (simp add: same_but_providers_def update_provider_def)

lemma same_provider_ops [simp]:
  "same_but_providers db (SetDegraded i m db)" "same_but_providers db (SaveWriteAccess i a t db)"
  by (simp_all add: SetDegraded_def SaveWriteAccess_def)















section \<open>What an answer means\<close>

text \<open>An exit code of zero says that nothing failed.\<close>

lemma exitFor_clean: "exitFor checks = ExitClean \<longleftrightarrow> (\<forall>c\<in>set checks. ck_Status c \<noteq> statusFail)"
  by (simp add: exitFor_def list_ex_iff)

lemma health_check_fails: "ck_Status (health_check env i h) = statusFail \<longleftrightarrow> he_Err h \<noteq> None"
  by (simp add: health_check_def split: option.split)

lemma writer_checks_fail:
  "(\<exists>c\<in>set (writer_checks env i (found, u, e)). ck_Status c = statusFail) \<longleftrightarrow> e = None \<and> found \<noteq> []"
  by (cases e; cases found) (auto simp: writer_checks_def)

lemma write_check_fails:
  "ck_Status (write_check env i r) = statusFail \<longleftrightarrow> pr_Err r \<noteq> None \<or> pr_Access r = WriteNo"
  by (simp add: write_check_def Let_def split: option.split WriteAccess.split)

lemma checkDatabase_fails:
  "ck_Status (checkDatabase go entries disk) = statusFail \<longleftrightarrow>
     CheckSchema go entries (dk_Data disk) \<noteq> None \<or> \<not> is_ok (DBVersion go (dk_Data disk))"
  by (auto simp: checkDatabase_def Let_def is_ok_def split: option.split sum.split)

lemma CheckSchema_reads: "CheckSchema go entries d = None \<Longrightarrow> is_ok (DBVersion go d)"
  by (auto simp: CheckSchema_def is_ok_def split: sum.splits)

text \<open>What is met when the doctor is content: each instance answered its health, had no competing writer that was found,
  and did not refuse the probe.\<close>

lemma checkProviders_clean:
  "checkProviders env skip insts w db = (cs, w', db') \<Longrightarrow> \<forall>c\<in>set cs. ck_Status c \<noteq> statusFail \<Longrightarrow> i \<in> set insts \<Longrightarrow>
     \<exists>w1 db1 h w2 found u e w3 db3. call_Health i w1 = (h, w2) \<and> he_Err h = None \<and>
       CheckCompetingWriters i w2 db1 = ((found, u, e), w3, db3) \<and> (e \<noteq> None \<or> found = []) \<and>
       (skip \<or> (\<exists>r w4 db4. ProbeWrite env i w3 db3 = (r, w4, db4) \<and> pr_Err r = None \<and> pr_Access r \<noteq> WriteNo))"
proof (induction insts arbitrary: w db cs)
  case (Cons j insts)
  obtain ds w1 db1 where j: "check_instance env skip j w db = (ds, w1, db1)" by (metis prod_cases3)
  obtain es where rest: "checkProviders env skip insts w1 db1 = (es, w', db')" "cs = ds @ es"
    using Cons.prems(1) by (auto simp: j split: prod.splits)
  show ?case
  proof (cases "i = j")
    case True
    obtain h w2 where h: "call_Health j w = (h, w2)" by fastforce
    obtain found u e w3 db3 where c: "CheckCompetingWriters j w2 db = ((found, u, e), w3, db3)" by (metis prod_cases3)
    obtain r w4 db4 where p: "ProbeWrite env j w3 db3 = (r, w4, db4)" by (metis prod_cases3)
    have "set ds = insert (health_check env j h) (set (writer_checks env j (found, u, e)) \<union>
        (if skip then {} else {write_check env j r}))"
      using j by (auto simp: check_instance_def checkCompetingWriters_def checkWriteAccess_def h c p split: if_splits)
    then have "he_Err h = None \<and> (e \<noteq> None \<or> found = []) \<and> (skip \<or> pr_Err r = None \<and> pr_Access r \<noteq> WriteNo)"
      using Cons.prems(2) rest(2) health_check_fails [of env j h] writer_checks_fail [of env j found u e]
        write_check_fails [of env j r] by (auto split: if_splits)
    with h c p True show ?thesis by blast
  next
    case False
    with Cons rest show ?thesis by auto
  qed
qed simp

lemma content_doctor_means_ready:
  assumes "doctor my env app args w db = ((ExitClean, out), w', db')"
  obtains emit skip where "doctor_options args (False, False) = Some (emit, skip)"
    "cf_Providers (ap_Config app) \<noteq> []" "0 < CountAdminKeys db \<or> cf_AdminKey (ap_Config app) \<noteq> []"
    "CheckSchema (my_Goose my) (my_Entries my) (dk_Data (my_Disk my)) = None"
    "\<And>source. ap_Directory app = Some source \<Longrightarrow> is_ok (Source_Version (my_Dial my) source)"
    "\<And>i. i \<in> set (ap_Instances app) \<Longrightarrow> \<exists>w1 h w2 db1 found u e w3 db3. call_Health i w1 = (h, w2) \<and> he_Err h = None \<and>
       CheckCompetingWriters i w2 db1 = ((found, u, e), w3, db3) \<and> (e \<noteq> None \<or> found = []) \<and>
       (skip \<or> (\<exists>r w4 db4. ProbeWrite env i w3 db3 = (r, w4, db4) \<and> pr_Err r = None \<and> pr_Access r \<noteq> WriteNo))"
proof -
  obtain emit skip where o: "doctor_options args (False, False) = Some (emit, skip)"
    using assms by (cases "doctor_options args (False, False)") (auto simp: doctor_def)
  obtain cs where cs: "checkProviders env skip (ap_Instances app) w db = (cs, w', db')"
    using assms by (auto simp: doctor_def doctor_checks_def o split: prod.splits)
  let ?all = "checkConfiguration (ap_Config app) db @ [checkDatabase (my_Goose my) (my_Entries my) (my_Disk my),
      checkIdentity (my_Url my) (my_Dial my) (my_LdapText my) (ap_Config app) (ap_Directory app)] @ cs @ [checkLinks db']"
  have "exitFor ?all = ExitClean" using assms by (simp add: doctor_def doctor_checks_def o cs)
  then have ok: "\<forall>c\<in>set ?all. ck_Status c \<noteq> statusFail" by (simp only: exitFor_clean)
  have "cf_Providers (ap_Config app) \<noteq> []" using ok by (auto simp: checkConfiguration_def check_configured_def)
  moreover have "0 < CountAdminKeys db \<or> cf_AdminKey (ap_Config app) \<noteq> []"
    using ok by (auto simp: checkConfiguration_def check_admin_key_def Let_def Secret_Empty_def split: if_splits)
  moreover have "CheckSchema (my_Goose my) (my_Entries my) (dk_Data (my_Disk my)) = None"
    using ok checkDatabase_fails [of "my_Goose my" "my_Entries my" "my_Disk my"] by auto
  moreover have "is_ok (Source_Version (my_Dial my) source)" if "ap_Directory app = Some source" for source
    using ok that by (auto simp: checkIdentity_def is_ok_def split: sum.splits)
  ultimately show ?thesis using o checkProviders_clean [OF cs] ok by (intro that) (assumption | fastforce)+
qed

text \<open>A failed check is not always paired with a command: an answer that is neither a refused credential nor silence has
  none, and when it is the only failure the script ends by saying that there is nothing to fix.\<close>

lemma failure_without_remedy:
  "he_Err h = Some (ProviderError p op status msg) \<Longrightarrow>
     ck_Status (health_check env i h) = statusFail \<and> \<not> has_fix (health_check env i h)"
  by (simp add: health_check_def has_fix_def remedyForHealth_def IsAuth_def IsUnreachable_def)

lemma nothing_to_fix:
  "\<forall>c\<in>set checks. \<not> has_fix c \<Longrightarrow> last (writeFixScript checks) = Print ''# Nothing to fix.''"
  by (simp add: writeFixScript_def list_ex_iff)

end
