(* ===== verification/Spec2Isabelle.thy ===== *)
theory Spec2Isabelle
  imports PolicyGuarantees AdapterGuarantees ConsoleGuarantees ApiGuarantees DashboardGuarantees
    ConfigGuarantees LdapGuarantees StartupGuarantees DoctorGuarantees
begin

text \<open>
  A verification library for \<open>nuno\<close>, which keeps the storage quotas of people on several
  self-hosted services (Nextcloud, Immich) equal to a policy of tiers. A cycle reads a directory of people and
  the accounts of every service into one SQLite file, links accounts to people, resolves a ceiling for each
  person and service from tiers and overrides, plans the changes, classifies each as safe or not, and applies
  those that may be applied, right after reading the account again. Commands, a server with timers, pages and a
  JSON endpoint for usage sit around this core.

  \<^bold>\<open>Parts and theories.\<close> Every definition has the name of the code it translates, as far as the library allows.

  \<^item> Prelude, Float64, Strconv, Format, Net: what the program uses of Go's standard library (\<open>int64\<close> as a word of
    64 bits with division and wrap-around, \<open>float64\<close> as rationals rounded to 53 bits, \<open>strings\<close>, \<open>strconv\<close>,
    printing, addresses), and the lemma collections shared by all.
  \<^item> Quota, Model, Size, Policy, Resolve, PlanCore, Usage: \<open>internal/core\<close>. A quota is the tagged value of
    \<open>quota.go\<close>, never a bare number; a tier, its allocations and overrides are records as in \<open>policy.go\<close>;
    \<open>Resolve\<close>, \<open>BuildPlan\<close> with \<open>classify\<close>, and \<open>BuildUsage\<close> are pure functions, as they are in the code.
  \<^item> Wire, NcQuota, Nextcloud, Immich: \<open>internal/providers\<close>. JSON is a datatype, decoding follows \<open>encoding/json\<close>,
    and each adapter is a function of an HTTP transport.
  \<^item> Tables, Store, StoreIdentity, StorePolicy, StoreAudit: \<open>internal/store\<close>. A database is a record of tables, a
    table a list of rows in the order of their ids; each operation is the effect of its statements, with the
    keys, the references and what follows a deletion taken from the migrations.
  \<^item> Engine, Link, Observe, PlanEngine, Apply, Probe: \<open>internal/reconcile\<close>. The engine passes the database and a
    world along; the world holds the state outside and the list of calls made so far, which is what the safety
    properties speak of.
  \<^item> Cycle, Server, ServerInvariant: \<open>cmd/nuno/serve.go\<close> and \<open>actor.go\<close>, a step relation of timers, clicks and edits,
    since one goroutine takes them one after the other.
  \<^item> Console, PolicyConsole, Explain, Doctor: the commands of \<open>cmd/nuno\<close>, each with its exit code and lines.
  \<^item> Http, Pages, Actions, Api, Limiter: \<open>internal/api\<close>, from the request to the response, with the middleware in
    the order it is wrapped.
  \<^item> Config, Ldap, Webhook, Startup, Migration: \<open>internal/config\<close>, \<open>internal/identity/ldap\<close>, \<open>internal/notify\<close> with the
    redaction of secrets, \<open>cmd/nuno/main.go\<close> with \<open>providers.go\<close> and the registry, and \<open>internal/store/migrate.go\<close>.

  \<^bold>\<open>What is shown.\<close> The theories whose names end in \<open>Guarantees\<close>, and the section below, hold the properties. Policy:
  resolution is the best offer, independent of the order of groups, and a change that may be applied is safe.
  Store: every file reached from an empty one keeps its keys and references (an inductive relation over
  all the operations), so that planning never fails. Cycle: every write follows a fresh read, is permitted by its class,
  stays under the published limit, is counted and audited, and a provider is left alone after its first error;
  linking only adds justified links; observing sends no write. Server: unattended runs never shrink below what
  is stored, in any interleaving of steps. Interface: only an authorised form of the surface itself changes
  anything, usage goes to holders of a key, a person sees only themselves. Configuration, directory, start-up, migration
  and doctor: what is accepted, what is stored, what runs unprepared (nothing), and which copies are kept.

  \<^bold>\<open>Interfaces.\<close> \<open>keyed_table\<close> (what a table of the store promises of a lookup after an insert and a deletion),
  \<open>best_pick\<close> (a fold that keeps the most generous offer) and \<open>normalizer\<close> (what the planner needs of an adapter's
  rounding, so that a written ceiling is not planned again) are locales, each interpreted on the model's own
  definitions in the theory of the component that provides them; \<open>normalizer\<close> is for Nextcloud on both
  architectures, whose conversion of a number out of range differs, and for Immich.

  \<^bold>\<open>Bounds and fuel.\<close> No definition uses fuel: every loop of the code goes over a list that is given, or stops by a
  measure that is proved. Quotas and counters keep their width where the code can reach it; times and durations
  are integers, and where a product of a duration is taken on \<open>int64\<close> the wrap-around is written out.

  \<^bold>\<open>Parameters.\<close> What is not source of the repository is an argument: the services behind the HTTP transport, the LDAP
  connection, \<open>net/url\<close>, the hash of a key, fresh random values, the clock, the texts of errors, the order in which Go
  ranges over a map, the library that runs migrations, and what the operating system answers.
  \<open>has_policy\<close> compares a map with the empty one, as the code compares its length with zero; it is the one definition
  of the model that is evaluated by a lemma and not by its equation.

  \<^bold>\<open>Not modelled.\<close> Templates and static files (what a page shows is modelled as the record handed to its template), log lines,
  the listener with its shutdown and time limits, SQLite itself with its connections, its lock of a directory and
  the text form of a time. A statement on the database either has its effect or is refused by a constraint; a
  disk that fails between two statements is outside the model.
\<close>

section \<open>Resolution\<close>

text \<open>C2 A person's ceiling on a provider is the most generous offer among the tiers the person is entitled
  to: when no override sits above, a ceiling is present exactly when one of those tiers offers one, it is
  then itself an offer, and no offer is more generous.\<close>

theorem ceiling_is_best_offer:
  fixes user :: User and policy :: Policy
  assumes "up_ProviderOverrides up providerID = None"
  defines "r \<equiv> Resolve user providerID policy up"
    and "offers \<equiv> {q. \<exists>c \<in> set (fst (candidateTiers user policy up)). offer_of policy providerID c = Some q}"
  shows "(r_Present r \<longleftrightarrow> offers \<noteq> {}) \<and>
     (r_Present r \<longrightarrow> r_Ceiling r \<in> offers \<and> (\<forall>q \<in> offers. \<not> moreGenerous q (r_Ceiling r)))"
proof -
  obtain cs rule where cs: "candidateTiers user policy up = (cs, rule)" by (cases "candidateTiers user policy up")
  have ex: "explained policy providerID rule (set cs) r"
    unfolding r_def by (rule Resolve_best(2) [OF assms(1) cs])
  have "r_Ceiling r \<in> offers" if "r_Present r"
    using ex that cs by (auto simp: explained_def explains_def offers_def offer_of_def split: option.splits)
  then show ?thesis
    using Resolve_present_iff [OF assms(1), of user policy] Resolve_ceiling_best [OF assms(1), of user policy]
    by (auto simp: r_def offers_def)
qed

theorem ceiling_is_best_offer_witness:
  "r_Present (Resolve (ex_user [''g2'', ''g1'']) 1 ex_policy ex_overrides) \<and>
   r_Ceiling (Resolve (ex_user [''g2'', ''g1'']) 1 ex_policy ex_overrides) = bytes 900 \<and>
   \<not> moreGenerous (bytes 400) (r_Ceiling (Resolve (ex_user [''g2'', ''g1'']) 1 ex_policy ex_overrides))"
proof -
  have "up_ProviderOverrides ex_overrides 1 = None" by (simp add: ex_simps)
  note best = ceiling_is_best_offer [OF this, of "ex_user [''g2'', ''g1'']" ex_policy]
  have "fst (candidateTiers (ex_user [''g2'', ''g1'']) ex_policy ex_overrides) =
      [\<lparr>tc_TierID = 1, tc_GroupUUID = ''g1''\<rparr>, \<lparr>tc_TierID = 2, tc_GroupUUID = ''g2''\<rparr>]"
    by code_simp
  moreover have "offer_of ex_policy 1 \<lparr>tc_TierID = 1, tc_GroupUUID = ''g1''\<rparr> = Some (bytes 400)"
    by code_simp
  moreover have "offer_of ex_policy 1 \<lparr>tc_TierID = 2, tc_GroupUUID = ''g2''\<rparr> = Some (bytes 900)"
    by code_simp
  moreover have "moreGenerous (bytes 900) (bytes 400)" by code_simp
  ultimately show ?thesis using best by auto
qed

end
